(* ===== verification/JS_Prelude.thy ===== *)
theory JS_Prelude
  imports
    Main
    "HOL-Library.AList"
    "HOL-Library.Monad_Syntax"
    "HOL-Library.Char_ord"
    "HOL-Library.List_Lexorder"
    "HOL-Library.Multiset"
    "HOL-Library.Sublist"
begin

text \<open>
  The part of JavaScript the sources under \<^verbatim>\<open>src/\<close> use, and what the components share.

  \<^item> Strings are \<^typ>\<open>string\<close>; the order of \<^verbatim>\<open><\<close> and \<^verbatim>\<open>.sort()\<close> on strings is the
    lexicographic order of the library theories. A JavaScript string is a list of code units; the
    model covers those whose code units are below 256.
  \<^item> A \<^verbatim>\<open>Map\<close> is an association list in insertion order: \<^verbatim>\<open>set\<close> replaces a present key in
    place and appends an absent one, \<^verbatim>\<open>delete\<close> filters, iteration is the list order.
  \<^item> \<^verbatim>\<open>Array.prototype.sort\<close> is a stable sort by a comparator.
  \<^item> What one call reads from outside the program (the clock, \<^verbatim>\<open>randomUUID\<close>, the host's
    collation, the SHA-256 digest) is a record \<open>js_env\<close>, an argument of every
    operation that uses it.
\<close>

named_theorems js_map_simps \<open>reading a Map after writing it\<close>
named_theorems op_defs \<open>the definitions of the operations\<close>
named_theorems inv_intro \<open>an operation keeps an invariant\<close>

subsection \<open>Values of unknown type\<close>

text \<open>
  A number is an integer of magnitude below \<open>10\<^sup>21\<close>, another finite number (carried by the text
  JavaScript prints for it), or one of the three special values.
\<close>

datatype js_number = IntNum int | FracNum string | NaN | PosInf | NegInf

datatype js_value =
    Undefined
  | Null
  | Boolean bool
  | Number js_number
  | Str string
  | Arr "js_value list"
  | Obj "(string \<times> js_value) list"

definition maxSafeInteger :: int where
  "maxSafeInteger = 9007199254740991"

fun isSafeInteger :: "js_number \<Rightarrow> bool" where
  "isSafeInteger (IntNum i) = (\<bar>i\<bar> \<le> maxSafeInteger)"
| "isSafeInteger _ = False"

text \<open>The integer a number holds; \<open>None\<close> for everything \<^verbatim>\<open>Number.isSafeInteger\<close> refuses.\<close>

fun safeInteger :: "js_number \<Rightarrow> int option" where
  "safeInteger (IntNum i) = (if \<bar>i\<bar> \<le> maxSafeInteger then Some i else None)"
| "safeInteger _ = None"

lemma safeInteger_Some: "safeInteger n = Some i \<longleftrightarrow> n = IntNum i \<and> \<bar>i\<bar> \<le> maxSafeInteger"
  by (cases n) auto

text \<open>\<^verbatim>\<open>Number.isSafeInteger(n) && n >= 0\<close>\<close>

definition natural :: "js_number \<Rightarrow> int option" where
  "natural n = (case safeInteger n of None \<Rightarrow> None | Some i \<Rightarrow> if i < 0 then None else Some i)"

lemma natural_Some: "natural n = Some i \<longleftrightarrow> n = IntNum i \<and> 0 \<le> i \<and> i \<le> maxSafeInteger"
  by (auto simp: natural_def safeInteger_Some maxSafeInteger_def split: option.splits if_splits)

text \<open>\<^verbatim>\<open>if (s)\<close> on an optional string: the empty string counts as absent.\<close>

fun truthy :: "string option \<Rightarrow> string option" where
  "truthy (Some []) = None"
| "truthy v = v"

lemma truthy_Some [simp]: "truthy v = Some s \<longleftrightarrow> v = Some s \<and> s \<noteq> []"
  by (cases v rule: truthy.cases) auto

lemma truthy_nonempty [simp]: "s \<noteq> [] \<Longrightarrow> truthy (Some s) = Some s"
  by (cases s) auto

text \<open>\<^verbatim>\<open>value[key]\<close> of a plain object; an absent property reads as \<^verbatim>\<open>undefined\<close>.\<close>

definition field :: "(string \<times> js_value) list \<Rightarrow> string \<Rightarrow> js_value" where
  "field props key = (case map_of props key of None \<Rightarrow> Undefined | Some v \<Rightarrow> v)"

text \<open>What \<^verbatim>\<open>typeof v === "object"\<close>, \<^verbatim>\<open>v !== null\<close> and \<^verbatim>\<open>!Array.isArray(v)\<close> together single out, by its members.\<close>

fun object_members :: "js_value \<Rightarrow> (string \<times> js_value) list option" where
  "object_members (Obj props) = Some props"
| "object_members _ = None"

lemma object_members_Some: "object_members v = Some props \<longleftrightarrow> v = Obj props"
  by (cases v) auto

fun string_value :: "js_value \<Rightarrow> string option" where
  "string_value (Str s) = Some s"
| "string_value _ = None"

fun number_value :: "js_value \<Rightarrow> js_number option" where
  "number_value (Number n) = Some n"
| "number_value _ = None"

fun array_items :: "js_value \<Rightarrow> js_value list option" where
  "array_items (Arr items) = Some items"
| "array_items _ = None"

text \<open>\<^verbatim>\<open>if (!p) throw\<close>\<close>

definition require :: "bool \<Rightarrow> unit option" where
  "require p = (if p then Some () else None)"

lemma string_value_Some: "string_value v = Some s \<longleftrightarrow> v = Str s"
  by (cases v) auto

lemma number_value_Some: "number_value v = Some n \<longleftrightarrow> v = Number n"
  by (cases v) auto

lemma array_items_Some: "array_items v = Some items \<longleftrightarrow> v = Arr items"
  by (cases v) auto

lemma require_Some: "require p = Some u \<longleftrightarrow> p"
  by (simp add: require_def)

subsection \<open>What a call reads from outside\<close>

text \<open>
  \<open>clock e i\<close> is the \<open>i\<close>-th reading of \<^verbatim>\<open>Date.now()\<close> in one call and
  \<open>uuid e i\<close> its \<open>i\<close>-th \<^verbatim>\<open>randomUUID()\<close>. \<open>hostDate\<close> and \<open>hostNumber\<close> are the
  engine's \<^verbatim>\<open>Date.parse\<close> and \<^verbatim>\<open>Number\<close> on the strings whose meaning the model does not fix,
  \<open>hostGreater\<close> its \<^verbatim>\<open>>\<close> where an operand is a fraction.
\<close>

record js_env =
  clock :: "nat \<Rightarrow> int"
  uuid :: "nat \<Rightarrow> string"
  localeCompare :: "string \<Rightarrow> string \<Rightarrow> int"
  hostDate :: "string \<Rightarrow> int option"
  hostNumber :: "string \<Rightarrow> js_number"
  hostGreater :: "js_number \<Rightarrow> js_number \<Rightarrow> bool"
  sha256 :: "string \<Rightarrow> string"

text \<open>The same host at another time: the clock and the ids of a call are its own.\<close>

definition at_time :: "js_env \<Rightarrow> (nat \<Rightarrow> int) \<Rightarrow> (nat \<Rightarrow> string) \<Rightarrow> js_env" where
  "at_time h c u = h\<lparr>clock := c, uuid := u\<rparr>"

lemma at_time_fields [simp]:
  "clock (at_time h c u) = c" "uuid (at_time h c u) = u" "localeCompare (at_time h c u) = localeCompare h"
  "sha256 (at_time h c u) = sha256 h" "hostDate (at_time h c u) = hostDate h"
  by (simp_all add: at_time_def)

subsection \<open>Maps\<close>

type_synonym ('k, 'v) js_map = "('k \<times> 'v) list"

abbreviation map_get :: "('k, 'v) js_map \<Rightarrow> 'k \<Rightarrow> 'v option" where
  "map_get m k \<equiv> map_of m k"

abbreviation map_set :: "'k \<Rightarrow> 'v \<Rightarrow> ('k, 'v) js_map \<Rightarrow> ('k, 'v) js_map" where
  "map_set k v m \<equiv> AList.update k v m"

abbreviation map_delete :: "'k \<Rightarrow> ('k, 'v) js_map \<Rightarrow> ('k, 'v) js_map" where
  "map_delete k m \<equiv> AList.delete k m"

abbreviation map_values :: "('k, 'v) js_map \<Rightarrow> 'v list" where
  "map_values m \<equiv> map snd m"

abbreviation map_keys :: "('k, 'v) js_map \<Rightarrow> 'k list" where
  "map_keys m \<equiv> map fst m"

text \<open>A Map holds every key once.\<close>

abbreviation map_ok :: "('k, 'v) js_map \<Rightarrow> bool" where
  "map_ok m \<equiv> distinct (map fst m)"

text \<open>\<^verbatim>\<open>for (const v of m.values()) v.field = ...\<close>: every value is written in place.\<close>

definition map_each :: "('v \<Rightarrow> 'v) \<Rightarrow> ('k, 'v) js_map \<Rightarrow> ('k, 'v) js_map" where
  "map_each f m = map (\<lambda>(k, v). (k, f v)) m"

text \<open>\<^verbatim>\<open>for (const [k, v] of m) if (...) m.delete(k)\<close>.\<close>

definition map_reject :: "('k \<Rightarrow> 'v \<Rightarrow> bool) \<Rightarrow> ('k, 'v) js_map \<Rightarrow> ('k, 'v) js_map" where
  "map_reject P m = filter (\<lambda>(k, v). \<not> P k v) m"

text \<open>\<^verbatim>\<open>[...m.values()].find(P)\<close>, with the key under which the value is held.\<close>

definition map_find :: "('v \<Rightarrow> bool) \<Rightarrow> ('k, 'v) js_map \<Rightarrow> ('k \<times> 'v) option" where
  "map_find P m = List.find (\<lambda>kv. P (snd kv)) m"

text \<open>Lookups stay lookups: the library's rewriting of them to membership is not wanted here.\<close>

declare map_of_eq_Some_iff [simp del] Some_eq_map_of_iff [simp del]

lemma map_get_set [simp, js_map_simps]:
  "map_get (map_set k v m) k' = (if k' = k then Some v else map_get m k')"
  by (simp add: update_conv)

lemma map_get_delete [simp, js_map_simps]:
  "map_get (map_delete k m) k' = (if k' = k then None else map_get m k')"
  by (simp add: delete_conv)

lemma map_ok_set [simp, intro]: "map_ok m \<Longrightarrow> map_ok (map_set k v m)"
  by (rule distinct_update)

lemma map_ok_delete [simp, intro]: "map_ok m \<Longrightarrow> map_ok (map_delete k m)"
  by (rule distinct_delete)

lemma map_get_each [simp, js_map_simps]: "map_get (map_each f m) k = map_option f (map_get m k)"
  by (induction m) (auto simp: map_each_def)

lemma map_keys_each [simp]: "map_keys (map_each f m) = map_keys m"
  by (induction m) (auto simp: map_each_def)

lemma map_ok_each [simp]: "map_ok (map_each f m) = map_ok m"
  by simp

lemma map_values_each [simp]: "map_values (map_each f m) = map f (map_values m)"
  by (induction m) (auto simp: map_each_def)

lemma map_keys_reject: "set (map_keys (map_reject P m)) \<subseteq> set (map_keys m)"
  by (auto simp: map_reject_def)

lemma map_ok_reject [simp, intro]: "map_ok m \<Longrightarrow> map_ok (map_reject P m)"
  by (auto simp: map_reject_def distinct_map intro: inj_on_subset)

lemma map_get_reject [js_map_simps]:
  assumes "map_ok m"
  shows "map_get (map_reject P m) k =
    (case map_get m k of None \<Rightarrow> None | Some v \<Rightarrow> if P k v then None else Some v)"
  using assms
proof (induction m)
  case Nil
  then show ?case by (simp add: map_reject_def)
next
  case (Cons p m)
  obtain a b where p: "p = (a, b)" by (cases p)
  have "map_get (map_reject P m) a = None" if "a = k"
    using Cons.prems that p by (auto simp: map_reject_def map_of_eq_None_iff)
  with Cons p show ?case by (auto simp: map_reject_def)
qed

lemma map_get_values: "map_get m k = Some v \<Longrightarrow> v \<in> set (map_values m)"
  by (metis image_eqI list.set_map map_of_SomeD snd_conv)

lemma map_values_get: "map_ok m \<Longrightarrow> v \<in> set (map_values m) \<Longrightarrow> \<exists>k. map_get m k = Some v"
  by (metis (no_types, lifting) image_iff list.set_map map_of_is_SomeI prod.collapse)

lemma map_values_set:
  "v \<in> set (map_values (map_set k w m)) \<Longrightarrow> v = w \<or> v \<in> set (map_values m)"
  by (induction m) (auto split: if_splits)

lemma map_values_set_absent [simp]:
  "map_get m k = None \<Longrightarrow> map_values (map_set k w m) = map_values m @ [w]"
  by (induction m) (auto split: if_splits)

lemma map_find_Some:
  assumes "map_find P m = Some (k, v)"
  shows "P v" and "(k, v) \<in> set m"
  using assms by (auto simp: map_find_def find_Some_iff dest: sym)

lemma map_find_get: "map_ok m \<Longrightarrow> map_find P m = Some (k, v) \<Longrightarrow> map_get m k = Some v"
  by (auto dest: map_find_Some)

lemma map_find_None: "map_find P m = None \<longleftrightarrow> (\<forall>v \<in> set (map_values m). \<not> P v)"
  by (auto simp: map_find_def find_None_iff)

lemma map_find_cases [consumes 1, case_names none found]:
  assumes "map_ok m"
  obtains (none) "map_find P m = None" | (found) k v where "map_find P m = Some (k, v)" "map_get m k = Some v" "P v"
  using assms map_find_get map_find_Some(1) by (cases "map_find P m") fastforce+

lemma map_find_set:
  assumes "map_find P m = Some (k, v)" and "map_ok m" and "P v'"
  shows "map_find P (map_set k v' m) = Some (k, v')"
  using assms by (induction m) (auto simp: map_find_def split: if_splits)

text \<open>Writing the value of a present key changes a count by that value alone.\<close>

lemma count_values_set:
  assumes "map_ok m" and "map_get m k = Some v"
  shows "length (filter P (map_values (map_set k v' m))) + of_bool (P v) =
    length (filter P (map_values m)) + of_bool (P v')"
  using assms by (induction m) (auto split: if_splits)

subsection \<open>Array.prototype.sort\<close>

text \<open>
  The comparator's sign orders two elements; elements it calls equal keep their order, since an
  element is inserted before the equal ones that stood behind it.
\<close>

fun js_insert :: "('a \<Rightarrow> 'a \<Rightarrow> int) \<Rightarrow> 'a \<Rightarrow> 'a list \<Rightarrow> 'a list" where
  "js_insert cmp x [] = [x]"
| "js_insert cmp x (y # ys) = (if cmp x y \<le> 0 then x # y # ys else y # js_insert cmp x ys)"

definition js_sort :: "('a \<Rightarrow> 'a \<Rightarrow> int) \<Rightarrow> 'a list \<Rightarrow> 'a list" where
  "js_sort cmp xs = foldr (js_insert cmp) xs []"

text \<open>\<^verbatim>\<open>a || b\<close> of two comparisons: the second decides where the first says equal.\<close>

definition cmp_then :: "int \<Rightarrow> int \<Rightarrow> int" where
  "cmp_then a b = (if a = 0 then b else a)"

text \<open>\<^verbatim>\<open>.sort()\<close> without a comparator orders by code units.\<close>

definition code_unit_compare :: "string \<Rightarrow> string \<Rightarrow> int" where
  "code_unit_compare a b = (if a < b then - 1 else if a = b then 0 else 1)"

text \<open>\<^verbatim>\<open>keys.sort().join("|")\<close>\<close>

fun pipe_join :: "string list \<Rightarrow> string" where
  "pipe_join [] = []"
| "pipe_join [s] = s"
| "pipe_join (s # t # ss) = s @ ''|'' @ pipe_join (t # ss)"

definition joined_keys :: "string list \<Rightarrow> string" where
  "joined_keys keys = pipe_join (js_sort code_unit_compare keys)"

lemma mset_js_insert [simp]: "mset (js_insert cmp x ys) = add_mset x (mset ys)"
  by (induction ys) auto

lemma mset_js_sort [simp]: "mset (js_sort cmp xs) = mset xs"
  by (induction xs) (simp_all add: js_sort_def)

lemma set_js_sort [simp]: "set (js_sort cmp xs) = set xs"
  by (metis mset_js_sort set_mset_mset)

lemma length_js_sort [simp]: "length (js_sort cmp xs) = length xs"
  by (metis mset_js_sort size_mset)

lemma distinct_js_sort [simp]: "distinct (js_sort cmp xs) = distinct xs"
  by (metis mset_eq_imp_distinct_iff mset_js_sort)

lemma js_sort_Nil [simp]: "js_sort cmp [] = []"
  by (simp add: js_sort_def)

lemma js_sort_eq_Nil [simp]: "js_sort cmp xs = [] \<longleftrightarrow> xs = []"
  by (metis length_0_conv length_js_sort)

lemma js_sort_sorted: "sorted_wrt (\<lambda>a b. cmp a b \<le> 0) xs \<Longrightarrow> js_sort cmp xs = xs"
proof (induction xs)
  case (Cons x xs)
  then have "js_sort cmp (x # xs) = js_insert cmp x xs" by (simp add: js_sort_def)
  also have "\<dots> = x # xs" using Cons.prems by (cases xs) auto
  finally show ?case .
qed simp

text \<open>\<^verbatim>\<open>[...new Set(xs)]\<close>: every element at its first occurrence.\<close>

definition js_dedup :: "'a list \<Rightarrow> 'a list" where
  "js_dedup xs = rev (remdups (rev xs))"

lemma set_js_dedup [simp]: "set (js_dedup xs) = set xs"
  by (simp add: js_dedup_def)

lemma distinct_js_dedup [simp]: "distinct (js_dedup xs)"
  by (simp add: js_dedup_def)

lemma length_js_dedup: "length (js_dedup xs) = length xs \<longleftrightarrow> distinct xs"
  using length_remdups_eq [of "rev xs"] by (metis distinct_remdups distinct_rev js_dedup_def length_rev remdups_id_iff_distinct)

text \<open>A consistent comparator: a total preorder read off the sign.\<close>

locale js_comparator =
  fixes cmp :: "'a \<Rightarrow> 'a \<Rightarrow> int"
  assumes cmp_total: "cmp x y \<le> 0 \<or> cmp y x \<le> 0"
    and cmp_trans: "cmp x y \<le> 0 \<Longrightarrow> cmp y z \<le> 0 \<Longrightarrow> cmp x z \<le> 0"
begin

lemma set_js_insert: "set (js_insert cmp x ys) = insert x (set ys)"
  by (induction ys) auto

lemma sorted_js_insert:
  "sorted_wrt (\<lambda>a b. cmp a b \<le> 0) ys \<Longrightarrow> sorted_wrt (\<lambda>a b. cmp a b \<le> 0) (js_insert cmp x ys)"
proof (induction ys)
  case Nil
  then show ?case by simp
next
  case (Cons y ys)
  show ?case
  proof (cases "cmp x y \<le> 0")
    case True
    with Cons.prems show ?thesis by (auto intro: cmp_trans)
  next
    case False
    then have "cmp y x \<le> 0" using cmp_total by blast
    with Cons False show ?thesis by (auto simp: set_js_insert)
  qed
qed

lemma sorted_js_sort: "sorted_wrt (\<lambda>a b. cmp a b \<le> 0) (js_sort cmp xs)"
  by (induction xs) (simp_all add: js_sort_def sorted_js_insert)

lemma js_sort_hd_least: "x \<in> set xs \<Longrightarrow> cmp (hd (js_sort cmp xs)) x \<le> 0"
proof -
  assume x: "x \<in> set xs"
  have "x \<in> set (js_sort cmp xs)" using x by simp
  moreover have "cmp a a \<le> 0" for a using cmp_total by blast
  ultimately show ?thesis
    using sorted_js_sort [of xs] by (cases "js_sort cmp xs") auto
qed

end

interpretation code_units: js_comparator code_unit_compare
  by unfold_locales (auto simp: code_unit_compare_def split: if_splits)

lemma sorted_code_units:
  "sorted (js_sort code_unit_compare xs)"
proof -
  have "sorted_wrt (\<le>) (js_sort code_unit_compare xs)"
    by (rule sorted_wrt_mono_rel [OF _ code_units.sorted_js_sort])
      (auto simp: code_unit_compare_def split: if_splits)
  then show ?thesis by simp
qed

text \<open>Sorting by code units only depends on which elements there are.\<close>

lemma sort_code_units: "mset xs = mset ys \<Longrightarrow> js_sort code_unit_compare xs = js_sort code_unit_compare ys"
proof -
  assume same: "mset xs = mset ys"
  have "sort ys = js_sort code_unit_compare zs" if "mset zs = mset ys" for zs
    by (rule properties_for_sort [OF _ sorted_code_units]) (simp only: mset_js_sort that)
  from this [OF same] this [OF refl] show ?thesis by metis
qed

lemma joined_keys_mset: "mset xs = mset ys \<Longrightarrow> joined_keys xs = joined_keys ys"
  unfolding joined_keys_def by (rule arg_cong [OF sort_code_units])

subsection \<open>Strings\<close>

definition char_in :: "char \<Rightarrow> char \<Rightarrow> char \<Rightarrow> bool" where
  "char_in lo hi c \<longleftrightarrow> (of_char lo :: nat) \<le> of_char c \<and> (of_char c :: nat) \<le> of_char hi"

definition is_digit :: "char \<Rightarrow> bool" where
  "is_digit = char_in CHR ''0'' CHR ''9''"

definition is_lower :: "char \<Rightarrow> bool" where
  "is_lower = char_in CHR ''a'' CHR ''z''"

definition is_upper :: "char \<Rightarrow> bool" where
  "is_upper = char_in CHR ''A'' CHR ''Z''"

definition is_alnum :: "char \<Rightarrow> bool" where
  "is_alnum c \<longleftrightarrow> is_digit c \<or> is_lower c \<or> is_upper c"

text \<open>\<^verbatim>\<open>[a-f0-9]\<close>\<close>

definition is_hex :: "char \<Rightarrow> bool" where
  "is_hex c \<longleftrightarrow> is_digit c \<or> char_in CHR ''a'' CHR ''f'' c"

text \<open>A case-insensitive match compares letters without their case.\<close>

definition ascii_lower :: "char \<Rightarrow> char" where
  "ascii_lower c = (if is_upper c then char_of ((of_char c :: nat) + 32) else c)"

text \<open>\<^verbatim>\<open>^[P]{lo,hi}$\<close>\<close>

definition all_within :: "(char \<Rightarrow> bool) \<Rightarrow> nat \<Rightarrow> nat \<Rightarrow> string \<Rightarrow> bool" where
  "all_within P lo hi s \<longleftrightarrow> lo \<le> length s \<and> length s \<le> hi \<and> list_all P s"

text \<open>\<^verbatim>\<open>^[P][Q]{lo,hi}$\<close>\<close>

fun head_tail :: "(char \<Rightarrow> bool) \<Rightarrow> (char \<Rightarrow> bool) \<Rightarrow> nat \<Rightarrow> nat \<Rightarrow> string \<Rightarrow> bool" where
  "head_tail P Q lo hi [] = False"
| "head_tail P Q lo hi (c # s) = (P c \<and> all_within Q lo hi s)"

text \<open>The characters \<^verbatim>\<open>\s\<close> matches among the first 256 code units.\<close>

definition is_space :: "char \<Rightarrow> bool" where
  "is_space c \<longleftrightarrow> (9 \<le> (of_char c :: nat) \<and> (of_char c :: nat) \<le> 13) \<or> of_char c = (32 :: nat) \<or> of_char c = (160 :: nat)"

definition js_trim :: "string \<Rightarrow> string" where
  "js_trim s = rev (dropWhile is_space (rev (dropWhile is_space s)))"

text \<open>\<^verbatim>\<open>s.split(c)\<close> at one character.\<close>

fun split_on :: "char \<Rightarrow> string \<Rightarrow> string list" where
  "split_on c [] = [[]]"
| "split_on c (x # xs) =
    (if x = c then [] # split_on c xs
     else (case split_on c xs of [] \<Rightarrow> [[x]] | s # ss \<Rightarrow> (x # s) # ss))"

definition starts_with :: "string \<Rightarrow> string \<Rightarrow> bool" where
  "starts_with p s \<longleftrightarrow> take (length p) s = p"

text \<open>\<^verbatim>\<open>parts.join("\u0000")\<close>, the composite keys of the stores.\<close>

definition nul :: char where
  "nul = CHR 0x00"

fun nul_join :: "string list \<Rightarrow> string" where
  "nul_join [] = []"
| "nul_join [s] = s"
| "nul_join (s # t # ss) = s @ nul # nul_join (t # ss)"

definition no_nul :: "string \<Rightarrow> bool" where
  "no_nul s \<longleftrightarrow> nul \<notin> set s"

lemma nul_append_inj:
  "no_nul s \<Longrightarrow> no_nul s' \<Longrightarrow> s @ nul # t = s' @ nul # t' \<longleftrightarrow> s = s' \<and> t = t'"
proof (induction s arbitrary: s')
  case Nil
  then show ?case by (cases s') (auto simp: no_nul_def)
next
  case (Cons c s)
  then show ?case by (cases s') (auto simp: no_nul_def)
qed

text \<open>A composite key determines its parts, as long as no part but the last holds the separator.\<close>

lemma nul_join_inj:
  assumes "list_all no_nul (butlast ss)" and "list_all no_nul (butlast ts)"
    and "length ss = length ts" and "nul_join ss = nul_join ts"
  shows "ss = ts"
  using assms
proof (induction ss arbitrary: ts rule: nul_join.induct)
  case 1
  then show ?case by simp
next
  case (2 s)
  then show ?case by (cases ts) auto
next
  case (3 s t ss)
  then obtain s' t' ss' where ts: "ts = s' # t' # ss'"
    by (metis length_Suc_conv)
  have parts: "s = s'" "nul_join (t # ss) = nul_join (t' # ss')"
    using "3.prems" ts by (auto simp: nul_append_inj)
  have "t # ss = t' # ss'"
    using "3.prems" ts parts(2) by (intro "3.IH") simp_all
  with parts ts show ?case by simp
qed

subsection \<open>Decimal numerals\<close>

definition digit_char :: "nat \<Rightarrow> char" where
  "digit_char n = char_of (48 + n)"

definition digit_value :: "char \<Rightarrow> nat" where
  "digit_value c = of_char c - 48"

fun show_nat :: "nat \<Rightarrow> string" where
  "show_nat n = (if n < 10 then [digit_char n] else show_nat (n div 10) @ [digit_char (n mod 10)])"

declare show_nat.simps [simp del]

definition read_nat :: "string \<Rightarrow> nat" where
  "read_nat s = foldl (\<lambda>a c. 10 * a + digit_value c) 0 s"

lemma digit_chars:
  "digit_char 0 = CHR ''0''" "digit_char (Suc 0) = CHR ''1''" "digit_char 1 = CHR ''1''"
  "digit_char 2 = CHR ''2''" "digit_char 3 = CHR ''3''" "digit_char 4 = CHR ''4''"
  "digit_char 5 = CHR ''5''" "digit_char 6 = CHR ''6''" "digit_char 7 = CHR ''7''"
  "digit_char 8 = CHR ''8''" "digit_char 9 = CHR ''9''"
  by (simp_all add: digit_char_def char_of_def bit_Suc_0_iff)

lemma digit_value_char [simp]: "n < 10 \<Longrightarrow> digit_value (digit_char n) = n"
  by (simp add: digit_value_def digit_char_def)

lemma is_digit_char [simp]: "n < 10 \<Longrightarrow> is_digit (digit_char n)"
  by (simp add: is_digit_def char_in_def digit_char_def)

lemma read_nat_snoc [simp]: "read_nat (s @ [c]) = 10 * read_nat s + digit_value c"
  by (simp add: read_nat_def)

lemma read_show_nat [simp]: "read_nat (show_nat n) = n"
proof (induction n rule: show_nat.induct)
  case (1 n)
  show ?case
  proof (cases "n < 10")
    case True
    then show ?thesis by (subst show_nat.simps) (simp add: read_nat_def)
  next
    case False
    with 1 show ?thesis by (subst show_nat.simps) simp
  qed
qed

lemma show_nat_digits: "list_all is_digit (show_nat n)"
proof (induction n rule: show_nat.induct)
  case (1 n)
  then show ?case by (subst show_nat.simps) simp
qed

lemma show_nat_nonempty [simp]: "show_nat n \<noteq> []"
  by (subst show_nat.simps) simp

lemma show_nat_inj [simp]: "show_nat m = show_nat n \<longleftrightarrow> m = n"
  by (metis read_show_nat)

lemma length_show_nat: "n < 10 ^ Suc k \<Longrightarrow> length (show_nat n) \<le> Suc k"
proof (induction k arbitrary: n)
  case 0
  then show ?case by (subst show_nat.simps) simp
next
  case (Suc k)
  show ?case
  proof (cases "n < 10")
    case True
    then show ?thesis by (subst show_nat.simps) simp
  next
    case False
    from Suc.prems have "n div 10 < 10 ^ Suc k"
      by (simp add: less_mult_imp_div_less mult.commute)
    with Suc.IH False show ?thesis by (subst show_nat.simps) simp
  qed
qed

text \<open>
  \<^verbatim>\<open>Number(s)\<close>: a decimal numeral of at most 15 digits is its exact value; every other string is
  read by the host.
\<close>

definition js_Number :: "js_env \<Rightarrow> string \<Rightarrow> js_number" where
  "js_Number e s =
    (if s \<noteq> [] \<and> length s \<le> 15 \<and> list_all is_digit s then IntNum (int (read_nat s))
     else hostNumber e s)"

lemma js_Number_show_nat: "n < 10 ^ 15 \<Longrightarrow> js_Number e (show_nat n) = IntNum (int n)"
  using length_show_nat [of n 14] by (simp add: js_Number_def show_nat_digits)

text \<open>\<^verbatim>\<open>a > b\<close>; every comparison with \<open>NaN\<close> is false.\<close>

fun js_greater :: "js_env \<Rightarrow> js_number \<Rightarrow> js_number \<Rightarrow> bool" where
  "js_greater e (IntNum a) (IntNum b) = (a > b)"
| "js_greater e a NaN = False"
| "js_greater e NaN b = False"
| "js_greater e a PosInf = False"
| "js_greater e NegInf b = False"
| "js_greater e PosInf b = True"
| "js_greater e a NegInf = True"
| "js_greater e a b = hostGreater e a b"

subsection \<open>Step systems and retried calls\<close>

text \<open>
  A component is a state and the steps its operations make. An invariant of the steps holds after
  every sequence of operations, whichever way the callers interleave: each method of the stores
  runs in one turn of the event loop, so a sequence of whole operations is an execution.
\<close>

locale step_invariant =
  fixes step :: "'s \<Rightarrow> 's \<Rightarrow> bool" and inv :: "'s \<Rightarrow> bool"
  assumes step_inv: "step s t \<Longrightarrow> inv s \<Longrightarrow> inv t"
begin

lemma run_inv: "step\<^sup>*\<^sup>* s t \<Longrightarrow> inv s \<Longrightarrow> inv t"
  by (induction rule: rtranclp_induct) (auto intro: step_inv)

end

text \<open>
  A step system with a preorder on states that every step follows: what the preorder says of one
  step it says of every execution (a status that never comes back, a counter that never falls).
\<close>

locale step_monotone = step_invariant +
  fixes le :: "'s \<Rightarrow> 's \<Rightarrow> bool"
  assumes le_refl: "le s s"
    and le_trans: "le s t \<Longrightarrow> le t u \<Longrightarrow> le s u"
    and step_le: "step s t \<Longrightarrow> inv s \<Longrightarrow> le s t"
begin

lemma run_le: "step\<^sup>*\<^sup>* s t \<Longrightarrow> inv s \<Longrightarrow> le s t"
proof (induction rule: rtranclp_induct)
  case base
  show ?case by (rule le_refl)
next
  case (step t u)
  then have "inv t" by (auto intro: run_inv)
  with step show ?case by (blast intro: le_trans step_le)
qed

end

text \<open>
  An operation a client retries. \<open>exec e p s\<close> is the state after the call and its error or
  result, \<open>again r\<close> what a retry answers where the first call answered \<open>r\<close>.
\<close>

fun retry ::
  "('e \<Rightarrow> 'p \<Rightarrow> 's \<Rightarrow> 's \<times> ('x + 'r)) \<Rightarrow> 'p \<Rightarrow> 'e list \<Rightarrow> 's \<Rightarrow> 's \<times> ('x + 'r) list" where
  "retry exec p [] s = (s, [])"
| "retry exec p (e # es) s =
    (let (s', r) = exec e p s; (s'', rs) = retry exec p es s' in (s'', r # rs))"

locale idempotent_op =
  fixes exec :: "'e \<Rightarrow> 'p \<Rightarrow> 's \<Rightarrow> 's \<times> ('x + 'r)"
    and ok :: "'e \<Rightarrow> 'p \<Rightarrow> 's \<Rightarrow> bool"
    and again :: "'r \<Rightarrow> 'r"
  assumes replay: "ok e p s \<Longrightarrow> exec e p s = (s', Inr r) \<Longrightarrow> exec e' p s' = (s', Inr (again r))"
    and again_again: "again (again r) = again r"
    and ok_done: "ok e p s \<Longrightarrow> exec e p s = (s', Inr r) \<Longrightarrow> ok e' p s'"
begin

lemma retry_settled:
  assumes "\<And>e. exec e p s = (s, Inr r)"
  shows "retry exec p es s = (s, map (\<lambda>_. Inr r) es)"
  using assms by (induction es) simp_all

text \<open>However often it is retried, the first success is the only change.\<close>

lemma retry_once:
  assumes "ok e p s" and "exec e p s = (s', Inr r)"
  shows "retry exec p (e # es) s = (s', Inr r # map (\<lambda>_. Inr (again r)) es)"
  using assms retry_settled [of p s' "again r" es] by (simp add: replay)

end

end
