(* ===== verification/JS_Time.thy ===== *)
theory JS_Time
  imports JS_Prelude
begin

text \<open>
  Instants of \<^verbatim>\<open>Date\<close>: a time value is the number of milliseconds since 1970, and the stores
  keep instants as the strings of \<^verbatim>\<open>toISOString\<close> and compare those strings with \<^verbatim>\<open><=\<close>. The
  definitions follow the calendar of the language definition (the day a year starts on, the year
  as the largest one that starts no later). The lemmas show that on the years 0 to 9999 the
  order of the strings is the order of the time values and that \<^verbatim>\<open>Date.parse\<close> reads
  back what \<^verbatim>\<open>toISOString\<close> wrote.
\<close>

subsection \<open>The calendar\<close>

definition msPerDay :: int where
  "msPerDay = 86400000"

definition day_from_year :: "int \<Rightarrow> int" where
  "day_from_year y = 365 * (y - 1970) + (y - 1969) div 4 - (y - 1901) div 100 + (y - 1601) div 400"

definition leap_year :: "int \<Rightarrow> bool" where
  "leap_year y \<longleftrightarrow> y mod 4 = 0 \<and> (y mod 100 \<noteq> 0 \<or> y mod 400 = 0)"

definition year_days :: "int \<Rightarrow> int" where
  "year_days y = (if leap_year y then 366 else 365)"

lemma div_step:
  fixes a n :: int
  assumes "0 < n"
  shows "(a + 1) div n = a div n + (if (a + 1) mod n = 0 then 1 else 0)"
proof (cases "a mod n + 1 = n")
  case True
  have "a + 1 = n * (a div n) + (a mod n + 1)" by simp
  then have "a + 1 = n * (a div n + 1)" using True by (simp add: distrib_left)
  with assms show ?thesis by simp
next
  case False
  have r: "0 \<le> a mod n + 1" "a mod n + 1 < n"
    using False assms pos_mod_bound [of n a] pos_mod_sign [of n a] by linarith+
  have "a + 1 = n * (a div n) + (a mod n + 1)" by simp
  then have "(a + 1) div n = a div n" "(a + 1) mod n = a mod n + 1"
    using r by (blast intro: int_div_pos_eq int_mod_pos_eq)+
  moreover have "a mod n + 1 \<noteq> 0" using assms pos_mod_sign [of n a] by linarith
  ultimately show ?thesis by simp
qed

lemma mod_shift: "c mod n = 0 \<Longrightarrow> (y - c) mod n = y mod n" for y c n :: int
  by (metis diff_zero mod_diff_right_eq)

lemma div_shift:
  fixes y c n :: int
  assumes "0 < n" and "c mod n = 0"
  shows "(y + 1 - (c + 1)) div n = (y - (c + 1)) div n + (if y mod n = 0 then 1 else 0)"
proof -
  have "y + 1 - (c + 1) = (y - (c + 1)) + 1" "(y - (c + 1)) + 1 = y - c" by linarith+
  then show ?thesis using div_step [OF assms(1), of "y - (c + 1)"] mod_shift [OF assms(2), of y] by metis
qed

lemma day_from_year_Suc: "day_from_year (y + 1) = day_from_year y + year_days y"
proof -
  have d4: "(y + 1 - 1969) div 4 = (y - 1969) div 4 + (if y mod 4 = 0 then 1 else 0)"
    using div_shift [of 4 1968 y] by simp
  have d100: "(y + 1 - 1901) div 100 = (y - 1901) div 100 + (if y mod 100 = 0 then 1 else 0)"
    using div_shift [of 100 1900 y] by simp
  have d400: "(y + 1 - 1601) div 400 = (y - 1601) div 400 + (if y mod 400 = 0 then 1 else 0)"
    using div_shift [of 400 1600 y] by simp
  have "100 dvd (400 :: int)" "4 dvd (100 :: int)" by simp_all
  then have imp: "y mod 400 = 0 \<Longrightarrow> y mod 100 = 0" "y mod 100 = 0 \<Longrightarrow> y mod 4 = 0"
    by (blast intro: dvd_imp_mod_0 dvd_trans mod_0_imp_dvd)+
  have count: "365 * (y + 1 - 1970) + (a + (if p then 1 else 0)) - (b + (if q then 1 else 0)) +
      (c + (if r then 1 else 0)) = 365 * (y - 1970) + a - b + c + (if p \<and> (\<not> q \<or> r) then 366 else 365)"
    if "r \<Longrightarrow> q" "q \<Longrightarrow> p" for a b c :: int and p q r
    using that by (cases p; cases q; cases r) simp_all
  show ?thesis
    unfolding day_from_year_def year_days_def leap_year_def d4 d100 d400
    by (rule count) (fact imp)+
qed

lemma year_days_bounds: "365 \<le> year_days y" "year_days y \<le> 366"
  by (simp_all add: year_days_def)

lemma day_from_year_add:
  "365 * int n \<le> day_from_year (y + int n) - day_from_year y"
  "day_from_year (y + int n) - day_from_year y \<le> 366 * int n"
proof (induction n)
  case 0
  { case 1 show ?case by simp next case 2 show ?case by simp }
next
  case (Suc n)
  have "y + int (Suc n) = (y + int n) + 1" by simp
  then have e: "day_from_year (y + int (Suc n)) = day_from_year (y + int n) + year_days (y + int n)"
    by (metis day_from_year_Suc)
  have b: "365 \<le> year_days (y + int n)" "year_days (y + int n) \<le> 366"
    by (rule year_days_bounds)+
  { case 1 show ?case using Suc(1) e b by simp next case 2 show ?case using Suc(2) e b by simp }
qed

lemma day_from_year_mono: "y \<le> z \<Longrightarrow> day_from_year y + 365 * (z - y) \<le> day_from_year z"
  using day_from_year_add(1) [where y = y and n = "nat (z - y)"] by simp

lemma day_from_year_upper: "y \<le> z \<Longrightarrow> day_from_year z \<le> day_from_year y + 366 * (z - y)"
  using day_from_year_add(2) [where y = y and n = "nat (z - y)"] by simp

lemma day_from_year_le: "y \<le> z \<Longrightarrow> day_from_year y \<le> day_from_year z"
  using day_from_year_mono [of y z] by (smt (verit))

text \<open>The year of a day: from an estimate that is never too late, up to the largest fitting year.\<close>

function year_up :: "int \<Rightarrow> int \<Rightarrow> int" where
  "year_up d y = (if day_from_year (y + 1) \<le> d then year_up d (y + 1) else y)"
  by pat_completeness auto
termination
proof (relation "measure (\<lambda>(d, y). nat (d - day_from_year y))")
  fix d y :: int
  assume "day_from_year (y + 1) \<le> d"
  moreover have "day_from_year y < day_from_year (y + 1)"
    using year_days_bounds(1) [of y] by (simp add: day_from_year_Suc)
  ultimately show "((d, y + 1), d, y) \<in> measure (\<lambda>(d, y). nat (d - day_from_year y))"
    by simp
qed simp

declare year_up.simps [simp del]

definition year_of_day :: "int \<Rightarrow> int" where
  "year_of_day d = year_up d (1970 + (if 0 \<le> d then d div 366 else d div 365))"

lemma year_up_largest:
  "day_from_year y \<le> d \<Longrightarrow> day_from_year (year_up d y) \<le> d \<and> d < day_from_year (year_up d y + 1)"
proof (induction d y rule: year_up.induct)
  case (1 d y)
  show ?case
  proof (cases "day_from_year (y + 1) \<le> d")
    case True
    with 1 show ?thesis by (simp add: year_up.simps [of d y])
  next
    case False
    with 1 show ?thesis by (simp add: year_up.simps [of d y])
  qed
qed

lemma estimate_early: "day_from_year (1970 + (if 0 \<le> d then d div 366 else d div 365)) \<le> d"
proof -
  have zero: "day_from_year 1970 = 0" by (simp add: day_from_year_def)
  show ?thesis
  proof (cases "0 \<le> d")
    case True
    define k where "k = d div 366"
    have "0 \<le> k" "366 * k \<le> d" using True by (simp_all add: k_def)
    with day_from_year_upper [of 1970 "1970 + k"] zero have "day_from_year (1970 + k) \<le> d" by simp
    with True show ?thesis by (simp add: k_def)
  next
    case False
    define k where "k = d div 365"
    have "k \<le> 0" "365 * k \<le> d" using False by (simp_all add: k_def)
    with day_from_year_mono [of "1970 + k" 1970] zero have "day_from_year (1970 + k) \<le> d" by simp
    with False show ?thesis by (simp add: k_def)
  qed
qed

lemma year_of_day_bounds:
  "day_from_year (year_of_day d) \<le> d" "d < day_from_year (year_of_day d) + year_days (year_of_day d)"
  using year_up_largest [OF estimate_early, of d] by (simp_all add: year_of_day_def day_from_year_Suc)

lemma year_of_day_unique:
  assumes "day_from_year y \<le> d" and "d < day_from_year y + year_days y"
  shows "year_of_day d = y"
proof (rule ccontr)
  let ?z = "year_of_day d"
  assume "?z \<noteq> y"
  then consider "?z + 1 \<le> y" | "y + 1 \<le> ?z" by linarith
  then show False
  proof cases
    case 1
    then have "day_from_year (?z + 1) \<le> day_from_year y" by (rule day_from_year_le)
    with assms(1) year_of_day_bounds(2) [of d] show False by (simp add: day_from_year_Suc)
  next
    case 2
    then have "day_from_year (y + 1) \<le> day_from_year ?z" by (rule day_from_year_le)
    with assms(2) year_of_day_bounds(1) [of d] show False by (simp add: day_from_year_Suc)
  qed
qed

subsection \<open>Months\<close>

definition month_lengths :: "int \<Rightarrow> nat list" where
  "month_lengths y = [31, if leap_year y then 29 else 28, 31, 30, 31, 30, 31, 31, 30, 31, 30, 31]"

text \<open>Month and day of the month, both from 1, of a day of the year counted from 0.\<close>

fun split_month :: "nat list \<Rightarrow> nat \<Rightarrow> nat \<times> nat" where
  "split_month [] d = (1, Suc d)"
| "split_month (n # ns) d =
    (if d < n then (1, Suc d) else (let (m, k) = split_month ns (d - n) in (Suc m, k)))"

definition join_month :: "nat list \<Rightarrow> nat \<Rightarrow> nat \<Rightarrow> nat" where
  "join_month ns m k = sum_list (take (m - 1) ns) + k - 1"

lemma split_month_bounds:
  assumes "d < sum_list ns"
  shows "1 \<le> fst (split_month ns d)" "fst (split_month ns d) \<le> length ns"
    "1 \<le> snd (split_month ns d)" "snd (split_month ns d) \<le> Max (set ns)"
  using assms
proof (induction ns arbitrary: d)
  case (Cons n ns)
  {
    case 1 show ?case by (simp add: case_prod_beta Let_def)
  next
    case 2 with Cons.IH(2) [of "d - n"] show ?case by (auto simp: case_prod_beta Let_def)
  next
    case 3 with Cons.IH(3) [of "d - n"] show ?case by (auto simp: case_prod_beta Let_def)
  next
    case 4
    show ?case
    proof (cases "d < n")
      case True
      moreover have "n \<le> Max (insert n (set ns))" by simp
      ultimately have "d < Max (insert n (set ns))" by linarith
      with True show ?thesis by simp
    next
      case False
      with 4 have ns: "ns \<noteq> []" by auto
      from False 4 Cons.IH(4) [of "d - n"] have "snd (split_month ns (d - n)) \<le> Max (set ns)" by simp
      with False ns show ?thesis by (simp add: case_prod_beta Let_def)
    qed
  }
qed simp_all

lemma join_split_month: "d < sum_list ns \<Longrightarrow> join_month ns (fst (split_month ns d)) (snd (split_month ns d)) = d"
proof (induction ns arbitrary: d)
  case (Cons n ns)
  show ?case
  proof (cases "d < n")
    case False
    then have r: "d - n < sum_list ns" using Cons.prems by simp
    with Cons.IH [OF r] split_month_bounds(1,3) [OF r] False show ?thesis
      by (cases "fst (split_month ns (d - n))") (auto simp: join_month_def split: prod.splits)
  qed (simp add: join_month_def)
qed simp

text \<open>A later day of the year has a later month, or the same month and a later day.\<close>

lemma split_month_mono:
  "d < d' \<Longrightarrow> d' < sum_list ns \<Longrightarrow>
   fst (split_month ns d) < fst (split_month ns d') \<or>
   fst (split_month ns d) = fst (split_month ns d') \<and> snd (split_month ns d) < snd (split_month ns d')"
proof (induction ns arbitrary: d d')
  case (Cons n ns)
  consider "d' < n" | "d < n" "n \<le> d'" | "n \<le> d" by linarith
  then show ?case
  proof cases
    case 2
    then have "1 \<le> fst (split_month ns (d' - n))"
      using Cons.prems by (intro split_month_bounds) simp
    with 2 show ?thesis by (simp add: case_prod_beta Let_def)
  next
    case 3
    with Cons.prems Cons.IH [of "d - n" "d' - n"] show ?thesis by (simp add: case_prod_beta Let_def)
  qed (use Cons.prems in simp)
qed simp

lemma sum_month_lengths: "int (sum_list (month_lengths y)) = year_days y"
  by (simp add: month_lengths_def year_days_def)

lemma length_month_lengths: "length (month_lengths y) = 12"
  by (simp add: month_lengths_def)

lemma Max_month_lengths: "Max (set (month_lengths y)) = 31"
  by (simp add: month_lengths_def)

subsection \<open>toISOString and Date.parse\<close>

fun pad :: "nat \<Rightarrow> nat \<Rightarrow> string" where
  "pad 0 n = []"
| "pad (Suc w) n = pad w (n div 10) @ [digit_char (n mod 10)]"

definition day_of :: "int \<Rightarrow> int" where
  "day_of t = t div msPerDay"

definition ms_of :: "int \<Rightarrow> nat" where
  "ms_of t = nat (t mod msPerDay)"

definition year_of :: "int \<Rightarrow> int" where
  "year_of t = year_of_day (day_of t)"

definition yday_of :: "int \<Rightarrow> nat" where
  "yday_of t = nat (day_of t - day_from_year (year_of t))"

definition month_of :: "int \<Rightarrow> nat" where
  "month_of t = fst (split_month (month_lengths (year_of t)) (yday_of t))"

definition mday_of :: "int \<Rightarrow> nat" where
  "mday_of t = snd (split_month (month_lengths (year_of t)) (yday_of t))"

definition iso_year :: "int \<Rightarrow> string" where
  "iso_year y =
    (if 0 \<le> y \<and> y \<le> 9999 then pad 4 (nat y)
     else if 0 < y then ''+'' @ pad 6 (nat y) else ''-'' @ pad 6 (nat (- y)))"

definition toISOString :: "int \<Rightarrow> string" where
  "toISOString t =
    iso_year (year_of t) @ ''-'' @ pad 2 (month_of t) @ ''-'' @ pad 2 (mday_of t) @ ''T'' @
    pad 2 (ms_of t div 3600000) @ '':'' @ pad 2 (ms_of t div 60000 mod 60) @ '':'' @
    pad 2 (ms_of t div 1000 mod 60) @ ''.'' @ pad 3 (ms_of t mod 1000) @ ''Z''"

text \<open>The time value a 24-character string of that format spells.\<close>

definition iso_value :: "string \<Rightarrow> int" where
  "iso_value s =
    (let y = int (read_nat (take 4 s)); m = read_nat (take 2 (drop 5 s));
         d = read_nat (take 2 (drop 8 s)); h = read_nat (take 2 (drop 11 s));
         mi = read_nat (take 2 (drop 14 s)); se = read_nat (take 2 (drop 17 s));
         ms = read_nat (take 3 (drop 20 s))
     in (day_from_year y + int (join_month (month_lengths y) m d)) * msPerDay +
        int (h * 3600000 + mi * 60000 + se * 1000 + ms))"

text \<open>
  \<^verbatim>\<open>Date.parse(s)\<close>, also \<^verbatim>\<open>new Date(s).getTime()\<close>: the canonical strings concretely, every
  other string by the host; \<open>None\<close> is \<^verbatim>\<open>NaN\<close>.
\<close>

definition date_parse :: "js_env \<Rightarrow> string \<Rightarrow> int option" where
  "date_parse e s = (if toISOString (iso_value s) = s then Some (iso_value s) else hostDate e s)"

text \<open>\<^verbatim>\<open>new Date(t)\<close> holds a time value only within this range; \<^verbatim>\<open>toISOString\<close> throws outside it.\<close>

definition valid_time :: "int \<Rightarrow> bool" where
  "valid_time t \<longleftrightarrow> \<bar>t\<bar> \<le> 8640000000000000"

definition iso_string :: "int \<Rightarrow> string option" where
  "iso_string t = (if valid_time t then Some (toISOString t) else None)"

text \<open>\<^verbatim>\<open>new Date().toISOString()\<close>, the \<open>i\<close>-th reading in a call.\<close>

definition now_iso :: "js_env \<Rightarrow> nat \<Rightarrow> string" where
  "now_iso e i = toISOString (clock e i)"

text \<open>The instants whose year has four digits.\<close>

definition common_era :: "int \<Rightarrow> bool" where
  "common_era t \<longleftrightarrow> 0 \<le> year_of t \<and> year_of t \<le> 9999"

lemma length_pad [simp]: "length (pad w n) = w"
  by (induction w n rule: pad.induct) auto

lemma read_nat_pad: "n < 10 ^ w \<Longrightarrow> read_nat (pad w n) = n"
proof (induction w n rule: pad.induct)
  case (1 n)
  then show ?case by (simp add: read_nat_def)
next
  case (2 w n)
  then have "n div 10 < 10 ^ w" by (simp add: less_mult_imp_div_less mult.commute)
  with 2 show ?case by simp
qed

lemma less_append_eq_length:
  fixes a b c d :: string
  assumes "length a = length b"
  shows "a @ c < b @ d \<longleftrightarrow> a < b \<or> a = b \<and> c < d"
  using assms by (induction a b rule: list_induct2) auto

lemma digit_char_less: "m < 10 \<Longrightarrow> n < 10 \<Longrightarrow> digit_char m < digit_char n \<longleftrightarrow> m < n"
  by (simp add: digit_char_def less_char_def)

lemma pad_less: "m < 10 ^ w \<Longrightarrow> n < 10 ^ w \<Longrightarrow> pad w m < pad w n \<longleftrightarrow> m < n"
proof (induction w arbitrary: m n)
  case 0
  then show ?case by simp
next
  case (Suc w)
  have q: "m div 10 < 10 ^ w" "n div 10 < 10 ^ w"
    using Suc.prems by (simp_all add: less_mult_imp_div_less mult.commute)
  have eq: "pad w (m div 10) = pad w (n div 10) \<longleftrightarrow> m div 10 = n div 10"
    using read_nat_pad q by metis
  have split: "10 * a + b < 10 * c + d \<longleftrightarrow> a < c \<or> a = c \<and> b < d"
    if "b < 10" "d < 10" for a b c d :: nat
    using that by linarith
  have "m < n \<longleftrightarrow> m div 10 < n div 10 \<or> m div 10 = n div 10 \<and> m mod 10 < n mod 10"
    using split [of "m mod 10" "n mod 10" "m div 10" "n div 10"] by simp
  with Suc.IH [OF q] eq show ?case by (simp add: less_append_eq_length digit_char_less)
qed

lemma pad_inj: "m < 10 ^ w \<Longrightarrow> n < 10 ^ w \<Longrightarrow> pad w m = pad w n \<longleftrightarrow> m = n"
  using read_nat_pad by metis

text \<open>The fields of a time value, their ranges, and the value they rebuild.\<close>

lemma ms_of_bound: "ms_of t < 86400000"
  by (simp add: ms_of_def msPerDay_def)

lemma ms_of_int: "int (ms_of t) = t mod msPerDay"
  by (simp add: ms_of_def msPerDay_def)

lemma yday_of_int: "int (yday_of t) = day_of t - day_from_year (year_of t)"
  using year_of_day_bounds(1) [of "day_of t"] by (simp add: yday_of_def year_of_def)

lemma yday_of_bound: "yday_of t < sum_list (month_lengths (year_of t))"
proof -
  have "int (yday_of t) < year_days (year_of t)"
    using year_of_day_bounds(2) [of "day_of t"] by (simp add: yday_of_int year_of_def)
  then show ?thesis by (simp flip: sum_month_lengths)
qed

lemma month_of_bounds: "month_of t < 100" and mday_of_bounds: "mday_of t < 100"
  using split_month_bounds(2,4) [OF yday_of_bound, of t]
  by (simp_all add: month_of_def mday_of_def length_month_lengths Max_month_lengths)

lemma join_month_of: "join_month (month_lengths (year_of t)) (month_of t) (mday_of t) = yday_of t"
  unfolding month_of_def mday_of_def by (rule join_split_month [OF yday_of_bound])

lemma time_of_day: "t = day_of t * msPerDay + int (ms_of t)"
  by (simp add: day_of_def ms_of_int)

lemma clock_sum:
  fixes m h mi s ms q r :: nat
  assumes "m = 1000 * q + ms" and "q = 60 * r + s" and "r = 60 * h + mi"
  shows "m = h * 3600000 + mi * 60000 + s * 1000 + ms"
  using assms by simp

lemma clock_fields:
  "ms_of t = (ms_of t div 3600000) * 3600000 + (ms_of t div 60000 mod 60) * 60000 +
     (ms_of t div 1000 mod 60) * 1000 + ms_of t mod 1000"
proof -
  let ?m = "ms_of t"
  have q: "?m div 60000 = ?m div 1000 div 60" "?m div 3600000 = ?m div 60000 div 60"
    using div_mult2_eq [of ?m 1000 60] div_mult2_eq [of ?m 60000 60] by simp_all
  have "?m = 1000 * (?m div 1000) + ?m mod 1000"
    "?m div 1000 = 60 * (?m div 1000 div 60) + ?m div 1000 mod 60"
    "?m div 60000 = 60 * (?m div 60000 div 60) + ?m div 60000 mod 60"
    by (simp_all only: mult_div_mod_eq)
  with q show ?thesis by (intro clock_sum [of _ "?m div 1000" _ "?m div 60000"]) simp_all
qed

lemma clock_less:
  fixes m n :: nat
  assumes "m < n"
  shows "m div 3600000 < n div 3600000 \<or> m div 3600000 = n div 3600000 \<and>
    (m div 60000 mod 60 < n div 60000 mod 60 \<or> m div 60000 mod 60 = n div 60000 mod 60 \<and>
     (m div 1000 mod 60 < n div 1000 mod 60 \<or> m div 1000 mod 60 = n div 1000 mod 60 \<and>
      m mod 1000 < n mod 1000))"
proof -
  have lex: "a div k < b div k \<or> a div k = b div k \<and> a mod k < b mod k" if "a < b" for a b k :: nat
    using that by (metis div_le_mono div_mult_mod_eq le_neq_implies_less less_imp_le_nat nat_add_left_cancel_less)
  have q: "i div 60000 = i div 1000 div 60" "i div 3600000 = i div 60000 div 60" for i :: nat
    using div_mult2_eq [of i 1000 60] div_mult2_eq [of i 60000 60] by simp_all
  show ?thesis
    using lex [OF assms, of 1000] lex [of "m div 1000" "n div 1000" 60]
      lex [of "m div 60000" "n div 60000" 60] q by metis
qed

lemma clock_field_bounds:
  "ms_of t div 3600000 < 100" "ms_of t div 60000 mod 60 < 100"
  "ms_of t div 1000 mod 60 < 100" "ms_of t mod 1000 < 1000"
  using ms_of_bound [of t] by (simp_all add: less_mult_imp_div_less)

lemma iso_year_common: "common_era t \<Longrightarrow> iso_year (year_of t) = pad 4 (nat (year_of t))"
  by (simp add: iso_year_def common_era_def)

lemma iso_value_toISOString: "common_era t \<Longrightarrow> iso_value (toISOString t) = t"
proof -
  assume era: "common_era t"
  then have y: "nat (year_of t) < 10 ^ 4" "int (nat (year_of t)) = year_of t"
    by (auto simp: common_era_def)
  have "iso_value (toISOString t) =
    (day_from_year (year_of t) + int (join_month (month_lengths (year_of t)) (month_of t) (mday_of t))) * msPerDay +
    int ((ms_of t div 3600000) * 3600000 + (ms_of t div 60000 mod 60) * 60000 +
      (ms_of t div 1000 mod 60) * 1000 + ms_of t mod 1000)"
    using y month_of_bounds [of t] mday_of_bounds [of t] clock_field_bounds [of t]
    by (simp add: iso_value_def toISOString_def iso_year_common [OF era] Let_def read_nat_pad)
  also have "\<dots> = day_of t * msPerDay + int (ms_of t)"
    by (simp only: join_month_of yday_of_int clock_fields [of t, symmetric]) simp
  finally show ?thesis by (simp flip: time_of_day)
qed

text \<open>\<^verbatim>\<open>Date.parse\<close> reads back what \<^verbatim>\<open>toISOString\<close> wrote.\<close>

lemma date_parse_toISOString: "common_era t \<Longrightarrow> date_parse e (toISOString t) = Some t"
  by (simp add: date_parse_def iso_value_toISOString)

lemma toISOString_inj: "common_era t \<Longrightarrow> common_era u \<Longrightarrow> toISOString t = toISOString u \<longleftrightarrow> t = u"
  by (metis iso_value_toISOString)

lemma year_of_mono: "t \<le> u \<Longrightarrow> year_of t \<le> year_of u"
proof (rule ccontr)
  assume "t \<le> u" and "\<not> year_of t \<le> year_of u"
  then have "day_of t \<le> day_of u" "year_of u + 1 \<le> year_of t"
    by (simp_all add: day_of_def zdiv_mono1 msPerDay_def)
  moreover have "day_from_year (year_of u + 1) \<le> day_from_year (year_of t)"
    using calculation(2) by (rule day_from_year_le)
  moreover have "day_of u < day_from_year (year_of u + 1)"
    using year_of_day_bounds(2) [of "day_of u"] by (simp add: year_of_def day_from_year_Suc)
  moreover have "day_from_year (year_of t) \<le> day_of t"
    using year_of_day_bounds(1) by (simp add: year_of_def)
  ultimately show False by linarith
qed

lemma time_fields_less:
  assumes "t < u"
  shows "year_of t < year_of u \<or> year_of t = year_of u \<and>
    (yday_of t < yday_of u \<or> yday_of t = yday_of u \<and> ms_of t < ms_of u)"
proof -
  have y: "year_of t \<le> year_of u" using assms by (simp add: year_of_mono)
  have "day_of t \<le> day_of u" using assms by (simp add: day_of_def zdiv_mono1 msPerDay_def)
  moreover have "ms_of t < ms_of u" if "day_of t = day_of u"
    using assms time_of_day [of t] time_of_day [of u] that
    by (metis add_less_cancel_left of_nat_less_iff)
  moreover have "int (yday_of t) < int (yday_of u)" if "year_of t = year_of u" "day_of t < day_of u"
    using that by (simp only: yday_of_int)
  moreover have "yday_of t = yday_of u" if "year_of t = year_of u" "day_of t = day_of u"
    using that by (simp add: yday_of_def)
  ultimately show ?thesis using y by (metis of_nat_less_iff order_le_imp_less_or_eq)
qed

lemma toISOString_mono:
  assumes era: "common_era t" "common_era u" and less: "t < u"
  shows "toISOString t < toISOString u"
proof -
  have y: "nat (year_of t) < 10 ^ 4" "nat (year_of u) < 10 ^ 4"
      "nat (year_of t) < nat (year_of u) \<longleftrightarrow> year_of t < year_of u"
      "nat (year_of t) = nat (year_of u) \<longleftrightarrow> year_of t = year_of u"
    using era by (auto simp: common_era_def)
  have md: "month_of t < month_of u \<or> month_of t = month_of u \<and> mday_of t < mday_of u"
    if "year_of t = year_of u" "yday_of t < yday_of u"
    using split_month_mono [OF that(2) yday_of_bound [of u]] that(1) by (simp add: month_of_def mday_of_def)
  have md_eq: "month_of t = month_of u" "mday_of t = mday_of u"
    if "year_of t = year_of u" "yday_of t = yday_of u"
    using that by (simp_all add: month_of_def mday_of_def)
  have ms: "ms_of t div 3600000 < ms_of u div 3600000 \<or> ms_of t div 3600000 = ms_of u div 3600000 \<and>
      (ms_of t div 60000 mod 60 < ms_of u div 60000 mod 60 \<or> ms_of t div 60000 mod 60 = ms_of u div 60000 mod 60 \<and>
       (ms_of t div 1000 mod 60 < ms_of u div 1000 mod 60 \<or> ms_of t div 1000 mod 60 = ms_of u div 1000 mod 60 \<and>
        ms_of t mod 1000 < ms_of u mod 1000))"
    if "ms_of t < ms_of u"
    using that by (rule clock_less)
  show ?thesis
    using time_fields_less [OF less] md md_eq ms y
      month_of_bounds [of t] month_of_bounds [of u] mday_of_bounds [of t] mday_of_bounds [of u]
      clock_field_bounds [of t] clock_field_bounds [of u]
    by (auto simp: toISOString_def iso_year_common era less_append_eq_length pad_less pad_inj)
qed

text \<open>Comparing the strings compares the instants.\<close>

lemma toISOString_less_iff:
  "common_era t \<Longrightarrow> common_era u \<Longrightarrow> toISOString t < toISOString u \<longleftrightarrow> t < u"
  by (metis less_asym linorder_less_linear toISOString_mono)

lemma toISOString_le_iff:
  "common_era t \<Longrightarrow> common_era u \<Longrightarrow> toISOString t \<le> toISOString u \<longleftrightarrow> t \<le> u"
  by (metis linorder_not_less toISOString_less_iff)

lemma common_eraI:
  assumes "- 62167219200000 \<le> t" and "t < 253402300800000"
  shows "common_era t"
proof -
  have d: "- 719528 \<le> day_of t" "day_of t < 2932897"
    using assms zdiv_mono1 [of "- 62167219200000" t 86400000]
    by (simp_all add: day_of_def msPerDay_def div_less_iff_less_mult)
  have y: "day_from_year 0 = - 719528" "day_from_year 10000 = 2932897"
    by (simp_all add: day_from_year_def)
  have b: "day_from_year (year_of t) \<le> day_of t" "day_of t < day_from_year (year_of t + 1)"
    using year_of_day_bounds [of "day_of t"] by (simp_all add: year_of_def day_from_year_Suc)
  have "0 \<le> year_of t"
  proof (rule ccontr)
    assume "\<not> 0 \<le> year_of t"
    then have "day_from_year (year_of t + 1) \<le> day_from_year 0" by (intro day_from_year_le) simp
    with b(2) d(1) y(1) show False by linarith
  qed
  moreover have "year_of t \<le> 9999"
  proof (rule ccontr)
    assume "\<not> year_of t \<le> 9999"
    then have "day_from_year 10000 \<le> day_from_year (year_of t)" by (intro day_from_year_le) simp
    with b(1) d(2) y(2) show False by linarith
  qed
  ultimately show ?thesis by (simp add: common_era_def)
qed

lemma pad_digits:
  "pad 2 n = [digit_char (n div 10 mod 10), digit_char (n mod 10)]"
  "pad 3 n = [digit_char (n div 10 div 10 mod 10), digit_char (n div 10 mod 10), digit_char (n mod 10)]"
  "pad 4 n = [digit_char (n div 10 div 10 div 10 mod 10), digit_char (n div 10 div 10 mod 10),
     digit_char (n div 10 mod 10), digit_char (n mod 10)]"
  by (simp_all only: numeral_eq_Suc pred_numeral_simps pad.simps append.simps One_nat_def
      BitM.simps numeral_One arith_simps)

lemmas iso_eval = toISOString_def iso_year_def year_of_def year_of_day_def year_up.simps day_of_def
  msPerDay_def day_from_year_def yday_of_def month_of_def mday_of_def ms_of_def month_lengths_def
  leap_year_def digit_chars pad_digits

lemma iso_epoch: "toISOString 0 = ''1970-01-01T00:00:00.000Z''"
  by (simp add: iso_eval)

lemma iso_2026: "toISOString 1767225600000 = ''2026-01-01T00:00:00.000Z''"
  by (simp add: iso_eval)

subsection \<open>A concrete environment\<close>

text \<open>The environment of the witnesses: the clock stands at the start of 2026.\<close>

definition sample_env :: js_env where
  "sample_env =
    \<lparr>clock = (\<lambda>_. 1767225600000), uuid = (\<lambda>i. ''uuid-'' @ show_nat i),
     localeCompare = code_unit_compare, hostDate = (\<lambda>_. None), hostNumber = (\<lambda>_. NaN),
     hostGreater = (\<lambda>_ _. False), sha256 = (\<lambda>s. s)\<rparr>"

lemma sample_now [simp]: "now_iso sample_env i = ''2026-01-01T00:00:00.000Z''"
  by (simp add: now_iso_def sample_env_def iso_2026)

lemma sample_uuid [simp]: "uuid sample_env 0 = ''uuid-0''" "uuid sample_env (Suc 0) = ''uuid-1''"
  by (simp_all add: sample_env_def show_nat.simps digit_chars)

lemma sample_uuid_inj: "inj (uuid sample_env)"
  by (simp add: sample_env_def inj_def)

end
