(* ===== verification/Task_Fingerprint.thy ===== *)
theory Task_Fingerprint
  imports JS_Prelude
begin

text \<open>
  The request binding of a cloud task (\<^verbatim>\<open>apps/longhub-cloud-api/src/task-fingerprint.ts\<close>) and the
  admission placeholder (\<^verbatim>\<open>store.ts\<close>). The fingerprint is a digest of the JSON text of a fixed
  tuple; the lemmas show that the text determines every field of the request, so two requests
  share a fingerprint only if the digest collides.
\<close>

subsection \<open>JSON.stringify on an array of strings and null\<close>

definition hex_digit :: "nat \<Rightarrow> char" where
  "hex_digit n = (if n < 10 then char_of (48 + n) else char_of (87 + n))"

definition hex_value :: "char \<Rightarrow> nat" where
  "hex_value c = (if (of_char c :: nat) < 58 then of_char c - 48 else of_char c - 87)"

definition json_char :: "char \<Rightarrow> string" where
  "json_char c =
    (if c = CHR 0x22 then [CHR 0x5C, CHR 0x22]
     else if c = CHR 0x5C then [CHR 0x5C, CHR 0x5C]
     else if c = CHR 0x08 then [CHR 0x5C, CHR ''b'']
     else if c = CHR 0x09 then [CHR 0x5C, CHR ''t'']
     else if c = CHR 0x0A then [CHR 0x5C, CHR ''n'']
     else if c = CHR 0x0C then [CHR 0x5C, CHR ''f'']
     else if c = CHR 0x0D then [CHR 0x5C, CHR ''r'']
     else if (of_char c :: nat) < 32 then
       CHR 0x5C # ''u00'' @ [hex_digit (of_char c div 16), hex_digit (of_char c mod 16)]
     else [c])"

definition json_string :: "string \<Rightarrow> string" where
  "json_string s = CHR 0x22 # concat (map json_char s) @ [CHR 0x22]"

fun json_element :: "string option \<Rightarrow> string" where
  "json_element None = ''null''"
| "json_element (Some s) = json_string s"

fun json_elements :: "string option list \<Rightarrow> string" where
  "json_elements [] = ''''"
| "json_elements [x] = json_element x"
| "json_elements (x # y # ys) = json_element x @ CHR '','' # json_elements (y # ys)"

definition json_array :: "string option list \<Rightarrow> string" where
  "json_array xs = CHR ''['' # json_elements xs @ [CHR '']'']"

text \<open>Reading one character of a JSON string back.\<close>

fun unescape :: "string \<Rightarrow> (char \<times> string) option" where
  "unescape [] = None"
| "unescape (c # cs) =
    (if c = CHR 0x22 then None
     else if c \<noteq> CHR 0x5C then Some (c, cs)
     else (case cs of
         [] \<Rightarrow> None
       | k # ks \<Rightarrow>
           if k = CHR 0x22 \<or> k = CHR 0x5C then Some (k, ks)
           else if k = CHR ''b'' then Some (CHR 0x08, ks)
           else if k = CHR ''t'' then Some (CHR 0x09, ks)
           else if k = CHR ''n'' then Some (CHR 0x0A, ks)
           else if k = CHR ''f'' then Some (CHR 0x0C, ks)
           else if k = CHR ''r'' then Some (CHR 0x0D, ks)
           else (case ks of
               _ # _ # h # l # rest \<Rightarrow> Some (char_of (16 * hex_value h + hex_value l), rest)
             | _ \<Rightarrow> None)))"

lemma hex_value_digit [simp]: "n < 16 \<Longrightarrow> hex_value (hex_digit n) = n"
  by (simp add: hex_value_def hex_digit_def)

lemma unescape_json_char [simp]: "unescape (json_char c @ s) = Some (c, s)"
proof -
  have "16 * (of_char c div 16) + of_char c mod 16 = (of_char c :: nat)" by simp
  then have "char_of (16 * (of_char c div 16) + of_char c mod 16 :: nat) = c" by (metis char_of_char)
  moreover have "(of_char c :: nat) div 16 < 16" if "(of_char c :: nat) < 32" using that by simp
  ultimately show ?thesis by (auto simp: json_char_def)
qed

lemma json_char_inj: "json_char c @ s = json_char d @ t \<Longrightarrow> c = d \<and> s = t"
  by (metis Pair_inject option.inject unescape_json_char)

lemma json_char_no_quote: "json_char c @ s \<noteq> CHR 0x22 # t"
  by (metis option.distinct(1) unescape.simps(2) unescape_json_char)

lemma json_body_inj:
  "concat (map json_char s) @ CHR 0x22 # x = concat (map json_char t) @ CHR 0x22 # y \<Longrightarrow> s = t \<and> x = y"
proof (induction s arbitrary: t)
  case Nil
  then show ?case
    using json_char_no_quote by (cases t) (auto, metis)
next
  case (Cons c s)
  then obtain d t' where t: "t = d # t'"
    using json_char_no_quote by (cases t) auto
  with Cons.prems have "json_char c @ (concat (map json_char s) @ CHR 0x22 # x) =
      json_char d @ (concat (map json_char t') @ CHR 0x22 # y)" by simp
  from json_char_inj [OF this] have "c = d"
    "concat (map json_char s) @ CHR 0x22 # x = concat (map json_char t') @ CHR 0x22 # y" by auto
  with Cons.IH t show ?case by blast
qed

lemma json_element_inj: "json_element a @ x = json_element b @ y \<Longrightarrow> a = b \<and> x = y"
  by (cases a; cases b) (auto simp: json_string_def dest: json_body_inj)

lemma json_elements_inj:
  assumes "length xs = length ys" and "json_elements xs @ u = json_elements ys @ v"
  shows "xs = ys"
  using assms
proof (induction xs arbitrary: ys u v rule: json_elements.induct)
  case 1
  then show ?case by simp
next
  case (2 x)
  then obtain y where "ys = [y]" by (cases ys) auto
  with 2 show ?case by (auto dest: json_element_inj)
next
  case (3 x y xs)
  then obtain x' y' ys' where ys: "ys = x' # y' # ys'" by (metis length_Suc_conv)
  have "json_element x @ (CHR '','' # json_elements (y # xs) @ u) =
      json_element x' @ (CHR '','' # json_elements (y' # ys') @ v)"
    using "3.prems"(2) ys by simp
  from json_element_inj [OF this]
  have "x = x'" and tl: "json_elements (y # xs) @ u = json_elements (y' # ys') @ v" by auto
  moreover have "y # xs = y' # ys'"
    using "3.prems"(1) ys by (intro "3.IH" [OF _ tl]) simp
  ultimately show ?case using ys by simp
qed

lemma json_array_inj: "length xs = length ys \<Longrightarrow> json_array xs = json_array ys \<longleftrightarrow> xs = ys"
  by (auto simp: json_array_def dest: json_elements_inj)

subsection \<open>The request fingerprint\<close>

definition CLOUD_TASK_REQUEST_FINGERPRINT_VERSION :: string where
  "CLOUD_TASK_REQUEST_FINGERPRINT_VERSION = ''v1''"

definition CLOUD_TASK_REQUEST_FINGERPRINT_DOMAIN :: string where
  "CLOUD_TASK_REQUEST_FINGERPRINT_DOMAIN = ''longhub/cloud-task-request-fingerprint/v1''"

definition LEGACY_UNBOUND_TASK_REQUEST_FINGERPRINT :: string where
  "LEGACY_UNBOUND_TASK_REQUEST_FINGERPRINT = ''legacy-unbound''"

record CloudTaskRequestFingerprintInput =
  fi_schema_version :: string
  fi_request_id :: string
  fi_kind :: string
  fi_tenant_id :: string
  fi_device_id :: string
  fi_agent_id :: string
  fi_skill_id :: string
  fi_skill_version :: string
  fi_tool_call_id :: string
  fi_session_key_hash :: string
  fi_idempotency_key :: string
  fi_requested_plan_id :: "string option"
  fi_input_digest :: string

definition cloudTaskRequestFingerprintTuple :: "CloudTaskRequestFingerprintInput \<Rightarrow> string option list" where
  "cloudTaskRequestFingerprintTuple input =
    [Some CLOUD_TASK_REQUEST_FINGERPRINT_DOMAIN,
     Some (fi_schema_version input),
     Some (fi_request_id input),
     Some (fi_kind input),
     Some (fi_tenant_id input),
     Some (fi_device_id input),
     Some (fi_agent_id input),
     Some (fi_skill_id input),
     Some (fi_skill_version input),
     Some (fi_tool_call_id input),
     Some (fi_session_key_hash input),
     Some (fi_idempotency_key input),
     fi_requested_plan_id input,
     Some (fi_input_digest input)]"

definition canonicalCloudTaskRequestFingerprintPayload :: "CloudTaskRequestFingerprintInput \<Rightarrow> string" where
  "canonicalCloudTaskRequestFingerprintPayload input = json_array (cloudTaskRequestFingerprintTuple input)"

definition computeCloudTaskRequestFingerprint :: "js_env \<Rightarrow> CloudTaskRequestFingerprintInput \<Rightarrow> string" where
  "computeCloudTaskRequestFingerprint e input =
    CLOUD_TASK_REQUEST_FINGERPRINT_VERSION @ '':'' @
    sha256 e (canonicalCloudTaskRequestFingerprintPayload input)"

text \<open>\<^verbatim>\<open>/^[a-f0-9]{64}$/\<close>\<close>

definition is_digest :: "string \<Rightarrow> bool" where
  "is_digest = all_within is_hex 64 64"

definition isCloudTaskRequestFingerprint :: "string \<Rightarrow> bool" where
  "isCloudTaskRequestFingerprint s \<longleftrightarrow> starts_with ''v1:'' s \<and> is_digest (drop 3 s)"

definition isLegacyUnboundTaskRequestFingerprint :: "string \<Rightarrow> bool" where
  "isLegacyUnboundTaskRequestFingerprint s \<longleftrightarrow> s = LEGACY_UNBOUND_TASK_REQUEST_FINGERPRINT"

lemma payload_inj:
  "canonicalCloudTaskRequestFingerprintPayload a = canonicalCloudTaskRequestFingerprintPayload b \<longleftrightarrow> a = b"
proof
  assume "canonicalCloudTaskRequestFingerprintPayload a = canonicalCloudTaskRequestFingerprintPayload b"
  then have "cloudTaskRequestFingerprintTuple a = cloudTaskRequestFingerprintTuple b"
    by (simp add: canonicalCloudTaskRequestFingerprintPayload_def json_array_inj
        cloudTaskRequestFingerprintTuple_def)
  then show "a = b" by (simp add: cloudTaskRequestFingerprintTuple_def)
qed simp

lemma fingerprint_wellformed:
  "is_digest (sha256 e (canonicalCloudTaskRequestFingerprintPayload a)) \<Longrightarrow>
   isCloudTaskRequestFingerprint (computeCloudTaskRequestFingerprint e a)"
  by (simp add: isCloudTaskRequestFingerprint_def computeCloudTaskRequestFingerprint_def
      CLOUD_TASK_REQUEST_FINGERPRINT_VERSION_def starts_with_def)

lemma fingerprint_not_legacy:
  "isCloudTaskRequestFingerprint s \<Longrightarrow> \<not> isLegacyUnboundTaskRequestFingerprint s"
  by (auto simp: isCloudTaskRequestFingerprint_def isLegacyUnboundTaskRequestFingerprint_def
      LEGACY_UNBOUND_TASK_REQUEST_FINGERPRINT_def starts_with_def)

subsection \<open>Normalising a fingerprint; the admission placeholder\<close>

text \<open>\<open>None\<close> is the thrown \<^verbatim>\<open>CloudTaskIdempotencyConflictError\<close>.\<close>

definition normalizeCloudTaskRequestFingerprint :: "string option \<Rightarrow> string option" where
  "normalizeCloudTaskRequestFingerprint v =
    (case v of
       None \<Rightarrow> Some LEGACY_UNBOUND_TASK_REQUEST_FINGERPRINT
     | Some s \<Rightarrow>
         if isLegacyUnboundTaskRequestFingerprint s \<or> isCloudTaskRequestFingerprint s then Some s else None)"

definition CLOUD_TASK_ADMISSION_PLACEHOLDER_SCHEMA :: string where
  "CLOUD_TASK_ADMISSION_PLACEHOLDER_SCHEMA = ''longhub/cloud-task-admission-placeholder/v1''"

record CloudTaskAdmissionPlaceholder =
  ap_request_fingerprint :: string
  ap_input_digest :: string

text \<open>The placeholder as the stored value; its schema field has one value only.\<close>

definition placeholder_value :: "CloudTaskAdmissionPlaceholder \<Rightarrow> js_value" where
  "placeholder_value p =
    Obj [(''schema_version'', Str CLOUD_TASK_ADMISSION_PLACEHOLDER_SCHEMA),
         (''request_fingerprint'', Str (ap_request_fingerprint p)),
         (''input_digest'', Str (ap_input_digest p))]"

definition createCloudTaskAdmissionPlaceholder :: "string \<Rightarrow> string \<Rightarrow> CloudTaskAdmissionPlaceholder option" where
  "createCloudTaskAdmissionPlaceholder requestFingerprint inputDigest =
    (if \<not> isCloudTaskRequestFingerprint requestFingerprint \<or> \<not> is_digest inputDigest then None
     else Some \<lparr>ap_request_fingerprint = requestFingerprint, ap_input_digest = inputDigest\<rparr>)"

fun isCloudTaskAdmissionPlaceholder ::
  "js_value \<Rightarrow> CloudTaskAdmissionPlaceholder option \<Rightarrow> bool" where
  "isCloudTaskAdmissionPlaceholder (Obj props) expected =
    (length props = 3 \<and>
     map_of props ''schema_version'' = Some (Str CLOUD_TASK_ADMISSION_PLACEHOLDER_SCHEMA) \<and>
     (case (map_of props ''request_fingerprint'', map_of props ''input_digest'') of
        (Some (Str fp), Some (Str digest)) \<Rightarrow>
          isCloudTaskRequestFingerprint fp \<and> is_digest digest \<and>
          (case expected of
             None \<Rightarrow> True
           | Some p \<Rightarrow> fp = ap_request_fingerprint p \<and> digest = ap_input_digest p)
      | _ \<Rightarrow> False))"
| "isCloudTaskAdmissionPlaceholder _ expected = False"

lemma placeholder_created:
  "createCloudTaskAdmissionPlaceholder fp d = Some p \<Longrightarrow>
   isCloudTaskAdmissionPlaceholder (placeholder_value p) expected \<longleftrightarrow>
     (case expected of None \<Rightarrow> True | Some q \<Rightarrow> q = p)"
  by (auto simp: createCloudTaskAdmissionPlaceholder_def placeholder_value_def split: if_splits option.splits)

end
