(* ===== verification/Task_Store.thy ===== *)
theory Task_Store
  imports JS_Time Task_Fingerprint
begin

text \<open>
  The task part of \<^verbatim>\<open>MemoryStore\<close> (\<^verbatim>\<open>apps/longhub-cloud-api/src/memory-store.ts\<close>): creation under
  an owner-scoped idempotency key, the admission placeholder, the compare-and-set transitions, the
  event log and its listeners. Every method runs in one turn of the event loop, so a method is one
  function from the state before to the state after and its result.
\<close>

subsection \<open>Records\<close>

datatype CloudTaskStatus = Pending | Running | Succeeded | Failed | Cancelled | TimedOut

record CloudTaskError =
  te_code :: string
  te_message :: string
  te_retryable :: bool

record CloudTask =
  t_task_id :: string
  t_tenant_id :: string
  t_device_id :: string
  t_agent_id :: string
  t_kind :: string
  t_status :: CloudTaskStatus
  t_input :: js_value
  t_output :: "js_value option"
  t_error :: "CloudTaskError option"
  t_created_at :: string
  t_updated_at :: string

record CloudTaskEvent =
  ev_event_id :: string
  ev_task_id :: string
  ev_type :: string
  ev_ts :: string
  ev_error :: "CloudTaskError option"

record CloudTaskOwner =
  o_tenant_id :: string
  o_device_id :: string
  o_agent_id :: string

record CloudTaskIdempotencyBinding =
  b_task :: CloudTask
  b_request_fingerprint :: string

text \<open>\<^verbatim>\<open>Partial<CloudTask>\<close>: a field is absent (\<open>None\<close>) or given.\<close>

record CloudTaskPatch =
  p_task_id :: "string option"
  p_tenant_id :: "string option"
  p_device_id :: "string option"
  p_agent_id :: "string option"
  p_kind :: "string option"
  p_input :: "js_value option"
  p_output :: "js_value option option"
  p_error :: "CloudTaskError option option"
  p_created_at :: "string option"

definition no_patch :: CloudTaskPatch where
  "no_patch = \<lparr>p_task_id = None, p_tenant_id = None, p_device_id = None, p_agent_id = None,
     p_kind = None, p_input = None, p_output = None, p_error = None, p_created_at = None\<rparr>"

text \<open>
  \<open>ts_listeners\<close> maps a task to the address of its \<^verbatim>\<open>Set\<close> of listeners, since the function
  \<^verbatim>\<open>subscribe\<close> returns keeps that set; \<open>ts_delivered\<close> is the sequence of callbacks made.
\<close>

record task_store =
  ts_tasks :: "(string, CloudTask) js_map"
  ts_eventsByTask :: "(string, CloudTaskEvent list) js_map"
  ts_listeners :: "(string, nat) js_map"
  ts_listener_sets :: "nat list list"
  ts_delivered :: "(nat \<times> CloudTaskEvent) list"
  ts_idempotency :: "(string, string) js_map"
  ts_taskRequestFingerprints :: "(string, string) js_map"
  ts_taskSeq :: nat
  ts_eventSeq :: nat

definition empty_task_store :: task_store where
  "empty_task_store =
    \<lparr>ts_tasks = [], ts_eventsByTask = [], ts_listeners = [], ts_listener_sets = [], ts_delivered = [],
     ts_idempotency = [], ts_taskRequestFingerprints = [], ts_taskSeq = 0, ts_eventSeq = 0\<rparr>"

datatype task_error = IdempotencyConflict | UnknownTask string

fun TASK_EVENT_TYPE :: "CloudTaskStatus \<Rightarrow> string" where
  "TASK_EVENT_TYPE Pending = ''task.accepted''"
| "TASK_EVENT_TYPE Running = ''task.started''"
| "TASK_EVENT_TYPE Succeeded = ''task.succeeded''"
| "TASK_EVENT_TYPE Failed = ''task.failed''"
| "TASK_EVENT_TYPE Cancelled = ''task.cancelled''"
| "TASK_EVENT_TYPE TimedOut = ''task.timed_out''"

subsection \<open>Operations\<close>

text \<open>\<open>ts\<close> is the clock reading the event is stamped with.\<close>

definition emit :: "string \<Rightarrow> string \<Rightarrow> string \<Rightarrow> CloudTaskError option \<Rightarrow> task_store \<Rightarrow> task_store" where
  "emit ts taskId type extra s =
    (let seq = Suc (ts_eventSeq s);
         event = \<lparr>ev_event_id = show_nat seq, ev_task_id = taskId, ev_type = type, ev_ts = ts, ev_error = extra\<rparr>;
         log = (case map_get (ts_eventsByTask s) taskId of
                  None \<Rightarrow> ts_eventsByTask s
                | Some evs \<Rightarrow> map_set taskId (evs @ [event]) (ts_eventsByTask s));
         calls = (case map_get (ts_listeners s) taskId of
                  None \<Rightarrow> []
                | Some a \<Rightarrow> map (\<lambda>l. (l, event)) (ts_listener_sets s ! a))
     in s\<lparr>ts_eventSeq := seq, ts_eventsByTask := log, ts_delivered := ts_delivered s @ calls\<rparr>)"

definition mustGet :: "task_store \<Rightarrow> string \<Rightarrow> task_error + CloudTask" where
  "mustGet s taskId =
    (case map_get (ts_tasks s) taskId of None \<Rightarrow> Inl (UnknownTask taskId) | Some t \<Rightarrow> Inr t)"

definition owner_key :: "string \<Rightarrow> CloudTaskOwner \<Rightarrow> string" where
  "owner_key idempotencyKey owner =
    nul_join [o_tenant_id owner, o_device_id owner, o_agent_id owner, idempotencyKey]"

definition taskIdempotencyBinding ::
  "string \<Rightarrow> CloudTaskOwner \<Rightarrow> task_store \<Rightarrow> task_error + CloudTaskIdempotencyBinding option" where
  "taskIdempotencyBinding idempotencyKey owner s =
    (case map_get (ts_idempotency s) (owner_key idempotencyKey owner) of
       None \<Rightarrow> Inr None
     | Some taskId \<Rightarrow>
         (case mustGet s taskId of
            Inl err \<Rightarrow> Inl err
          | Inr task \<Rightarrow>
              Inr (Some \<lparr>b_task = task,
                b_request_fingerprint =
                  (case map_get (ts_taskRequestFingerprints s) taskId of
                     None \<Rightarrow> LEGACY_UNBOUND_TASK_REQUEST_FINGERPRINT
                   | Some fp \<Rightarrow> fp)\<rparr>)))"

definition findTaskByIdempotency ::
  "string \<Rightarrow> CloudTaskOwner \<Rightarrow> task_store \<Rightarrow> task_error + CloudTaskIdempotencyBinding option" where
  "findTaskByIdempotency = taskIdempotencyBinding"

definition legacy_owner :: CloudTaskOwner where
  "legacy_owner = \<lparr>o_tenant_id = ''__legacy__'', o_device_id = ''__legacy__'', o_agent_id = ''__legacy__''\<rparr>"

record create_task_request =
  ct_idempotencyKey :: string
  ct_kind :: string
  ct_input :: js_value
  ct_owner :: "CloudTaskOwner option"
  ct_requestFingerprint :: "string option"

definition request_owner :: "create_task_request \<Rightarrow> CloudTaskOwner" where
  "request_owner p = (case ct_owner p of None \<Rightarrow> legacy_owner | Some w \<Rightarrow> w)"

definition task_id_of :: "nat \<Rightarrow> string" where
  "task_id_of n = ''ct-'' @ show_nat n"

definition new_task :: "js_env \<Rightarrow> create_task_request \<Rightarrow> nat \<Rightarrow> CloudTask" where
  "new_task e p seq =
    (let owner = request_owner p; now = now_iso e 0
     in \<lparr>t_task_id = task_id_of seq,
         t_tenant_id = o_tenant_id owner, t_device_id = o_device_id owner, t_agent_id = o_agent_id owner,
         t_kind = ct_kind p, t_status = Pending, t_input = ct_input p, t_output = None, t_error = None,
         t_created_at = now, t_updated_at = now\<rparr>)"

definition insert_task :: "string \<Rightarrow> string \<Rightarrow> CloudTask \<Rightarrow> task_store \<Rightarrow> task_store" where
  "insert_task ownerKey fingerprint task s =
    s\<lparr>ts_taskSeq := Suc (ts_taskSeq s),
      ts_tasks := map_set (t_task_id task) task (ts_tasks s),
      ts_eventsByTask := map_set (t_task_id task) [] (ts_eventsByTask s),
      ts_idempotency := map_set ownerKey (t_task_id task) (ts_idempotency s),
      ts_taskRequestFingerprints := map_set (t_task_id task) fingerprint (ts_taskRequestFingerprints s)\<rparr>"

definition createTask ::
  "js_env \<Rightarrow> create_task_request \<Rightarrow> task_store \<Rightarrow> task_store \<times> (task_error + CloudTask \<times> bool)" where
  "createTask e p s =
    (case normalizeCloudTaskRequestFingerprint (ct_requestFingerprint p) of
       None \<Rightarrow> (s, Inl IdempotencyConflict)
     | Some normalizedFingerprint \<Rightarrow>
         let owner = request_owner p; ownerKey = owner_key (ct_idempotencyKey p) owner
         in case taskIdempotencyBinding (ct_idempotencyKey p) owner s of
              Inl err \<Rightarrow> (s, Inl err)
            | Inr (Some existing) \<Rightarrow>
                if b_request_fingerprint existing = LEGACY_UNBOUND_TASK_REQUEST_FINGERPRINT \<or>
                   b_request_fingerprint existing \<noteq> normalizedFingerprint
                then (s, Inl IdempotencyConflict)
                else (s, Inr (b_task existing, True))
            | Inr None \<Rightarrow>
                let task = new_task e p (Suc (ts_taskSeq s))
                in (emit (now_iso e 1) (t_task_id task) ''task.accepted'' None
                      (insert_task ownerKey normalizedFingerprint task s), Inr (task, False)))"

definition getTask :: "string \<Rightarrow> task_store \<Rightarrow> CloudTask option" where
  "getTask taskId s = map_get (ts_tasks s) taskId"

text \<open>The condition under which an admission step may touch a task.\<close>

definition awaiting_admission :: "CloudTaskAdmissionPlaceholder \<Rightarrow> CloudTask \<Rightarrow> bool" where
  "awaiting_admission placeholder task \<longleftrightarrow>
    t_status task = Pending \<and> isCloudTaskAdmissionPlaceholder (t_input task) (Some placeholder)"

definition discardPendingTask ::
  "string \<Rightarrow> CloudTaskAdmissionPlaceholder \<Rightarrow> task_store \<Rightarrow> task_store \<times> bool" where
  "discardPendingTask taskId placeholder s =
    (if \<not> isCloudTaskAdmissionPlaceholder (placeholder_value placeholder) None then (s, False)
     else (case map_get (ts_tasks s) taskId of
         None \<Rightarrow> (s, False)
       | Some task \<Rightarrow>
           if \<not> awaiting_admission placeholder task then (s, False)
           else (s\<lparr>ts_tasks := map_delete taskId (ts_tasks s),
                   ts_eventsByTask := map_delete taskId (ts_eventsByTask s),
                   ts_taskRequestFingerprints := map_delete taskId (ts_taskRequestFingerprints s),
                   ts_listeners := map_delete taskId (ts_listeners s),
                   ts_idempotency := map_reject (\<lambda>_ v. v = taskId) (ts_idempotency s)\<rparr>, True)))"

definition admitPendingTaskInput ::
  "js_env \<Rightarrow> string \<Rightarrow> CloudTaskAdmissionPlaceholder \<Rightarrow> js_value \<Rightarrow> task_store \<Rightarrow> task_store \<times> CloudTask option" where
  "admitPendingTaskInput e taskId placeholder input s =
    (if \<not> isCloudTaskAdmissionPlaceholder (placeholder_value placeholder) None then (s, None)
     else (case map_get (ts_tasks s) taskId of
         None \<Rightarrow> (s, None)
       | Some task \<Rightarrow>
           if \<not> awaiting_admission placeholder task then (s, None)
           else let task' = task\<lparr>t_input := input, t_updated_at := now_iso e 0\<rparr>
                in (s\<lparr>ts_tasks := map_set taskId task' (ts_tasks s)\<rparr>, Some task')))"

definition claimPendingTask :: "js_env \<Rightarrow> string \<Rightarrow> task_store \<Rightarrow> task_store \<times> CloudTask option" where
  "claimPendingTask e taskId s =
    (case map_get (ts_tasks s) taskId of
       None \<Rightarrow> (s, None)
     | Some task \<Rightarrow>
         if t_status task \<noteq> Pending then (s, None)
         else let task' = task\<lparr>t_status := Running, t_updated_at := now_iso e 0\<rparr>
              in (emit (now_iso e 1) taskId (TASK_EVENT_TYPE Running) None
                    (s\<lparr>ts_tasks := map_set taskId task' (ts_tasks s)\<rparr>), Some task'))"

text \<open>\<^verbatim>\<open>Object.assign(task, patch); task.status = status; task.updated_at = now\<close>\<close>

definition assign_patch :: "CloudTaskPatch \<Rightarrow> CloudTask \<Rightarrow> CloudTask" where
  "assign_patch p t =
    t\<lparr>t_task_id := case_option (t_task_id t) id (p_task_id p),
      t_tenant_id := case_option (t_tenant_id t) id (p_tenant_id p),
      t_device_id := case_option (t_device_id t) id (p_device_id p),
      t_agent_id := case_option (t_agent_id t) id (p_agent_id p),
      t_kind := case_option (t_kind t) id (p_kind p),
      t_input := case_option (t_input t) id (p_input p),
      t_output := case_option (t_output t) id (p_output p),
      t_error := case_option (t_error t) id (p_error p),
      t_created_at := case_option (t_created_at t) id (p_created_at p)\<rparr>"

definition write_status ::
  "js_env \<Rightarrow> string \<Rightarrow> CloudTask \<Rightarrow> CloudTaskStatus \<Rightarrow> CloudTaskPatch \<Rightarrow> task_store \<Rightarrow> task_store \<times> CloudTask" where
  "write_status e taskId task status patch s =
    (let task' = (assign_patch patch task)\<lparr>t_status := status, t_updated_at := now_iso e 0\<rparr>
     in (emit (now_iso e 1) taskId (TASK_EVENT_TYPE status) (t_error task')
           (s\<lparr>ts_tasks := map_set taskId task' (ts_tasks s)\<rparr>), task'))"

definition transitionIfStatus ::
  "js_env \<Rightarrow> string \<Rightarrow> CloudTaskStatus list \<Rightarrow> CloudTaskStatus \<Rightarrow> CloudTaskPatch \<Rightarrow> task_store \<Rightarrow>
   task_store \<times> CloudTask option" where
  "transitionIfStatus e taskId expectedStatuses status patch s =
    (case map_get (ts_tasks s) taskId of
       None \<Rightarrow> (s, None)
     | Some task \<Rightarrow>
         if t_status task \<notin> set expectedStatuses then (s, None)
         else let (s', task') = write_status e taskId task status patch s in (s', Some task'))"

definition transition ::
  "js_env \<Rightarrow> string \<Rightarrow> CloudTaskStatus \<Rightarrow> CloudTaskPatch \<Rightarrow> task_store \<Rightarrow>
   task_store \<times> (task_error + CloudTask)" where
  "transition e taskId status patch s =
    (case mustGet s taskId of
       Inl err \<Rightarrow> (s, Inl err)
     | Inr task \<Rightarrow> let (s', task') = write_status e taskId task status patch s in (s', Inr task'))"

definition eventsAfter ::
  "js_env \<Rightarrow> string \<Rightarrow> string option \<Rightarrow> task_store \<Rightarrow> CloudTaskEvent list" where
  "eventsAfter e taskId afterEventId s =
    (let events = (case map_get (ts_eventsByTask s) taskId of None \<Rightarrow> [] | Some evs \<Rightarrow> evs)
     in case afterEventId of
          None \<Rightarrow> events
        | Some bound \<Rightarrow>
            let after = js_Number e bound
            in filter (\<lambda>ev. js_greater e (js_Number e (ev_event_id ev)) after) events)"

text \<open>Returns the address of the set, which the returned function deletes the listener from.\<close>

definition subscribe :: "string \<Rightarrow> nat \<Rightarrow> task_store \<Rightarrow> task_store \<times> nat" where
  "subscribe taskId listener s =
    (let (s1, a) = (case map_get (ts_listeners s) taskId of
            Some a \<Rightarrow> (s, a)
          | None \<Rightarrow>
              (s\<lparr>ts_listener_sets := ts_listener_sets s @ [[]],
                 ts_listeners := map_set taskId (length (ts_listener_sets s)) (ts_listeners s)\<rparr>,
               length (ts_listener_sets s)));
         ls = ts_listener_sets s1 ! a
     in (s1\<lparr>ts_listener_sets :=
              (ts_listener_sets s1)[a := if listener \<in> set ls then ls else ls @ [listener]]\<rparr>, a))"

definition unsubscribe :: "nat \<Rightarrow> nat \<Rightarrow> task_store \<Rightarrow> task_store" where
  "unsubscribe a listener s =
    s\<lparr>ts_listener_sets := (ts_listener_sets s)[a := removeAll listener (ts_listener_sets s ! a)]\<rparr>"

subsection \<open>Frame facts\<close>

lemma emit_frame [simp]:
  "ts_tasks (emit ts i ty x s) = ts_tasks s"
  "ts_idempotency (emit ts i ty x s) = ts_idempotency s"
  "ts_taskRequestFingerprints (emit ts i ty x s) = ts_taskRequestFingerprints s"
  "ts_taskSeq (emit ts i ty x s) = ts_taskSeq s"
  "ts_eventSeq (emit ts i ty x s) = Suc (ts_eventSeq s)"
  "ts_listeners (emit ts i ty x s) = ts_listeners s"
  "ts_listener_sets (emit ts i ty x s) = ts_listener_sets s"
  by (simp_all add: emit_def Let_def)

lemma emit_events [simp]:
  "map_get (ts_eventsByTask (emit ts i ty x s)) j =
    (if j = i then map_option (\<lambda>evs. evs @ [\<lparr>ev_event_id = show_nat (Suc (ts_eventSeq s)), ev_task_id = i,
        ev_type = ty, ev_ts = ts, ev_error = x\<rparr>]) (map_get (ts_eventsByTask s) i)
     else map_get (ts_eventsByTask s) j)"
  by (simp add: emit_def Let_def split: option.split)

lemma emit_events_ok [simp]: "map_ok (ts_eventsByTask s) \<Longrightarrow> map_ok (ts_eventsByTask (emit ts i ty x s))"
  by (simp add: emit_def Let_def split: option.split)

lemma write_status_fst:
  "fst (write_status e i t st p s) =
    emit (now_iso e 1) i (TASK_EVENT_TYPE st) (t_error (snd (write_status e i t st p s)))
      (s\<lparr>ts_tasks := map_set i (snd (write_status e i t st p s)) (ts_tasks s)\<rparr>)"
  by (simp add: write_status_def Let_def)

lemma write_status_snd:
  "snd (write_status e i t st p s) = (assign_patch p t)\<lparr>t_status := st, t_updated_at := now_iso e 0\<rparr>"
  by (simp add: write_status_def Let_def)

subsection \<open>The invariant\<close>

text \<open>
  Task ids are issued once and never reused; the four maps agree on which tasks exist; the
  idempotency index is a bijection between the keys in use and the tasks, and a key spells its
  task's owner; the events of a task carry the sequence numbers in increasing order.
\<close>

definition task_owner :: "CloudTask \<Rightarrow> CloudTaskOwner" where
  "task_owner t = \<lparr>o_tenant_id = t_tenant_id t, o_device_id = t_device_id t, o_agent_id = t_agent_id t\<rparr>"

definition events_wf :: "nat \<Rightarrow> string \<Rightarrow> CloudTaskEvent list \<Rightarrow> bool" where
  "events_wf seq i evs \<longleftrightarrow>
    (\<exists>ns. map ev_event_id evs = map show_nat ns \<and> sorted_wrt (<) ns \<and> list_all (\<lambda>n. n \<le> seq) ns) \<and>
    list_all (\<lambda>ev. ev_task_id ev = i) evs"

definition task_maps_ok :: "task_store \<Rightarrow> bool" where
  "task_maps_ok s \<longleftrightarrow>
    map_ok (ts_tasks s) \<and> map_ok (ts_eventsByTask s) \<and> map_ok (ts_idempotency s) \<and>
    map_ok (ts_taskRequestFingerprints s)"

definition task_ids_wf :: "task_store \<Rightarrow> bool" where
  "task_ids_wf s \<longleftrightarrow>
    (\<forall>i t. map_get (ts_tasks s) i = Some t \<longrightarrow>
       t_task_id t = i \<and> (\<exists>n. n \<le> ts_taskSeq s \<and> i = task_id_of n))"

definition task_doms_wf :: "task_store \<Rightarrow> bool" where
  "task_doms_wf s \<longleftrightarrow>
    (\<forall>i. map_get (ts_eventsByTask s) i = None \<longleftrightarrow> map_get (ts_tasks s) i = None) \<and>
    (\<forall>i. map_get (ts_taskRequestFingerprints s) i = None \<longleftrightarrow> map_get (ts_tasks s) i = None)"

definition task_index_wf :: "task_store \<Rightarrow> bool" where
  "task_index_wf s \<longleftrightarrow>
    (\<forall>k i. map_get (ts_idempotency s) k = Some i \<longrightarrow>
       (\<exists>t key. map_get (ts_tasks s) i = Some t \<and> k = owner_key key (task_owner t))) \<and>
    (\<forall>k k' i. map_get (ts_idempotency s) k = Some i \<longrightarrow> map_get (ts_idempotency s) k' = Some i \<longrightarrow> k = k') \<and>
    (\<forall>i t. map_get (ts_tasks s) i = Some t \<longrightarrow> (\<exists>k. map_get (ts_idempotency s) k = Some i))"

definition task_log_wf :: "task_store \<Rightarrow> bool" where
  "task_log_wf s \<longleftrightarrow>
    (\<forall>i evs. map_get (ts_eventsByTask s) i = Some evs \<longrightarrow> events_wf (ts_eventSeq s) i evs)"

definition task_wf :: "task_store \<Rightarrow> bool" where
  "task_wf s \<longleftrightarrow> task_maps_ok s \<and> task_ids_wf s \<and> task_doms_wf s \<and> task_index_wf s \<and> task_log_wf s"

lemmas task_wf_defs = task_maps_ok_def task_ids_wf_def task_doms_wf_def task_index_wf_def task_log_wf_def

lemma task_id_of_inj [simp]: "task_id_of m = task_id_of n \<longleftrightarrow> m = n"
  by (simp add: task_id_of_def)

lemma events_wf_mono: "events_wf n i evs \<Longrightarrow> n \<le> m \<Longrightarrow> events_wf m i evs"
  unfolding events_wf_def by (auto simp: list_all_iff intro: order_trans)

lemma events_wf_snoc:
  assumes "events_wf n i evs"
  shows "events_wf (Suc n) i
    (evs @ [\<lparr>ev_event_id = show_nat (Suc n), ev_task_id = i, ev_type = ty, ev_ts = ts, ev_error = x\<rparr>])"
proof -
  obtain ns where ns: "map ev_event_id evs = map show_nat ns" "sorted_wrt (<) ns" "list_all (\<lambda>k. k \<le> n) ns"
    using assms by (auto simp: events_wf_def)
  have "map ev_event_id (evs @ [\<lparr>ev_event_id = show_nat (Suc n), ev_task_id = i, ev_type = ty, ev_ts = ts, ev_error = x\<rparr>]) =
      map show_nat (ns @ [Suc n])" using ns by simp
  moreover have "sorted_wrt (<) (ns @ [Suc n])" using ns by (auto simp: sorted_wrt_append list_all_iff)
  moreover have "list_all (\<lambda>k. k \<le> Suc n) (ns @ [Suc n])" using ns by (auto simp: list_all_iff)
  ultimately show ?thesis using assms unfolding events_wf_def by (auto simp del: map_append)
qed

lemma task_wf_empty: "task_wf empty_task_store"
  by (simp add: task_wf_def task_wf_defs empty_task_store_def)

lemma task_idD: "task_ids_wf s \<Longrightarrow> map_get (ts_tasks s) i = Some t \<Longrightarrow> t_task_id t = i"
  unfolding task_ids_wf_def by blast

lemma task_id_issued:
  "task_ids_wf s \<Longrightarrow> map_get (ts_tasks s) i = Some t \<Longrightarrow> \<exists>n \<le> ts_taskSeq s. i = task_id_of n"
  unfolding task_ids_wf_def by blast

lemma task_indexE:
  assumes "task_index_wf s" and "map_get (ts_idempotency s) k = Some i"
  obtains t key where "map_get (ts_tasks s) i = Some t" and "k = owner_key key (task_owner t)"
  using assms unfolding task_index_wf_def by blast

lemma task_index_inj:
  "task_index_wf s \<Longrightarrow> map_get (ts_idempotency s) k = Some i \<Longrightarrow> map_get (ts_idempotency s) k' = Some i \<Longrightarrow> k = k'"
  unfolding task_index_wf_def by blast

lemma task_index_onto:
  "task_index_wf s \<Longrightarrow> map_get (ts_tasks s) i = Some t \<Longrightarrow> \<exists>k. map_get (ts_idempotency s) k = Some i"
  unfolding task_index_wf_def by blast

lemma task_logD: "task_log_wf s \<Longrightarrow> map_get (ts_eventsByTask s) i = Some evs \<Longrightarrow> events_wf (ts_eventSeq s) i evs"
  unfolding task_log_wf_def by blast

text \<open>Emitting an event for a task keeps the invariant.\<close>

lemma emit_wf: "task_wf s \<Longrightarrow> task_wf (emit ts i ty x s)"
proof -
  assume wf: "task_wf s"
  have "task_maps_ok (emit ts i ty x s)" using wf by (simp add: task_wf_def task_maps_ok_def)
  moreover have "task_ids_wf (emit ts i ty x s)" using wf by (simp add: task_wf_def task_ids_wf_def)
  moreover have "task_doms_wf (emit ts i ty x s)" using wf by (simp add: task_wf_def task_doms_wf_def)
  moreover have "task_index_wf (emit ts i ty x s)" using wf by (simp add: task_wf_def task_index_wf_def)
  moreover have "task_log_wf (emit ts i ty x s)"
    using wf unfolding task_log_wf_def task_wf_def
    by (auto intro!: events_wf_snoc intro: events_wf_mono [OF task_logD] simp: task_log_wf_def)
  ultimately show ?thesis by (simp add: task_wf_def)
qed

text \<open>Writing a task back under its id keeps it, as long as its identity fields stay.\<close>

definition same_identity :: "CloudTask \<Rightarrow> CloudTask \<Rightarrow> bool" where
  "same_identity t t' \<longleftrightarrow> t_task_id t' = t_task_id t \<and> task_owner t' = task_owner t"

lemma set_task_wf:
  assumes wf: "task_wf s" and t: "map_get (ts_tasks s) i = Some t" and same: "same_identity t t'"
  shows "task_wf (s\<lparr>ts_tasks := map_set i t' (ts_tasks s)\<rparr>)" (is "task_wf ?s")
proof -
  have "task_maps_ok ?s" using wf by (simp add: task_wf_def task_maps_ok_def)
  moreover have "task_ids_wf ?s"
    using wf t same by (simp add: task_wf_def task_ids_wf_def same_identity_def)
  moreover have "task_doms_wf ?s" using wf t by (simp add: task_wf_def task_doms_wf_def)
  moreover have "task_index_wf ?s"
  proof -
    have ix: "task_index_wf s" using wf by (simp add: task_wf_def)
    have "\<exists>u key. map_get (ts_tasks ?s) j = Some u \<and> k = owner_key key (task_owner u)"
      if "map_get (ts_idempotency ?s) k = Some j" for k j
    proof -
      from that have "map_get (ts_idempotency s) k = Some j" by simp
      from task_indexE [OF ix this] obtain u key
        where "map_get (ts_tasks s) j = Some u" "k = owner_key key (task_owner u)" .
      with t same show ?thesis by (cases "j = i") (auto simp: same_identity_def)
    qed
    moreover have "\<exists>k. map_get (ts_idempotency ?s) k = Some j" if "map_get (ts_tasks ?s) j = Some u" for j u
      using that t task_index_onto [OF ix] by (auto split: if_splits)
    moreover have "k = k'"
      if "map_get (ts_idempotency ?s) k = Some j" "map_get (ts_idempotency ?s) k' = Some j" for k k' j
      using that task_index_inj [OF ix] by simp
    ultimately show ?thesis unfolding task_index_wf_def by blast
  qed
  moreover have "task_log_wf ?s" using wf by (simp add: task_wf_def task_log_wf_def)
  ultimately show ?thesis by (simp add: task_wf_def)
qed

text \<open>A new task under a free key keeps it: the next id is unused.\<close>

lemma fresh_task_id: "task_wf s \<Longrightarrow> map_get (ts_tasks s) (task_id_of (Suc (ts_taskSeq s))) = None"
  by (rule ccontr) (auto simp: task_wf_def dest!: task_id_issued)

lemma add_task_wf:
  assumes wf: "task_wf s" and free: "map_get (ts_idempotency s) (owner_key key (task_owner t)) = None"
    and id: "t_task_id t = task_id_of (Suc (ts_taskSeq s))"
  shows "task_wf (insert_task (owner_key key (task_owner t)) fp t s)" (is "task_wf ?s")
proof -
  note new = fresh_task_id [OF wf] and [simp] = insert_task_def
  have "task_maps_ok ?s" using wf by (simp add: task_wf_def task_maps_ok_def)
  moreover have "task_ids_wf ?s"
    using wf id unfolding task_ids_wf_def task_wf_def
    by (auto split: if_splits intro: le_SucI) (metis le_SucI)+
  moreover have "task_doms_wf ?s" using wf by (simp add: task_wf_def task_doms_wf_def)
  moreover have "task_index_wf ?s"
  proof -
    have ix: "task_index_wf s" using wf by (simp add: task_wf_def)
    have unused: "map_get (ts_idempotency s) k \<noteq> Some (t_task_id t)" for k
      using new id by (auto elim: task_indexE [OF ix])
    show ?thesis
      unfolding task_index_wf_def
    proof (intro conjI allI impI)
      fix k i
      assume "map_get (ts_idempotency ?s) k = Some i"
      with ix unused show "\<exists>u key. map_get (ts_tasks ?s) i = Some u \<and> k = owner_key key (task_owner u)"
        by (auto split: if_splits) (blast elim: task_indexE [OF ix])
    next
      fix k k' i
      assume "map_get (ts_idempotency ?s) k = Some i" "map_get (ts_idempotency ?s) k' = Some i"
      with unused show "k = k'" by (auto split: if_splits dest: task_index_inj [OF ix])
    next
      fix i u
      assume "map_get (ts_tasks ?s) i = Some u"
      with free show "\<exists>k. map_get (ts_idempotency ?s) k = Some i"
        by (auto split: if_splits dest!: task_index_onto [OF ix]) (metis option.distinct(1))
    qed
  qed
  moreover have "task_log_wf ?s"
    using wf by (auto simp: task_wf_def task_log_wf_def events_wf_def)
  ultimately show ?thesis by (simp add: task_wf_def)
qed

text \<open>Removing a task with its key keeps it.\<close>

lemma remove_task_wf:
  assumes wf: "task_wf s"
  shows "task_wf (s\<lparr>ts_tasks := map_delete i (ts_tasks s),
    ts_eventsByTask := map_delete i (ts_eventsByTask s),
    ts_taskRequestFingerprints := map_delete i (ts_taskRequestFingerprints s),
    ts_listeners := map_delete i (ts_listeners s),
    ts_idempotency := map_reject (\<lambda>_ v. v = i) (ts_idempotency s)\<rparr>)" (is "task_wf ?s")
proof -
  have ok: "map_ok (ts_idempotency s)" and ix: "task_index_wf s"
    using wf by (simp_all add: task_wf_def task_maps_ok_def)
  have key: "map_get (ts_idempotency ?s) k = Some j \<longleftrightarrow> map_get (ts_idempotency s) k = Some j \<and> j \<noteq> i" for k j
    using map_get_reject [OF ok, of "\<lambda>_ v. v = i" k] by (auto split: option.splits)
  have "task_maps_ok ?s" using wf by (simp add: task_wf_def task_maps_ok_def)
  moreover have "task_ids_wf ?s" using wf by (simp add: task_wf_def task_ids_wf_def)
  moreover have "task_doms_wf ?s" using wf by (simp add: task_wf_def task_doms_wf_def)
  moreover have "task_index_wf ?s"
    using ix unfolding task_index_wf_def key by simp
  moreover have "task_log_wf ?s" using wf by (simp add: task_wf_def task_log_wf_def)
  ultimately show ?thesis by (simp add: task_wf_def)
qed

subsection \<open>The operations keep the invariant\<close>

text \<open>A patch that leaves the identity of the task alone, as every caller's patch does.\<close>

definition patch_keeps_identity :: "CloudTaskPatch \<Rightarrow> bool" where
  "patch_keeps_identity p \<longleftrightarrow>
    p_task_id p = None \<and> p_tenant_id p = None \<and> p_device_id p = None \<and> p_agent_id p = None"

lemma new_task_owner [simp]: "task_owner (new_task e p n) = request_owner p"
  by (simp add: new_task_def task_owner_def Let_def)

lemma new_task_fields [simp]:
  "t_task_id (new_task e p n) = task_id_of n" "t_status (new_task e p n) = Pending"
  "t_input (new_task e p n) = ct_input p" "t_kind (new_task e p n) = ct_kind p"
  by (simp_all add: new_task_def Let_def)

lemma createTask_wf [inv_intro]: "task_wf s \<Longrightarrow> task_wf (fst (createTask e p s))"
proof -
  assume wf: "task_wf s"
  have "task_wf (insert_task (owner_key (ct_idempotencyKey p) (request_owner p)) fp
      (new_task e p (Suc (ts_taskSeq s))) s)"
    if "map_get (ts_idempotency s) (owner_key (ct_idempotencyKey p) (request_owner p)) = None" for fp
    using add_task_wf [OF wf, of "ct_idempotencyKey p" "new_task e p (Suc (ts_taskSeq s))" fp] that by simp
  with wf show ?thesis
    by (auto simp: createTask_def taskIdempotencyBinding_def Let_def
        intro!: emit_wf split: option.split sum.split)
qed

lemma discardPendingTask_wf [inv_intro]: "task_wf s \<Longrightarrow> task_wf (fst (discardPendingTask i pl s))"
  by (simp add: discardPendingTask_def remove_task_wf split: option.split)

lemma admitPendingTaskInput_wf [inv_intro]: "task_wf s \<Longrightarrow> task_wf (fst (admitPendingTaskInput e i pl v s))"
  by (auto simp: admitPendingTaskInput_def Let_def same_identity_def task_owner_def
      intro: set_task_wf split: option.split)

lemma claimPendingTask_wf [inv_intro]: "task_wf s \<Longrightarrow> task_wf (fst (claimPendingTask e i s))"
  by (auto simp: claimPendingTask_def Let_def same_identity_def task_owner_def
      intro!: emit_wf intro: set_task_wf split: option.split)

lemma write_status_wf:
  "task_wf s \<Longrightarrow> map_get (ts_tasks s) i = Some t \<Longrightarrow> patch_keeps_identity p \<Longrightarrow>
   task_wf (fst (write_status e i t st p s))"
  by (auto simp: write_status_fst write_status_snd same_identity_def task_owner_def
      patch_keeps_identity_def assign_patch_def intro!: emit_wf set_task_wf)

lemma transitionIfStatus_wf [inv_intro]:
  "task_wf s \<Longrightarrow> patch_keeps_identity p \<Longrightarrow> task_wf (fst (transitionIfStatus e i exp st p s))"
  using write_status_wf
  by (auto simp: transitionIfStatus_def case_prod_beta Let_def split: option.split)

lemma transition_wf [inv_intro]:
  "task_wf s \<Longrightarrow> patch_keeps_identity p \<Longrightarrow> task_wf (fst (transition e i st p s))"
  using write_status_wf
  by (auto simp: transition_def mustGet_def case_prod_beta Let_def split: option.split)

lemma task_wf_listeners [simp]:
  "task_wf (s\<lparr>ts_listener_sets := x\<rparr>) = task_wf s" "task_wf (s\<lparr>ts_listeners := y\<rparr>) = task_wf s"
  by (simp_all add: task_wf_def task_wf_defs)

lemma subscribe_wf [inv_intro]: "task_wf s \<Longrightarrow> task_wf (fst (subscribe i l s))"
  by (auto simp: subscribe_def Let_def case_prod_beta task_wf_def task_wf_defs split: option.split)

lemma unsubscribe_wf [inv_intro]: "task_wf s \<Longrightarrow> task_wf (unsubscribe a l s)"
  by (simp add: unsubscribe_def)

subsection \<open>Creation under an idempotency key\<close>

lemma find_after_create:
  assumes "task_wf s" and "createTask e p s = (s', Inr (t, existed))"
    and "normalizeCloudTaskRequestFingerprint (ct_requestFingerprint p) = Some fp"
  shows "findTaskByIdempotency (ct_idempotencyKey p) (request_owner p) s' =
    Inr (Some \<lparr>b_task = t, b_request_fingerprint = fp\<rparr>)"
  using assms
  by (auto simp: createTask_def findTaskByIdempotency_def taskIdempotencyBinding_def mustGet_def Let_def
      insert_task_def split: option.splits sum.splits if_splits)

lemma createTask_existing:
  assumes "findTaskByIdempotency (ct_idempotencyKey p) (request_owner p) s = Inr (Some b)"
    and "normalizeCloudTaskRequestFingerprint (ct_requestFingerprint p) = Some fp"
  shows "createTask e p s =
    (if b_request_fingerprint b = LEGACY_UNBOUND_TASK_REQUEST_FINGERPRINT \<or> b_request_fingerprint b \<noteq> fp
     then (s, Inl IdempotencyConflict) else (s, Inr (b_task b, True)))"
  using assms by (simp add: createTask_def findTaskByIdempotency_def Let_def)

text \<open>A request as the HTTP layer makes it: bound by a versioned fingerprint.\<close>

definition bound_request :: "create_task_request \<Rightarrow> bool" where
  "bound_request p \<longleftrightarrow>
    (case ct_requestFingerprint p of None \<Rightarrow> False | Some fp \<Rightarrow> isCloudTaskRequestFingerprint fp)"

lemma bound_request_normalize:
  "bound_request p \<Longrightarrow> \<exists>fp. ct_requestFingerprint p = Some fp \<and>
    normalizeCloudTaskRequestFingerprint (ct_requestFingerprint p) = Some fp \<and>
    fp \<noteq> LEGACY_UNBOUND_TASK_REQUEST_FINGERPRINT"
  using fingerprint_not_legacy
  by (auto simp: bound_request_def normalizeCloudTaskRequestFingerprint_def
      isLegacyUnboundTaskRequestFingerprint_def split: option.splits)

lemma createTask_replay:
  assumes "task_wf s" and "bound_request p" and "createTask e p s = (s', Inr (t, existed))"
  shows "createTask e' p s' = (s', Inr (t, True))"
proof -
  from bound_request_normalize [OF assms(2)] obtain fp
    where fp: "normalizeCloudTaskRequestFingerprint (ct_requestFingerprint p) = Some fp"
      and new: "fp \<noteq> LEGACY_UNBOUND_TASK_REQUEST_FINGERPRINT" by blast
  from createTask_existing [OF find_after_create [OF assms(1,3) fp] fp] new show ?thesis by simp
qed

interpretation create_task: idempotent_op createTask
  "\<lambda>e p s. task_wf s \<and> bound_request p" "\<lambda>(t, existed). (t, True)"
proof unfold_locales
  fix e p s s' r e'
  assume ok: "task_wf s \<and> bound_request p" and call: "createTask e p s = (s', Inr r)"
  then show "createTask e' p s' = (s', Inr (case r of (t, existed) \<Rightarrow> (t, True)))"
    by (cases r) (auto intro: createTask_replay)
  have "task_wf s'" using createTask_wf [of s e p] ok call by simp
  with ok show "task_wf s' \<and> bound_request p" by simp
qed auto

subsection \<open>Executions\<close>

fun terminal :: "CloudTaskStatus \<Rightarrow> bool" where
  "terminal Pending = False"
| "terminal Running = False"
| "terminal _ = True"

text \<open>
  The steps the server makes: every method, with \<^verbatim>\<open>transitionIfStatus\<close> guarded by pending or
  running and towards another status than pending, as in every call of \<^verbatim>\<open>server.ts\<close>.
\<close>

inductive task_step :: "task_store \<Rightarrow> task_store \<Rightarrow> bool" where
  create: "task_step s (fst (createTask e p s))"
| discard: "task_step s (fst (discardPendingTask i pl s))"
| admit: "task_step s (fst (admitPendingTaskInput e i pl v s))"
| claim: "task_step s (fst (claimPendingTask e i s))"
| guarded: "set exp \<subseteq> {Pending, Running} \<Longrightarrow> st \<noteq> Pending \<Longrightarrow> patch_keeps_identity p \<Longrightarrow>
    task_step s (fst (transitionIfStatus e i exp st p s))"
| subscribed: "task_step s (fst (subscribe i l s))"
| unsubscribed: "task_step s (unsubscribe a l s)"

lemma task_step_wf: "task_step s t \<Longrightarrow> task_wf s \<Longrightarrow> task_wf t"
  by (induction rule: task_step.induct) (auto intro: inv_intro)

text \<open>
  What no step undoes: ids are not issued twice, a removed task does not come back, a task in a
  terminal status is not written again, a task that left the pending status stays and does not
  return to it, and the log of a task only grows at its end.
\<close>

definition task_le_at :: "task_store \<Rightarrow> task_store \<Rightarrow> string \<Rightarrow> bool" where
  "task_le_at s t i \<longleftrightarrow>
    (\<forall>u. map_get (ts_tasks s) i = Some u \<longrightarrow> terminal (t_status u) \<longrightarrow> map_get (ts_tasks t) i = Some u) \<and>
    (\<forall>u. map_get (ts_tasks s) i = Some u \<longrightarrow> t_status u \<noteq> Pending \<longrightarrow>
       (\<exists>u'. map_get (ts_tasks t) i = Some u' \<and> t_status u' \<noteq> Pending)) \<and>
    (\<forall>evs'. map_get (ts_eventsByTask t) i = Some evs' \<longrightarrow>
       (\<exists>evs. map_get (ts_eventsByTask s) i = Some evs \<and> prefix evs evs'))"

definition task_le :: "task_store \<Rightarrow> task_store \<Rightarrow> bool" where
  "task_le s t \<longleftrightarrow>
    ts_taskSeq s \<le> ts_taskSeq t \<and> ts_eventSeq s \<le> ts_eventSeq t \<and>
    (\<forall>n \<le> ts_taskSeq s. task_le_at s t (task_id_of n))"

lemma task_le_at_trans: "task_le_at s t i \<Longrightarrow> task_le_at t u i \<Longrightarrow> task_le_at s u i"
  unfolding task_le_at_def by (blast intro: prefix_order.order_trans)

lemma task_le_refl: "task_le s s"
  by (simp add: task_le_def task_le_at_def)

lemma task_le_trans: "task_le s t \<Longrightarrow> task_le t u \<Longrightarrow> task_le s u"
  unfolding task_le_def by (auto intro: task_le_at_trans)

text \<open>A write to the record of a task that is not terminal, followed by an event on it.\<close>

lemma task_le_write:
  assumes "map_get (ts_tasks s) i = Some u" and "\<not> terminal (t_status u)"
    and "t_status u \<noteq> Pending \<Longrightarrow> t_status u' \<noteq> Pending"
  shows "task_le s (s\<lparr>ts_tasks := map_set i u' (ts_tasks s)\<rparr>)"
  using assms by (auto simp: task_le_def task_le_at_def)

lemma task_le_emit: "task_le s (emit ts i ty x s)"
  by (auto simp: task_le_def task_le_at_def split: if_splits)

lemma task_le_frame:
  "ts_taskSeq t = ts_taskSeq s \<Longrightarrow> ts_eventSeq t = ts_eventSeq s \<Longrightarrow> ts_tasks t = ts_tasks s \<Longrightarrow>
   ts_eventsByTask t = ts_eventsByTask s \<Longrightarrow> task_le s t"
  by (simp add: task_le_def task_le_at_def)

lemma task_le_insert:
  "t_task_id u = task_id_of (Suc (ts_taskSeq s)) \<Longrightarrow> task_le s (insert_task k fp u s)"
  by (auto simp: task_le_def task_le_at_def insert_task_def)

lemma task_le_create: "task_le s (fst (createTask e p s))"
  by (auto simp: createTask_def Let_def split: option.split sum.split
      intro!: task_le_refl task_le_trans [OF task_le_insert task_le_emit])

lemma task_le_discard: "task_le s (fst (discardPendingTask i pl s))"
  by (auto simp: discardPendingTask_def awaiting_admission_def task_le_def task_le_at_def split: option.split)

lemma task_le_admit: "task_le s (fst (admitPendingTaskInput e i pl v s))"
  by (auto simp: admitPendingTaskInput_def awaiting_admission_def Let_def
      intro!: task_le_write task_le_refl split: option.split)

lemma task_le_claim: "task_le s (fst (claimPendingTask e i s))"
  by (auto simp: claimPendingTask_def Let_def split: option.split
      intro!: task_le_refl task_le_trans [OF task_le_write task_le_emit])

lemma task_le_guarded:
  assumes "set exp \<subseteq> {Pending, Running}" and "st \<noteq> Pending"
  shows "task_le s (fst (transitionIfStatus e i exp st p s))"
proof -
  have "\<not> terminal st'" if "st' \<in> set exp" for st' using assms that by (cases st') auto
  with assms(2) show ?thesis
    by (auto simp: transitionIfStatus_def write_status_fst write_status_snd case_prod_beta Let_def split: option.split
        intro!: task_le_refl task_le_trans [OF task_le_write task_le_emit])
qed

lemma task_le_subscribe: "task_le s (fst (subscribe i l s))"
  by (auto simp: subscribe_def Let_def case_prod_beta intro!: task_le_frame split: option.split)

lemma task_step_le: "task_step s t \<Longrightarrow> task_le s t"
  by (induction rule: task_step.induct)
    (auto intro: task_le_create task_le_discard task_le_admit task_le_claim task_le_guarded
      task_le_subscribe task_le_frame simp: unsubscribe_def)

interpretation task_run: step_monotone task_step task_wf task_le
  by unfold_locales
    (auto intro: task_step_wf task_le_refl task_step_le task_le_trans)

subsection \<open>Properties\<close>

definition sample_request :: create_task_request where
  "sample_request = \<lparr>ct_idempotencyKey = ''key-1'', ct_kind = ''skill.execute'', ct_input = Null,
     ct_owner = Some \<lparr>o_tenant_id = ''t1'', o_device_id = ''d1'', o_agent_id = ''a1''\<rparr>,
     ct_requestFingerprint = Some (''v1:'' @ replicate 64 CHR ''a'')\<rparr>"

lemma sample_request_bound [simp]: "bound_request sample_request"
  by (simp add: bound_request_def sample_request_def isCloudTaskRequestFingerprint_def starts_with_def
      is_digest_def all_within_def is_hex_def char_in_def list_all_iff)

lemma sample_request_normalize [simp]:
  "normalizeCloudTaskRequestFingerprint (ct_requestFingerprint sample_request) = ct_requestFingerprint sample_request"
  using sample_request_bound
  by (auto simp: normalizeCloudTaskRequestFingerprint_def bound_request_def split: option.splits)

definition sample_task :: CloudTask where
  "sample_task = new_task sample_env sample_request 1"

definition sample_store :: task_store where
  "sample_store = fst (createTask sample_env sample_request empty_task_store)"

lemma sample_store_wf [simp]: "task_wf sample_store"
  by (simp add: sample_store_def createTask_wf task_wf_empty)

lemma sample_create:
  "createTask sample_env sample_request empty_task_store = (sample_store, Inr (sample_task, False))"
proof -
  obtain fp where "ct_requestFingerprint sample_request = Some fp" by (simp add: sample_request_def)
  then show ?thesis
    using sample_request_normalize
    by (simp add: sample_store_def sample_task_def createTask_def taskIdempotencyBinding_def
        empty_task_store_def Let_def)
qed

text \<open>
  C12: a cloud task request that carries a versioned fingerprint is created once. After the first
  call succeeds, any number of retries of the same request leaves the store as it is and answers
  with the same task, marked as existing.
\<close>

theorem create_task_idempotent:
  assumes "task_wf s" and "bound_request p" and "createTask e p s = (s', Inr (t, existed))"
  shows "retry createTask p (e # es) s = (s', Inr (t, existed) # map (\<lambda>_. Inr (t, True)) es)"
  using create_task.retry_once [of s p e s' "(t, existed)" es] assms by simp

theorem create_task_idempotent_witness:
  "retry createTask sample_request (sample_env # [sample_env]) empty_task_store =
    (sample_store, Inr (sample_task, False) # [Inr (sample_task, True)])"
  using create_task_idempotent [OF task_wf_empty sample_request_bound sample_create, of "[sample_env]"]
  by simp

text \<open>
  C29: an idempotency key is bound to the first request made under it. The same owner and key with
  any other fingerprint, or with none, is refused with the conflict error and the store does not
  change.
\<close>

theorem create_task_conflict:
  assumes "task_wf s" and "createTask e p s = (s', Inr (t, existed))"
    and "ct_idempotencyKey p' = ct_idempotencyKey p" and "request_owner p' = request_owner p"
    and "ct_requestFingerprint p' \<noteq> ct_requestFingerprint p \<or> ct_requestFingerprint p' = None"
  shows "createTask e' p' s' = (s', Inl IdempotencyConflict)"
proof -
  obtain fp where fp: "normalizeCloudTaskRequestFingerprint (ct_requestFingerprint p) = Some fp"
    using assms(2) by (cases "normalizeCloudTaskRequestFingerprint (ct_requestFingerprint p)")
      (auto simp: createTask_def)
  note found = find_after_create [OF assms(1,2) fp, folded assms(3,4)]
  show ?thesis
  proof (cases "normalizeCloudTaskRequestFingerprint (ct_requestFingerprint p')")
    case None
    then show ?thesis by (simp add: createTask_def)
  next
    case (Some fp')
    have "fp = LEGACY_UNBOUND_TASK_REQUEST_FINGERPRINT \<or> fp \<noteq> fp'"
      using assms(5) fp Some
      by (auto simp: normalizeCloudTaskRequestFingerprint_def isLegacyUnboundTaskRequestFingerprint_def
          split: option.splits if_splits)
    then show ?thesis using createTask_existing [OF found Some] by auto
  qed
qed

theorem create_task_conflict_witness:
  "createTask sample_env (sample_request\<lparr>ct_requestFingerprint := None\<rparr>) sample_store =
    (sample_store, Inl IdempotencyConflict)"
  by (rule create_task_conflict [OF task_wf_empty sample_create]) (simp_all add: request_owner_def)

definition separable :: "create_task_request \<Rightarrow> bool" where
  "separable p \<longleftrightarrow> no_nul (o_tenant_id (request_owner p)) \<and> no_nul (o_device_id (request_owner p)) \<and>
     no_nul (o_agent_id (request_owner p))"

lemma owner_key_inj:
  assumes "owner_key k (request_owner p) = owner_key k' (request_owner p')" and "separable p" and "separable p'"
  shows "k = k' \<and> request_owner p = request_owner p'"
  using nul_join_inj [of "[o_tenant_id (request_owner p), o_device_id (request_owner p), o_agent_id (request_owner p), k]"
      "[o_tenant_id (request_owner p'), o_device_id (request_owner p'), o_agent_id (request_owner p'), k']"] assms
  by (simp add: owner_key_def separable_def)

lemma createTask_key:
  assumes "task_wf s" and "createTask e p s = (s', Inr (t, existed))"
  shows "map_get (ts_idempotency s') (owner_key (ct_idempotencyKey p) (request_owner p)) = Some (t_task_id t)"
proof -
  have "task_ids_wf s" using assms(1) by (simp add: task_wf_def)
  then show ?thesis
    using assms(2)
    by (auto simp: createTask_def taskIdempotencyBinding_def mustGet_def Let_def insert_task_def task_idD
        split: option.splits sum.splits if_splits)
qed

lemma createTask_get:
  assumes "task_wf s" and "createTask e p s = (s', Inr (t, existed))"
  shows "map_get (ts_tasks s') (t_task_id t) = Some t"
proof -
  have "task_ids_wf s" using assms(1) by (simp add: task_wf_def)
  then show ?thesis
    using assms(2)
    by (auto simp: createTask_def taskIdempotencyBinding_def mustGet_def Let_def insert_task_def task_idD
        split: option.splits sum.splits if_splits)
qed

lemma createTask_keeps_keys:
  "map_get (ts_idempotency s) k = Some i \<Longrightarrow> map_get (ts_idempotency (fst (createTask e p s))) k = Some i"
  by (auto simp: createTask_def taskIdempotencyBinding_def mustGet_def Let_def insert_task_def
      split: option.splits sum.splits)

text \<open>
  idempotency is scoped to the owner. Two successful creations answer with the same task only
  if tenant, device, agent and key all agree, provided none of these holds the separator
  character of the composite key.
\<close>

theorem create_task_isolated:
  assumes "task_wf s" and "createTask e p s = (s', Inr (t, x))" and "createTask e' p' s' = (s'', Inr (t', x'))"
    and "separable p" and "separable p'" and "t_task_id t' = t_task_id t"
  shows "ct_idempotencyKey p' = ct_idempotencyKey p \<and> request_owner p' = request_owner p"
proof -
  have wf': "task_wf s'" using createTask_wf [OF assms(1), of e p] assms(2) by simp
  then have wf'': "task_wf s''" using createTask_wf [of s' e' p'] assms(3) by simp
  have "map_get (ts_idempotency s'') (owner_key (ct_idempotencyKey p) (request_owner p)) = Some (t_task_id t)"
    using createTask_keeps_keys [OF createTask_key [OF assms(1,2)], of e' p'] assms(3) by simp
  moreover have "map_get (ts_idempotency s'') (owner_key (ct_idempotencyKey p') (request_owner p')) = Some (t_task_id t)"
    using createTask_key [OF wf' assms(3)] assms(6) by simp
  ultimately have "owner_key (ct_idempotencyKey p) (request_owner p) = owner_key (ct_idempotencyKey p') (request_owner p')"
    using wf'' task_index_inj by (auto simp: task_wf_def)
  from owner_key_inj [OF this assms(4,5)] show ?thesis by simp
qed

lemma sample_request_separable [simp]: "separable sample_request"
  by (simp add: separable_def sample_request_def request_owner_def no_nul_def nul_def)

theorem create_task_isolated_witness:
  "createTask sample_env sample_request sample_store = (sample_store, Inr (sample_task, True)) \<and>
   ct_idempotencyKey sample_request = ct_idempotencyKey sample_request \<and>
   request_owner sample_request = request_owner sample_request"
proof -
  note again = createTask_replay [OF task_wf_empty sample_request_bound sample_create, of sample_env]
  from again create_task_isolated [OF task_wf_empty sample_create again] show ?thesis by simp
qed

lemma claim_status:
  "claimPendingTask e i s = (s', Some t) \<Longrightarrow> map_get (ts_tasks s') i = Some t \<and> t_status t = Running"
  by (auto simp: claimPendingTask_def Let_def split: option.splits if_splits)

text \<open>The same facts for a task id as the store holds it.\<close>

lemma run_terminal:
  assumes "task_wf s" and "task_step\<^sup>*\<^sup>* s u" and "map_get (ts_tasks s) i = Some t" and "terminal (t_status t)"
  shows "map_get (ts_tasks u) i = Some t"
proof -
  obtain n where n: "n \<le> ts_taskSeq s" "i = task_id_of n"
    using task_id_issued [of s i t] assms(1,3) unfolding task_wf_def by blast
  have "task_le s u" using task_run.run_le assms(1,2) by blast
  with n assms(3,4) show ?thesis unfolding task_le_def task_le_at_def by blast
qed

lemma run_left_pending:
  assumes "task_wf s" and "task_step\<^sup>*\<^sup>* s u" and "map_get (ts_tasks s) i = Some t" and "t_status t \<noteq> Pending"
  shows "\<exists>t'. map_get (ts_tasks u) i = Some t' \<and> t_status t' \<noteq> Pending"
proof -
  obtain n where n: "n \<le> ts_taskSeq s" "i = task_id_of n"
    using task_id_issued [of s i t] assms(1,3) unfolding task_wf_def by blast
  have "task_le s u" using task_run.run_le assms(1,2) by blast
  with n assms(3,4) show ?thesis unfolding task_le_def task_le_at_def by blast
qed

text \<open>
  C24: claiming is a compare-and-set. A claim succeeds only on a pending task and makes it running;
  however the operations of the server interleave afterwards, no later claim of that task succeeds.
\<close>

theorem claim_exclusive:
  assumes "task_wf s" and "claimPendingTask e i s = (s', Some t)" and "task_step\<^sup>*\<^sup>* s' u"
  shows "map_option t_status (getTask i s) = Some Pending \<and> map_option t_status (getTask i s') = Some Running \<and>
    claimPendingTask e' i u = (u, None)"
proof -
  have run: "map_get (ts_tasks s') i = Some t" "t_status t = Running" using claim_status [OF assms(2)] by auto
  have wf': "task_wf s'" using claimPendingTask_wf [OF assms(1), of e i] assms(2) by simp
  obtain t' where "map_get (ts_tasks u) i = Some t'" "t_status t' \<noteq> Pending"
    using run_left_pending [OF wf' assms(3) run(1)] run(2) by auto
  then have "claimPendingTask e' i u = (u, None)" by (simp add: claimPendingTask_def)
  moreover have "map_option t_status (getTask i s) = Some Pending"
    using assms(2) by (auto simp: getTask_def claimPendingTask_def split: option.splits if_splits)
  ultimately show ?thesis using run by (simp add: getTask_def)
qed

definition sample_claimed :: task_store where
  "sample_claimed = fst (claimPendingTask sample_env (task_id_of 1) sample_store)"

lemma sample_get: "map_get (ts_tasks sample_store) (task_id_of 1) = Some sample_task"
  using createTask_get [OF task_wf_empty sample_create] by (simp add: sample_task_def)

lemma sample_claim:
  "claimPendingTask sample_env (task_id_of 1) sample_store =
    (sample_claimed, Some (sample_task\<lparr>t_status := Running, t_updated_at := now_iso sample_env 0\<rparr>))"
  using sample_get by (simp add: sample_claimed_def claimPendingTask_def Let_def sample_task_def)

theorem claim_exclusive_witness:
  "map_option t_status (getTask (task_id_of 1) sample_store) = Some Pending \<and>
   map_option t_status (getTask (task_id_of 1) sample_claimed) = Some Running \<and>
   claimPendingTask sample_env (task_id_of 1) sample_claimed = (sample_claimed, None)"
  by (rule claim_exclusive [OF sample_store_wf sample_claim rtranclp.rtrancl_refl])


definition sample_cancelled :: task_store where
  "sample_cancelled =
    fst (transitionIfStatus sample_env (task_id_of 1) [Pending, Running] Cancelled no_patch sample_store)"

definition sample_cancelled_task :: CloudTask where
  "sample_cancelled_task =
    (assign_patch no_patch sample_task)\<lparr>t_status := Cancelled, t_updated_at := now_iso sample_env 0\<rparr>"

lemma sample_cancelled_get: "getTask (task_id_of 1) sample_cancelled = Some sample_cancelled_task"
  using sample_get
  by (simp add: getTask_def sample_cancelled_def transitionIfStatus_def case_prod_beta Let_def
      write_status_fst write_status_snd sample_task_def sample_cancelled_task_def)

lemma sample_cancelled_wf: "task_wf sample_cancelled"
  unfolding sample_cancelled_def
  by (rule transitionIfStatus_wf) (simp_all add: patch_keeps_identity_def no_patch_def)


lemma filter_tail:
  assumes "\<And>j. j < length xs \<Longrightarrow> P (xs ! j) \<longleftrightarrow> k \<le> j"
  shows "filter P xs = drop k xs"
proof -
  have "filter P (take k xs) = []"
    using assms by (auto simp: filter_empty_conv in_set_conv_nth)
  moreover have "filter P (drop k xs) = drop k xs"
    using assms by (auto simp: filter_id_conv in_set_conv_nth)
  ultimately show ?thesis by (metis append_Nil append_take_drop_id filter_append)
qed

lemma sorted_nth_less_iff:
  fixes ns :: "nat list"
  assumes "sorted_wrt (<) ns" and "i < length ns" and "j < length ns"
  shows "ns ! i < ns ! j \<longleftrightarrow> i < j"
  using assms by (metis linorder_neqE_nat not_less_iff_gr_or_eq sorted_wrt_nth_less)

text \<open>
  a client that reconnects with the id of the last event it saw gets exactly the events of the
  task after that one, in order: none lost, none repeated. The event counter is below
  \<open>10 ^ 15\<close>, where \<^verbatim>\<open>Number\<close> reads a numeral exactly.
\<close>

theorem event_replay_exact:
  assumes wf: "task_wf s" and small: "ts_eventSeq s < 10 ^ 15"
    and evs: "eventsAfter e i None s = evs" and k: "k < length evs"
  shows "eventsAfter e i (Some (ev_event_id (evs ! k))) s = drop (Suc k) evs"
proof -
  have get: "map_get (ts_eventsByTask s) i = Some evs"
    using evs k by (auto simp: eventsAfter_def Let_def split: option.splits)
  moreover have "task_log_wf s" using wf by (simp add: task_wf_def)
  ultimately have "events_wf (ts_eventSeq s) i evs" by (rule task_logD [rotated])
  then obtain ns where ns: "map ev_event_id evs = map show_nat ns" "sorted_wrt (<) ns"
      "list_all (\<lambda>n. n \<le> ts_eventSeq s) ns"
    unfolding events_wf_def by blast
  then have len: "length ns = length evs" by (metis length_map)
  have num: "js_Number e (ev_event_id (evs ! j)) = IntNum (int (ns ! j))" if j: "j < length evs" for j
  proof -
    have "ns ! j < 10 ^ 15" using ns(3) small len j by (metis list_all_length order_le_less_trans)
    moreover have "ev_event_id (evs ! j) = show_nat (ns ! j)" using ns(1) len j by (metis nth_map)
    ultimately show ?thesis by (simp add: js_Number_show_nat)
  qed
  have "filter (\<lambda>ev. js_greater e (js_Number e (ev_event_id ev)) (js_Number e (ev_event_id (evs ! k)))) evs =
      drop (Suc k) evs"
    using num k len sorted_nth_less_iff [OF ns(2)] by (intro filter_tail) (simp add: Suc_le_eq)
  then show ?thesis using get by (simp add: eventsAfter_def Let_def)
qed

lemma createTask_new:
  assumes "normalizeCloudTaskRequestFingerprint (ct_requestFingerprint p) = Some fp"
    and "map_get (ts_idempotency s) (owner_key (ct_idempotencyKey p) (request_owner p)) = None"
  shows "createTask e p s =
    (emit (now_iso e 1) (task_id_of (Suc (ts_taskSeq s))) ''task.accepted'' None
      (insert_task (owner_key (ct_idempotencyKey p) (request_owner p)) fp (new_task e p (Suc (ts_taskSeq s))) s),
     Inr (new_task e p (Suc (ts_taskSeq s)), False))"
  using assms by (simp add: createTask_def taskIdempotencyBinding_def Let_def)

lemma sample_store_unfold:
  "\<exists>k fp. sample_store = emit ''2026-01-01T00:00:00.000Z'' (task_id_of 1) ''task.accepted'' None
    (insert_task k fp sample_task empty_task_store)"
proof -
  obtain fp where "ct_requestFingerprint sample_request = Some fp" by (simp add: sample_request_def)
  then have "normalizeCloudTaskRequestFingerprint (ct_requestFingerprint sample_request) = Some fp"
    using sample_request_normalize by metis
  from createTask_new [OF this, of empty_task_store sample_env] show ?thesis
    by (auto simp: sample_store_def sample_task_def empty_task_store_def)
qed

lemma sample_events:
  "eventsAfter e (task_id_of 1) None sample_store =
    [\<lparr>ev_event_id = show_nat 1, ev_task_id = task_id_of 1, ev_type = ''task.accepted'',
      ev_ts = ''2026-01-01T00:00:00.000Z'', ev_error = None\<rparr>]"
proof -
  obtain k fp where st: "sample_store = emit ''2026-01-01T00:00:00.000Z'' (task_id_of 1) ''task.accepted'' None
      (insert_task k fp sample_task empty_task_store)" using sample_store_unfold by blast
  show ?thesis
    unfolding st by (simp add: eventsAfter_def insert_task_def empty_task_store_def sample_task_def)
qed

lemma sample_eventSeq: "ts_eventSeq sample_store = 1"
proof -
  obtain k fp where st: "sample_store = emit ''2026-01-01T00:00:00.000Z'' (task_id_of 1) ''task.accepted'' None
      (insert_task k fp sample_task empty_task_store)" using sample_store_unfold by blast
  show ?thesis unfolding st by (simp add: insert_task_def empty_task_store_def)
qed

theorem event_replay_exact_witness:
  "eventsAfter sample_env (task_id_of 1) (Some (show_nat 1)) sample_store = []"
  using event_replay_exact [OF sample_store_wf _ sample_events, of 0 sample_env]
  by (simp add: sample_eventSeq)

text \<open>
  admission happens at most once. A placeholder is replaced by the real input only in a pending
  task that still holds this placeholder; once the input is no placeholder, no later admission and
  no discard touches the task.
\<close>

theorem admission_once:
  assumes "task_wf s" and "admitPendingTaskInput e i pl v s = (s', Some t)"
    and "\<not> isCloudTaskAdmissionPlaceholder v None"
  shows "map_option t_status (getTask i s) = Some Pending \<and>
    t_input t = v \<and> t_status t = Pending \<and> getTask i s' = Some t \<and>
    admitPendingTaskInput e' i pl' v' s' = (s', None) \<and> discardPendingTask i pl' s' = (s', False)"
proof -
  have t: "map_get (ts_tasks s') i = Some t" "t_input t = v" "t_status t = Pending"
    "map_option t_status (getTask i s) = Some Pending"
    using assms(2) by (auto simp: admitPendingTaskInput_def awaiting_admission_def Let_def getTask_def
        split: option.splits if_splits)
  have "\<not> isCloudTaskAdmissionPlaceholder v (Some pl')"
    using assms(3) by (cases v) (auto split: option.splits js_value.splits)
  with t show ?thesis
    by (simp add: getTask_def admitPendingTaskInput_def discardPendingTask_def awaiting_admission_def)
qed

definition sample_placeholder :: CloudTaskAdmissionPlaceholder where
  "sample_placeholder = \<lparr>ap_request_fingerprint = ''v1:'' @ replicate 64 CHR ''a'',
     ap_input_digest = replicate 64 CHR ''b''\<rparr>"

definition sample_pending_request :: create_task_request where
  "sample_pending_request = sample_request\<lparr>ct_input := placeholder_value sample_placeholder\<rparr>"

definition sample_pending :: task_store where
  "sample_pending = fst (createTask sample_env sample_pending_request empty_task_store)"

definition sample_admitted :: task_store where
  "sample_admitted = fst (admitPendingTaskInput sample_env (task_id_of 1) sample_placeholder Null sample_pending)"

lemma sample_placeholder_ok:
  "isCloudTaskAdmissionPlaceholder (placeholder_value sample_placeholder) None"
  "isCloudTaskAdmissionPlaceholder (placeholder_value sample_placeholder) (Some sample_placeholder)"
  by code_simp+

lemma sample_pending_wf: "task_wf sample_pending"
  by (simp add: sample_pending_def createTask_wf task_wf_empty)

lemma sample_pending_create:
  "createTask sample_env sample_pending_request empty_task_store =
    (sample_pending, Inr (new_task sample_env sample_pending_request 1, False))"
proof -
  obtain fp where "ct_requestFingerprint sample_request = Some fp" by (simp add: sample_request_def)
  then have "normalizeCloudTaskRequestFingerprint (ct_requestFingerprint sample_pending_request) = Some fp"
    using sample_request_normalize by (auto simp: sample_pending_request_def simp del: sample_request_normalize)
  from createTask_new [OF this, of empty_task_store sample_env] show ?thesis
    by (simp add: sample_pending_def empty_task_store_def)
qed

lemma sample_pending_get:
  "map_get (ts_tasks sample_pending) (task_id_of 1) = Some (new_task sample_env sample_pending_request 1)"
  using createTask_get [OF task_wf_empty sample_pending_create] by simp

lemma sample_admit:
  "\<exists>t. admitPendingTaskInput sample_env (task_id_of 1) sample_placeholder Null sample_pending =
    (sample_admitted, Some t)"
  using sample_pending_get sample_placeholder_ok
  by (simp add: sample_admitted_def admitPendingTaskInput_def awaiting_admission_def
      sample_pending_request_def Let_def)

theorem admission_once_witness:
  "map_option t_status (getTask (task_id_of 1) sample_pending) = Some Pending \<and>
   admitPendingTaskInput sample_env (task_id_of 1) sample_placeholder Null sample_admitted = (sample_admitted, None) \<and>
   discardPendingTask (task_id_of 1) sample_placeholder sample_admitted = (sample_admitted, False)"
proof -
  obtain t where t: "admitPendingTaskInput sample_env (task_id_of 1) sample_placeholder Null sample_pending =
    (sample_admitted, Some t)" using sample_admit by blast
  show ?thesis
    using admission_once [OF sample_pending_wf t, of sample_env sample_placeholder Null] by simp
qed

lemma discard_taken:
  assumes "discardPendingTask i pl s = (s', True)"
  shows "s' = s\<lparr>ts_tasks := map_delete i (ts_tasks s),
    ts_eventsByTask := map_delete i (ts_eventsByTask s),
    ts_taskRequestFingerprints := map_delete i (ts_taskRequestFingerprints s),
    ts_listeners := map_delete i (ts_listeners s),
    ts_idempotency := map_reject (\<lambda>_ v. v = i) (ts_idempotency s)\<rparr>"
    and "\<exists>t. map_get (ts_tasks s) i = Some t"
  using assms by (auto simp: discardPendingTask_def split: option.splits if_splits)

text \<open>
  discarding a task that was never admitted takes back its creation. The task, its events and
  its idempotency key are gone and every other task is as it was; the request can be sent again
  under the same key and gets a new task, whose id was never issued before.
\<close>

theorem discard_frees_key:
  assumes "task_wf s" and "createTask e p s = (s1, Inr (t, False))" and "task_step\<^sup>*\<^sup>* s1 s2"
    and "discardPendingTask (t_task_id t) pl s2 = (s3, True)"
    and "map_get (ts_idempotency s2) (owner_key (ct_idempotencyKey p) (request_owner p)) = Some (t_task_id t)"
  shows "getTask (t_task_id t) s3 = None \<and> eventsAfter e' (t_task_id t) None s3 = [] \<and>
    (\<forall>j. j \<noteq> t_task_id t \<longrightarrow> getTask j s3 = getTask j s2) \<and>
    (\<exists>s4 t'. createTask e' p s3 = (s4, Inr (t', False)) \<and> getTask (t_task_id t') s2 = None \<and>
       t_input t' = ct_input p)"
proof -
  have wf1: "task_wf s1" using createTask_wf [OF assms(1), of e p] assms(2) by simp
  have wf2: "task_wf s2" by (rule task_run.run_inv [OF assms(3) wf1])
  note s3 = discard_taken(1) [OF assms(4)]
  have ok: "map_ok (ts_idempotency s2)" using wf2 by (simp add: task_wf_def task_maps_ok_def)
  obtain fp where fp: "normalizeCloudTaskRequestFingerprint (ct_requestFingerprint p) = Some fp"
    using assms(2) by (cases "normalizeCloudTaskRequestFingerprint (ct_requestFingerprint p)")
      (auto simp: createTask_def)
  have "map_get (ts_idempotency s3) (owner_key (ct_idempotencyKey p) (request_owner p)) = None"
    using s3 map_get_reject [OF ok] assms(5) by simp
  from createTask_new [OF fp this, of e'] fresh_task_id [OF wf2] s3 show ?thesis
    by (simp add: getTask_def eventsAfter_def)
qed

theorem discard_frees_key_witness:
  "\<exists>s4 t'. createTask sample_env sample_pending_request
      (fst (discardPendingTask (task_id_of 1) sample_placeholder sample_pending)) = (s4, Inr (t', False))"
proof -
  have d: "discardPendingTask (t_task_id (new_task sample_env sample_pending_request 1)) sample_placeholder sample_pending =
      (fst (discardPendingTask (task_id_of 1) sample_placeholder sample_pending), True)"
    using sample_pending_get sample_placeholder_ok
    by (simp add: discardPendingTask_def awaiting_admission_def sample_pending_request_def)
  show ?thesis
    using discard_frees_key [OF task_wf_empty sample_pending_create rtranclp.rtrancl_refl d
        createTask_key [OF task_wf_empty sample_pending_create], of sample_env] by blast
qed

end
