(* ===== verification/Device_Store.thy ===== *)
theory Device_Store
  imports JS_Time
begin

text \<open>
  The device part of \<^verbatim>\<open>MemoryStore\<close> (\<^verbatim>\<open>apps/longhub-cloud-api/src/memory-store.ts\<close>):
  registration, the one-time pairing codes that bind a device to a portal account, activation codes
  and the pack entitlements they grant; with the activation status and the code format of
  \<^verbatim>\<open>activation-code.ts\<close>. The lemmas show that a device has at most one redeemable pairing code,
  that a code activates no more devices than it has uses, and that a redemption retried is one
  redemption.
\<close>

subsection \<open>Records\<close>

datatype DeviceStatus = DeviceActive | DeviceRevoked

record DeviceRecord =
  d_device_id :: string
  d_tenant_id :: string
  d_status :: DeviceStatus
  d_platform :: string
  d_app_version :: string
  d_device_fingerprint :: string
  d_display_name :: "string option"
  d_device_token :: "string option"
  d_user_id :: "string option"
  d_activation_code_id :: "string option"
  d_activated_at :: "string option"
  d_last_seen_at :: "string option"
  d_last_model_success_at :: "string option"
  d_last_error_code :: "string option"
  d_credential_rotated_at :: "string option"
  d_min_required_version :: "string option"
  d_rollout_group :: "string option"
  d_created_at :: string

record DevicePairingChallengeRecord =
  pc_challenge_id :: string
  pc_device_id :: string
  pc_tenant_id :: string
  pc_code_hash :: string
  pc_expires_at :: string
  pc_consumed_at :: "string option"
  pc_created_at :: string

datatype PairingRefusal = CODE_INVALID | CODE_EXPIRED | PAIR_DEVICE_NOT_FOUND | DEVICE_ALREADY_BOUND | DEVICE_REVOKED

datatype ActivationCodeStatus = CodeActive | CodeRevoked

record ActivationCodeRecord =
  ac_activation_code_id :: string
  ac_tenant_id :: string
  ac_code_hash :: string
  ac_code_hint :: string
  ac_label :: "string option"
  ac_status :: ActivationCodeStatus
  ac_max_uses :: int
  ac_use_count :: int
  ac_pack_ids :: "string list"
  ac_expires_at :: string
  ac_created_at :: string

datatype RedemptionRefusal = DEVICE_NOT_FOUND | CODE_UNAVAILABLE

record ActivationRedemption =
  ar_code :: ActivationCodeRecord
  ar_device :: DeviceRecord
  ar_alreadyActivated :: bool

datatype EntitlementScope = ScopeTenant | ScopeUser | ScopeDevice

datatype EntitlementStatus = EntActive | EntSuspended | EntRevoked

record EntitlementRecord =
  en_entitlement_id :: string
  en_tenant_id :: string
  en_device_id :: string
  en_pack_id :: string
  en_scope :: EntitlementScope
  en_status :: EntitlementStatus
  en_expires_at :: string
  en_source_activation_code_id :: "string option"
  en_source_order_id :: "string option"
  en_created_at :: string

record device_store =
  ds_devices :: "(string, DeviceRecord) js_map"
  ds_devicePairingChallenges :: "(string, DevicePairingChallengeRecord) js_map"
  ds_devicePairingByHash :: "(string, string) js_map"
  ds_activationCodes :: "(string, ActivationCodeRecord) js_map"
  ds_entitlements :: "(string, EntitlementRecord) js_map"

definition empty_device_store :: device_store where
  "empty_device_store =
    \<lparr>ds_devices = [], ds_devicePairingChallenges = [], ds_devicePairingByHash = [],
     ds_activationCodes = [], ds_entitlements = []\<rparr>"

definition FAR_FUTURE :: string where
  "FAR_FUTURE = ''2099-12-31T00:00:00.000Z''"

subsection \<open>Devices\<close>

definition deviceClone :: "DeviceRecord \<Rightarrow> bool \<Rightarrow> DeviceRecord" where
  "deviceClone device includeToken = (if includeToken then device else device\<lparr>d_device_token := None\<rparr>)"

record register_device_params =
  rd_tenant_id :: string
  rd_platform :: string
  rd_app_version :: string
  rd_device_fingerprint :: string
  rd_display_name :: "string option"

definition new_device :: "js_env \<Rightarrow> register_device_params \<Rightarrow> DeviceRecord" where
  "new_device e p =
    \<lparr>d_device_id = ''dev-'' @ uuid e 0, d_tenant_id = rd_tenant_id p, d_status = DeviceActive,
     d_platform = rd_platform p, d_app_version = rd_app_version p,
     d_device_fingerprint = rd_device_fingerprint p, d_display_name = rd_display_name p,
     d_device_token = Some (''dt-'' @ uuid e 1 @ uuid e 2), d_user_id = None, d_activation_code_id = None,
     d_activated_at = None, d_last_seen_at = None, d_last_model_success_at = None, d_last_error_code = None,
     d_credential_rotated_at = None, d_min_required_version = None, d_rollout_group = None,
     d_created_at = now_iso e 0\<rparr>"

definition same_device :: "register_device_params \<Rightarrow> DeviceRecord \<Rightarrow> bool" where
  "same_device p device \<longleftrightarrow>
    d_tenant_id device = rd_tenant_id p \<and> d_device_fingerprint device = rd_device_fingerprint p \<and>
    d_status device = DeviceActive"

definition registerDevice ::
  "js_env \<Rightarrow> register_device_params \<Rightarrow> device_store \<Rightarrow> device_store \<times> DeviceRecord \<times> bool" where
  "registerDevice e p s =
    (case map_find (same_device p) (ds_devices s) of
       Some (_, device) \<Rightarrow> (s, deviceClone device False, True)
     | None \<Rightarrow>
         let device = new_device e p
         in (s\<lparr>ds_devices := map_set (d_device_id device) device (ds_devices s)\<rparr>, deviceClone device True, False))"

definition getDevice :: "string \<Rightarrow> device_store \<Rightarrow> DeviceRecord option" where
  "getDevice deviceId s = map_option (\<lambda>d. deviceClone d False) (map_get (ds_devices s) deviceId)"

definition findDeviceByToken :: "string \<Rightarrow> device_store \<Rightarrow> DeviceRecord option" where
  "findDeviceByToken token s =
    map_option (\<lambda>kv. deviceClone (snd kv) False) (map_find (\<lambda>d. d_device_token d = Some token) (ds_devices s))"

definition listDevices :: "string option \<Rightarrow> device_store \<Rightarrow> DeviceRecord list" where
  "listDevices userId s =
    map (\<lambda>d. deviceClone d False)
      (filter (\<lambda>d. userId = None \<or> d_user_id d = userId) (map_values (ds_devices s)))"

text \<open>\<^verbatim>\<open>const device = this.devices.get(id); if (!device) return undefined; device.field = ...\<close>\<close>

definition update_device :: "string \<Rightarrow> (DeviceRecord \<Rightarrow> DeviceRecord) \<Rightarrow> bool \<Rightarrow> device_store \<Rightarrow>
    device_store \<times> DeviceRecord option" where
  "update_device deviceId f includeToken s =
    (case map_get (ds_devices s) deviceId of
       None \<Rightarrow> (s, None)
     | Some device \<Rightarrow>
         (s\<lparr>ds_devices := map_set deviceId (f device) (ds_devices s)\<rparr>, Some (deviceClone (f device) includeToken)))"

definition bindDevice :: "string \<Rightarrow> string \<Rightarrow> device_store \<Rightarrow> device_store \<times> DeviceRecord option" where
  "bindDevice deviceId userId = update_device deviceId (\<lambda>d. d\<lparr>d_user_id := Some userId\<rparr>) False"

definition updateDeviceVersion :: "string \<Rightarrow> string \<Rightarrow> device_store \<Rightarrow> device_store \<times> DeviceRecord option" where
  "updateDeviceVersion deviceId appVersion = update_device deviceId (\<lambda>d. d\<lparr>d_app_version := appVersion\<rparr>) False"

record device_operations_patch =
  dp_status :: "DeviceStatus option"
  dp_last_seen_at :: "string option option"
  dp_last_model_success_at :: "string option option"
  dp_last_error_code :: "string option option"
  dp_credential_rotated_at :: "string option option"
  dp_min_required_version :: "string option option"
  dp_rollout_group :: "string option option"
  dp_device_token :: "string option option"

definition assign_device_patch :: "device_operations_patch \<Rightarrow> DeviceRecord \<Rightarrow> DeviceRecord" where
  "assign_device_patch p d =
    d\<lparr>d_status := case_option (d_status d) id (dp_status p),
      d_last_seen_at := case_option (d_last_seen_at d) id (dp_last_seen_at p),
      d_last_model_success_at := case_option (d_last_model_success_at d) id (dp_last_model_success_at p),
      d_last_error_code := case_option (d_last_error_code d) id (dp_last_error_code p),
      d_credential_rotated_at := case_option (d_credential_rotated_at d) id (dp_credential_rotated_at p),
      d_min_required_version := case_option (d_min_required_version d) id (dp_min_required_version p),
      d_rollout_group := case_option (d_rollout_group d) id (dp_rollout_group p),
      d_device_token := case_option (d_device_token d) id (dp_device_token p)\<rparr>"

definition updateDeviceOperations ::
  "string \<Rightarrow> device_operations_patch \<Rightarrow> device_store \<Rightarrow> device_store \<times> DeviceRecord option" where
  "updateDeviceOperations deviceId patch =
    update_device deviceId (assign_device_patch patch)
      (case dp_device_token patch of Some (Some _) \<Rightarrow> True | _ \<Rightarrow> False)"

subsection \<open>Pairing challenges\<close>

text \<open>
  \<^verbatim>\<open>for (const [id, c] of challenges) if (...) { byHash.delete(c.code_hash); challenges.delete(id); }\<close>
\<close>

definition drop_challenges :: "(DevicePairingChallengeRecord \<Rightarrow> bool) \<Rightarrow> device_store \<Rightarrow> device_store" where
  "drop_challenges P s =
    s\<lparr>ds_devicePairingByHash :=
        fold (\<lambda>c. map_delete (pc_code_hash c)) (filter P (map_values (ds_devicePairingChallenges s)))
          (ds_devicePairingByHash s),
      ds_devicePairingChallenges := map_reject (\<lambda>_. P) (ds_devicePairingChallenges s)\<rparr>"

definition drop_challenge :: "DevicePairingChallengeRecord \<Rightarrow> device_store \<Rightarrow> device_store" where
  "drop_challenge c s =
    s\<lparr>ds_devicePairingByHash := map_delete (pc_code_hash c) (ds_devicePairingByHash s),
      ds_devicePairingChallenges := map_delete (pc_challenge_id c) (ds_devicePairingChallenges s)\<rparr>"

record create_pairing_params =
  cp_challenge_id :: string
  cp_device_id :: string
  cp_code_hash :: string
  cp_expires_at :: string
  cp_now :: "string option"

definition createDevicePairingChallenge ::
  "js_env \<Rightarrow> create_pairing_params \<Rightarrow> device_store \<Rightarrow> device_store \<times> DevicePairingChallengeRecord option" where
  "createDevicePairingChallenge e p s =
    (case map_get (ds_devices s) (cp_device_id p) of
       None \<Rightarrow> (s, None)
     | Some device \<Rightarrow>
         if d_status device \<noteq> DeviceActive \<or> d_user_id device \<noteq> None then (s, None)
         else
           let now = case_option (now_iso e 0) id (cp_now p)
           in case date_parse e (cp_expires_at p) of
                None \<Rightarrow> (s, None)
              | Some expires \<Rightarrow>
                  if toISOString expires \<le> now then (s, None)
                  else
                    let s1 = drop_challenges (\<lambda>c. pc_device_id c = d_device_id device \<and> pc_consumed_at c = None) s;
                        challenge = \<lparr>pc_challenge_id = cp_challenge_id p, pc_device_id = d_device_id device,
                          pc_tenant_id = d_tenant_id device, pc_code_hash = cp_code_hash p,
                          pc_expires_at = toISOString expires, pc_consumed_at = None, pc_created_at = now\<rparr>
                    in (s1\<lparr>ds_devicePairingChallenges :=
                             map_set (pc_challenge_id challenge) challenge (ds_devicePairingChallenges s1),
                           ds_devicePairingByHash :=
                             map_set (pc_code_hash challenge) (pc_challenge_id challenge) (ds_devicePairingByHash s1)\<rparr>,
                        Some challenge))"

record consume_pairing_params =
  cn_code_hash :: string
  cn_user_id :: string
  cn_now :: "string option"

definition consumeDevicePairingChallenge ::
  "js_env \<Rightarrow> consume_pairing_params \<Rightarrow> device_store \<Rightarrow> device_store \<times> (PairingRefusal + DeviceRecord)" where
  "consumeDevicePairingChallenge e p s =
    (case truthy (map_get (ds_devicePairingByHash s) (cn_code_hash p)) of
       None \<Rightarrow> (s, Inl CODE_INVALID)
     | Some challengeId \<Rightarrow>
         (case map_get (ds_devicePairingChallenges s) challengeId of
            None \<Rightarrow> (s, Inl CODE_INVALID)
          | Some challenge \<Rightarrow>
              if pc_consumed_at challenge \<noteq> None then (s, Inl CODE_INVALID)
              else
                let now = case_option (now_iso e 0) id (cn_now p)
                in if pc_expires_at challenge \<le> now then (drop_challenge challenge s, Inl CODE_EXPIRED)
                   else (case map_get (ds_devices s) (pc_device_id challenge) of
                     None \<Rightarrow> (drop_challenge challenge s, Inl PAIR_DEVICE_NOT_FOUND)
                   | Some device \<Rightarrow>
                       if d_status device \<noteq> DeviceActive then (s, Inl DEVICE_REVOKED)
                       else if d_user_id device \<noteq> None then (s, Inl DEVICE_ALREADY_BOUND)
                       else
                         let device' = device\<lparr>d_user_id := Some (cn_user_id p)\<rparr>;
                             s1 = s\<lparr>ds_devices := map_set (pc_device_id challenge) device' (ds_devices s),
                                    ds_devicePairingChallenges :=
                                      map_set challengeId (challenge\<lparr>pc_consumed_at := Some now\<rparr>)
                                        (ds_devicePairingChallenges s)\<rparr>
                         in (drop_challenges (\<lambda>c. pc_device_id c = d_device_id device) s1,
                             Inr (deviceClone device' False)))))"

subsection \<open>Activation codes and pack entitlements\<close>

record create_activation_params =
  ca_tenant_id :: string
  ca_code_hash :: string
  ca_code_hint :: string
  ca_label :: "string option"
  ca_max_uses :: int
  ca_pack_ids :: "string list"
  ca_expires_at :: string

definition createActivationCode ::
  "js_env \<Rightarrow> create_activation_params \<Rightarrow> device_store \<Rightarrow> device_store \<times> ActivationCodeRecord" where
  "createActivationCode e p s =
    (let record = \<lparr>ac_activation_code_id = ''act-'' @ uuid e 0, ac_tenant_id = ca_tenant_id p,
           ac_code_hash = ca_code_hash p, ac_code_hint = ca_code_hint p, ac_label = ca_label p,
           ac_status = CodeActive, ac_max_uses = ca_max_uses p, ac_use_count = 0,
           ac_pack_ids = ca_pack_ids p, ac_expires_at = ca_expires_at p, ac_created_at = now_iso e 0\<rparr>
     in (s\<lparr>ds_activationCodes := map_set (ac_activation_code_id record) record (ds_activationCodes s)\<rparr>, record))"

definition getActivationCode :: "string \<Rightarrow> device_store \<Rightarrow> ActivationCodeRecord option" where
  "getActivationCode activationCodeId s = map_get (ds_activationCodes s) activationCodeId"

definition listActivationCodes :: "device_store \<Rightarrow> ActivationCodeRecord list" where
  "listActivationCodes s = map_values (ds_activationCodes s)"

definition revokeActivationCode :: "string \<Rightarrow> device_store \<Rightarrow> device_store \<times> ActivationCodeRecord option" where
  "revokeActivationCode activationCodeId s =
    (case map_get (ds_activationCodes s) activationCodeId of
       None \<Rightarrow> (s, None)
     | Some record \<Rightarrow>
         let record' = record\<lparr>ac_status := CodeRevoked\<rparr>
         in (s\<lparr>ds_activationCodes := map_set activationCodeId record' (ds_activationCodes s)\<rparr>, Some record'))"

record redeem_params =
  rp_device_id :: string
  rp_code_hash :: string
  rp_now :: string

definition usable_entitlement :: "string \<Rightarrow> string \<Rightarrow> string \<Rightarrow> EntitlementRecord \<Rightarrow> bool" where
  "usable_entitlement deviceId packId now en \<longleftrightarrow>
    en_device_id en = deviceId \<and> en_pack_id en = packId \<and> en_status en = EntActive \<and> now < en_expires_at en"

definition pack_entitlement ::
  "js_env \<Rightarrow> DeviceRecord \<Rightarrow> ActivationCodeRecord \<Rightarrow> string \<Rightarrow> string \<Rightarrow> nat \<Rightarrow> EntitlementRecord" where
  "pack_entitlement e device code now packId k =
    \<lparr>en_entitlement_id = ''ent-'' @ uuid e k, en_tenant_id = d_tenant_id device,
     en_device_id = d_device_id device, en_pack_id = packId, en_scope = ScopeDevice,
     en_status = EntActive, en_expires_at = ac_expires_at code,
     en_source_activation_code_id = Some (ac_activation_code_id code), en_source_order_id = None,
     en_created_at = now\<rparr>"

text \<open>
  The loop over the packs of a code: \<open>k\<close> ids have been drawn when the head of the list is reached.
\<close>

fun grant_packs ::
  "js_env \<Rightarrow> DeviceRecord \<Rightarrow> ActivationCodeRecord \<Rightarrow> string \<Rightarrow> string list \<Rightarrow> nat \<Rightarrow>
   (string, EntitlementRecord) js_map \<Rightarrow> (string, EntitlementRecord) js_map" where
  "grant_packs e device code now [] k ents = ents"
| "grant_packs e device code now (packId # packs) k ents =
    (if \<exists>en \<in> set (map_values ents). usable_entitlement (d_device_id device) packId now en
     then grant_packs e device code now packs k ents
     else grant_packs e device code now packs (Suc k)
       (map_set (''ent-'' @ uuid e k) (pack_entitlement e device code now packId k) ents))"

definition revoke_previous :: "DeviceRecord \<Rightarrow> (string, EntitlementRecord) js_map \<Rightarrow> (string, EntitlementRecord) js_map" where
  "revoke_previous device ents =
    (case truthy (d_activation_code_id device) of
       None \<Rightarrow> ents
     | Some previous \<Rightarrow>
         map_each (\<lambda>en. if en_device_id en = d_device_id device \<and> en_source_activation_code_id en = Some previous
                         then en\<lparr>en_status := EntRevoked\<rparr> else en) ents)"

definition redeemActivationCode ::
  "js_env \<Rightarrow> redeem_params \<Rightarrow> device_store \<Rightarrow> device_store \<times> (RedemptionRefusal + ActivationRedemption)" where
  "redeemActivationCode e p s =
    (case map_get (ds_devices s) (rp_device_id p) of
       None \<Rightarrow> (s, Inl DEVICE_NOT_FOUND)
     | Some device \<Rightarrow>
         (case map_find (\<lambda>c. ac_code_hash c = rp_code_hash p) (ds_activationCodes s) of
            None \<Rightarrow> (s, Inl CODE_UNAVAILABLE)
          | Some (codeKey, code) \<Rightarrow>
              if ac_tenant_id code \<noteq> d_tenant_id device \<or> ac_status code \<noteq> CodeActive \<or> ac_expires_at code \<le> rp_now p
              then (s, Inl CODE_UNAVAILABLE)
              else if d_activation_code_id device = Some (ac_activation_code_id code)
              then (s, Inr \<lparr>ar_code = code, ar_device = device, ar_alreadyActivated = True\<rparr>)
              else if ac_max_uses code \<le> ac_use_count code then (s, Inl CODE_UNAVAILABLE)
              else
                let code' = code\<lparr>ac_use_count := ac_use_count code + 1\<rparr>;
                    device' = device\<lparr>d_activation_code_id := Some (ac_activation_code_id code),
                                     d_activated_at := Some (rp_now p)\<rparr>
                in (s\<lparr>ds_activationCodes := map_set codeKey code' (ds_activationCodes s),
                      ds_devices := map_set (rp_device_id p) device' (ds_devices s),
                      ds_entitlements :=
                        grant_packs e device' code' (rp_now p) (ac_pack_ids code) 0
                          (revoke_previous device (ds_entitlements s))\<rparr>,
                    Inr \<lparr>ar_code = code', ar_device = device', ar_alreadyActivated = False\<rparr>)))"

record grant_entitlement_params =
  ge_tenant_id :: string
  ge_device_id :: string
  ge_pack_id :: string
  ge_scope :: "EntitlementScope option"
  ge_expires_at :: "string option"
  ge_source_order_id :: "string option"

definition granted_before :: "grant_entitlement_params \<Rightarrow> (string, EntitlementRecord) js_map \<Rightarrow> (string \<times> EntitlementRecord) option" where
  "granted_before p ents =
    (case truthy (ge_source_order_id p) of
       None \<Rightarrow> None
     | Some orderId \<Rightarrow>
         map_find (\<lambda>en. en_source_order_id en = Some orderId \<and> en_device_id en = ge_device_id p \<and>
                        en_pack_id en = ge_pack_id p) ents)"

definition grantEntitlement ::
  "js_env \<Rightarrow> grant_entitlement_params \<Rightarrow> device_store \<Rightarrow> device_store \<times> EntitlementRecord" where
  "grantEntitlement e p s =
    (case granted_before p (ds_entitlements s) of
       Some (k, existing) \<Rightarrow>
         let existing' = existing\<lparr>en_tenant_id := ge_tenant_id p, en_scope := case_option ScopeDevice id (ge_scope p),
               en_status := EntActive, en_expires_at := case_option FAR_FUTURE id (ge_expires_at p)\<rparr>
         in (s\<lparr>ds_entitlements := map_set k existing' (ds_entitlements s)\<rparr>, existing')
     | None \<Rightarrow>
         let record = \<lparr>en_entitlement_id = ''ent-'' @ uuid e 0, en_tenant_id = ge_tenant_id p,
               en_device_id = ge_device_id p, en_pack_id = ge_pack_id p,
               en_scope = case_option ScopeDevice id (ge_scope p), en_status = EntActive,
               en_expires_at = case_option FAR_FUTURE id (ge_expires_at p),
               en_source_activation_code_id = None, en_source_order_id = ge_source_order_id p,
               en_created_at = now_iso e 0\<rparr>
         in (s\<lparr>ds_entitlements := map_set (en_entitlement_id record) record (ds_entitlements s)\<rparr>, record))"

definition revokeEntitlement :: "string \<Rightarrow> device_store \<Rightarrow> device_store \<times> EntitlementRecord option" where
  "revokeEntitlement entitlementId s =
    (case map_get (ds_entitlements s) entitlementId of
       None \<Rightarrow> (s, None)
     | Some record \<Rightarrow>
         let record' = record\<lparr>en_status := EntRevoked\<rparr>
         in (s\<lparr>ds_entitlements := map_set entitlementId record' (ds_entitlements s)\<rparr>, Some record'))"

definition listEntitlements :: "string \<Rightarrow> device_store \<Rightarrow> EntitlementRecord list" where
  "listEntitlements deviceId s = filter (\<lambda>en. en_device_id en = deviceId) (map_values (ds_entitlements s))"

definition listAllEntitlements :: "device_store \<Rightarrow> EntitlementRecord list" where
  "listAllEntitlements s = map_values (ds_entitlements s)"

subsection \<open>The activation status and the format of a code\<close>

datatype ActivationReason = ACTIVATION_REQUIRED | ACTIVATION_REVOKED | ACTIVATION_EXPIRED

record DeviceActivationStatus =
  st_device_id :: string
  st_activated :: bool
  st_reason :: "ActivationReason option"
  st_expires_at :: "string option"
  st_code_hint :: "string option"

definition deviceActivationStatus :: "device_store \<Rightarrow> DeviceRecord \<Rightarrow> string \<Rightarrow> DeviceActivationStatus" where
  "deviceActivationStatus s device now =
    (case truthy (d_activation_code_id device) of
       None \<Rightarrow> \<lparr>st_device_id = d_device_id device, st_activated = False, st_reason = Some ACTIVATION_REQUIRED,
               st_expires_at = None, st_code_hint = None\<rparr>
     | Some codeId \<Rightarrow>
         (case getActivationCode codeId s of
            None \<Rightarrow> \<lparr>st_device_id = d_device_id device, st_activated = False, st_reason = Some ACTIVATION_REVOKED,
                    st_expires_at = None, st_code_hint = None\<rparr>
          | Some code \<Rightarrow>
              if ac_status code \<noteq> CodeActive
              then \<lparr>st_device_id = d_device_id device, st_activated = False, st_reason = Some ACTIVATION_REVOKED,
                    st_expires_at = None, st_code_hint = None\<rparr>
              else if ac_expires_at code \<le> now
              then \<lparr>st_device_id = d_device_id device, st_activated = False, st_reason = Some ACTIVATION_EXPIRED,
                    st_expires_at = Some (ac_expires_at code), st_code_hint = Some (ac_code_hint code)\<rparr>
              else \<lparr>st_device_id = d_device_id device, st_activated = True, st_reason = None,
                    st_expires_at = Some (ac_expires_at code), st_code_hint = Some (ac_code_hint code)\<rparr>))"

text \<open>
  \<^verbatim>\<open>toUpperCase\<close> on the letters \<^verbatim>\<open>a-z\<close>. A character above them has no upper case form that the
  pattern below accepts, so it is kept.
\<close>

definition upper_char :: "char \<Rightarrow> char" where
  "upper_char c = (if is_lower c then char_of ((of_char c :: nat) - 32) else c)"

definition is_upper_hex :: "char \<Rightarrow> bool" where
  "is_upper_hex c \<longleftrightarrow> is_digit c \<or> char_in CHR ''A'' CHR ''F'' c"

definition normalizeActivationCode :: "string \<Rightarrow> string option" where
  "normalizeActivationCode value =
    (let compact = filter (\<lambda>c. \<not> is_space c \<and> c \<noteq> CHR ''-'') (map upper_char (js_trim value))
     in if starts_with ''LH'' compact \<and> all_within is_upper_hex 16 16 (drop 2 compact) then Some compact else None)"

definition hashActivationCode :: "js_env \<Rightarrow> string \<Rightarrow> string option" where
  "hashActivationCode e value = map_option (sha256 e) (truthy (normalizeActivationCode value))"

text \<open>\<open>payload\<close> is the upper-case hexadecimal text of the eight random bytes.\<close>

definition generateActivationCode :: "js_env \<Rightarrow> string \<Rightarrow> string \<times> string option \<times> string" where
  "generateActivationCode e payload =
    (let g = (\<lambda>i. take 4 (drop (4 * i) payload));
         code = ''LH-'' @ g 0 @ ''-'' @ g 1 @ ''-'' @ g 2 @ ''-'' @ g 3
     in (code, hashActivationCode e code, g 3))"

subsection \<open>Pairing: the index and the challenges\<close>

text \<open>
  A stored challenge is unconsumed and stands under its own id; a device has at most one; the index
  by hash leads from the hash of a stored challenge to that challenge and from nothing else.
\<close>

definition pairing_wf :: "device_store \<Rightarrow> bool" where
  "pairing_wf s \<longleftrightarrow>
    map_ok (ds_devicePairingChallenges s) \<and>
    (\<forall>i c. map_get (ds_devicePairingChallenges s) i = Some c \<longrightarrow> pc_challenge_id c = i \<and> pc_consumed_at c = None) \<and>
    (\<forall>i j c c'. map_get (ds_devicePairingChallenges s) i = Some c \<longrightarrow>
       map_get (ds_devicePairingChallenges s) j = Some c' \<longrightarrow> pc_device_id c = pc_device_id c' \<longrightarrow> i = j) \<and>
    (\<forall>h i. map_get (ds_devicePairingByHash s) h = Some i \<longrightarrow>
       (\<exists>c. map_get (ds_devicePairingChallenges s) i = Some c \<and> pc_code_hash c = h))"

lemma pairing_wfD:
  assumes "pairing_wf s"
  shows "map_ok (ds_devicePairingChallenges s)"
    and "map_get (ds_devicePairingChallenges s) i = Some c \<Longrightarrow> pc_challenge_id c = i"
    and "map_get (ds_devicePairingChallenges s) i = Some c \<Longrightarrow> pc_consumed_at c = None"
    and "map_get (ds_devicePairingChallenges s) i = Some c \<Longrightarrow>
      map_get (ds_devicePairingChallenges s) j = Some c' \<Longrightarrow> pc_device_id c = pc_device_id c' \<Longrightarrow> i = j"
    and "map_get (ds_devicePairingByHash s) h = Some i \<Longrightarrow>
      \<exists>c. map_get (ds_devicePairingChallenges s) i = Some c \<and> pc_code_hash c = h"
  using assms unfolding pairing_wf_def by blast+

lemma map_get_fold_delete:
  "map_get (fold (\<lambda>c. map_delete (f c)) cs m) k = (if \<exists>c \<in> set cs. f c = k then None else map_get m k)"
  by (induction cs arbitrary: m) auto

lemma drop_challenges_frame [simp]:
  "ds_devices (drop_challenges P s) = ds_devices s"
  "ds_activationCodes (drop_challenges P s) = ds_activationCodes s"
  "ds_entitlements (drop_challenges P s) = ds_entitlements s"
  by (simp_all add: drop_challenges_def)

lemma drop_challenges_get:
  assumes "map_ok (ds_devicePairingChallenges s)"
  shows "map_get (ds_devicePairingChallenges (drop_challenges P s)) i = Some c \<longleftrightarrow>
    map_get (ds_devicePairingChallenges s) i = Some c \<and> \<not> P c"
  using map_get_reject [OF assms, of "\<lambda>_. P" i] by (auto simp: drop_challenges_def split: option.splits)

lemma drop_challenges_index:
  "map_get (ds_devicePairingByHash (drop_challenges P s)) h = Some i \<longleftrightarrow>
    map_get (ds_devicePairingByHash s) h = Some i \<and>
    (\<forall>c \<in> set (map_values (ds_devicePairingChallenges s)). P c \<longrightarrow> pc_code_hash c \<noteq> h)"
  by (auto simp: drop_challenges_def map_get_fold_delete)

lemma drop_challenges_wf: "pairing_wf s \<Longrightarrow> pairing_wf (drop_challenges P s)"
proof -
  assume wf: "pairing_wf s"
  note get = drop_challenges_get [OF pairing_wfD(1) [OF wf]]
  have "map_ok (ds_devicePairingChallenges (drop_challenges P s))"
    using pairing_wfD(1) [OF wf] by (simp add: drop_challenges_def)
  moreover have "\<exists>c. map_get (ds_devicePairingChallenges (drop_challenges P s)) i = Some c \<and> pc_code_hash c = h"
    if h: "map_get (ds_devicePairingByHash (drop_challenges P s)) h = Some i" for h i
  proof -
    obtain c where c: "map_get (ds_devicePairingChallenges s) i = Some c" "pc_code_hash c = h"
      using pairing_wfD(5) [OF wf] h drop_challenges_index by blast
    then have "\<not> P c" using h map_get_values unfolding drop_challenges_index by metis
    with c show ?thesis unfolding get by blast
  qed
  ultimately show ?thesis
    using pairing_wfD(2-4) [OF wf] unfolding pairing_wf_def get by blast
qed

lemma drop_challenge_wf:
  assumes wf: "pairing_wf s" and c: "map_get (ds_devicePairingChallenges s) i = Some c"
  shows "pairing_wf (drop_challenge c s)"
proof -
  have "pc_challenge_id c = i" using pairing_wfD(2) [OF wf c] .
  moreover have "pc_code_hash c' = pc_code_hash c" if "map_get (ds_devicePairingChallenges s) i = Some c'" for c'
    using that c by simp
  ultimately show ?thesis
    using wf unfolding pairing_wf_def drop_challenge_def by (auto split: if_splits) metis+
qed

text \<open>Marking a challenge consumed before all challenges of its device are dropped leaves no trace.\<close>

lemma map_reject_set:
  "map_get m k = Some v \<Longrightarrow> P v \<Longrightarrow> P v' \<Longrightarrow> map_ok m \<Longrightarrow> map_reject (\<lambda>_. P) (map_set k v' m) = map_reject (\<lambda>_. P) m"
  by (induction m) (auto simp: map_reject_def split: if_splits)

lemma map_filter_set:
  "map_get m k = Some v \<Longrightarrow> P v \<Longrightarrow> P v' \<Longrightarrow> f v' = f v \<Longrightarrow>
   map f (filter P (map_values (map_set k v' m))) = map f (filter P (map_values m))"
  by (induction m) (auto split: if_splits)

lemma drop_consumed:
  assumes "map_ok (ds_devicePairingChallenges s)" and "map_get (ds_devicePairingChallenges s) k = Some c"
    and "P c" and "P c'" and "pc_code_hash c' = pc_code_hash c"
  shows "drop_challenges P (s\<lparr>ds_devices := ds, ds_devicePairingChallenges := map_set k c' (ds_devicePairingChallenges s)\<rparr>) =
    (drop_challenges P s)\<lparr>ds_devices := ds\<rparr>"
proof -
  have folds: "fold (\<lambda>c. map_delete (pc_code_hash c)) cs m = fold map_delete (map pc_code_hash cs) m"
    for cs and m :: "(string, string) js_map"
    by (simp add: fold_map comp_def)
  have "fold (\<lambda>c. map_delete (pc_code_hash c)) (filter P (map_values (map_set k c' (ds_devicePairingChallenges s)))) m =
      fold (\<lambda>c. map_delete (pc_code_hash c)) (filter P (map_values (ds_devicePairingChallenges s))) m"
    for m :: "(string, string) js_map"
    unfolding folds map_filter_set [where P = P and f = pc_code_hash, OF assms(2-5)] ..
  then show ?thesis
    using map_reject_set [where P = P, OF assms(2-4,1)] by (cases s) (simp add: drop_challenges_def)
qed

lemma createDevicePairingChallenge_pairing:
  assumes wf: "pairing_wf s" and new: "map_get (ds_devicePairingChallenges s) (cp_challenge_id p) = None"
  shows "pairing_wf (fst (createDevicePairingChallenge e p s))"
proof (cases "snd (createDevicePairingChallenge e p s)")
  case None
  then show ?thesis
    using wf by (auto simp: createDevicePairingChallenge_def Let_def split: option.splits if_splits)
next
  case (Some c)
  define P where "P = (\<lambda>x :: DevicePairingChallengeRecord. pc_device_id x = pc_device_id c \<and> pc_consumed_at x = None)"
  define s1 where "s1 = drop_challenges P s"
  have c: "pc_challenge_id c = cp_challenge_id p" "pc_consumed_at c = None"
    and s': "fst (createDevicePairingChallenge e p s) =
      s1\<lparr>ds_devicePairingChallenges := map_set (cp_challenge_id p) c (ds_devicePairingChallenges s1),
         ds_devicePairingByHash := map_set (pc_code_hash c) (cp_challenge_id p) (ds_devicePairingByHash s1)\<rparr>"
    using Some by (auto simp: createDevicePairingChallenge_def Let_def s1_def P_def split: option.splits if_splits)
  have wf1: "pairing_wf s1" unfolding s1_def by (rule drop_challenges_wf [OF wf])
  note get = drop_challenges_get [OF pairing_wfD(1) [OF wf], of P, folded s1_def]
  have new1: "map_get (ds_devicePairingChallenges s1) (cp_challenge_id p) = None"
    using new get by (metis not_None_eq)
  have other: "pc_device_id x \<noteq> pc_device_id c" if "map_get (ds_devicePairingChallenges s1) i = Some x" for i x
    using that get pairing_wfD(3) [OF wf1 that] unfolding P_def by blast
  show ?thesis
    using pairing_wfD [OF wf1] c new1 other unfolding s' pairing_wf_def
    by (auto split: if_splits) (metis option.distinct(1))+
qed

lemma consume_done [consumes 2]:
  assumes wf: "pairing_wf s" and ok: "consumeDevicePairingChallenge e p s = (s', Inr device)"
  obtains (paired) i c d where "map_get (ds_devicePairingByHash s) (cn_code_hash p) = Some i"
    and "map_get (ds_devicePairingChallenges s) i = Some c" and "case_option (now_iso e 0) id (cn_now p) < pc_expires_at c"
    and "map_get (ds_devices s) (pc_device_id c) = Some d" and "d_status d = DeviceActive" and "d_user_id d = None"
    and "device = deviceClone (d\<lparr>d_user_id := Some (cn_user_id p)\<rparr>) False"
    and "pc_device_id c = d_device_id d \<Longrightarrow>
      s' = (drop_challenges (\<lambda>x. pc_device_id x = d_device_id d) s)
        \<lparr>ds_devices := map_set (pc_device_id c) (d\<lparr>d_user_id := Some (cn_user_id p)\<rparr>) (ds_devices s)\<rparr>"
proof -
  obtain i where i: "map_get (ds_devicePairingByHash s) (cn_code_hash p) = Some i" "i \<noteq> []"
    using ok by (auto simp: consumeDevicePairingChallenge_def split: option.splits)
  obtain c where c: "map_get (ds_devicePairingChallenges s) i = Some c"
    using ok i by (auto simp: consumeDevicePairingChallenge_def split: option.splits)
  obtain d where d: "map_get (ds_devices s) (pc_device_id c) = Some d"
    using ok i c by (auto simp: consumeDevicePairingChallenge_def Let_def split: option.splits if_splits)
  note drop = drop_consumed [OF pairing_wfD(1) [OF wf] c, of "\<lambda>x. pc_device_id x = d_device_id d"]
  show thesis
    by (rule paired [OF i(1) c _ d])
      (use ok i c d drop in \<open>auto simp: consumeDevicePairingChallenge_def Let_def split: if_splits\<close>)
qed

definition devices_wf :: "device_store \<Rightarrow> bool" where
  "devices_wf s \<longleftrightarrow> map_ok (ds_devices s) \<and> (\<forall>i d. map_get (ds_devices s) i = Some d \<longrightarrow> d_device_id d = i)"

lemma pairing_wf_frame [simp]:
  "pairing_wf (s\<lparr>ds_devices := x\<rparr>) = pairing_wf s"
  "pairing_wf (s\<lparr>ds_activationCodes := y\<rparr>) = pairing_wf s"
  "pairing_wf (s\<lparr>ds_entitlements := z\<rparr>) = pairing_wf s"
  by (simp_all add: pairing_wf_def)

lemma consume_pairing:
  assumes wf: "pairing_wf s" and dev: "devices_wf s"
  shows "pairing_wf (fst (consumeDevicePairingChallenge e p s))"
proof (cases "snd (consumeDevicePairingChallenge e p s)")
  case (Inr device)
  then have "consumeDevicePairingChallenge e p s = (fst (consumeDevicePairingChallenge e p s), Inr device)"
    by (metis prod.collapse)
  then show ?thesis
    using dev by (cases rule: consume_done [OF wf]) (auto simp: devices_wf_def drop_challenges_wf [OF wf])
next
  case (Inl err)
  then show ?thesis
    using wf by (auto simp: consumeDevicePairingChallenge_def Let_def intro: drop_challenge_wf
        split: option.splits if_splits)
qed

subsection \<open>Activation codes: seats\<close>

text \<open>The number of devices a code activated.\<close>

definition seats :: "string \<Rightarrow> device_store \<Rightarrow> nat" where
  "seats a s = length (filter (\<lambda>d. d_activation_code_id d = Some a) (map_values (ds_devices s)))"

text \<open>
  A code stands under its own id; a device is activated only by a stored code; a code has been used
  at least as often as devices hold it and at most as often as it may be.
\<close>

definition codes_wf :: "device_store \<Rightarrow> bool" where
  "codes_wf s \<longleftrightarrow>
    map_ok (ds_activationCodes s) \<and>
    (\<forall>a c. map_get (ds_activationCodes s) a = Some c \<longrightarrow>
       ac_activation_code_id c = a \<and> int (seats a s) \<le> ac_use_count c \<and> ac_use_count c \<le> max 0 (ac_max_uses c)) \<and>
    (\<forall>d a. d \<in> set (map_values (ds_devices s)) \<longrightarrow> d_activation_code_id d = Some a \<longrightarrow>
       map_get (ds_activationCodes s) a \<noteq> None)"

lemma codes_wfD:
  assumes "codes_wf s"
  shows "map_ok (ds_activationCodes s)"
    and "map_get (ds_activationCodes s) a = Some c \<Longrightarrow> ac_activation_code_id c = a"
    and "map_get (ds_activationCodes s) a = Some c \<Longrightarrow> int (seats a s) \<le> ac_use_count c"
    and "map_get (ds_activationCodes s) a = Some c \<Longrightarrow> ac_use_count c \<le> max 0 (ac_max_uses c)"
    and "d \<in> set (map_values (ds_devices s)) \<Longrightarrow> d_activation_code_id d = Some a \<Longrightarrow>
      \<exists>c. map_get (ds_activationCodes s) a = Some c"
  using assms unfolding codes_wf_def by blast+

lemma codes_wfI:
  assumes "map_ok (ds_activationCodes s)"
    and "\<And>a c. map_get (ds_activationCodes s) a = Some c \<Longrightarrow> ac_activation_code_id c = a"
    and "\<And>a c. map_get (ds_activationCodes s) a = Some c \<Longrightarrow> int (seats a s) \<le> ac_use_count c"
    and "\<And>a c. map_get (ds_activationCodes s) a = Some c \<Longrightarrow> ac_use_count c \<le> max 0 (ac_max_uses c)"
    and "\<And>d a. d \<in> set (map_values (ds_devices s)) \<Longrightarrow> d_activation_code_id d = Some a \<Longrightarrow>
      map_get (ds_activationCodes s) a \<noteq> None"
  shows "codes_wf s"
  using assms unfolding codes_wf_def by blast

lemma codes_wf_frame [simp]:
  "codes_wf (s\<lparr>ds_devicePairingChallenges := x\<rparr>) = codes_wf s"
  "codes_wf (s\<lparr>ds_devicePairingByHash := y\<rparr>) = codes_wf s"
  "codes_wf (s\<lparr>ds_entitlements := z\<rparr>) = codes_wf s"
  "codes_wf (drop_challenge c s) = codes_wf s"
  "codes_wf (drop_challenges P s) = codes_wf s"
  by (simp_all add: codes_wf_def seats_def drop_challenge_def drop_challenges_def)

lemma seats_set:
  assumes "map_ok (ds_devices s)" and "map_get (ds_devices s) i = Some d"
  shows "seats a (s\<lparr>ds_devices := map_set i d' (ds_devices s)\<rparr>) + of_bool (d_activation_code_id d = Some a) =
    seats a s + of_bool (d_activation_code_id d' = Some a)"
  unfolding seats_def
  using count_values_set [OF assms, of "\<lambda>d. d_activation_code_id d = Some a" d'] by simp

text \<open>A device is written without touching its activation.\<close>

lemma set_device_codes:
  assumes wf: "codes_wf s" and ok: "map_ok (ds_devices s)" and d: "map_get (ds_devices s) i = Some d"
    and same: "d_activation_code_id d' = d_activation_code_id d"
  shows "codes_wf (s\<lparr>ds_devices := map_set i d' (ds_devices s)\<rparr>)"
proof (rule codes_wfI)
  fix x a
  assume "x \<in> set (map_values (ds_devices (s\<lparr>ds_devices := map_set i d' (ds_devices s)\<rparr>)))"
    and a: "d_activation_code_id x = Some a"
  then have "x = d' \<or> x \<in> set (map_values (ds_devices s))" using map_values_set [of x i d' "ds_devices s"] by simp
  then have "\<exists>y \<in> set (map_values (ds_devices s)). d_activation_code_id y = Some a"
    using a same map_get_values [OF d] by metis
  then have "\<exists>c. map_get (ds_activationCodes s) a = Some c" using codes_wfD(5) [OF wf] by blast
  then show "map_get (ds_activationCodes (s\<lparr>ds_devices := map_set i d' (ds_devices s)\<rparr>)) a \<noteq> None" by simp
qed (use codes_wfD [OF wf] seats_set [OF ok d, of _ d'] same in \<open>auto\<close>)

lemma add_device_codes:
  assumes wf: "codes_wf s" and new: "map_get (ds_devices s) i = None" and d: "d_activation_code_id d = None"
  shows "codes_wf (s\<lparr>ds_devices := map_set i d (ds_devices s)\<rparr>)"
  using wf new d by (auto simp: codes_wf_def seats_def)

text \<open>A redemption takes one use for one seat; the seat the device held before is given up.\<close>

lemma redeem_codes:
  assumes wf: "codes_wf s" and ok: "map_ok (ds_devices s)" and d: "map_get (ds_devices s) i = Some d"
    and c: "map_get (ds_activationCodes s) a = Some c" and room: "ac_use_count c < ac_max_uses c"
  shows "codes_wf (s\<lparr>ds_activationCodes := map_set a (c\<lparr>ac_use_count := ac_use_count c + 1\<rparr>) (ds_activationCodes s),
    ds_devices := map_set i (d\<lparr>d_activation_code_id := Some a, d_activated_at := t\<rparr>) (ds_devices s)\<rparr>)"
    (is "codes_wf ?s")
proof -
  let ?d = "d\<lparr>d_activation_code_id := Some a, d_activated_at := t\<rparr>"
  have frame: "seats b ?s = seats b (s\<lparr>ds_devices := map_set i ?d (ds_devices s)\<rparr>)" for b
    by (simp add: seats_def)
  have count: "seats b ?s + of_bool (d_activation_code_id d = Some b) = seats b s + of_bool (a = b)" for b
    using seats_set [OF ok d, of b ?d] unfolding frame by simp
  have le: "int (seats b ?s) \<le> int (seats b s) + (if b = a then 1 else 0)" for b
    using count [of b] by (cases "b = a"; cases "d_activation_code_id d = Some b") simp_all
  show ?thesis
  proof (rule codes_wfI)
    fix b c' assume g: "map_get (ds_activationCodes ?s) b = Some c'"
    then show "ac_activation_code_id c' = b"
      using codes_wfD(2) [OF wf] c by (auto split: if_splits)
    show "int (seats b ?s) \<le> ac_use_count c'"
      using g le [of b] codes_wfD(3) [OF wf, of b] codes_wfD(3) [OF wf c] by (fastforce split: if_splits)
    show "ac_use_count c' \<le> max 0 (ac_max_uses c')"
      using g codes_wfD(4) [OF wf] room by (auto split: if_splits)
  next
    fix x b assume "x \<in> set (map_values (ds_devices ?s))" and "d_activation_code_id x = Some b"
    moreover from this have "x = ?d \<or> x \<in> set (map_values (ds_devices s))"
      using map_values_set [of x i ?d "ds_devices s"] by simp
    ultimately have "b = a \<or> (\<exists>c'. map_get (ds_activationCodes s) b = Some c')"
      using codes_wfD(5) [OF wf] by auto
    then show "map_get (ds_activationCodes ?s) b \<noteq> None" by auto
  qed (use codes_wfD(1) [OF wf] in simp)
qed

subsection \<open>Executions\<close>

definition device_wf :: "device_store \<Rightarrow> bool" where
  "device_wf s \<longleftrightarrow> devices_wf s \<and> pairing_wf s \<and> codes_wf s \<and> map_ok (ds_entitlements s)"

text \<open>
  The operations of the store in any order. The ids the store or its caller draws at random are
  not in use yet.
\<close>

inductive device_step :: "device_store \<Rightarrow> device_store \<Rightarrow> bool" where
  register: "map_get (ds_devices s) (''dev-'' @ uuid e 0) = None \<Longrightarrow> device_step s (fst (registerDevice e rd s))"
| challenge: "map_get (ds_devicePairingChallenges s) (cp_challenge_id cp) = None \<Longrightarrow>
    device_step s (fst (createDevicePairingChallenge e cp s))"
| consume: "device_step s (fst (consumeDevicePairingChallenge e cn s))"
| bind: "device_step s (fst (bindDevice i u s))"
| version: "device_step s (fst (updateDeviceVersion i v s))"
| operations: "device_step s (fst (updateDeviceOperations i patch s))"
| create_code: "map_get (ds_activationCodes s) (''act-'' @ uuid e 0) = None \<Longrightarrow>
    device_step s (fst (createActivationCode e ca s))"
| revoke_code: "device_step s (fst (revokeActivationCode a s))"
| redeem: "device_step s (fst (redeemActivationCode e rp s))"
| grant: "device_step s (fst (grantEntitlement e ge s))"
| revoke: "device_step s (fst (revokeEntitlement i s))"

lemma device_wf_empty: "device_wf empty_device_store"
  by (simp add: device_wf_def devices_wf_def pairing_wf_def codes_wf_def empty_device_store_def)

lemma registerDevice_wf [inv_intro]:
  assumes "device_wf s" and "map_get (ds_devices s) (''dev-'' @ uuid e 0) = None"
  shows "device_wf (fst (registerDevice e p s))"
  using assms
  by (auto simp: registerDevice_def device_wf_def devices_wf_def Let_def new_device_def
      intro!: add_device_codes split: option.split)

lemma createDevicePairingChallenge_frame [simp]:
  "ds_devices (fst (createDevicePairingChallenge e p s)) = ds_devices s"
  "ds_activationCodes (fst (createDevicePairingChallenge e p s)) = ds_activationCodes s"
  "ds_entitlements (fst (createDevicePairingChallenge e p s)) = ds_entitlements s"
  by (simp_all add: createDevicePairingChallenge_def Let_def split: option.split)

lemma createDevicePairingChallenge_wf [inv_intro]:
  assumes "device_wf s" and "map_get (ds_devicePairingChallenges s) (cp_challenge_id p) = None"
  shows "device_wf (fst (createDevicePairingChallenge e p s))"
  using assms createDevicePairingChallenge_pairing
  by (simp add: device_wf_def devices_wf_def codes_wf_def seats_def)

lemma drop_challenge_frame [simp]:
  "ds_devices (drop_challenge c s) = ds_devices s"
  "ds_activationCodes (drop_challenge c s) = ds_activationCodes s"
  "ds_entitlements (drop_challenge c s) = ds_entitlements s"
  by (simp_all add: drop_challenge_def)

lemma consume_frame [simp]:
  "ds_activationCodes (fst (consumeDevicePairingChallenge e p s)) = ds_activationCodes s"
  "ds_entitlements (fst (consumeDevicePairingChallenge e p s)) = ds_entitlements s"
  by (simp_all add: consumeDevicePairingChallenge_def Let_def split: option.split)

lemma consume_devices:
  "ds_devices (fst (consumeDevicePairingChallenge e p s)) = ds_devices s \<or>
   (\<exists>i d. map_get (ds_devices s) i = Some d \<and>
      ds_devices (fst (consumeDevicePairingChallenge e p s)) =
        map_set i (d\<lparr>d_user_id := Some (cn_user_id p)\<rparr>) (ds_devices s))"
  by (simp add: consumeDevicePairingChallenge_def Let_def split: option.split) blast

lemma codes_wf_cong:
  "ds_activationCodes s = ds_activationCodes t \<Longrightarrow> ds_devices s = ds_devices t \<Longrightarrow> codes_wf s = codes_wf t"
  by (simp add: codes_wf_def seats_def)

lemma consumeDevicePairingChallenge_wf [inv_intro]:
  assumes wf: "device_wf s"
  shows "device_wf (fst (consumeDevicePairingChallenge e p s))" (is "device_wf ?s")
proof -
  have pairing: "pairing_wf ?s" using wf consume_pairing by (simp add: device_wf_def)
  have "devices_wf ?s \<and> codes_wf ?s"
    using consume_devices [of e p s]
  proof (elim disjE exE conjE)
    assume "ds_devices ?s = ds_devices s"
    then show ?thesis using wf codes_wf_cong [of ?s s] by (simp add: device_wf_def devices_wf_def)
  next
    fix i d
    assume d: "map_get (ds_devices s) i = Some d"
      and new: "ds_devices ?s = map_set i (d\<lparr>d_user_id := Some (cn_user_id p)\<rparr>) (ds_devices s)"
    have "codes_wf (s\<lparr>ds_devices := ds_devices ?s\<rparr>)"
      unfolding new using wf d by (intro set_device_codes) (auto simp: device_wf_def devices_wf_def)
    then have "codes_wf ?s" using codes_wf_cong [of ?s "s\<lparr>ds_devices := ds_devices ?s\<rparr>"] by simp
    then show ?thesis using wf d by (auto simp: device_wf_def devices_wf_def new)
  qed
  with pairing wf show ?thesis by (simp add: device_wf_def)
qed

lemma update_device_wf:
  assumes wf: "device_wf s" and "\<And>d. d_device_id (f d) = d_device_id d"
    and "\<And>d. d_activation_code_id (f d) = d_activation_code_id d"
  shows "device_wf (fst (update_device i f b s))"
  using assms
  by (auto simp: update_device_def device_wf_def devices_wf_def intro: set_device_codes split: option.split)

lemma createActivationCode_wf [inv_intro]:
  assumes wf: "device_wf s" and new: "map_get (ds_activationCodes s) (''act-'' @ uuid e 0) = None"
  shows "device_wf (fst (createActivationCode e p s))"
proof -
  have unheld: "d_activation_code_id d \<noteq> Some (''act-'' @ uuid e 0)" if "d \<in> set (map_values (ds_devices s))" for d
    using wf new codes_wfD(5) [OF _ that] by (auto simp: device_wf_def)
  then have "seats (''act-'' @ uuid e 0) s = 0" by (auto simp: seats_def filter_empty_conv)
  then show ?thesis
    using wf unfolding device_wf_def codes_wf_def
    by (auto simp: createActivationCode_def Let_def devices_wf_def seats_def)
qed

lemma revokeActivationCode_wf [inv_intro]: "device_wf s \<Longrightarrow> device_wf (fst (revokeActivationCode a s))"
  unfolding device_wf_def codes_wf_def
  by (auto simp: revokeActivationCode_def Let_def devices_wf_def seats_def split: option.split)

lemma grant_packs_ok: "map_ok ents \<Longrightarrow> map_ok (grant_packs e d c now packs k ents)"
  by (induction packs arbitrary: k ents) (auto simp: Let_def)

lemma revoke_previous_ok: "map_ok ents \<Longrightarrow> map_ok (revoke_previous d ents)"
  unfolding revoke_previous_def by (cases "truthy (d_activation_code_id d)") simp_all

lemma redeem_cases:
  assumes wf: "device_wf s"
  obtains (refused) err where "redeemActivationCode e p s = (s, Inl err)"
  | (already) k code device where "redeemActivationCode e p s = (s, Inr \<lparr>ar_code = code, ar_device = device, ar_alreadyActivated = True\<rparr>)"
      and "map_get (ds_devices s) (rp_device_id p) = Some device"
      and "map_find (\<lambda>c. ac_code_hash c = rp_code_hash p) (ds_activationCodes s) = Some (k, code)"
      and "ac_activation_code_id code = k" and "d_activation_code_id device = Some k"
      and "ac_tenant_id code = d_tenant_id device" and "ac_status code = CodeActive" and "rp_now p < ac_expires_at code"
  | (fresh) k code device where
      "redeemActivationCode e p s =
        (s\<lparr>ds_activationCodes := map_set k (code\<lparr>ac_use_count := ac_use_count code + 1\<rparr>) (ds_activationCodes s),
           ds_devices := map_set (rp_device_id p)
             (device\<lparr>d_activation_code_id := Some k, d_activated_at := Some (rp_now p)\<rparr>) (ds_devices s),
           ds_entitlements := grant_packs e (device\<lparr>d_activation_code_id := Some k, d_activated_at := Some (rp_now p)\<rparr>)
             (code\<lparr>ac_use_count := ac_use_count code + 1\<rparr>) (rp_now p) (ac_pack_ids code) 0
             (revoke_previous device (ds_entitlements s))\<rparr>,
         Inr \<lparr>ar_code = code\<lparr>ac_use_count := ac_use_count code + 1\<rparr>,
              ar_device = device\<lparr>d_activation_code_id := Some k, d_activated_at := Some (rp_now p)\<rparr>,
              ar_alreadyActivated = False\<rparr>)"
      and "map_get (ds_devices s) (rp_device_id p) = Some device"
      and "map_find (\<lambda>c. ac_code_hash c = rp_code_hash p) (ds_activationCodes s) = Some (k, code)"
      and "map_get (ds_activationCodes s) k = Some code"
      and "ac_activation_code_id code = k" and "d_activation_code_id device \<noteq> Some k"
      and "ac_tenant_id code = d_tenant_id device" and "ac_status code = CodeActive" and "rp_now p < ac_expires_at code"
      and "ac_use_count code < ac_max_uses code"
proof (cases "map_get (ds_devices s) (rp_device_id p)")
  case None
  then show thesis using refused by (simp add: redeemActivationCode_def)
next
  case device: (Some device)
  have codes: "codes_wf s" using wf by (simp add: device_wf_def)
  from codes_wfD(1) [OF codes] show thesis
  proof (cases rule: map_find_cases [where P = "\<lambda>c. ac_code_hash c = rp_code_hash p"])
    case none
    then show thesis using device refused by (simp add: redeemActivationCode_def)
  next
    case (found k code)
    have k: "ac_activation_code_id code = k" using codes_wfD(2) [OF codes found(2)] .
    consider "ac_tenant_id code \<noteq> d_tenant_id device \<or> ac_status code \<noteq> CodeActive \<or> ac_expires_at code \<le> rp_now p"
      | (usable) "ac_tenant_id code = d_tenant_id device" "ac_status code = CodeActive" "rp_now p < ac_expires_at code"
      by fastforce
    then show thesis
    proof cases
      case 1
      then show thesis using device found refused by (simp add: redeemActivationCode_def)
    next
      case usable
      consider "d_activation_code_id device = Some k"
        | "d_activation_code_id device \<noteq> Some k" "ac_max_uses code \<le> ac_use_count code"
        | "d_activation_code_id device \<noteq> Some k" "ac_use_count code < ac_max_uses code" by fastforce
      then show thesis
      proof cases
        case 1
        then show thesis
          by (intro already [OF _ device found(1) k]) (use device found k usable in \<open>simp_all add: redeemActivationCode_def\<close>)
      next
        case 2
        then show thesis using refused device found k usable by (simp add: redeemActivationCode_def)
      next
        case 3
        then show thesis
          by (intro fresh [OF _ device found(1,2) k]) (use device found k usable in \<open>simp_all add: redeemActivationCode_def Let_def\<close>)
      qed
    qed
  qed
qed

lemma redeemActivationCode_wf [inv_intro]:
  assumes wf: "device_wf s"
  shows "device_wf (fst (redeemActivationCode e p s))"
  using wf
proof (cases rule: redeem_cases [where e = e and p = p])
  case (fresh k code device)
  have ok: "map_ok (ds_devices s)" and codes: "codes_wf s" using wf by (simp_all add: device_wf_def devices_wf_def)
  note new = redeem_codes [OF codes ok fresh(2,4,10), of "Some (rp_now p)"]
  have "d_device_id device = rp_device_id p" using wf fresh(2) by (auto simp: device_wf_def devices_wf_def)
  with new wf ok show ?thesis
    unfolding fresh(1) by (auto simp: device_wf_def devices_wf_def grant_packs_ok revoke_previous_ok)
qed (use wf in simp_all)

lemma grantEntitlement_wf [inv_intro]: "device_wf s \<Longrightarrow> device_wf (fst (grantEntitlement e p s))"
  by (auto simp: grantEntitlement_def Let_def device_wf_def devices_wf_def split: option.split)

lemma revokeEntitlement_wf [inv_intro]: "device_wf s \<Longrightarrow> device_wf (fst (revokeEntitlement i s))"
  by (auto simp: revokeEntitlement_def Let_def device_wf_def devices_wf_def split: option.split)

lemma device_step_wf: "device_step s t \<Longrightarrow> device_wf s \<Longrightarrow> device_wf t"
  by (induction rule: device_step.induct)
    (auto intro: inv_intro update_device_wf simp: bindDevice_def updateDeviceVersion_def updateDeviceOperations_def
      assign_device_patch_def)

interpretation device_run: step_invariant device_step device_wf
  by unfold_locales (rule device_step_wf)

lemma redeem_replay:
  assumes wf: "device_wf s" and ok: "redeemActivationCode e p s = (s', Inr r)"
  shows "redeemActivationCode e' p s' = (s', Inr (r\<lparr>ar_alreadyActivated := True\<rparr>))"
  using wf
proof (cases rule: redeem_cases [where e = e and p = p])
  case (refused err)
  with ok show ?thesis by simp
next
  case (already k code device)
  then have eqs: "s' = s" "r = \<lparr>ar_code = code, ar_device = device, ar_alreadyActivated = True\<rparr>" using ok by auto
  show ?thesis unfolding eqs using already(2-) by (simp add: redeemActivationCode_def)
next
  case (fresh k code device)
  have "map_ok (ds_activationCodes s)" using wf by (simp add: device_wf_def codes_wf_def)
  note found = map_find_set [OF fresh(3) this, of "code\<lparr>ac_use_count := ac_use_count code + 1\<rparr>"]
  have "ac_code_hash code = rp_code_hash p" using map_find_Some(1) [OF fresh(3)] .
  with found fresh(2-) ok [unfolded fresh(1)] show ?thesis by (auto simp: redeemActivationCode_def)
qed

interpretation redeem: idempotent_op redeemActivationCode "\<lambda>e p s. device_wf s" "\<lambda>r. r\<lparr>ar_alreadyActivated := True\<rparr>"
proof unfold_locales
  fix e e' :: js_env and p s s' and r :: ActivationRedemption
  assume wf: "device_wf s" and r: "redeemActivationCode e p s = (s', Inr r)"
  show "redeemActivationCode e' p s' = (s', Inr (r\<lparr>ar_alreadyActivated := True\<rparr>))" by (rule redeem_replay [OF wf r])
  show "device_wf s'" using redeemActivationCode_wf [OF wf, of e p] r by simp
qed simp

subsection \<open>The packs of a redemption\<close>

definition fresh_ids :: "js_env \<Rightarrow> string \<Rightarrow> (string, 'v) js_map \<Rightarrow> bool" where
  "fresh_ids e p m \<longleftrightarrow> inj (uuid e) \<and> (\<forall>k. map_get m (p @ uuid e k) = None)"

text \<open>Entitlements are only added by the loop, under the ids not drawn before.\<close>

lemma grant_packs_keeps:
  assumes "inj (uuid e)" and "\<And>j. k \<le> j \<Longrightarrow> map_get ents (''ent-'' @ uuid e j) = None"
  shows "set (map_values ents) \<subseteq> set (map_values (grant_packs e d c now packs k ents))"
  using assms(2)
proof (induction packs arbitrary: k ents)
  case (Cons pack packs)
  let ?ents = "map_set (''ent-'' @ uuid e k) (pack_entitlement e d c now pack k) ents"
  have "set (map_values ents) \<subseteq> set (map_values ?ents)" using Cons.prems [of k] by auto
  also have "\<dots> \<subseteq> set (map_values (grant_packs e d c now packs (Suc k) ?ents))"
    using Cons.prems assms(1) by (intro Cons.IH) (auto simp: inj_eq)
  finally show ?case using Cons.IH [OF Cons.prems] by (simp del: set_map)
qed simp

lemma grant_packs_usable:
  assumes "inj (uuid e)" and "\<And>j. k \<le> j \<Longrightarrow> map_get ents (''ent-'' @ uuid e j) = None"
    and "now < ac_expires_at c" and "pack \<in> set packs"
  shows "\<exists>en \<in> set (map_values (grant_packs e d c now packs k ents)). usable_entitlement (d_device_id d) pack now en"
  using assms(2,4)
proof (induction packs arbitrary: k ents)
  case (Cons q packs)
  let ?en = "pack_entitlement e d c now q k"
  let ?ents = "map_set (''ent-'' @ uuid e k) ?en ents"
  have new: "map_get ?ents (''ent-'' @ uuid e j) = None" if "Suc k \<le> j" for j
    using that Cons.prems(1) [of j] assms(1) by (auto simp: inj_eq)
  have en: "?en \<in> set (map_values ?ents)" "usable_entitlement (d_device_id d) q now ?en"
    using Cons.prems(1) [of k] assms(3) by (simp_all add: usable_entitlement_def pack_entitlement_def)
  note keep = grant_packs_keeps [where e = e and d = d and c = c and now = now and packs = packs, OF assms(1)]
  show ?case
  proof (cases "pack \<in> set packs")
    case True
    then show ?thesis using Cons.IH [OF Cons.prems(1)] Cons.IH [OF new] by (simp del: set_map)
  next
    case False
    then have "pack = q" using Cons.prems(2) by simp
    then show ?thesis
      using keep [OF Cons.prems(1)] subsetD [OF keep [OF new] en(1)] en(2)
      by (auto simp del: set_map)
  qed
qed simp

text \<open>What the loop adds comes from the code that is redeemed.\<close>

lemma grant_packs_source:
  "en \<in> set (map_values (grant_packs e d c now packs k ents)) \<Longrightarrow>
   en \<in> set (map_values ents) \<or> en_source_activation_code_id en = Some (ac_activation_code_id c)"
proof (induction packs arbitrary: k ents)
  case (Cons pack packs)
  let ?en = "pack_entitlement e d c now pack k"
  have "en_source_activation_code_id ?en = Some (ac_activation_code_id c)" by (simp add: pack_entitlement_def)
  moreover have "x = ?en \<or> x \<in> set (map_values ents)"
    if "x \<in> set (map_values (map_set (''ent-'' @ uuid e k) ?en ents))" for x
    using map_values_set [OF that] .
  ultimately show ?case
    using Cons.prems Cons.IH [of k ents] Cons.IH [of "Suc k" "map_set (''ent-'' @ uuid e k) ?en ents"]
    by (metis grant_packs.simps(2))
qed simp

lemma revoke_previous_values:
  assumes "en \<in> set (map_values (revoke_previous d ents))" and "d_activation_code_id d = Some previous" and "previous \<noteq> []"
    and "en_device_id en = d_device_id d" and "en_source_activation_code_id en = Some previous"
  shows "en_status en = EntRevoked"
  using assms by (auto simp: revoke_previous_def split: if_splits)

subsection \<open>Properties\<close>

definition sample_register :: register_device_params where
  "sample_register = \<lparr>rd_tenant_id = ''t'', rd_platform = ''win'', rd_app_version = ''1.0.0'',
     rd_device_fingerprint = ''fp'', rd_display_name = None\<rparr>"

definition sample_device :: DeviceRecord where
  "sample_device = new_device sample_env sample_register"

definition sample_code_params :: create_activation_params where
  "sample_code_params = \<lparr>ca_tenant_id = ''t'', ca_code_hash = ''hash'', ca_code_hint = ''hint'', ca_label = None,
     ca_max_uses = 1, ca_pack_ids = [''pack-a'', ''pack-b''], ca_expires_at = ''2027''\<rparr>"

definition sample_code :: ActivationCodeRecord where
  "sample_code = snd (createActivationCode sample_env sample_code_params empty_device_store)"

text \<open>One registered device and one activation code.\<close>

definition sample_devices :: device_store where
  "sample_devices = fst (createActivationCode sample_env sample_code_params
     (fst (registerDevice sample_env sample_register empty_device_store)))"

lemma sample_devices_run: "device_step\<^sup>*\<^sup>* empty_device_store sample_devices"
proof -
  have "device_step empty_device_store (fst (registerDevice sample_env sample_register empty_device_store))"
    by (rule device_step.register) (simp add: empty_device_store_def)
  moreover have "device_step (fst (registerDevice sample_env sample_register empty_device_store)) sample_devices"
    unfolding sample_devices_def
    by (rule device_step.create_code) (simp add: registerDevice_def empty_device_store_def map_find_def Let_def)
  ultimately show ?thesis by (meson converse_rtranclp_into_rtranclp r_into_rtranclp)
qed

lemma sample_devices_wf: "device_wf sample_devices"
  by (rule device_run.run_inv [OF sample_devices_run device_wf_empty])

lemma sample_devices_eval:
  "ds_devices sample_devices = [(''dev-uuid-0'', sample_device)]"
  "ds_activationCodes sample_devices = [(''act-uuid-0'', sample_code)]"
  "ds_devicePairingChallenges sample_devices = []" "ds_devicePairingByHash sample_devices = []"
  "ds_entitlements sample_devices = []"
  by (simp_all add: sample_devices_def registerDevice_def createActivationCode_def empty_device_store_def
      map_find_def Let_def sample_device_def new_device_def sample_code_def)

definition sample_pairing :: create_pairing_params where
  "sample_pairing = \<lparr>cp_challenge_id = ''ch'', cp_device_id = ''dev-uuid-0'', cp_code_hash = ''pair'',
     cp_expires_at = ''2026-01-01T00:00:00.000Z'', cp_now = Some ''2025''\<rparr>"

definition sample_consume :: consume_pairing_params where
  "sample_consume = \<lparr>cn_code_hash = ''pair'', cn_user_id = ''u'', cn_now = Some ''2025''\<rparr>"

definition sample_paired :: device_store where
  "sample_paired = fst (createDevicePairingChallenge sample_env sample_pairing sample_devices)"

definition sample_bound :: device_store where
  "sample_bound = fst (consumeDevicePairingChallenge sample_env sample_consume sample_paired)"

lemma sample_device_fields [simp]:
  "d_device_id sample_device = ''dev-uuid-0''" "d_status sample_device = DeviceActive"
  "d_user_id sample_device = None" "d_activation_code_id sample_device = None" "d_tenant_id sample_device = ''t''"
  by (simp_all add: sample_device_def new_device_def sample_register_def)

lemma sample_code_fields [simp]:
  "ac_activation_code_id sample_code = ''act-uuid-0''" "ac_code_hash sample_code = ''hash''"
  "ac_tenant_id sample_code = ''t''" "ac_status sample_code = CodeActive" "ac_expires_at sample_code = ''2027''"
  "ac_max_uses sample_code = 1" "ac_use_count sample_code = 0" "ac_pack_ids sample_code = [''pack-a'', ''pack-b'']"
  by (simp_all add: sample_code_def createActivationCode_def sample_code_params_def Let_def)

lemma sample_expires: "date_parse sample_env ''2026-01-01T00:00:00.000Z'' = Some 1767225600000"
  using date_parse_toISOString [OF common_eraI, of 1767225600000 sample_env] by (simp add: iso_2026)

lemma sample_paired_run: "device_step sample_devices sample_paired"
  unfolding sample_paired_def by (rule device_step.challenge) (simp add: sample_devices_eval)

lemma sample_paired_wf: "device_wf sample_paired"
  by (rule device_step_wf [OF sample_paired_run sample_devices_wf])

lemma sample_paired_eval:
  "ds_devices sample_paired = [(''dev-uuid-0'', sample_device)]"
  "ds_devicePairingByHash sample_paired = [(''pair'', ''ch'')]"
  "ds_devicePairingChallenges sample_paired =
    [(''ch'', \<lparr>pc_challenge_id = ''ch'', pc_device_id = ''dev-uuid-0'', pc_tenant_id = ''t'', pc_code_hash = ''pair'',
       pc_expires_at = ''2026-01-01T00:00:00.000Z'', pc_consumed_at = None, pc_created_at = ''2025''\<rparr>)]"
  by (simp_all add: sample_paired_def createDevicePairingChallenge_def sample_pairing_def sample_devices_eval
      sample_expires iso_2026 drop_challenges_def map_reject_def Let_def)

lemma sample_consumed:
  "\<exists>d. consumeDevicePairingChallenge sample_env sample_consume sample_paired = (sample_bound, Inr d) \<and>
     d_device_id d = ''dev-uuid-0''"
  by (simp add: sample_bound_def consumeDevicePairingChallenge_def sample_consume_def sample_paired_eval deviceClone_def
      Let_def)

text \<open>
  C15: a pairing code works once. When a code is redeemed, the device was active and bound to no
  account and is now bound to the redeeming one; the same code is refused afterwards, whoever
  presents it, and no new code can be issued for the device.
\<close>

theorem pairing_single_use:
  assumes wf: "device_wf s" and ok: "consumeDevicePairingChallenge e p s = (s', Inr device)"
    and "cn_code_hash p' = cn_code_hash p" and "cp_device_id q = d_device_id device"
  shows "map_option d_user_id (getDevice (d_device_id device) s) = Some None \<and>
    getDevice (d_device_id device) s' = Some device \<and> d_user_id device = Some (cn_user_id p) \<and>
    consumeDevicePairingChallenge e' p' s' = (s', Inl CODE_INVALID) \<and>
    createDevicePairingChallenge e' q s' = (s', None)"
  using wf ok
proof -
  have pw: "pairing_wf s" using wf by (simp add: device_wf_def)
  from pw ok show ?thesis
  proof (cases rule: consume_done)
    case (paired i c d)
    note 1 = paired
    have id: "d_device_id d = pc_device_id c" using wf 1(4) by (auto simp: device_wf_def devices_wf_def)
    note s' = 1(8) [OF id [symmetric]]
    have c: "pc_code_hash c = cn_code_hash p" using pairing_wfD(5) [OF pw 1(1)] 1(2) by auto
    have "map_get (ds_devicePairingByHash s') (cn_code_hash p) \<noteq> Some j" for j
      unfolding s' using map_get_values [OF 1(2)] c id by (auto simp: drop_challenges_index)
    then have "map_get (ds_devicePairingByHash s') (cn_code_hash p') = None" using assms(3) by (metis not_None_eq)
    moreover have "map_get (ds_devices s') (cp_device_id q) = Some (d\<lparr>d_user_id := Some (cn_user_id p)\<rparr>)"
      unfolding s' using assms(4) 1(7) id by (simp add: deviceClone_def)
    ultimately show ?thesis
      using 1(4,6,7) id assms(4)
      by (simp add: getDevice_def deviceClone_def consumeDevicePairingChallenge_def createDevicePairingChallenge_def)
  qed
qed

theorem pairing_single_use_witness:
  "consumeDevicePairingChallenge sample_env sample_consume sample_bound = (sample_bound, Inl CODE_INVALID) \<and>
   createDevicePairingChallenge sample_env sample_pairing sample_bound = (sample_bound, None)"
proof -
  obtain d where d: "consumeDevicePairingChallenge sample_env sample_consume sample_paired = (sample_bound, Inr d)"
    "d_device_id d = ''dev-uuid-0''" using sample_consumed by blast
  show ?thesis
    using pairing_single_use [OF sample_paired_wf d(1), of sample_consume sample_pairing sample_env] d(2)
    by (simp add: sample_pairing_def)
qed

text \<open>
  after any sequence of operations a device has at most one redeemable pairing code. If two
  codes could both be redeemed for the same device, they are the same code.
\<close>

theorem one_pairing_code:
  assumes run: "device_step\<^sup>*\<^sup>* empty_device_store s"
    and ok: "consumeDevicePairingChallenge e p s = (s1, Inr d1)" "consumeDevicePairingChallenge e' p' s = (s2, Inr d2)"
    and same: "d_device_id d1 = d_device_id d2"
  shows "cn_code_hash p = cn_code_hash p'"
proof -
  have wf: "device_wf s" by (rule device_run.run_inv [OF run device_wf_empty])
  then have pw: "pairing_wf s" and dw: "devices_wf s" by (simp_all add: device_wf_def)
  have reach: "\<exists>i c. map_get (ds_devicePairingByHash s) (cn_code_hash p) = Some i \<and>
      map_get (ds_devicePairingChallenges s) i = Some c \<and> pc_device_id c = d_device_id d"
    if "consumeDevicePairingChallenge e p s = (s1, Inr d)" for e p s1 d
    using that
    by (cases rule: consume_done [OF pw]) (use dw in \<open>auto simp: devices_wf_def deviceClone_def\<close>)
  obtain i c where c: "map_get (ds_devicePairingByHash s) (cn_code_hash p) = Some i"
    "map_get (ds_devicePairingChallenges s) i = Some c" "pc_device_id c = d_device_id d1" using reach [OF ok(1)] by blast
  obtain j c' where c': "map_get (ds_devicePairingByHash s) (cn_code_hash p') = Some j"
    "map_get (ds_devicePairingChallenges s) j = Some c'" "pc_device_id c' = d_device_id d2" using reach [OF ok(2)] by blast
  have "i = j" using pairing_wfD(4) [OF pw c(2) c'(2)] c(3) c'(3) same by simp
  with c(1,2) c'(1,2) show ?thesis using pairing_wfD(5) [OF pw] by (metis option.inject)
qed

theorem one_pairing_code_witness:
  "cn_code_hash sample_consume = cn_code_hash (sample_consume\<lparr>cn_user_id := ''v''\<rparr>) \<and>
   (\<exists>d. consumeDevicePairingChallenge sample_env sample_consume sample_paired = (sample_bound, Inr d))"
proof -
  have run: "device_step\<^sup>*\<^sup>* empty_device_store sample_paired"
    using sample_devices_run sample_paired_run by (rule rtranclp.rtrancl_into_rtrancl)
  obtain d where d: "consumeDevicePairingChallenge sample_env sample_consume sample_paired = (sample_bound, Inr d)"
    "d_device_id d = ''dev-uuid-0''" using sample_consumed by blast
  obtain s2 d2 where d2: "consumeDevicePairingChallenge sample_env (sample_consume\<lparr>cn_user_id := ''v''\<rparr>) sample_paired = (s2, Inr d2)"
    "d_device_id d2 = ''dev-uuid-0''"
    by (simp add: consumeDevicePairingChallenge_def sample_consume_def sample_paired_eval deviceClone_def Let_def)
  show ?thesis using one_pairing_code [OF run d(1) d2(1)] d d2(2) by auto
qed

text \<open>
  C16: an activation code never activates more devices than it allows. After any sequence of
  operations the devices that list this code are at most its use count, which is at most its
  \<^verbatim>\<open>max_uses\<close>.
\<close>

theorem activation_seats:
  assumes run: "device_step\<^sup>*\<^sup>* empty_device_store s" and code: "getActivationCode a s = Some c"
  shows "int (length (filter (\<lambda>d. d_activation_code_id d = Some a) (listDevices None s))) \<le> ac_use_count c \<and>
    ac_use_count c \<le> max 0 (ac_max_uses c)"
proof -
  have "codes_wf s" using device_run.run_inv [OF run device_wf_empty] by (simp add: device_wf_def)
  moreover have "length (filter (\<lambda>d. d_activation_code_id d = Some a) (listDevices None s)) = seats a s"
    by (simp add: listDevices_def seats_def filter_map comp_def deviceClone_def)
  ultimately show ?thesis
    using codes_wfD(3,4) [of s a c] code by (simp add: getActivationCode_def)
qed

theorem activation_seats_witness: "ac_use_count sample_code \<le> max 0 (ac_max_uses sample_code)"
  using activation_seats [OF sample_devices_run, of "''act-uuid-0''" sample_code]
  by (simp add: getActivationCode_def sample_devices_eval)

definition sample_redeem :: redeem_params where
  "sample_redeem = \<lparr>rp_device_id = ''dev-uuid-0'', rp_code_hash = ''hash'', rp_now = ''2026''\<rparr>"

definition sample_redeemed :: device_store where
  "sample_redeemed = fst (redeemActivationCode sample_env sample_redeem sample_devices)"

definition sample_redemption :: ActivationRedemption where
  "sample_redemption = \<lparr>ar_code = sample_code\<lparr>ac_use_count := 1\<rparr>,
     ar_device = sample_device\<lparr>d_activation_code_id := Some ''act-uuid-0'', d_activated_at := Some ''2026''\<rparr>,
     ar_alreadyActivated = False\<rparr>"

lemma sample_redeem_eval:
  "redeemActivationCode sample_env sample_redeem sample_devices = (sample_redeemed, Inr sample_redemption)"
  by (simp add: sample_redeemed_def sample_redemption_def redeemActivationCode_def sample_redeem_def
      sample_devices_eval map_find_def Let_def)

text \<open>
  redeeming an activation code is idempotent. However often the client repeats the call, the
  first success is the only change of the store (one use is counted, one set of entitlements is
  granted), and every repetition answers with the same code and device, marked as already
  activated.
\<close>

theorem redeem_idempotent:
  assumes "device_wf s" and "redeemActivationCode e p s = (s', Inr r)"
  shows "retry redeemActivationCode p (e # es) s =
    (s', Inr r # map (\<lambda>_. Inr (r\<lparr>ar_alreadyActivated := True\<rparr>)) es)"
  using assms by (rule redeem.retry_once)

theorem redeem_idempotent_witness:
  "retry redeemActivationCode sample_redeem [sample_env, sample_env] sample_devices =
    (sample_redeemed, [Inr sample_redemption, Inr (sample_redemption\<lparr>ar_alreadyActivated := True\<rparr>)])"
  using redeem_idempotent [OF sample_devices_wf sample_redeem_eval, of "[sample_env]"] by simp

lemma redeem_fresh:
  assumes wf: "device_wf s" and ok: "redeemActivationCode e p s = (s', Inr r)" and new: "\<not> ar_alreadyActivated r"
  obtains k device where "map_get (ds_devices s) (rp_device_id p) = Some device"
    and "d_activation_code_id device \<noteq> Some k"
    and "d_device_id (ar_device r) = rp_device_id p" and "d_device_id device = rp_device_id p"
    and "ac_activation_code_id (ar_code r) = k" and "rp_now p < ac_expires_at (ar_code r)"
    and "ds_entitlements s' = grant_packs e (ar_device r) (ar_code r) (rp_now p) (ac_pack_ids (ar_code r)) 0
      (revoke_previous device (ds_entitlements s))"
  using wf
proof (cases rule: redeem_cases [where e = e and p = p])
  case (fresh k code device)
  have "d_device_id device = rp_device_id p" using wf fresh(2) by (auto simp: device_wf_def devices_wf_def)
  then show thesis
    using that [of device k] ok [unfolded fresh(1)] fresh(2,5,6,9) by auto
qed (use ok new in auto)

text \<open>
  a successful redemption gives the device every pack of the code (for each there is an active
  entitlement of the device that has not expired), and when it replaces another code of the
  device, nothing granted by that other code stays active. The ids drawn for the new entitlements are
  assumed to be new.
\<close>

theorem redeem_grants_packs:
  assumes wf: "device_wf s" and ids: "fresh_ids e ''ent-'' (ds_entitlements s)"
    and ok: "redeemActivationCode e p s = (s', Inr r)" and new: "\<not> ar_alreadyActivated r"
  shows "(\<forall>pack \<in> set (ac_pack_ids (ar_code r)). \<exists>en \<in> set (listEntitlements (rp_device_id p) s').
      en_pack_id en = pack \<and> en_status en = EntActive \<and> rp_now p < en_expires_at en) \<and>
    (\<forall>device previous. map_get (ds_devices s) (rp_device_id p) = Some device \<longrightarrow>
      d_activation_code_id device = Some previous \<longrightarrow> previous \<noteq> [] \<longrightarrow>
      (\<forall>en \<in> set (listEntitlements (rp_device_id p) s').
        en_source_activation_code_id en = Some previous \<longrightarrow> en_status en = EntRevoked))"
proof -
  obtain k device where r: "map_get (ds_devices s) (rp_device_id p) = Some device"
    "d_activation_code_id device \<noteq> Some k"
    "d_device_id (ar_device r) = rp_device_id p" "d_device_id device = rp_device_id p"
    "ac_activation_code_id (ar_code r) = k" "rp_now p < ac_expires_at (ar_code r)"
    "ds_entitlements s' = grant_packs e (ar_device r) (ar_code r) (rp_now p) (ac_pack_ids (ar_code r)) 0
      (revoke_previous device (ds_entitlements s))"
    by (rule redeem_fresh [OF wf ok new]) blast
  have free: "map_get (revoke_previous device (ds_entitlements s)) (''ent-'' @ uuid e j) = None" for j
    using ids by (auto simp: revoke_previous_def fresh_ids_def split: option.split)
  have inj: "inj (uuid e)" using ids by (simp add: fresh_ids_def)
  have "\<exists>en \<in> set (listEntitlements (rp_device_id p) s').
      en_pack_id en = pack \<and> en_status en = EntActive \<and> rp_now p < en_expires_at en"
    if "pack \<in> set (ac_pack_ids (ar_code r))" for pack
    using grant_packs_usable [OF inj free r(6) that, where k = 0 and d = "ar_device r"] r(3,7)
    by (auto simp: listEntitlements_def usable_entitlement_def simp del: set_map)
  moreover have "en_status en = EntRevoked"
    if en: "en \<in> set (listEntitlements (rp_device_id p) s')" "en_source_activation_code_id en = Some previous"
      and prev: "d_activation_code_id device = Some previous" "previous \<noteq> []" for en previous
  proof -
    have "en \<in> set (map_values (revoke_previous device (ds_entitlements s)))"
      using grant_packs_source [of en e "ar_device r" "ar_code r" "rp_now p" "ac_pack_ids (ar_code r)" 0]
        en r(2,5,7) prev(1) by (auto simp: listEntitlements_def simp del: set_map)
    moreover have "en_device_id en = d_device_id device" using en(1) r(4) by (simp add: listEntitlements_def)
    ultimately show ?thesis using revoke_previous_values prev en(2) by blast
  qed
  ultimately show ?thesis using r(1) by auto
qed

theorem redeem_grants_packs_witness:
  "\<exists>en \<in> set (listEntitlements ''dev-uuid-0'' sample_redeemed). en_pack_id en = ''pack-b'' \<and> en_status en = EntActive"
proof -
  have "fresh_ids sample_env ''ent-'' (ds_entitlements sample_devices)"
    by (simp add: fresh_ids_def sample_devices_eval sample_uuid_inj)
  from redeem_grants_packs [OF sample_devices_wf this sample_redeem_eval] show ?thesis
    by (simp add: sample_redemption_def sample_redeem_def) blast
qed

end
