(* ===== verification/Redaction.thy ===== *)
theory Redaction
  imports JS_Prelude
begin

text \<open>
  The redaction of log fields and audit details (\<^verbatim>\<open>packages/longhub-observability/src/index.ts\<close>).
  The patterns \<^verbatim>\<open>redactLogText\<close> replaces in free text are run by the host's regular expression
  engine and are the parameter \<open>rx\<close>; the replacement of known secrets, the truncation and
  the walk through a value are modelled. A value of the model is a tree, so the branch for a cycle is never
  taken. The lemmas show that what stands under a sensitive key is gone at every depth and that
  the result is bounded in depth and width.
\<close>

definition REDACTED_LOG_VALUE :: string where
  "REDACTED_LOG_VALUE = ''[REDACTED]''"

definition TRUNCATED_LOG_VALUE :: string where
  "TRUNCATED_LOG_VALUE = ''[TRUNCATED]''"

definition DEFAULT_MAX_DEPTH :: nat where "DEFAULT_MAX_DEPTH = 8"

definition DEFAULT_MAX_ARRAY_LENGTH :: nat where "DEFAULT_MAX_ARRAY_LENGTH = 50"

definition DEFAULT_MAX_STRING_LENGTH :: nat where "DEFAULT_MAX_STRING_LENGTH = 4096"

definition EXACT_SECRET_KEYS :: "string list" where
  "EXACT_SECRET_KEYS =
    [''authorization'', ''proxyauthorization'', ''cookie'', ''setcookie'', ''token'', ''devicetoken'',
     ''gatewaytoken'', ''bridgetoken'', ''modeltoken'', ''admintoken'', ''accesstoken'', ''refreshtoken'',
     ''sessiontoken'', ''apikey'', ''encryptedapikey'', ''secret'', ''clientsecret'', ''password'', ''passphrase'',
     ''credential'', ''credentials'', ''privatekey'', ''signingkey'', ''modelconfigkey'', ''csckeypassword'',
     ''activationcode'', ''authorizationcode'']"

definition USER_CONTENT_KEYS :: "string list" where
  "USER_CONTENT_KEYS =
    [''content'', ''contents'', ''body'', ''input'', ''output'', ''text'', ''prompt'', ''messages'', ''filecontent'',
     ''filecontents'', ''filebody'', ''filetext'', ''userfilecontent'', ''attachmentcontent'', ''documenttext'',
     ''resumetext'', ''jdtext'']"

record redaction_options =
  ro_maxDepth :: nat
  ro_maxArrayLength :: nat
  ro_maxStringLength :: nat
  ro_sensitiveValues :: "string list"

definition default_options :: redaction_options where
  "default_options = \<lparr>ro_maxDepth = DEFAULT_MAX_DEPTH, ro_maxArrayLength = DEFAULT_MAX_ARRAY_LENGTH,
     ro_maxStringLength = DEFAULT_MAX_STRING_LENGTH, ro_sensitiveValues = []\<rparr>"

definition lower_char :: "char \<Rightarrow> char" where
  "lower_char c = (if is_upper c then char_of ((of_char c :: nat) + 32) else c)"

text \<open>
  \<^verbatim>\<open>key.toLowerCase().replace(/[^a-z0-9]/g, "")\<close>; the characters outside \<^verbatim>\<open>A-Z\<close> that have a lower
  case form among the first 256 code units are removed by the pattern either way.
\<close>

definition normalizedKey :: "string \<Rightarrow> string" where
  "normalizedKey key = filter (\<lambda>c. is_lower c \<or> is_digit c) (map lower_char key)"

definition isSensitiveKey :: "string \<Rightarrow> bool" where
  "isSensitiveKey key \<longleftrightarrow>
    normalizedKey key \<in> set EXACT_SECRET_KEYS \<or> normalizedKey key \<in> set USER_CONTENT_KEYS"

text \<open>\<^verbatim>\<open>s.split(secret).join(r)\<close> for a secret that is not empty.\<close>

function replace_all :: "string \<Rightarrow> string \<Rightarrow> string \<Rightarrow> string" where
  "replace_all secret r s =
    (if secret = [] \<or> s = [] then s
     else if starts_with secret s then r @ replace_all secret r (drop (length secret) s)
     else hd s # replace_all secret r (tl s))"
  by pat_completeness auto
termination
  by (relation "measure (\<lambda>(secret, r, s). length s)") auto

declare replace_all.simps [simp del]

definition redactLogText :: "(string \<Rightarrow> string) \<Rightarrow> string \<Rightarrow> nat \<Rightarrow> string list \<Rightarrow> string" where
  "redactLogText rx value maxLength sensitiveValues =
    (let known = fold (\<lambda>secret text. if 8 \<le> length secret then replace_all secret REDACTED_LOG_VALUE text else text)
                   sensitiveValues value;
         redacted = rx known
     in if maxLength < length redacted then take maxLength redacted @ TRUNCATED_LOG_VALUE else redacted)"

function redactValue :: "(string \<Rightarrow> string) \<Rightarrow> redaction_options \<Rightarrow> js_value \<Rightarrow> nat \<Rightarrow> js_value" where
  "redactValue rx opts (Str s) depth = Str (redactLogText rx s (ro_maxStringLength opts) (ro_sensitiveValues opts))"
| "redactValue rx opts Null depth = Null"
| "redactValue rx opts (Number n) depth = Number n"
| "redactValue rx opts (Boolean b) depth = Boolean b"
| "redactValue rx opts Undefined depth = Undefined"
| "redactValue rx opts (Arr xs) depth =
    (if ro_maxDepth opts \<le> depth then Str TRUNCATED_LOG_VALUE
     else Arr (map (\<lambda>x. redactValue rx opts x (Suc depth)) (take (ro_maxArrayLength opts) xs) @
            (if ro_maxArrayLength opts < length xs then [Str TRUNCATED_LOG_VALUE] else [])))"
| "redactValue rx opts (Obj props) depth =
    (if ro_maxDepth opts \<le> depth then Str TRUNCATED_LOG_VALUE
     else Obj (map (\<lambda>kv. (fst kv, if isSensitiveKey (fst kv) then Str REDACTED_LOG_VALUE
                                   else redactValue rx opts (snd kv) (Suc depth))) props))"
  by pat_completeness auto
termination
proof (relation "measure (\<lambda>(rx, opts, v, depth). size v)")
  fix rx :: "string \<Rightarrow> string" and opts :: redaction_options and xs :: "js_value list" and depth :: nat and x
  assume "x \<in> set (take (ro_maxArrayLength opts) xs)"
  then have "x \<in> set xs" by (rule in_set_takeD)
  then show "((rx, opts, x, Suc depth), rx, opts, Arr xs, depth) \<in> measure (\<lambda>(rx, opts, v, depth). size v)"
    by (induction xs) auto
next
  fix rx :: "string \<Rightarrow> string" and opts :: redaction_options and props and depth :: nat and kv :: "string \<times> js_value"
  assume "kv \<in> set props"
  then show "((rx, opts, snd kv, Suc depth), rx, opts, Obj props, depth) \<in> measure (\<lambda>(rx, opts, v, depth). size v)"
    by (induction props) auto
qed simp

definition redactLogValue :: "(string \<Rightarrow> string) \<Rightarrow> js_value \<Rightarrow> js_value" where
  "redactLogValue rx value = redactValue rx default_options value 0"

subsection \<open>What a redacted value holds\<close>

text \<open>Every property under a sensitive key, at any depth, holds the redaction mark.\<close>

fun secrets_hidden :: "js_value \<Rightarrow> bool" where
  "secrets_hidden (Arr xs) = list_all secrets_hidden xs"
| "secrets_hidden (Obj props) =
    list_all (\<lambda>kv. secrets_hidden (snd kv) \<and> (isSensitiveKey (fst kv) \<longrightarrow> snd kv = Str REDACTED_LOG_VALUE)) props"
| "secrets_hidden _ = True"

text \<open>Arrays longer than the bound end in the truncation mark; \<open>d\<close> is the nesting that is left.\<close>

fun bounded_value :: "nat \<Rightarrow> nat \<Rightarrow> js_value \<Rightarrow> bool" where
  "bounded_value n d (Arr xs) = (length xs \<le> Suc n \<and> 0 < d \<and> list_all (bounded_value n (d - 1)) xs)"
| "bounded_value n d (Obj props) = (0 < d \<and> list_all (\<lambda>kv. bounded_value n (d - 1) (snd kv)) props)"
| "bounded_value n d _ = True"

lemma redactValue_hidden: "secrets_hidden (redactValue rx opts v depth)"
  by (induction rx opts v depth rule: redactValue.induct)
    (auto simp: list_all_iff dest: in_set_takeD)

lemma redactValue_bounded:
  "bounded_value (ro_maxArrayLength opts) (ro_maxDepth opts - depth) (redactValue rx opts v depth)"
proof (induction rx opts v depth rule: redactValue.induct)
  case (6 rx opts xs depth)
  then show ?case by (auto simp: list_all_iff)
next
  case (7 rx opts props depth)
  then show ?case by (auto simp: list_all_iff)
qed simp_all

subsection \<open>Properties\<close>


end
