(* ===== verification/Account_Store.thy ===== *)
theory Account_Store
  imports JS_Time Redaction
begin

text \<open>
  Accounts, sessions, administrators and the audit log of \<^verbatim>\<open>MemoryStore\<close>
  (\<^verbatim>\<open>apps/longhub-cloud-api/src/memory-store.ts\<close>), with the token digest of \<^verbatim>\<open>auth.ts\<close>. A session is
  stored under the digest of its token. The lemmas show that an e-mail address names one account
  and that a session answers exactly until it expires.
\<close>

subsection \<open>Records\<close>

datatype AccountStatus = AccountActive | AccountDisabled

record UserRecord =
  u_user_id :: string
  u_email :: string
  u_password_hash :: string
  u_status :: AccountStatus
  u_balance_fen :: int
  u_created_at :: string

datatype SubjectType = SubjectUser | SubjectAdmin

record SessionRecord =
  se_token :: string
  se_subject_type :: SubjectType
  se_subject_id :: string
  se_expires_at :: string
  se_created_at :: string

datatype AdminRole = RoleSuper | RoleOps | RoleSupport

record AdminRecord =
  ad_admin_id :: string
  ad_username :: string
  ad_password_hash :: string
  ad_role :: AdminRole
  ad_status :: AccountStatus
  ad_created_at :: string

record AuditLogRecord =
  au_audit_id :: string
  au_actor :: string
  au_action :: string
  au_detail :: js_value
  au_created_at :: string

record account_store =
  as_users :: "(string, UserRecord) js_map"
  as_sessions :: "(string, SessionRecord) js_map"
  as_admins :: "(string, AdminRecord) js_map"
  as_audits :: "AuditLogRecord list"

definition empty_account_store :: account_store where
  "empty_account_store = \<lparr>as_users = [], as_sessions = [], as_admins = [], as_audits = []\<rparr>"

subsection \<open>Users\<close>

definition createUser :: "js_env \<Rightarrow> string \<Rightarrow> string \<Rightarrow> account_store \<Rightarrow> account_store \<times> UserRecord \<times> bool" where
  "createUser e email password_hash s =
    (case map_find (\<lambda>u. u_email u = email) (as_users s) of
       Some (_, user) \<Rightarrow> (s, user, True)
     | None \<Rightarrow>
         let user = \<lparr>u_user_id = ''usr-'' @ uuid e 0, u_email = email, u_password_hash = password_hash,
               u_status = AccountActive, u_balance_fen = 0, u_created_at = now_iso e 0\<rparr>
         in (s\<lparr>as_users := map_set (u_user_id user) user (as_users s)\<rparr>, user, False))"

definition getUser :: "string \<Rightarrow> account_store \<Rightarrow> UserRecord option" where
  "getUser userId s = map_get (as_users s) userId"

definition getUserByEmail :: "string \<Rightarrow> account_store \<Rightarrow> UserRecord option" where
  "getUserByEmail email s = map_option snd (map_find (\<lambda>u. u_email u = email) (as_users s))"

definition listUsers :: "account_store \<Rightarrow> UserRecord list" where
  "listUsers s = map_values (as_users s)"

definition setUserStatus :: "string \<Rightarrow> AccountStatus \<Rightarrow> account_store \<Rightarrow> account_store \<times> UserRecord option" where
  "setUserStatus userId status s =
    (case map_get (as_users s) userId of
       None \<Rightarrow> (s, None)
     | Some user \<Rightarrow>
         let user' = user\<lparr>u_status := status\<rparr>
         in (s\<lparr>as_users := map_set userId user' (as_users s)\<rparr>, Some user'))"

subsection \<open>Sessions\<close>

definition hashSessionToken :: "js_env \<Rightarrow> string \<Rightarrow> string" where
  "hashSessionToken e token = sha256 e (''longhub/auth-session/v1'' @ nul # token)"

text \<open>Seven days after the given time value; \<open>None\<close> is the \<^verbatim>\<open>RangeError\<close> of \<^verbatim>\<open>toISOString\<close>.\<close>

definition sessionExpiry :: "int \<Rightarrow> string option" where
  "sessionExpiry now = iso_string (now + 7 * 24 * 60 * 60 * 1000)"

record create_session_params =
  cs_subject_type :: SubjectType
  cs_subject_id :: string
  cs_token :: string
  cs_expires_at :: string

definition createSession :: "js_env \<Rightarrow> create_session_params \<Rightarrow> account_store \<Rightarrow> account_store \<times> SessionRecord" where
  "createSession e p s =
    (let session = \<lparr>se_token = cs_token p, se_subject_type = cs_subject_type p, se_subject_id = cs_subject_id p,
           se_expires_at = cs_expires_at p, se_created_at = now_iso e 0\<rparr>
     in (s\<lparr>as_sessions := map_set (hashSessionToken e (se_token session)) session (as_sessions s)\<rparr>, session))"

definition getSession :: "js_env \<Rightarrow> string \<Rightarrow> account_store \<Rightarrow> account_store \<times> SessionRecord option" where
  "getSession e token s =
    (let tokenHash = hashSessionToken e token
     in case map_get (as_sessions s) tokenHash of
          None \<Rightarrow> (s, None)
        | Some session \<Rightarrow>
            if se_expires_at session \<le> now_iso e 0
            then (s\<lparr>as_sessions := map_delete tokenHash (as_sessions s)\<rparr>, None)
            else (s, Some session))"

definition deleteSession :: "js_env \<Rightarrow> string \<Rightarrow> account_store \<Rightarrow> account_store" where
  "deleteSession e token s = s\<lparr>as_sessions := map_delete (hashSessionToken e token) (as_sessions s)\<rparr>"

subsection \<open>Administrators and the audit log\<close>

definition createAdmin ::
  "js_env \<Rightarrow> string \<Rightarrow> string \<Rightarrow> AdminRole \<Rightarrow> account_store \<Rightarrow> account_store \<times> AdminRecord \<times> bool" where
  "createAdmin e username password_hash role s =
    (case map_find (\<lambda>a. ad_username a = username) (as_admins s) of
       Some (_, admin) \<Rightarrow> (s, admin, True)
     | None \<Rightarrow>
         let admin = \<lparr>ad_admin_id = ''adm-'' @ uuid e 0, ad_username = username, ad_password_hash = password_hash,
               ad_role = role, ad_status = AccountActive, ad_created_at = now_iso e 0\<rparr>
         in (s\<lparr>as_admins := map_set (ad_admin_id admin) admin (as_admins s)\<rparr>, admin, False))"

definition getAdmin :: "string \<Rightarrow> account_store \<Rightarrow> AdminRecord option" where
  "getAdmin adminId s = map_get (as_admins s) adminId"

definition getAdminByUsername :: "string \<Rightarrow> account_store \<Rightarrow> AdminRecord option" where
  "getAdminByUsername username s = map_option snd (map_find (\<lambda>a. ad_username a = username) (as_admins s))"

definition appendAudit ::
  "js_env \<Rightarrow> (string \<Rightarrow> string) \<Rightarrow> string \<Rightarrow> string \<Rightarrow> js_value \<Rightarrow> account_store \<Rightarrow> account_store \<times> AuditLogRecord" where
  "appendAudit e rx actor action detail s =
    (let record = \<lparr>au_audit_id = ''aud-'' @ uuid e 0, au_actor = actor, au_action = action,
           au_detail = redactLogValue rx detail, au_created_at = now_iso e 0\<rparr>
     in (s\<lparr>as_audits := as_audits s @ [record]\<rparr>, record))"

text \<open>\<^verbatim>\<open>slice(-limit).reverse()\<close>; \<^verbatim>\<open>slice(-0)\<close> is the whole array.\<close>

definition listAudits :: "nat \<Rightarrow> account_store \<Rightarrow> AuditLogRecord list" where
  "listAudits limit s =
    rev (if limit = 0 then as_audits s else drop (length (as_audits s) - limit) (as_audits s))"

subsection \<open>The invariant and executions\<close>

definition account_wf :: "account_store \<Rightarrow> bool" where
  "account_wf s \<longleftrightarrow>
    map_ok (as_users s) \<and> map_ok (as_sessions s) \<and> map_ok (as_admins s) \<and>
    (\<forall>i u. map_get (as_users s) i = Some u \<longrightarrow> u_user_id u = i) \<and>
    distinct (map u_email (map_values (as_users s))) \<and>
    distinct (map ad_username (map_values (as_admins s)))"

inductive account_step :: "account_store \<Rightarrow> account_store \<Rightarrow> bool" where
  user: "map_get (as_users s) (''usr-'' @ uuid e 0) = None \<Longrightarrow> account_step s (fst (createUser e m h s))"
| status: "account_step s (fst (setUserStatus i st s))"
| session: "account_step s (fst (createSession e p s))"
| get: "account_step s (fst (getSession e t s))"
| logout: "account_step s (deleteSession e t s)"
| admin: "map_get (as_admins s) (''adm-'' @ uuid e 0) = None \<Longrightarrow> account_step s (fst (createAdmin e m h r s))"
| audit: "account_step s (fst (appendAudit e rx a b d s))"

lemma account_wf_empty: "account_wf empty_account_store"
  by (simp add: account_wf_def empty_account_store_def)

lemma map_find_None_key: "map_find (\<lambda>v. f v = x) m = None \<Longrightarrow> x \<notin> set (map f (map_values m))"
  by (auto simp: map_find_None)

lemma createUser_wf [inv_intro]:
  assumes "account_wf s" and "map_get (as_users s) (''usr-'' @ uuid e 0) = None"
  shows "account_wf (fst (createUser e m h s))"
  using assms map_find_None_key [of u_email m "as_users s"]
  by (auto simp: createUser_def account_wf_def Let_def simp del: map_map split: option.split)

lemma createAdmin_wf [inv_intro]:
  assumes "account_wf s" and "map_get (as_admins s) (''adm-'' @ uuid e 0) = None"
  shows "account_wf (fst (createAdmin e m h r s))"
  using assms map_find_None_key [of ad_username m "as_admins s"]
  by (auto simp: createAdmin_def account_wf_def Let_def simp del: map_map split: option.split)

text \<open>Writing a value back under its key keeps what the values show of a field that stays.\<close>

lemma map_field_set:
  "map_get m k = Some v \<Longrightarrow> f v' = f v \<Longrightarrow> map f (map_values (map_set k v' m)) = map f (map_values m)"
  by (induction m) (auto split: if_splits)

lemma setUserStatus_wf [inv_intro]: "account_wf s \<Longrightarrow> account_wf (fst (setUserStatus i st s))"
  unfolding account_wf_def
  by (auto simp: setUserStatus_def Let_def map_field_set [where f = u_email] simp del: map_map split: option.split)

lemma account_session_wf [inv_intro]:
  "account_wf s \<Longrightarrow> account_wf (fst (createSession e p s))"
  "account_wf s \<Longrightarrow> account_wf (fst (getSession e t s))"
  "account_wf s \<Longrightarrow> account_wf (deleteSession e t s)"
  "account_wf s \<Longrightarrow> account_wf (fst (appendAudit e rx a b d s))"
  by (auto simp: createSession_def getSession_def deleteSession_def appendAudit_def account_wf_def Let_def
      split: option.split)

lemma account_step_wf: "account_step s t \<Longrightarrow> account_wf s \<Longrightarrow> account_wf t"
  by (induction rule: account_step.induct) (auto intro: inv_intro)

interpretation account_run: step_invariant account_step account_wf
  by unfold_locales (rule account_step_wf)

subsection \<open>Properties\<close>

text \<open>
  C31: a session lives from its creation to its expiry. Right after a session is created, its token
  answers with it as long as the clock is before the expiry; at the expiry or later it answers with
  nothing and the session is gone for good, and after a logout it is gone at once. The sessions of other tokens, whose
  digests differ, are not touched by any of this. Expiry and clock are instants of the years 0 to 9999.
\<close>

theorem session_lifetime:
  assumes "cs_expires_at p = toISOString x" and "common_era x" and "common_era (clock e' 0)"
    and "sha256 e' = sha256 e"
  shows "snd (getSession e' (cs_token p) (fst (createSession e p s))) =
      (if clock e' 0 < x then Some (snd (createSession e p s)) else None) \<and>
    (x \<le> clock e' 0 \<longrightarrow>
      map_get (as_sessions (fst (getSession e' (cs_token p) (fst (createSession e p s))))) (hashSessionToken e (cs_token p)) = None) \<and>
    snd (getSession e' (cs_token p) (deleteSession e' (cs_token p) (fst (createSession e p s)))) = None \<and>
    (\<forall>h. h \<noteq> hashSessionToken e (cs_token p) \<longrightarrow>
      map_get (as_sessions (fst (getSession e' (cs_token p) (fst (createSession e p s))))) h = map_get (as_sessions s) h)"
proof -
  have hash: "hashSessionToken e' t = hashSessionToken e t" for t using assms(4) by (simp add: hashSessionToken_def)
  have "toISOString x \<le> now_iso e' 0 \<longleftrightarrow> x \<le> clock e' 0"
    using toISOString_le_iff [OF assms(2,3)] by (simp add: now_iso_def)
  then show ?thesis
    by (auto simp: getSession_def createSession_def deleteSession_def hash Let_def assms(1))
qed

theorem session_lifetime_witness:
  "snd (getSession sample_env ''tok'' (fst (createSession sample_env
      \<lparr>cs_subject_type = SubjectUser, cs_subject_id = ''u'', cs_token = ''tok'', cs_expires_at = toISOString 0\<rparr>
      empty_account_store))) = None"
  using session_lifetime [of "\<lparr>cs_subject_type = SubjectUser, cs_subject_id = ''u'', cs_token = ''tok'',
      cs_expires_at = toISOString 0\<rparr>" 0 sample_env sample_env empty_account_store]
    common_eraI [of 0] common_eraI [of 1767225600000] by (simp add: sample_env_def)

text \<open>
  an e-mail address names one account. In every reachable state two users with the same
  address are the same user, a registration with a known address returns that user and changes nothing, and the lookup by
  address finds every registered user.
\<close>

theorem email_unique:
  assumes "account_step\<^sup>*\<^sup>* empty_account_store s" and "getUser i s = Some u"
  shows "getUserByEmail (u_email u) s = Some u \<and> createUser e (u_email u) h s = (s, u, True) \<and>
    (\<forall>j v. getUser j s = Some v \<longrightarrow> u_email v = u_email u \<longrightarrow> j = i)"
proof -
  have wf: "account_wf s" by (rule account_run.run_inv [OF assms(1) account_wf_empty])
  then have ok: "map_ok (as_users s)" and dist: "distinct (map u_email (map_values (as_users s)))"
    and ids: "\<And>i u. map_get (as_users s) i = Some u \<Longrightarrow> u_user_id u = i" by (auto simp: account_wf_def)
  have same: "v = w" if "map_get (as_users s) j = Some v" "map_get (as_users s) k = Some w" "u_email v = u_email w" for j k v w
    using that dist map_get_values by (metis distinct_map inj_onD)
  have u: "map_get (as_users s) i = Some u" using assms(2) by (simp add: getUser_def)
  from ok have "\<exists>k. map_find (\<lambda>v. u_email v = u_email u) (as_users s) = Some (k, u)"
  proof (cases rule: map_find_cases [where P = "\<lambda>v. u_email v = u_email u"])
    case none
    then show ?thesis using map_get_values [OF u] by (auto simp: map_find_None)
  next
    case (found k v)
    then show ?thesis using same [OF found(2) u] by auto
  qed
  moreover have "j = i" if "map_get (as_users s) j = Some v" "u_email v = u_email u" for j v
    using same [OF that(1) u that(2)] ids that(1) u by blast
  ultimately show ?thesis by (auto simp: getUserByEmail_def createUser_def getUser_def)
qed

definition sample_user :: UserRecord where
  "sample_user = fst (snd (createUser sample_env ''a@b'' ''h'' empty_account_store))"

definition sample_accounts :: account_store where
  "sample_accounts = fst (createUser sample_env ''a@b'' ''h'' empty_account_store)"

lemma sample_accounts_eval:
  "as_users sample_accounts = [(''usr-uuid-0'', sample_user)]" "u_email sample_user = ''a@b''"
  by (simp_all add: sample_accounts_def sample_user_def createUser_def empty_account_store_def map_find_def Let_def)

theorem email_unique_witness:
  "createUser sample_env ''a@b'' ''other'' sample_accounts = (sample_accounts, sample_user, True)"
proof -
  have run: "account_step\<^sup>*\<^sup>* empty_account_store sample_accounts"
    unfolding sample_accounts_def
    by (rule r_into_rtranclp, rule account_step.user) (simp add: empty_account_store_def)
  show ?thesis
    using email_unique [OF run, of "''usr-uuid-0''" sample_user sample_env "''other''"]
    by (simp add: getUser_def sample_accounts_eval)
qed

end
