(* ===== verification/Cloud_Skill_Store.thy ===== *)
theory Cloud_Skill_Store
  imports JS_Time
begin

text \<open>
  Cloud Skill plans, subscriptions, entitlements and the Agent-Skill bindings of \<^verbatim>\<open>MemoryStore\<close>
  (\<^verbatim>\<open>apps/longhub-cloud-api/src/memory-store.ts\<close>). Access to a Skill is resolved from an entitlement,
  its subscription and its plan together; a binding authorises one Agent of one device for one Skill.
  The lemmas characterise when access is resolved, and show that a subscription that ended gives
  none.
\<close>

subsection \<open>Records\<close>

datatype CloudSkillPlanStatus = PlanListed | PlanUnlisted

datatype CloudSkillSubscriptionStatus = SubActive | SubCancelled | SubExpired | SubRefunded | SubSuspended

datatype CloudSkillEntitlementStatus = CsActive | CsSuspended | CsRevoked

datatype BillingPeriod = Monthly | Yearly

record CloudSkillPlanRecord =
  pl_plan_id :: string
  pl_name :: string
  pl_description :: string
  pl_skill_ids :: "string list"
  pl_price_monthly_fen :: int
  pl_price_yearly_fen :: int
  pl_included_calls :: int
  pl_requests_per_minute :: int
  pl_max_concurrency :: int
  pl_status :: CloudSkillPlanStatus
  pl_created_at :: string

record CloudSkillSubscriptionRecord =
  sb_subscription_id :: string
  sb_user_id :: string
  sb_tenant_id :: string
  sb_plan_id :: string
  sb_status :: CloudSkillSubscriptionStatus
  sb_period :: BillingPeriod
  sb_starts_at :: string
  sb_expires_at :: string
  sb_cancelled_at :: "string option"
  sb_refunded_at :: "string option"
  sb_source_order_id :: string
  sb_created_at :: string

record CloudSkillEntitlementRecord =
  ce_entitlement_id :: string
  ce_subscription_id :: string
  ce_tenant_id :: string
  ce_user_id :: string
  ce_skill_id :: string
  ce_plan_id :: string
  ce_status :: CloudSkillEntitlementStatus
  ce_expires_at :: string
  ce_created_at :: string

record CloudSkillAccessGrant =
  ag_entitlement :: CloudSkillEntitlementRecord
  ag_subscription :: CloudSkillSubscriptionRecord
  ag_plan :: CloudSkillPlanRecord

datatype CloudAgentSkillBindingStatus = BindingActive | BindingRevoked

record CloudAgentSkillBindingRecord =
  bi_binding_id :: string
  bi_tenant_id :: string
  bi_device_id :: string
  bi_user_id :: "string option"
  bi_agent_id :: string
  bi_skill_id :: string
  bi_status :: CloudAgentSkillBindingStatus
  bi_created_at :: string
  bi_revoked_at :: "string option"

text \<open>The request of an upsert and the query of a resolution have the same fields.\<close>

record CloudAgentSkillBindingUpsertRequest =
  bq_tenant_id :: string
  bq_device_id :: string
  bq_user_id :: "string option"
  bq_agent_id :: string
  bq_skill_id :: string

record CloudAgentSkillBindingListQuery =
  bl_tenant_id :: "string option"
  bl_device_id :: "string option"
  bl_user_id :: "string option"
  bl_agent_id :: "string option"
  bl_skill_id :: "string option"
  bl_status :: "CloudAgentSkillBindingStatus option"

record CloudSkillEntitlementQuery =
  eq_user_id :: "string option"
  eq_tenant_id :: "string option"
  eq_skill_id :: "string option"
  eq_plan_id :: "string option"
  eq_userId :: "string option"
  eq_tenantId :: "string option"
  eq_skillId :: "string option"
  eq_planId :: "string option"

record CloudSkillAccessQuery =
  aq_user_id :: "string option"
  aq_tenant_id :: "string option"
  aq_skill_id :: "string option"
  aq_allowed_plan_ids :: "string list option"
  aq_now :: "string option"
  aq_userId :: "string option"
  aq_tenantId :: "string option"
  aq_skillId :: "string option"
  aq_allowedPlanIds :: "string list option"

record skill_store =
  ks_plans :: "(string, CloudSkillPlanRecord) js_map"
  ks_subscriptions :: "(string, CloudSkillSubscriptionRecord) js_map"
  ks_subscriptionsByOrder :: "(string, string) js_map"
  ks_entitlements :: "(string, CloudSkillEntitlementRecord) js_map"
  ks_bindings :: "(string, CloudAgentSkillBindingRecord) js_map"
  ks_bindingByOwner :: "(string, string) js_map"

definition empty_skill_store :: skill_store where
  "empty_skill_store = \<lparr>ks_plans = [], ks_subscriptions = [], ks_subscriptionsByOrder = [],
     ks_entitlements = [], ks_bindings = [], ks_bindingByOwner = []\<rparr>"

datatype skill_error =
    INVALID_CLOUD_SKILL_PLAN string
  | CLOUD_SKILL_PLAN_EXISTS
  | CLOUD_SKILL_PLAN_NOT_FOUND
  | CLOUD_SKILL_ORDER_CONFLICT
  | INVALID_CLOUD_SKILL_SUBSCRIPTION
  | CLOUD_SKILL_SUBSCRIPTION_NOT_FOUND
  | CLOUD_SKILL_PLAN_MISMATCH
  | CLOUD_SKILL_SKILL_NOT_IN_PLAN
  | CLOUD_SKILL_SCOPE_MISMATCH
  | TYPE_ERROR

subsection \<open>Plans\<close>

definition DEFAULT_CLOUD_SKILL_INCLUDED_CALLS :: int where
  "DEFAULT_CLOUD_SKILL_INCLUDED_CALLS = 1000"

definition DEFAULT_CLOUD_SKILL_REQUESTS_PER_MINUTE :: int where
  "DEFAULT_CLOUD_SKILL_REQUESTS_PER_MINUTE = 60"

definition DEFAULT_CLOUD_SKILL_MAX_CONCURRENCY :: int where
  "DEFAULT_CLOUD_SKILL_MAX_CONCURRENCY = 2"

text \<open>\<^verbatim>\<open>[a-z][a-z0-9-]*\<close>\<close>

fun plan_segment :: "string \<Rightarrow> bool" where
  "plan_segment [] = False"
| "plan_segment (c # s) = (is_lower c \<and> list_all (\<lambda>c. is_lower c \<or> is_digit c \<or> c = CHR ''-'') s)"

definition valid_plan_id :: "string \<Rightarrow> bool" where
  "valid_plan_id s = list_all plan_segment (split_on CHR ''.'' s)"

text \<open>\<^verbatim>\<open>[a-z][a-z0-9.-]*\<close>\<close>

fun skill_part :: "string \<Rightarrow> bool" where
  "skill_part [] = False"
| "skill_part (c # s) =
    (is_lower c \<and> list_all (\<lambda>c. is_lower c \<or> is_digit c \<or> c = CHR ''.'' \<or> c = CHR ''-'') s)"

definition valid_skill_id :: "string \<Rightarrow> bool" where
  "valid_skill_id s =
    list_ex (\<lambda>i. skill_part (take i s) \<and> starts_with ''.skill.'' (drop i s) \<and> skill_part (drop (i + 7) s)) [0..<length s]"

definition valid_plan_name :: "string \<Rightarrow> bool" where
  "valid_plan_name name \<longleftrightarrow> js_trim name \<noteq> [] \<and> length name \<le> 120"

record create_plan_params =
  np_plan_id :: string
  np_name :: string
  np_description :: "string option"
  np_skill_ids :: "string list"
  np_price_monthly_fen :: js_number
  np_price_yearly_fen :: js_number
  np_included_calls :: "js_number option"
  np_requests_per_minute :: "js_number option"
  np_max_concurrency :: "js_number option"
  np_status :: "CloudSkillPlanStatus option"

definition createCloudSkillPlan ::
  "js_env \<Rightarrow> create_plan_params \<Rightarrow> skill_store \<Rightarrow> skill_store \<times> (skill_error + CloudSkillPlanRecord)" where
  "createCloudSkillPlan e p s =
    (let skillIds = js_dedup (np_skill_ids p);
         included = case_option (IntNum DEFAULT_CLOUD_SKILL_INCLUDED_CALLS) id (np_included_calls p);
         rpm = case_option (IntNum DEFAULT_CLOUD_SKILL_REQUESTS_PER_MINUTE) id (np_requests_per_minute p);
         concurrency = case_option (IntNum DEFAULT_CLOUD_SKILL_MAX_CONCURRENCY) id (np_max_concurrency p)
     in if \<not> valid_plan_id (np_plan_id p) then (s, Inl (INVALID_CLOUD_SKILL_PLAN ''plan_id''))
        else if \<not> valid_plan_name (np_name p) then (s, Inl (INVALID_CLOUD_SKILL_PLAN ''name''))
        else if skillIds = [] \<or> \<not> list_all valid_skill_id skillIds
          then (s, Inl (INVALID_CLOUD_SKILL_PLAN ''skill_ids''))
        else if length skillIds \<noteq> length (np_skill_ids p)
          then (s, Inl (INVALID_CLOUD_SKILL_PLAN ''skill_ids_duplicate''))
        else (case (natural (np_price_monthly_fen p), natural (np_price_yearly_fen p), natural included,
                    natural rpm, natural concurrency) of
            (Some monthly, Some yearly, Some calls, Some r, Some c) \<Rightarrow>
              if r \<le> 0 \<or> c \<le> 0 then (s, Inl (INVALID_CLOUD_SKILL_PLAN ''limits''))
              else if map_get (ks_plans s) (np_plan_id p) \<noteq> None then (s, Inl CLOUD_SKILL_PLAN_EXISTS)
              else
                let record = \<lparr>pl_plan_id = np_plan_id p, pl_name = np_name p,
                      pl_description = case_option [] id (np_description p), pl_skill_ids = skillIds,
                      pl_price_monthly_fen = monthly, pl_price_yearly_fen = yearly, pl_included_calls = calls,
                      pl_requests_per_minute = r, pl_max_concurrency = c,
                      pl_status = case_option PlanListed id (np_status p), pl_created_at = now_iso e 0\<rparr>
                in (s\<lparr>ks_plans := map_set (pl_plan_id record) record (ks_plans s)\<rparr>, Inr record)
          | _ \<Rightarrow> (s, Inl (INVALID_CLOUD_SKILL_PLAN ''limits''))))"

definition getCloudSkillPlan :: "string \<Rightarrow> skill_store \<Rightarrow> CloudSkillPlanRecord option" where
  "getCloudSkillPlan planId s = map_get (ks_plans s) planId"

definition listCloudSkillPlans :: "js_env \<Rightarrow> CloudSkillPlanStatus option \<Rightarrow> skill_store \<Rightarrow> CloudSkillPlanRecord list" where
  "listCloudSkillPlans e status s =
    js_sort (\<lambda>l r. cmp_then (localeCompare e (pl_created_at l) (pl_created_at r))
                            (localeCompare e (pl_plan_id l) (pl_plan_id r)))
      (filter (\<lambda>plan. status = None \<or> Some (pl_status plan) = status) (map_values (ks_plans s)))"

record plan_patch =
  pp_name :: "string option"
  pp_description :: "string option"
  pp_skill_ids :: "string list option"
  pp_price_monthly_fen :: "js_number option"
  pp_price_yearly_fen :: "js_number option"
  pp_included_calls :: "js_number option"
  pp_requests_per_minute :: "js_number option"
  pp_max_concurrency :: "js_number option"
  pp_status :: "CloudSkillPlanStatus option"

text \<open>The field a patch leaves out, or gives with a value the number check refuses.\<close>

definition bad_number :: "js_number option \<Rightarrow> bool" where
  "bad_number v = (case v of None \<Rightarrow> False | Some n \<Rightarrow> natural n = None)"

definition patched :: "int \<Rightarrow> js_number option \<Rightarrow> int" where
  "patched old v = (case v of None \<Rightarrow> old | Some n \<Rightarrow> (case natural n of None \<Rightarrow> old | Some i \<Rightarrow> i))"

text \<open>The checks of a patch in their order; the name of the first field refused.\<close>

definition plan_patch_error :: "plan_patch \<Rightarrow> string option" where
  "plan_patch_error p =
    (if (case pp_name p of None \<Rightarrow> False | Some name \<Rightarrow> \<not> valid_plan_name name) then Some ''name''
     else if (case pp_skill_ids p of None \<Rightarrow> False
              | Some ids \<Rightarrow> js_dedup ids = [] \<or> length (js_dedup ids) \<noteq> length ids \<or>
                  \<not> list_all valid_skill_id (js_dedup ids)) then Some ''skill_ids''
     else if bad_number (pp_price_monthly_fen p) then Some ''price_monthly_fen''
     else if bad_number (pp_price_yearly_fen p) then Some ''price_yearly_fen''
     else if bad_number (pp_included_calls p) then Some ''included_calls''
     else if bad_number (pp_requests_per_minute p) then Some ''requests_per_minute''
     else if bad_number (pp_max_concurrency p) then Some ''max_concurrency''
     else if pp_requests_per_minute p \<noteq> None \<and> patched 1 (pp_requests_per_minute p) \<le> 0
       then Some ''requests_per_minute''
     else if pp_max_concurrency p \<noteq> None \<and> patched 1 (pp_max_concurrency p) \<le> 0 then Some ''max_concurrency''
     else None)"

definition assign_plan_patch :: "plan_patch \<Rightarrow> CloudSkillPlanRecord \<Rightarrow> CloudSkillPlanRecord" where
  "assign_plan_patch p current =
    current\<lparr>
      pl_name := case_option (pl_name current) id (pp_name p),
      pl_description := case_option (pl_description current) id (pp_description p),
      pl_skill_ids := case_option (pl_skill_ids current) js_dedup (pp_skill_ids p),
      pl_price_monthly_fen := patched (pl_price_monthly_fen current) (pp_price_monthly_fen p),
      pl_price_yearly_fen := patched (pl_price_yearly_fen current) (pp_price_yearly_fen p),
      pl_included_calls := patched (pl_included_calls current) (pp_included_calls p),
      pl_requests_per_minute := patched (pl_requests_per_minute current) (pp_requests_per_minute p),
      pl_max_concurrency := patched (pl_max_concurrency current) (pp_max_concurrency p),
      pl_status := case_option (pl_status current) id (pp_status p)\<rparr>"

definition updateCloudSkillPlan ::
  "string \<Rightarrow> plan_patch \<Rightarrow> skill_store \<Rightarrow> skill_store \<times> (skill_error + CloudSkillPlanRecord option)" where
  "updateCloudSkillPlan planId p s =
    (case map_get (ks_plans s) planId of
       None \<Rightarrow> (s, Inr None)
     | Some current \<Rightarrow>
         (case plan_patch_error p of
            Some key \<Rightarrow> (s, Inl (INVALID_CLOUD_SKILL_PLAN key))
          | None \<Rightarrow>
              (s\<lparr>ks_plans := map_set planId (assign_plan_patch p current) (ks_plans s)\<rparr>,
               Inr (Some (assign_plan_patch p current)))))"

subsection \<open>Subscriptions\<close>

record create_subscription_params =
  ns_user_id :: string
  ns_tenant_id :: string
  ns_plan_id :: string
  ns_period :: BillingPeriod
  ns_starts_at :: string
  ns_expires_at :: string
  ns_source_order_id :: string
  ns_status :: "CloudSkillSubscriptionStatus option"

definition new_subscription ::
  "js_env \<Rightarrow> create_subscription_params \<Rightarrow> string \<Rightarrow> CloudSkillSubscriptionRecord" where
  "new_subscription e p planId =
    \<lparr>sb_subscription_id = ''csub-'' @ uuid e 0, sb_user_id = ns_user_id p, sb_tenant_id = ns_tenant_id p,
     sb_plan_id = planId, sb_status = case_option SubActive id (ns_status p), sb_period = ns_period p,
     sb_starts_at = ns_starts_at p, sb_expires_at = ns_expires_at p, sb_cancelled_at = None,
     sb_refunded_at = None, sb_source_order_id = ns_source_order_id p, sb_created_at = now_iso e 0\<rparr>"

text \<open>
  \<^verbatim>\<open>subscriptions.get(existingId)!\<close> of a row that is not there fails with a \<^verbatim>\<open>TypeError\<close> at the
  first field read.
\<close>

definition createCloudSkillSubscription ::
  "js_env \<Rightarrow> create_subscription_params \<Rightarrow> skill_store \<Rightarrow>
   skill_store \<times> (skill_error + CloudSkillSubscriptionRecord \<times> bool)" where
  "createCloudSkillSubscription e p s =
    (case map_get (ks_plans s) (ns_plan_id p) of
       None \<Rightarrow> (s, Inl CLOUD_SKILL_PLAN_NOT_FOUND)
     | Some plan \<Rightarrow>
         (case truthy (map_get (ks_subscriptionsByOrder s) (ns_source_order_id p)) of
            Some existingId \<Rightarrow>
              (case map_get (ks_subscriptions s) existingId of
                 None \<Rightarrow> (s, Inl TYPE_ERROR)
               | Some existing \<Rightarrow>
                   if sb_plan_id existing \<noteq> ns_plan_id p \<or> sb_user_id existing \<noteq> ns_user_id p
                   then (s, Inl CLOUD_SKILL_ORDER_CONFLICT)
                   else (s, Inr (existing, True)))
          | None \<Rightarrow>
              if ns_tenant_id p = [] \<or> ns_user_id p = [] \<or> ns_expires_at p \<le> ns_starts_at p
              then (s, Inl INVALID_CLOUD_SKILL_SUBSCRIPTION)
              else
                let subscription = new_subscription e p (pl_plan_id plan)
                in (s\<lparr>ks_subscriptions := map_set (sb_subscription_id subscription) subscription (ks_subscriptions s),
                      ks_subscriptionsByOrder := map_set (sb_source_order_id subscription)
                        (sb_subscription_id subscription) (ks_subscriptionsByOrder s)\<rparr>,
                    Inr (subscription, False))))"

definition getCloudSkillSubscription :: "string \<Rightarrow> skill_store \<Rightarrow> CloudSkillSubscriptionRecord option" where
  "getCloudSkillSubscription subscriptionId s = map_get (ks_subscriptions s) subscriptionId"

definition getCloudSkillSubscriptionByOrder :: "string \<Rightarrow> skill_store \<Rightarrow> CloudSkillSubscriptionRecord option" where
  "getCloudSkillSubscriptionByOrder orderId s =
    (case truthy (map_get (ks_subscriptionsByOrder s) orderId) of
       None \<Rightarrow> None
     | Some i \<Rightarrow> getCloudSkillSubscription i s)"

definition listCloudSkillSubscriptions ::
  "js_env \<Rightarrow> string option \<Rightarrow> skill_store \<Rightarrow> CloudSkillSubscriptionRecord list" where
  "listCloudSkillSubscriptions e userId s =
    js_sort (\<lambda>l r. localeCompare e (sb_created_at r) (sb_created_at l))
      (filter (\<lambda>sub. userId = None \<or> Some (sb_user_id sub) = userId) (map_values (ks_subscriptions s)))"

text \<open>The entitlements of a subscription that leaves the active status are revoked.\<close>

definition revoke_of :: "string \<Rightarrow> (string, CloudSkillEntitlementRecord) js_map \<Rightarrow> (string, CloudSkillEntitlementRecord) js_map" where
  "revoke_of subscriptionId ents =
    map_each (\<lambda>en. if ce_subscription_id en = subscriptionId \<and> ce_status en = CsActive
                    then en\<lparr>ce_status := CsRevoked\<rparr> else en) ents"

definition updateCloudSkillSubscriptionStatus ::
  "js_env \<Rightarrow> string \<Rightarrow> CloudSkillSubscriptionStatus \<Rightarrow> string option \<Rightarrow> skill_store \<Rightarrow>
   skill_store \<times> CloudSkillSubscriptionRecord option" where
  "updateCloudSkillSubscriptionStatus e subscriptionId status changedAt s =
    (let at = case_option (now_iso e 0) id changedAt
     in case map_get (ks_subscriptions s) subscriptionId of
          None \<Rightarrow> (s, None)
        | Some sub \<Rightarrow>
            let sub' = sub\<lparr>sb_status := status,
                  sb_cancelled_at := if status = SubCancelled then Some at else sb_cancelled_at sub,
                  sb_refunded_at := if status = SubRefunded then Some at else sb_refunded_at sub\<rparr>
            in (s\<lparr>ks_subscriptions := map_set subscriptionId sub' (ks_subscriptions s),
                  ks_entitlements := (if status \<noteq> SubActive then revoke_of (sb_subscription_id sub) (ks_entitlements s)
                                      else ks_entitlements s)\<rparr>, Some sub'))"

subsection \<open>Entitlements and access\<close>

record grant_skill_params =
  gs_subscription_id :: string
  gs_tenant_id :: "string option"
  gs_user_id :: "string option"
  gs_skill_id :: string
  gs_plan_id :: string
  gs_expires_at :: "string option"

definition grantCloudSkillEntitlement ::
  "js_env \<Rightarrow> grant_skill_params \<Rightarrow> skill_store \<Rightarrow> skill_store \<times> (skill_error + CloudSkillEntitlementRecord \<times> bool)" where
  "grantCloudSkillEntitlement e p s =
    (case map_get (ks_subscriptions s) (gs_subscription_id p) of
       None \<Rightarrow> (s, Inl CLOUD_SKILL_SUBSCRIPTION_NOT_FOUND)
     | Some sub \<Rightarrow>
         if sb_plan_id sub \<noteq> gs_plan_id p then (s, Inl CLOUD_SKILL_PLAN_MISMATCH)
         else if (case map_get (ks_plans s) (gs_plan_id p) of None \<Rightarrow> True
                  | Some plan \<Rightarrow> gs_skill_id p \<notin> set (pl_skill_ids plan))
         then (s, Inl CLOUD_SKILL_SKILL_NOT_IN_PLAN)
         else
           let tenantId = case_option (sb_tenant_id sub) id (gs_tenant_id p);
               userId = case_option (sb_user_id sub) id (gs_user_id p);
               expires = case_option (sb_expires_at sub) id (gs_expires_at p)
           in if tenantId \<noteq> sb_tenant_id sub \<or> userId \<noteq> sb_user_id sub then (s, Inl CLOUD_SKILL_SCOPE_MISMATCH)
              else (case map_find (\<lambda>en. ce_subscription_id en = sb_subscription_id sub \<and>
                        ce_skill_id en = gs_skill_id p \<and> ce_plan_id en = gs_plan_id p) (ks_entitlements s) of
                  Some (k, existing) \<Rightarrow>
                    let existing' = existing\<lparr>
                          ce_status := if ce_status existing = CsRevoked \<and> sb_status sub = SubActive then CsActive
                                       else ce_status existing,
                          ce_expires_at := expires\<rparr>
                    in (s\<lparr>ks_entitlements := map_set k existing' (ks_entitlements s)\<rparr>, Inr (existing', True))
                | None \<Rightarrow>
                    let en = \<lparr>ce_entitlement_id = ''csent-'' @ uuid e 0, ce_subscription_id = sb_subscription_id sub,
                          ce_tenant_id = tenantId, ce_user_id = userId, ce_skill_id = gs_skill_id p,
                          ce_plan_id = gs_plan_id p,
                          ce_status = if sb_status sub = SubActive then CsActive else CsRevoked,
                          ce_expires_at = expires, ce_created_at = now_iso e 0\<rparr>
                    in (s\<lparr>ks_entitlements := map_set (ce_entitlement_id en) en (ks_entitlements s)\<rparr>, Inr (en, False))))"

definition getCloudSkillEntitlement :: "string \<Rightarrow> skill_store \<Rightarrow> CloudSkillEntitlementRecord option" where
  "getCloudSkillEntitlement entitlementId s = map_get (ks_entitlements s) entitlementId"

text \<open>\<^verbatim>\<open>query[snake] ?? query[camel]\<close>, the empty string counting as absent.\<close>

definition queryValue :: "string option \<Rightarrow> string option \<Rightarrow> string option" where
  "queryValue snake camel = truthy (case snake of None \<Rightarrow> camel | Some v \<Rightarrow> Some v)"

definition listCloudSkillEntitlements ::
  "js_env \<Rightarrow> CloudSkillEntitlementQuery \<Rightarrow> skill_store \<Rightarrow> CloudSkillEntitlementRecord list" where
  "listCloudSkillEntitlements e q s =
    (let userId = queryValue (eq_user_id q) (eq_userId q);
         tenantId = queryValue (eq_tenant_id q) (eq_tenantId q);
         skillId = queryValue (eq_skill_id q) (eq_skillId q);
         planId = queryValue (eq_plan_id q) (eq_planId q)
     in js_sort (\<lambda>l r. localeCompare e (ce_created_at r) (ce_created_at l))
          (filter (\<lambda>en. (userId = None \<or> Some (ce_user_id en) = userId) \<and>
                         (tenantId = None \<or> Some (ce_tenant_id en) = tenantId) \<and>
                         (skillId = None \<or> Some (ce_skill_id en) = skillId) \<and>
                         (planId = None \<or> Some (ce_plan_id en) = planId)) (map_values (ks_entitlements s))))"

definition revokeCloudSkillEntitlement :: "string \<Rightarrow> skill_store \<Rightarrow> skill_store \<times> CloudSkillEntitlementRecord option" where
  "revokeCloudSkillEntitlement entitlementId s =
    (case map_get (ks_entitlements s) entitlementId of
       None \<Rightarrow> (s, None)
     | Some en \<Rightarrow>
         let en' = en\<lparr>ce_status := CsRevoked\<rparr>
         in (s\<lparr>ks_entitlements := map_set entitlementId en' (ks_entitlements s)\<rparr>, Some en'))"

text \<open>The candidate rows of a query, and the body of the loop over them.\<close>

definition access_candidate :: "string \<Rightarrow> string \<Rightarrow> string \<Rightarrow> string list option \<Rightarrow> string \<Rightarrow> CloudSkillEntitlementRecord \<Rightarrow> bool" where
  "access_candidate userId tenantId skillId allowed now en \<longleftrightarrow>
    ce_user_id en = userId \<and> ce_tenant_id en = tenantId \<and> ce_skill_id en = skillId \<and>
    ce_status en = CsActive \<and> now < ce_expires_at en \<and>
    (case allowed of None \<Rightarrow> True | Some plans \<Rightarrow> ce_plan_id en \<in> set plans)"

definition access_grant ::
  "string \<Rightarrow> string \<Rightarrow> string \<Rightarrow> string \<Rightarrow> skill_store \<Rightarrow> CloudSkillEntitlementRecord \<Rightarrow> CloudSkillAccessGrant option" where
  "access_grant userId tenantId skillId now s en =
    (case (map_get (ks_subscriptions s) (ce_subscription_id en), map_get (ks_plans s) (ce_plan_id en)) of
       (Some sub, Some plan) \<Rightarrow>
         if sb_plan_id sub \<noteq> ce_plan_id en \<or> sb_user_id sub \<noteq> userId \<or> sb_tenant_id sub \<noteq> tenantId \<or>
            sb_status sub \<noteq> SubActive \<or> now < sb_starts_at sub \<or> sb_expires_at sub \<le> now \<or>
            skillId \<notin> set (pl_skill_ids plan)
         then None
         else Some \<lparr>ag_entitlement = en, ag_subscription = sub, ag_plan = plan\<rparr>
     | _ \<Rightarrow> None)"

fun first_grant :: "('a \<Rightarrow> 'b option) \<Rightarrow> 'a list \<Rightarrow> 'b option" where
  "first_grant f [] = None"
| "first_grant f (x # xs) = (case f x of None \<Rightarrow> first_grant f xs | Some y \<Rightarrow> Some y)"

definition resolveCloudSkillAccess ::
  "js_env \<Rightarrow> CloudSkillAccessQuery \<Rightarrow> skill_store \<Rightarrow> CloudSkillAccessGrant option" where
  "resolveCloudSkillAccess e q s =
    (let allowed = (case aq_allowed_plan_ids q of None \<Rightarrow> aq_allowedPlanIds q | Some ps \<Rightarrow> Some ps);
         now = case_option (now_iso e 0) id (aq_now q)
     in case (queryValue (aq_user_id q) (aq_userId q), queryValue (aq_tenant_id q) (aq_tenantId q),
              queryValue (aq_skill_id q) (aq_skillId q)) of
          (Some userId, Some tenantId, Some skillId) \<Rightarrow>
            first_grant (access_grant userId tenantId skillId now s)
              (js_sort (\<lambda>l r. localeCompare e (ce_created_at r) (ce_created_at l))
                (filter (access_candidate userId tenantId skillId allowed now) (map_values (ks_entitlements s))))
        | _ \<Rightarrow> None)"

definition hasCloudSkillAccess :: "js_env \<Rightarrow> CloudSkillAccessQuery \<Rightarrow> skill_store \<Rightarrow> bool" where
  "hasCloudSkillAccess e q s \<longleftrightarrow> resolveCloudSkillAccess e q s \<noteq> None"

subsection \<open>Agent-Skill bindings\<close>

definition cloudAgentSkillBindingKey :: "CloudAgentSkillBindingUpsertRequest \<Rightarrow> string" where
  "cloudAgentSkillBindingKey b = nul_join [bq_tenant_id b, bq_device_id b, bq_agent_id b, bq_skill_id b]"

definition new_binding :: "js_env \<Rightarrow> CloudAgentSkillBindingUpsertRequest \<Rightarrow> CloudAgentSkillBindingRecord" where
  "new_binding e p =
    \<lparr>bi_binding_id = ''casb-'' @ uuid e 0, bi_tenant_id = bq_tenant_id p, bi_device_id = bq_device_id p,
     bi_user_id = bq_user_id p, bi_agent_id = bq_agent_id p, bi_skill_id = bq_skill_id p,
     bi_status = BindingActive, bi_created_at = now_iso e 0, bi_revoked_at = None\<rparr>"

definition insert_binding :: "string \<Rightarrow> CloudAgentSkillBindingRecord \<Rightarrow> skill_store \<Rightarrow> skill_store" where
  "insert_binding ownerKey binding s =
    s\<lparr>ks_bindings := map_set (bi_binding_id binding) binding (ks_bindings s),
      ks_bindingByOwner := map_set ownerKey (bi_binding_id binding) (ks_bindingByOwner s)\<rparr>"

definition upsertCloudAgentSkillBinding ::
  "js_env \<Rightarrow> CloudAgentSkillBindingUpsertRequest \<Rightarrow> skill_store \<Rightarrow> skill_store \<times> CloudAgentSkillBindingRecord \<times> bool" where
  "upsertCloudAgentSkillBinding e p s =
    (let ownerKey = cloudAgentSkillBindingKey p
     in case map_get (ks_bindingByOwner s) ownerKey of
          None \<Rightarrow> (insert_binding ownerKey (new_binding e p) s, new_binding e p, False)
        | Some existingId \<Rightarrow>
            (case map_get (ks_bindings s) existingId of
               None \<Rightarrow>
                 (insert_binding ownerKey (new_binding e p)
                    (s\<lparr>ks_bindingByOwner := map_delete ownerKey (ks_bindingByOwner s)\<rparr>), new_binding e p, False)
             | Some existing \<Rightarrow>
                 let existing' = existing\<lparr>
                       bi_user_id := case bq_user_id p of None \<Rightarrow> bi_user_id existing | Some u \<Rightarrow> Some u,
                       bi_status := BindingActive, bi_revoked_at := None\<rparr>
                 in (s\<lparr>ks_bindings := map_set existingId existing' (ks_bindings s)\<rparr>, existing', True)))"

definition resolveCloudAgentSkillBinding ::
  "CloudAgentSkillBindingUpsertRequest \<Rightarrow> skill_store \<Rightarrow> CloudAgentSkillBindingRecord option" where
  "resolveCloudAgentSkillBinding q s =
    (case map_get (ks_bindingByOwner s) (cloudAgentSkillBindingKey q) of
       None \<Rightarrow> None
     | Some bindingId \<Rightarrow>
         (case map_get (ks_bindings s) bindingId of
            None \<Rightarrow> None
          | Some binding \<Rightarrow>
              if bi_status binding \<noteq> BindingActive then None
              else if bq_user_id q \<noteq> None \<and> bi_user_id binding \<noteq> bq_user_id q then None
              else Some binding))"

definition revokeCloudAgentSkillBinding ::
  "js_env \<Rightarrow> string \<Rightarrow> skill_store \<Rightarrow> skill_store \<times> CloudAgentSkillBindingRecord option" where
  "revokeCloudAgentSkillBinding e bindingId s =
    (case map_get (ks_bindings s) bindingId of
       None \<Rightarrow> (s, None)
     | Some binding \<Rightarrow>
         if bi_status binding \<noteq> BindingRevoked
         then let binding' = binding\<lparr>bi_status := BindingRevoked, bi_revoked_at := Some (now_iso e 0)\<rparr>
              in (s\<lparr>ks_bindings := map_set bindingId binding' (ks_bindings s)\<rparr>, Some binding')
         else (s, Some binding))"

definition listCloudAgentSkillBindings ::
  "js_env \<Rightarrow> CloudAgentSkillBindingListQuery \<Rightarrow> skill_store \<Rightarrow> CloudAgentSkillBindingRecord list" where
  "listCloudAgentSkillBindings e q s =
    js_sort (\<lambda>l r. cmp_then (localeCompare e (bi_created_at r) (bi_created_at l))
                            (localeCompare e (bi_binding_id l) (bi_binding_id r)))
      (filter (\<lambda>b. (bl_tenant_id q = None \<or> Some (bi_tenant_id b) = bl_tenant_id q) \<and>
                    (bl_device_id q = None \<or> Some (bi_device_id b) = bl_device_id q) \<and>
                    (bl_user_id q = None \<or> bi_user_id b = bl_user_id q) \<and>
                    (bl_agent_id q = None \<or> Some (bi_agent_id b) = bl_agent_id q) \<and>
                    (bl_skill_id q = None \<or> Some (bi_skill_id b) = bl_skill_id q) \<and>
                    (bl_status q = None \<or> Some (bi_status b) = bl_status q)) (map_values (ks_bindings s)))"

subsection \<open>The invariant\<close>

definition plan_ok :: "CloudSkillPlanRecord \<Rightarrow> bool" where
  "plan_ok p \<longleftrightarrow>
    0 \<le> pl_price_monthly_fen p \<and> pl_price_monthly_fen p \<le> maxSafeInteger \<and>
    0 \<le> pl_price_yearly_fen p \<and> pl_price_yearly_fen p \<le> maxSafeInteger \<and>
    0 \<le> pl_included_calls p \<and> pl_included_calls p \<le> maxSafeInteger \<and>
    0 < pl_requests_per_minute p \<and> pl_requests_per_minute p \<le> maxSafeInteger \<and>
    0 < pl_max_concurrency p \<and> pl_max_concurrency p \<le> maxSafeInteger \<and>
    valid_plan_name (pl_name p) \<and>
    pl_skill_ids p \<noteq> [] \<and> distinct (pl_skill_ids p) \<and> list_all valid_skill_id (pl_skill_ids p)"

definition plans_wf :: "skill_store \<Rightarrow> bool" where
  "plans_wf s \<longleftrightarrow> map_ok (ks_plans s) \<and>
    (\<forall>i p. map_get (ks_plans s) i = Some p \<longrightarrow> pl_plan_id p = i \<and> plan_ok p)"

definition subs_wf :: "skill_store \<Rightarrow> bool" where
  "subs_wf s \<longleftrightarrow> map_ok (ks_subscriptions s) \<and>
    (\<forall>i b. map_get (ks_subscriptions s) i = Some b \<longrightarrow> sb_subscription_id b = i) \<and>
    (\<forall>q i. map_get (ks_subscriptionsByOrder s) q = Some i \<longrightarrow>
       (\<exists>b. map_get (ks_subscriptions s) i = Some b \<and> sb_source_order_id b = q))"

text \<open>An active entitlement belongs to an active subscription of the same user, tenant and plan.\<close>

definition ents_wf :: "skill_store \<Rightarrow> bool" where
  "ents_wf s \<longleftrightarrow> map_ok (ks_entitlements s) \<and>
    (\<forall>i en. map_get (ks_entitlements s) i = Some en \<longrightarrow>
       (\<exists>b. map_get (ks_subscriptions s) (ce_subscription_id en) = Some b \<and>
          sb_user_id b = ce_user_id en \<and> sb_tenant_id b = ce_tenant_id en \<and> sb_plan_id b = ce_plan_id en \<and>
          (ce_status en = CsActive \<longrightarrow> sb_status b = SubActive)))"

definition binding_key_of :: "CloudAgentSkillBindingRecord \<Rightarrow> string" where
  "binding_key_of b = nul_join [bi_tenant_id b, bi_device_id b, bi_agent_id b, bi_skill_id b]"

definition bindings_wf :: "skill_store \<Rightarrow> bool" where
  "bindings_wf s \<longleftrightarrow>
    (\<forall>i b. map_get (ks_bindings s) i = Some b \<longrightarrow> bi_binding_id b = i) \<and>
    (\<forall>k i. map_get (ks_bindingByOwner s) k = Some i \<longrightarrow>
       (\<exists>b. map_get (ks_bindings s) i = Some b \<and> binding_key_of b = k))"

definition skill_wf :: "skill_store \<Rightarrow> bool" where
  "skill_wf s \<longleftrightarrow> plans_wf s \<and> subs_wf s \<and> ents_wf s \<and> bindings_wf s"

lemma skill_wf_empty: "skill_wf empty_skill_store"
  by (simp add: skill_wf_def plans_wf_def subs_wf_def ents_wf_def bindings_wf_def empty_skill_store_def)

lemma skill_wf_frames [simp]:
  "plans_wf (s\<lparr>ks_subscriptions := b\<rparr>) = plans_wf s" "plans_wf (s\<lparr>ks_entitlements := c\<rparr>) = plans_wf s"
  "plans_wf (s\<lparr>ks_subscriptionsByOrder := y\<rparr>) = plans_wf s"
  "plans_wf (s\<lparr>ks_bindings := d\<rparr>) = plans_wf s" "plans_wf (s\<lparr>ks_bindingByOwner := x\<rparr>) = plans_wf s"
  "subs_wf (s\<lparr>ks_plans := a\<rparr>) = subs_wf s" "subs_wf (s\<lparr>ks_entitlements := c\<rparr>) = subs_wf s"
  "subs_wf (s\<lparr>ks_bindings := d\<rparr>) = subs_wf s" "subs_wf (s\<lparr>ks_bindingByOwner := x\<rparr>) = subs_wf s"
  "ents_wf (s\<lparr>ks_plans := a\<rparr>) = ents_wf s" "ents_wf (s\<lparr>ks_subscriptionsByOrder := y\<rparr>) = ents_wf s"
  "ents_wf (s\<lparr>ks_bindings := d\<rparr>) = ents_wf s" "ents_wf (s\<lparr>ks_bindingByOwner := x\<rparr>) = ents_wf s"
  "bindings_wf (s\<lparr>ks_plans := a\<rparr>) = bindings_wf s" "bindings_wf (s\<lparr>ks_subscriptions := b\<rparr>) = bindings_wf s"
  "bindings_wf (s\<lparr>ks_subscriptionsByOrder := y\<rparr>) = bindings_wf s" "bindings_wf (s\<lparr>ks_entitlements := c\<rparr>) = bindings_wf s"
  by (simp_all add: plans_wf_def subs_wf_def ents_wf_def bindings_wf_def)

lemma patched_bounds:
  "0 \<le> old \<Longrightarrow> old \<le> maxSafeInteger \<Longrightarrow> 0 \<le> patched old v \<and> patched old v \<le> maxSafeInteger"
  by (auto simp: patched_def natural_Some split: option.split)

lemma set_plan_wf:
  "plans_wf s \<Longrightarrow> plan_ok p \<Longrightarrow> pl_plan_id p = i \<Longrightarrow> plans_wf (s\<lparr>ks_plans := map_set i p (ks_plans s)\<rparr>)"
  by (simp add: plans_wf_def)

lemma positive_patch:
  assumes "0 < old" and "old \<le> maxSafeInteger" and "\<not> bad_number v" and "\<not> (v \<noteq> None \<and> patched 1 v \<le> 0)"
  shows "0 < patched old v \<and> patched old v \<le> maxSafeInteger"
proof (cases v)
  case None
  with assms show ?thesis by (simp add: patched_def)
next
  case (Some n)
  then obtain i where i: "natural n = Some i" using assms(3) by (auto simp: bad_number_def)
  with Some assms(4) have "0 < i" by (simp add: patched_def)
  with i Some show ?thesis using natural_Some [of n i] by (simp add: patched_def)
qed

lemma createCloudSkillPlan_done:
  assumes "createCloudSkillPlan e p s = (s', Inr r)"
  shows "s' = s\<lparr>ks_plans := map_set (pl_plan_id r) r (ks_plans s)\<rparr>" and "plan_ok r"
    and "map_get (ks_plans s) (pl_plan_id r) = None"
proof -
  define ids where "ids = js_dedup (np_skill_ids p)"
  define calls where "calls = case_option (IntNum DEFAULT_CLOUD_SKILL_INCLUDED_CALLS) id (np_included_calls p)"
  define rpm where "rpm = case_option (IntNum DEFAULT_CLOUD_SKILL_REQUESTS_PER_MINUTE) id (np_requests_per_minute p)"
  define conc where "conc = case_option (IntNum DEFAULT_CLOUD_SKILL_MAX_CONCURRENCY) id (np_max_concurrency p)"
  note def = createCloudSkillPlan_def [of e p s, unfolded Let_def, folded ids_def calls_def rpm_def conc_def]
  have c: "valid_plan_id (np_plan_id p)" "valid_plan_name (np_name p)" "ids \<noteq> []" "list_all valid_skill_id ids"
    "length ids = length (np_skill_ids p)"
    using assms unfolding def by (auto split: if_splits)
  note r = assms [unfolded def, simplified c, simplified]
  obtain m y k x z where n: "natural (np_price_monthly_fen p) = Some m" "natural (np_price_yearly_fen p) = Some y"
      "natural calls = Some k" "natural rpm = Some x" "natural conc = Some z"
    using r by (auto split: option.splits)
  have nat: "0 \<le> i \<and> i \<le> maxSafeInteger" if "natural v = Some i" for v i using that by (simp add: natural_Some)
  have "distinct ids" by (simp add: ids_def)
  with c r [unfolded n, simplified] n [THEN nat]
  show "s' = s\<lparr>ks_plans := map_set (pl_plan_id r) r (ks_plans s)\<rparr>" "plan_ok r"
    "map_get (ks_plans s) (pl_plan_id r) = None"
    by (auto simp: plan_ok_def split: if_splits)
qed

lemma createCloudSkillPlan_refused: "createCloudSkillPlan e p s = (s', Inl err) \<Longrightarrow> s' = s"
  unfolding createCloudSkillPlan_def Let_def by (auto split: if_splits option.splits)

lemma createCloudSkillPlan_wf [inv_intro]:
  assumes "skill_wf s"
  shows "skill_wf (fst (createCloudSkillPlan e p s))"
proof (cases "createCloudSkillPlan e p s")
  case (Pair s' r)
  show ?thesis
  proof (cases r)
    case (Inl err)
    then show ?thesis using assms Pair createCloudSkillPlan_refused [of e p s s' err] by simp
  next
    case (Inr plan)
    with Pair have ok: "createCloudSkillPlan e p s = (s', Inr plan)" by simp
    show ?thesis
      using assms unfolding Pair fst_conv createCloudSkillPlan_done(1) [OF ok]
      by (simp add: skill_wf_def set_plan_wf createCloudSkillPlan_done(2) [OF ok])
  qed
qed

lemma assign_plan_patch_ok:
  assumes "plan_ok cur" and none: "plan_patch_error p = None"
  shows "plan_ok (assign_plan_patch p cur)"
proof -
  have num: "\<not> bad_number (pp_requests_per_minute p)" "\<not> bad_number (pp_max_concurrency p)"
      "\<not> (pp_requests_per_minute p \<noteq> None \<and> patched 1 (pp_requests_per_minute p) \<le> 0)"
      "\<not> (pp_max_concurrency p \<noteq> None \<and> patched 1 (pp_max_concurrency p) \<le> 0)"
    using none unfolding plan_patch_error_def by (metis option.distinct(1))+
  have name: "valid_plan_name n" if "pp_name p = Some n" for n
    using none that unfolding plan_patch_error_def by (simp split: if_splits)
  have ids: "ids \<noteq> []" "list_all valid_skill_id (js_dedup ids)" if "pp_skill_ids p = Some ids" for ids
    using none that unfolding plan_patch_error_def by (auto simp: js_dedup_def split: if_splits)
  show ?thesis
    using assms(1) patched_bounds positive_patch [OF _ _ num(1,3)] positive_patch [OF _ _ num(2,4)] name ids
    unfolding plan_ok_def assign_plan_patch_def
    by (cases "pp_name p"; cases "pp_skill_ids p") (simp_all add: js_dedup_def)
qed

lemma updateCloudSkillPlan_wf [inv_intro]:
  assumes wf: "skill_wf s"
  shows "skill_wf (fst (updateCloudSkillPlan i p s))"
proof (cases "map_get (ks_plans s) i")
  case None
  with wf show ?thesis by (simp add: updateCloudSkillPlan_def)
next
  case (Some cur)
  have "plan_ok cur" "pl_plan_id (assign_plan_patch p cur) = i"
    using wf Some by (auto simp: skill_wf_def plans_wf_def assign_plan_patch_def)
  with Some wf show ?thesis
    by (auto simp: updateCloudSkillPlan_def skill_wf_def intro!: set_plan_wf assign_plan_patch_ok split: option.split)
qed

lemma ents_wfD:
  assumes "ents_wf s" and "map_get (ks_entitlements s) i = Some en"
  obtains b where "map_get (ks_subscriptions s) (ce_subscription_id en) = Some b" and "sb_user_id b = ce_user_id en"
    and "sb_tenant_id b = ce_tenant_id en" and "sb_plan_id b = ce_plan_id en"
    and "ce_status en = CsActive \<Longrightarrow> sb_status b = SubActive"
  using assms unfolding ents_wf_def by blast

text \<open>A new subscription under an unused id.\<close>

lemma add_subscription_wf:
  assumes subs: "subs_wf s" and ents: "ents_wf s" and new: "map_get (ks_subscriptions s) (sb_subscription_id b) = None"
  shows "subs_wf (s\<lparr>ks_subscriptions := map_set (sb_subscription_id b) b (ks_subscriptions s),
      ks_subscriptionsByOrder := map_set (sb_source_order_id b) (sb_subscription_id b) (ks_subscriptionsByOrder s)\<rparr>)"
    and "ents_wf (s\<lparr>ks_subscriptions := map_set (sb_subscription_id b) b (ks_subscriptions s),
      ks_subscriptionsByOrder := y\<rparr>)"
proof -
  show "ents_wf (s\<lparr>ks_subscriptions := map_set (sb_subscription_id b) b (ks_subscriptions s), ks_subscriptionsByOrder := y\<rparr>)"
    using ents new unfolding ents_wf_def by (auto split: if_splits) (metis option.distinct(1))+
  show "subs_wf (s\<lparr>ks_subscriptions := map_set (sb_subscription_id b) b (ks_subscriptions s),
      ks_subscriptionsByOrder := map_set (sb_source_order_id b) (sb_subscription_id b) (ks_subscriptionsByOrder s)\<rparr>)"
    using subs new unfolding subs_wf_def by (auto split: if_splits) (metis option.distinct(1))
qed

lemma createCloudSkillSubscription_wf [inv_intro]:
  assumes "skill_wf s" and "map_get (ks_subscriptions s) (''csub-'' @ uuid e 0) = None"
  shows "skill_wf (fst (createCloudSkillSubscription e p s))"
proof -
  have "skill_wf (s\<lparr>ks_subscriptions := map_set (sb_subscription_id b) b (ks_subscriptions s),
      ks_subscriptionsByOrder := map_set (sb_source_order_id b) (sb_subscription_id b) (ks_subscriptionsByOrder s)\<rparr>)"
    if "b = new_subscription e p i" for b i
    using assms that add_subscription_wf [of s b] by (simp add: skill_wf_def new_subscription_def)
  with assms(1) show ?thesis
    by (auto simp: createCloudSkillSubscription_def Let_def split: option.split)
qed

lemma status_entitlement:
  assumes "map_get (ks_subscriptions s) i = Some b" and "sb_subscription_id b = i"
  shows "map_get (ks_entitlements (fst (updateCloudSkillSubscriptionStatus e i st at s))) j =
    map_option (\<lambda>en. if st \<noteq> SubActive \<and> ce_subscription_id en = i \<and> ce_status en = CsActive
      then en\<lparr>ce_status := CsRevoked\<rparr> else en) (map_get (ks_entitlements s) j)"
  using assms
  by (cases "map_get (ks_entitlements s) j") (simp_all add: updateCloudSkillSubscriptionStatus_def revoke_of_def Let_def)

lemma updateCloudSkillSubscriptionStatus_wf [inv_intro]:
  assumes wf: "skill_wf s"
  shows "skill_wf (fst (updateCloudSkillSubscriptionStatus e i st at s))"
proof (cases "map_get (ks_subscriptions s) i")
  case None
  with wf show ?thesis by (simp add: updateCloudSkillSubscriptionStatus_def)
next
  case (Some b)
  let ?s = "fst (updateCloudSkillSubscriptionStatus e i st at s)"
  have id: "sb_subscription_id b = i" and ents: "ents_wf s" using wf Some by (auto simp: skill_wf_def subs_wf_def)
  have "subs_wf ?s"
    using wf Some unfolding skill_wf_def subs_wf_def
    by (auto simp: updateCloudSkillSubscriptionStatus_def Let_def) (metis option.inject)+
  moreover have "ents_wf ?s"
    unfolding ents_wf_def
  proof (intro conjI allI impI)
    show "map_ok (ks_entitlements ?s)"
      using ents Some by (simp add: updateCloudSkillSubscriptionStatus_def revoke_of_def ents_wf_def Let_def)
  next
    fix j en
    assume "map_get (ks_entitlements ?s) j = Some en"
    then obtain en0 where en0: "map_get (ks_entitlements s) j = Some en0"
      and en: "en = (if st \<noteq> SubActive \<and> ce_subscription_id en0 = i \<and> ce_status en0 = CsActive
        then en0\<lparr>ce_status := CsRevoked\<rparr> else en0)"
      unfolding status_entitlement [OF Some id] map_option_eq_Some by blast
    obtain b0 where "map_get (ks_subscriptions s) (ce_subscription_id en0) = Some b0" "sb_user_id b0 = ce_user_id en0"
      "sb_tenant_id b0 = ce_tenant_id en0" "sb_plan_id b0 = ce_plan_id en0" "ce_status en0 = CsActive \<Longrightarrow> sb_status b0 = SubActive"
      using ents_wfD [OF ents en0] by blast
    then show "\<exists>b. map_get (ks_subscriptions ?s) (ce_subscription_id en) = Some b \<and>
        sb_user_id b = ce_user_id en \<and> sb_tenant_id b = ce_tenant_id en \<and> sb_plan_id b = ce_plan_id en \<and>
        (ce_status en = CsActive \<longrightarrow> sb_status b = SubActive)"
      unfolding en using Some by (auto simp: updateCloudSkillSubscriptionStatus_def Let_def)
  qed
  moreover have "plans_wf ?s" "bindings_wf ?s"
    using wf Some by (simp_all add: updateCloudSkillSubscriptionStatus_def skill_wf_def Let_def)
  ultimately show ?thesis by (simp add: skill_wf_def)
qed

lemma set_entitlement_wf:
  assumes "ents_wf s" and "map_get (ks_subscriptions s) (ce_subscription_id en) = Some b"
    and "sb_user_id b = ce_user_id en" and "sb_tenant_id b = ce_tenant_id en" and "sb_plan_id b = ce_plan_id en"
    and "ce_status en = CsActive \<Longrightarrow> sb_status b = SubActive"
  shows "ents_wf (s\<lparr>ks_entitlements := map_set k en (ks_entitlements s)\<rparr>)"
  using assms unfolding ents_wf_def by auto

lemma grantCloudSkillEntitlement_wf [inv_intro]:
  assumes wf: "skill_wf s"
  shows "skill_wf (fst (grantCloudSkillEntitlement e p s))"
proof (cases "map_get (ks_subscriptions s) (gs_subscription_id p)")
  case None
  with wf show ?thesis by (simp add: grantCloudSkillEntitlement_def)
next
  case (Some b)
  have id: "sb_subscription_id b = gs_subscription_id p" and ents: "ents_wf s" and ok: "map_ok (ks_entitlements s)"
    using wf Some by (auto simp: skill_wf_def subs_wf_def ents_wf_def)
  have new: "skill_wf (s\<lparr>ks_entitlements := map_set k en (ks_entitlements s)\<rparr>)"
    if "ce_subscription_id en = gs_subscription_id p" "sb_user_id b = ce_user_id en" "sb_tenant_id b = ce_tenant_id en"
      "sb_plan_id b = ce_plan_id en" "ce_status en = CsActive \<Longrightarrow> sb_status b = SubActive" for k en
    using wf set_entitlement_wf [OF ents, of en b k] that Some by (simp add: skill_wf_def)
  have old: "sb_user_id b = ce_user_id en \<and> sb_tenant_id b = ce_tenant_id en \<and> sb_plan_id b = ce_plan_id en \<and>
      (ce_status en = CsActive \<longrightarrow> sb_status b = SubActive)"
    if "map_get (ks_entitlements s) k = Some en" "ce_subscription_id en = gs_subscription_id p" for k en
    using ents_wfD [OF ents that(1)] that(2) Some by (metis option.inject)
  from ok show ?thesis
  proof (cases rule: map_find_cases [where P = "\<lambda>en. ce_subscription_id en = sb_subscription_id b \<and>
      ce_skill_id en = gs_skill_id p \<and> ce_plan_id en = gs_plan_id p"])
    case none
    then show ?thesis
      using wf Some id by (auto simp: grantCloudSkillEntitlement_def Let_def intro!: new)
  next
    case (found k en)
    then show ?thesis
      using wf Some id old [OF found(2)]
      by (auto simp: grantCloudSkillEntitlement_def Let_def intro!: new split: if_splits)
  qed
qed

lemma revokeCloudSkillEntitlement_wf [inv_intro]:
  assumes wf: "skill_wf s"
  shows "skill_wf (fst (revokeCloudSkillEntitlement i s))"
proof (cases "map_get (ks_entitlements s) i")
  case None
  with wf show ?thesis by (simp add: revokeCloudSkillEntitlement_def)
next
  case (Some en)
  have ents: "ents_wf s" using wf by (simp add: skill_wf_def)
  obtain b where b: "map_get (ks_subscriptions s) (ce_subscription_id en) = Some b" "sb_user_id b = ce_user_id en"
    "sb_tenant_id b = ce_tenant_id en" "sb_plan_id b = ce_plan_id en"
    using ents_wfD [OF ents Some] by blast
  show ?thesis
    using wf Some b set_entitlement_wf [OF ents, of "en\<lparr>ce_status := CsRevoked\<rparr>" b i]
    by (simp add: revokeCloudSkillEntitlement_def skill_wf_def Let_def)
qed

text \<open>Bindings: a new one under an unused id, or a stored one written back with the same owner.\<close>

lemma insert_binding_wf:
  assumes "bindings_wf s" and "map_get (ks_bindings s) (bi_binding_id b) = None"
  shows "bindings_wf (insert_binding (binding_key_of b) b s)"
  using assms unfolding bindings_wf_def insert_binding_def by (auto split: if_splits) (metis option.distinct(1))

lemma set_binding_wf:
  assumes "bindings_wf s" and "map_get (ks_bindings s) i = Some b" and "bi_binding_id b' = bi_binding_id b"
    and "binding_key_of b' = binding_key_of b"
  shows "bindings_wf (s\<lparr>ks_bindings := map_set i b' (ks_bindings s)\<rparr>)"
  using assms unfolding bindings_wf_def by (auto split: if_splits) (metis option.inject)

lemma new_binding_key [simp]: "binding_key_of (new_binding e p) = cloudAgentSkillBindingKey p"
  by (simp add: binding_key_of_def new_binding_def cloudAgentSkillBindingKey_def)

lemma insert_binding_frame:
  "plans_wf (insert_binding k b s) = plans_wf s" "subs_wf (insert_binding k b s) = subs_wf s"
  "ents_wf (insert_binding k b s) = ents_wf s"
  by (simp_all add: insert_binding_def)

lemma upsertCloudAgentSkillBinding_wf [inv_intro]:
  assumes wf: "skill_wf s" and new: "map_get (ks_bindings s) (''casb-'' @ uuid e 0) = None"
  shows "skill_wf (fst (upsertCloudAgentSkillBinding e p s))"
proof -
  have bw: "bindings_wf s" using wf by (simp add: skill_wf_def)
  have fresh: "map_get (ks_bindings s) (bi_binding_id (new_binding e p)) = None" using new by (simp add: new_binding_def)
  show ?thesis
  proof (cases "map_get (ks_bindingByOwner s) (cloudAgentSkillBindingKey p)")
    case None
    then show ?thesis
      using wf insert_binding_wf [OF bw fresh]
      by (simp add: upsertCloudAgentSkillBinding_def skill_wf_def insert_binding_frame)
  next
    case (Some i)
    then obtain b where "map_get (ks_bindings s) i = Some b" "binding_key_of b = cloudAgentSkillBindingKey p"
      using bw unfolding bindings_wf_def by blast
    with Some wf show ?thesis
      by (auto simp: upsertCloudAgentSkillBinding_def skill_wf_def Let_def binding_key_of_def intro!: set_binding_wf)
  qed
qed

lemma revokeCloudAgentSkillBinding_wf [inv_intro]: "skill_wf s \<Longrightarrow> skill_wf (fst (revokeCloudAgentSkillBinding e i s))"
  by (auto simp: revokeCloudAgentSkillBinding_def Let_def skill_wf_def binding_key_of_def intro!: set_binding_wf
      split: option.split)

subsection \<open>Executions\<close>

inductive skill_step :: "skill_store \<Rightarrow> skill_store \<Rightarrow> bool" where
  create_plan: "skill_step s (fst (createCloudSkillPlan e np s))"
| update_plan: "skill_step s (fst (updateCloudSkillPlan i pp s))"
| subscribe: "map_get (ks_subscriptions s) (''csub-'' @ uuid e 0) = None \<Longrightarrow>
    skill_step s (fst (createCloudSkillSubscription e ns s))"
| status: "skill_step s (fst (updateCloudSkillSubscriptionStatus e i st at s))"
| grant: "skill_step s (fst (grantCloudSkillEntitlement e gs s))"
| revoke: "skill_step s (fst (revokeCloudSkillEntitlement i s))"
| bind: "map_get (ks_bindings s) (''casb-'' @ uuid e 0) = None \<Longrightarrow>
    skill_step s (fst (upsertCloudAgentSkillBinding e bq s))"
| unbind: "skill_step s (fst (revokeCloudAgentSkillBinding e i s))"

lemma skill_step_wf: "skill_step s t \<Longrightarrow> skill_wf s \<Longrightarrow> skill_wf t"
  by (induction rule: skill_step.induct) (auto intro: inv_intro)

interpretation skill_run: step_invariant skill_step skill_wf
  by unfold_locales (rule skill_step_wf)

subsection \<open>Properties\<close>

lemma first_grant_Some: "first_grant f xs = Some y \<Longrightarrow> \<exists>x \<in> set xs. f x = Some y"
  by (induction xs) (auto split: option.splits)

lemma first_grant_None: "first_grant f xs = None \<longleftrightarrow> (\<forall>x \<in> set xs. f x = None)"
  by (induction xs) (auto split: option.splits)

definition allowed_plans :: "CloudSkillAccessQuery \<Rightarrow> string list option" where
  "allowed_plans q = (case aq_allowed_plan_ids q of None \<Rightarrow> aq_allowedPlanIds q | Some ps \<Rightarrow> Some ps)"

lemma resolve_cases:
  assumes "queryValue (aq_user_id q) (aq_userId q) = Some u" and "queryValue (aq_tenant_id q) (aq_tenantId q) = Some t"
    and "queryValue (aq_skill_id q) (aq_skillId q) = Some k"
  shows "resolveCloudSkillAccess e q s = first_grant (access_grant u t k (case_option (now_iso e 0) id (aq_now q)) s)
    (js_sort (\<lambda>l r. localeCompare e (ce_created_at r) (ce_created_at l))
      (filter (access_candidate u t k (allowed_plans q) (case_option (now_iso e 0) id (aq_now q)))
        (map_values (ks_entitlements s))))"
  using assms by (simp add: resolveCloudSkillAccess_def allowed_plans_def Let_def)

lemma access_grant_Some:
  "access_grant u t k now s en = Some g \<longleftrightarrow>
    (\<exists>sub plan. map_get (ks_subscriptions s) (ce_subscription_id en) = Some sub \<and>
      map_get (ks_plans s) (ce_plan_id en) = Some plan \<and> sb_plan_id sub = ce_plan_id en \<and>
      sb_user_id sub = u \<and> sb_tenant_id sub = t \<and> sb_status sub = SubActive \<and> sb_starts_at sub \<le> now \<and>
      now < sb_expires_at sub \<and> k \<in> set (pl_skill_ids plan) \<and>
      g = \<lparr>ag_entitlement = en, ag_subscription = sub, ag_plan = plan\<rparr>)"
  by (auto simp: access_grant_def not_less not_le split: option.splits)

text \<open>
  C13: access to a Cloud Skill is granted exactly when the store holds an active, unexpired
  entitlement of the user and tenant for the Skill, in an allowed plan, whose subscription is of the
  same user, tenant and plan, is active and runs now, and whose plan still lists the Skill. The order
  in which the candidates are tried decides only which grant is returned.
\<close>

theorem access_exactly_when:
  assumes "queryValue (aq_user_id q) (aq_userId q) = Some u" and "queryValue (aq_tenant_id q) (aq_tenantId q) = Some t"
    and "queryValue (aq_skill_id q) (aq_skillId q) = Some k" and "now = case_option (now_iso e 0) id (aq_now q)"
  shows "hasCloudSkillAccess e q s \<longleftrightarrow>
    (\<exists>en sub plan. en \<in> set (map_values (ks_entitlements s)) \<and>
      ce_user_id en = u \<and> ce_tenant_id en = t \<and> ce_skill_id en = k \<and> ce_status en = CsActive \<and>
      now < ce_expires_at en \<and> (\<forall>ps. allowed_plans q = Some ps \<longrightarrow> ce_plan_id en \<in> set ps) \<and>
      map_get (ks_subscriptions s) (ce_subscription_id en) = Some sub \<and>
      map_get (ks_plans s) (ce_plan_id en) = Some plan \<and> sb_plan_id sub = ce_plan_id en \<and>
      sb_user_id sub = u \<and> sb_tenant_id sub = t \<and> sb_status sub = SubActive \<and> sb_starts_at sub \<le> now \<and>
      now < sb_expires_at sub \<and> k \<in> set (pl_skill_ids plan))"
proof -
  have "hasCloudSkillAccess e q s \<longleftrightarrow>
      (\<exists>en \<in> set (map_values (ks_entitlements s)). access_candidate u t k (allowed_plans q) now en \<and>
        access_grant u t k now s en \<noteq> None)"
    unfolding hasCloudSkillAccess_def resolve_cases [OF assms(1-3)] first_grant_None assms(4) by auto
  also have "\<dots> \<longleftrightarrow> (\<exists>en \<in> set (map_values (ks_entitlements s)). access_candidate u t k (allowed_plans q) now en \<and>
        (\<exists>g. access_grant u t k now s en = Some g))" by auto
  finally show ?thesis
    unfolding access_grant_Some access_candidate_def by (auto split: option.split)
qed

definition sample_query :: CloudSkillAccessQuery where
  "sample_query = \<lparr>aq_user_id = Some ''u'', aq_tenant_id = Some ''t'', aq_skill_id = Some ''a.skill.b'',
     aq_allowed_plan_ids = None, aq_now = Some ''2026-06'', aq_userId = None, aq_tenantId = None, aq_skillId = None,
     aq_allowedPlanIds = None\<rparr>"

definition sample_plan_params :: create_plan_params where
  "sample_plan_params = \<lparr>np_plan_id = ''pro'', np_name = ''Pro'', np_description = None, np_skill_ids = [''a.skill.b''],
     np_price_monthly_fen = IntNum 100, np_price_yearly_fen = IntNum 1000, np_included_calls = Some (IntNum 2),
     np_requests_per_minute = None, np_max_concurrency = Some (IntNum 1), np_status = None\<rparr>"

definition sample_plan :: CloudSkillPlanRecord where
  "sample_plan = \<lparr>pl_plan_id = ''pro'', pl_name = ''Pro'', pl_description = '''', pl_skill_ids = [''a.skill.b''],
     pl_price_monthly_fen = 100, pl_price_yearly_fen = 1000, pl_included_calls = 2, pl_requests_per_minute = 60,
     pl_max_concurrency = 1, pl_status = PlanListed, pl_created_at = ''2026-01-01T00:00:00.000Z''\<rparr>"

definition sample_sub_params :: create_subscription_params where
  "sample_sub_params = \<lparr>ns_user_id = ''u'', ns_tenant_id = ''t'', ns_plan_id = ''pro'', ns_period = Monthly,
     ns_starts_at = ''2026-01-01T00:00:00.000Z'', ns_expires_at = ''2027-01-01T00:00:00.000Z'',
     ns_source_order_id = ''ord-1'', ns_status = None\<rparr>"

definition sample_sub :: CloudSkillSubscriptionRecord where
  "sample_sub = new_subscription sample_env sample_sub_params ''pro''"

definition sample_grant_params :: grant_skill_params where
  "sample_grant_params = \<lparr>gs_subscription_id = ''csub-uuid-0'', gs_tenant_id = None, gs_user_id = None,
     gs_skill_id = ''a.skill.b'', gs_plan_id = ''pro'', gs_expires_at = None\<rparr>"

definition sample_ent :: CloudSkillEntitlementRecord where
  "sample_ent = \<lparr>ce_entitlement_id = ''csent-uuid-0'', ce_subscription_id = ''csub-uuid-0'', ce_tenant_id = ''t'',
     ce_user_id = ''u'', ce_skill_id = ''a.skill.b'', ce_plan_id = ''pro'', ce_status = CsActive,
     ce_expires_at = ''2027-01-01T00:00:00.000Z'', ce_created_at = ''2026-01-01T00:00:00.000Z''\<rparr>"

text \<open>One plan, one subscription to it, one entitlement.\<close>

definition sample_skills :: skill_store where
  "sample_skills = fst (grantCloudSkillEntitlement sample_env sample_grant_params
    (fst (createCloudSkillSubscription sample_env sample_sub_params
      (fst (createCloudSkillPlan sample_env sample_plan_params empty_skill_store)))))"

lemma sample_plan_created:
  "createCloudSkillPlan sample_env sample_plan_params empty_skill_store =
    (empty_skill_store\<lparr>ks_plans := [(''pro'', sample_plan)]\<rparr>, Inr sample_plan)"
proof -
  have "valid_plan_id ''pro''" "valid_plan_name ''Pro''" "valid_skill_id ''a.skill.b''" by code_simp+
  then show ?thesis
    by (simp add: createCloudSkillPlan_def sample_plan_params_def js_dedup_def natural_def maxSafeInteger_def
        empty_skill_store_def sample_plan_def DEFAULT_CLOUD_SKILL_REQUESTS_PER_MINUTE_def Let_def)
qed

lemma sample_sub_fields [simp]:
  "sb_subscription_id sample_sub = ''csub-uuid-0''" "sb_user_id sample_sub = ''u''" "sb_tenant_id sample_sub = ''t''"
  "sb_plan_id sample_sub = ''pro''" "sb_status sample_sub = SubActive" "sb_starts_at sample_sub = ''2026-01-01T00:00:00.000Z''"
  "sb_expires_at sample_sub = ''2027-01-01T00:00:00.000Z''" "sb_source_order_id sample_sub = ''ord-1''"
  "sb_created_at sample_sub = ''2026-01-01T00:00:00.000Z''"
  by (simp_all add: sample_sub_def new_subscription_def sample_sub_params_def)

lemma sample_skills_eval:
  "sample_skills = \<lparr>ks_plans = [(''pro'', sample_plan)], ks_subscriptions = [(''csub-uuid-0'', sample_sub)],
     ks_subscriptionsByOrder = [(''ord-1'', ''csub-uuid-0'')], ks_entitlements = [(''csent-uuid-0'', sample_ent)],
     ks_bindings = [], ks_bindingByOwner = []\<rparr>"
proof -
  have "createCloudSkillSubscription sample_env sample_sub_params (empty_skill_store\<lparr>ks_plans := [(''pro'', sample_plan)]\<rparr>) =
      (\<lparr>ks_plans = [(''pro'', sample_plan)], ks_subscriptions = [(''csub-uuid-0'', sample_sub)],
        ks_subscriptionsByOrder = [(''ord-1'', ''csub-uuid-0'')], ks_entitlements = [], ks_bindings = [],
        ks_bindingByOwner = []\<rparr>, Inr (sample_sub, False))"
    by (simp add: createCloudSkillSubscription_def sample_sub_params_def empty_skill_store_def sample_plan_def
        sample_sub_def new_subscription_def Let_def)
  then show ?thesis
    by (simp add: sample_skills_def sample_plan_created grantCloudSkillEntitlement_def sample_grant_params_def
        map_find_def sample_plan_def sample_ent_def Let_def)
qed

lemma sample_skills_run: "skill_step\<^sup>*\<^sup>* empty_skill_store sample_skills"
proof -
  let ?s1 = "fst (createCloudSkillPlan sample_env sample_plan_params empty_skill_store)"
  let ?s2 = "fst (createCloudSkillSubscription sample_env sample_sub_params ?s1)"
  have "skill_step empty_skill_store ?s1" by (rule skill_step.create_plan)
  moreover have "skill_step ?s1 ?s2"
    by (rule skill_step.subscribe, unfold sample_plan_created) (simp add: empty_skill_store_def)
  moreover have "skill_step ?s2 sample_skills" unfolding sample_skills_def by (rule skill_step.grant)
  ultimately show ?thesis by (meson converse_rtranclp_into_rtranclp r_into_rtranclp)
qed

lemma sample_skills_wf: "skill_wf sample_skills"
  by (rule skill_run.run_inv [OF sample_skills_run skill_wf_empty])

theorem access_exactly_when_witness: "hasCloudSkillAccess sample_env sample_query sample_skills"
  by (subst access_exactly_when [where u = "''u''" and t = "''t''" and k = "''a.skill.b''" and now = "''2026-06''"])
    (auto simp: sample_query_def queryValue_def sample_skills_eval sample_ent_def sample_plan_def allowed_plans_def)

lemma resolve_Some:
  assumes "resolveCloudSkillAccess e q s = Some g"
  shows "ag_entitlement g \<in> set (map_values (ks_entitlements s)) \<and> ce_status (ag_entitlement g) = CsActive \<and>
    map_get (ks_subscriptions s) (ce_subscription_id (ag_entitlement g)) = Some (ag_subscription g) \<and>
    sb_status (ag_subscription g) = SubActive"
proof -
  obtain u t k where q: "queryValue (aq_user_id q) (aq_userId q) = Some u" "queryValue (aq_tenant_id q) (aq_tenantId q) = Some t"
    "queryValue (aq_skill_id q) (aq_skillId q) = Some k"
    using assms by (auto simp: resolveCloudSkillAccess_def Let_def split: option.splits)
  obtain en where "en \<in> set (map_values (ks_entitlements s))"
    "access_candidate u t k (allowed_plans q) (case_option (now_iso e 0) id (aq_now q)) en"
    "access_grant u t k (case_option (now_iso e 0) id (aq_now q)) s en = Some g"
    using first_grant_Some [OF assms [unfolded resolve_cases [OF q]]] by (auto simp del: set_map)
  then show ?thesis unfolding access_grant_Some access_candidate_def by (auto simp del: set_map)
qed

lemma status_subscription:
  assumes "updateCloudSkillSubscriptionStatus e i st at s = (s', Some b)"
  shows "map_get (ks_subscriptions s') i = Some b" and "sb_status b = st"
    and "\<exists>b0. map_get (ks_subscriptions s) i = Some b0"
  using assms by (auto simp: updateCloudSkillSubscriptionStatus_def Let_def split: option.splits)

text \<open>No entitlement of the subscription is active.\<close>

definition none_active :: "string \<Rightarrow> skill_store \<Rightarrow> bool" where
  "none_active i s \<longleftrightarrow> (\<forall>j en. map_get (ks_entitlements s) j = Some en \<longrightarrow> ce_subscription_id en = i \<longrightarrow> ce_status en \<noteq> CsActive)"

lemma none_active_no_access:
  assumes "skill_wf s" and "none_active i s" and "resolveCloudSkillAccess e q s = Some g"
  shows "sb_subscription_id (ag_subscription g) \<noteq> i"
proof -
  note g = resolve_Some [OF assms(3)]
  then obtain j where "map_get (ks_entitlements s) j = Some (ag_entitlement g)"
    using map_values_get [of "ks_entitlements s" "ag_entitlement g"] assms(1)
    by (auto simp: skill_wf_def ents_wf_def simp del: set_map)
  with g assms(2) have "ce_subscription_id (ag_entitlement g) \<noteq> i" unfolding none_active_def by blast
  moreover have "sb_subscription_id (ag_subscription g) = ce_subscription_id (ag_entitlement g)"
    using g assms(1) by (auto simp: skill_wf_def subs_wf_def)
  ultimately show ?thesis by simp
qed

lemma status_none_active:
  assumes "skill_wf s" and "updateCloudSkillSubscriptionStatus e i st at s = (s', Some b)"
    and "st \<noteq> SubActive \<or> none_active i s"
  shows "none_active i s'"
proof -
  obtain b0 where b0: "map_get (ks_subscriptions s) i = Some b0" using status_subscription(3) [OF assms(2)] by blast
  then have "sb_subscription_id b0 = i" using assms(1) by (auto simp: skill_wf_def subs_wf_def)
  note get = status_entitlement [OF b0 this, of e st at, unfolded assms(2) fst_conv]
  show ?thesis
    unfolding none_active_def
  proof (intro allI impI)
    fix j en
    assume "map_get (ks_entitlements s') j = Some en" and sub: "ce_subscription_id en = i"
    then obtain en0 where en0: "map_get (ks_entitlements s) j = Some en0"
      and en: "en = (if st \<noteq> SubActive \<and> ce_subscription_id en0 = i \<and> ce_status en0 = CsActive
        then en0\<lparr>ce_status := CsRevoked\<rparr> else en0)"
      unfolding get map_option_eq_Some by blast
    show "ce_status en \<noteq> CsActive"
    proof (cases "st \<noteq> SubActive \<and> ce_subscription_id en0 = i \<and> ce_status en0 = CsActive")
      case True
      then show ?thesis unfolding en by simp
    next
      case False
      then show ?thesis using en en0 sub assms(3) unfolding none_active_def by auto
    qed
  qed
qed

text \<open>
  C32: ending a subscription ends its access, and switching it back on does not bring the access
  back by itself. After its status became cancelled, expired, refunded or suspended no access is
  resolved through it; nor is it after the status is set to active again, until an entitlement is
  granted anew.
\<close>

theorem access_ends:
  assumes wf: "skill_wf s" and ended: "updateCloudSkillSubscriptionStatus e i st at s = (s1, Some b1)" and "st \<noteq> SubActive"
    and again: "updateCloudSkillSubscriptionStatus e' i SubActive at' s1 = (s2, Some b2)"
  shows "(\<forall>x q g. resolveCloudSkillAccess x q s1 = Some g \<longrightarrow> sb_subscription_id (ag_subscription g) \<noteq> i) \<and>
    (\<forall>x q g. resolveCloudSkillAccess x q s2 = Some g \<longrightarrow> sb_subscription_id (ag_subscription g) \<noteq> i)"
proof -
  have wf1: "skill_wf s1" using updateCloudSkillSubscriptionStatus_wf [OF wf, of e i st at] ended by simp
  have wf2: "skill_wf s2" using updateCloudSkillSubscriptionStatus_wf [OF wf1, of e' i SubActive at'] again by simp
  have n1: "none_active i s1" using status_none_active [OF wf ended] assms(3) by blast
  have n2: "none_active i s2" using status_none_active [OF wf1 again] n1 by blast
  show ?thesis using none_active_no_access [OF wf1 n1] none_active_no_access [OF wf2 n2] by blast
qed

definition sample_ended :: skill_store where
  "sample_ended = fst (updateCloudSkillSubscriptionStatus sample_env ''csub-uuid-0'' SubCancelled None sample_skills)"

definition sample_resumed :: skill_store where
  "sample_resumed = fst (updateCloudSkillSubscriptionStatus sample_env ''csub-uuid-0'' SubActive None sample_ended)"

theorem access_ends_witness:
  "hasCloudSkillAccess sample_env sample_query sample_skills \<and>
   \<not> (\<exists>g. resolveCloudSkillAccess sample_env sample_query sample_resumed = Some g \<and>
     sb_subscription_id (ag_subscription g) = ''csub-uuid-0'')"
proof -
  obtain b1 where 1: "updateCloudSkillSubscriptionStatus sample_env ''csub-uuid-0'' SubCancelled None sample_skills = (sample_ended, Some b1)"
    by (simp add: sample_ended_def updateCloudSkillSubscriptionStatus_def sample_skills_eval Let_def)
  obtain b2 where 2: "updateCloudSkillSubscriptionStatus sample_env ''csub-uuid-0'' SubActive None sample_ended = (sample_resumed, Some b2)"
    by (simp add: sample_resumed_def updateCloudSkillSubscriptionStatus_def sample_ended_def sample_skills_eval Let_def)
  have "resolveCloudSkillAccess sample_env sample_query sample_skills \<noteq> None"
    by (simp add: resolveCloudSkillAccess_def sample_query_def queryValue_def sample_skills_eval access_candidate_def
        sample_ent_def access_grant_def sample_plan_def js_sort_def Let_def)
  then show ?thesis
    using access_ends [OF sample_skills_wf 1 _ 2] by (auto simp: hasCloudSkillAccess_def)
qed

text \<open>
  no sequence of operations stores a plan without usable limits. Every stored plan has safe
  non-negative prices and call allowance, a positive rate and concurrency limit, and a non-empty
  list of well-formed Skill ids without repetition, under its own id.
\<close>

theorem plan_limits:
  assumes "skill_step\<^sup>*\<^sup>* empty_skill_store s" and "getCloudSkillPlan i s = Some p"
  shows "pl_plan_id p = i \<and> 0 < pl_requests_per_minute p \<and> 0 < pl_max_concurrency p \<and>
    0 \<le> pl_included_calls p \<and> 0 \<le> pl_price_monthly_fen p \<and> 0 \<le> pl_price_yearly_fen p \<and>
    pl_price_monthly_fen p \<le> maxSafeInteger \<and> pl_price_yearly_fen p \<le> maxSafeInteger \<and>
    pl_skill_ids p \<noteq> [] \<and> distinct (pl_skill_ids p) \<and> list_all valid_skill_id (pl_skill_ids p)"
proof -
  have "plans_wf s" using skill_run.run_inv [OF assms(1) skill_wf_empty] by (simp add: skill_wf_def)
  with assms(2) show ?thesis by (auto simp: getCloudSkillPlan_def plans_wf_def plan_ok_def)
qed

theorem plan_limits_witness: "pl_plan_id sample_plan = ''pro'' \<and> 0 < pl_max_concurrency sample_plan"
  using plan_limits [OF sample_skills_run, of "''pro''" sample_plan]
  by (simp add: getCloudSkillPlan_def sample_skills_eval)

lemma upsert_index:
  assumes wf: "bindings_wf s" and ok: "upsertCloudAgentSkillBinding e p s = (s', b, x)"
  shows "map_get (ks_bindingByOwner s') (cloudAgentSkillBindingKey p) = Some (bi_binding_id b)"
    and "map_get (ks_bindings s') (bi_binding_id b) = Some b" and "bi_status b = BindingActive"
    and "binding_key_of b = cloudAgentSkillBindingKey p"
    and "bq_user_id p \<noteq> None \<Longrightarrow> bi_user_id b = bq_user_id p"
    and "k \<noteq> cloudAgentSkillBindingKey p \<Longrightarrow> map_get (ks_bindingByOwner s') k = map_get (ks_bindingByOwner s) k"
    and "i \<noteq> bi_binding_id b \<Longrightarrow> map_get (ks_bindings s') i = map_get (ks_bindings s) i"
proof -
  have stored: "bi_binding_id y = i \<and> binding_key_of y = cloudAgentSkillBindingKey p"
    if "map_get (ks_bindingByOwner s) (cloudAgentSkillBindingKey p) = Some i" "map_get (ks_bindings s) i = Some y" for i y
    using wf that unfolding bindings_wf_def by fastforce
  show "map_get (ks_bindingByOwner s') (cloudAgentSkillBindingKey p) = Some (bi_binding_id b)"
    "map_get (ks_bindings s') (bi_binding_id b) = Some b" "bi_status b = BindingActive"
    "binding_key_of b = cloudAgentSkillBindingKey p"
    "bq_user_id p \<noteq> None \<Longrightarrow> bi_user_id b = bq_user_id p"
    "k \<noteq> cloudAgentSkillBindingKey p \<Longrightarrow> map_get (ks_bindingByOwner s') k = map_get (ks_bindingByOwner s) k"
    "i \<noteq> bi_binding_id b \<Longrightarrow> map_get (ks_bindings s') i = map_get (ks_bindings s) i"
    using ok stored
    by (auto simp: upsertCloudAgentSkillBinding_def insert_binding_def new_binding_def binding_key_of_def
        cloudAgentSkillBindingKey_def Let_def split: option.splits)
qed

lemma insert_other_binding:
  assumes "bindings_wf s" and "map_get (ks_bindingByOwner s) k = Some i" and "map_get (ks_bindings s') i' = Some b"
    and "bindings_wf s'" and "map_get (ks_bindingByOwner s') k = Some i" and "binding_key_of b \<noteq> k"
  shows "i \<noteq> i'"
  using assms unfolding bindings_wf_def by fastforce

text \<open>
  a binding authorises its Agent until it is revoked. After an upsert the owner resolves to
  the binding that was returned, and every other owner to what it resolved to before; after the
  binding is revoked the owner resolves to nothing, whichever user asks.
\<close>

theorem binding_lifecycle:
  assumes wf: "skill_wf s" and new: "map_get (ks_bindings s) (''casb-'' @ uuid e 0) = None"
    and up: "upsertCloudAgentSkillBinding e p s = (s', b, x)"
  shows "resolveCloudAgentSkillBinding p s' = Some b \<and>
    (\<forall>q. cloudAgentSkillBindingKey q \<noteq> cloudAgentSkillBindingKey p \<longrightarrow>
      resolveCloudAgentSkillBinding q s' = resolveCloudAgentSkillBinding q s) \<and>
    (\<forall>q. cloudAgentSkillBindingKey q = cloudAgentSkillBindingKey p \<longrightarrow>
      resolveCloudAgentSkillBinding q (fst (revokeCloudAgentSkillBinding e' (bi_binding_id b) s')) = None)"
proof -
  have bw: "bindings_wf s" using wf by (simp add: skill_wf_def)
  have bw': "bindings_wf s'" using upsertCloudAgentSkillBinding_wf [OF wf new, of p] up by (simp add: skill_wf_def)
  note ix = upsert_index [OF bw up]
  have "resolveCloudAgentSkillBinding p s' = Some b"
    using ix(1-3,5) by (cases "bq_user_id p") (simp_all add: resolveCloudAgentSkillBinding_def)
  moreover have "resolveCloudAgentSkillBinding q s' = resolveCloudAgentSkillBinding q s"
    if q: "cloudAgentSkillBindingKey q \<noteq> cloudAgentSkillBindingKey p" for q
  proof (cases "map_get (ks_bindingByOwner s) (cloudAgentSkillBindingKey q)")
    case None
    with ix(6) [OF q] show ?thesis by (simp add: resolveCloudAgentSkillBinding_def)
  next
    case (Some i)
    then have "i \<noteq> bi_binding_id b"
      using insert_other_binding [OF bw Some ix(2) bw'] ix(4) ix(6) [OF q] q by simp
    with ix(6) [OF q] ix(7) Some show ?thesis by (simp add: resolveCloudAgentSkillBinding_def)
  qed
  moreover have "resolveCloudAgentSkillBinding q (fst (revokeCloudAgentSkillBinding e' (bi_binding_id b) s')) = None"
    if "cloudAgentSkillBindingKey q = cloudAgentSkillBindingKey p" for q
    using ix(1-3) that by (simp add: resolveCloudAgentSkillBinding_def revokeCloudAgentSkillBinding_def Let_def)
  ultimately show ?thesis by blast
qed

definition sample_binding :: CloudAgentSkillBindingUpsertRequest where
  "sample_binding = \<lparr>bq_tenant_id = ''t'', bq_device_id = ''d'', bq_user_id = Some ''u'', bq_agent_id = ''a'',
     bq_skill_id = ''a.skill.b''\<rparr>"

theorem binding_lifecycle_witness:
  "resolveCloudAgentSkillBinding sample_binding (fst (upsertCloudAgentSkillBinding sample_env sample_binding sample_skills)) =
    Some (new_binding sample_env sample_binding)"
proof -
  let ?up = "upsertCloudAgentSkillBinding sample_env sample_binding sample_skills"
  have "map_get (ks_bindings sample_skills) (''casb-'' @ uuid sample_env 0) = None" by (simp add: sample_skills_eval)
  moreover have "?up = (fst ?up, new_binding sample_env sample_binding, False)"
    by (simp add: sample_skills_eval upsertCloudAgentSkillBinding_def)
  ultimately show ?thesis using binding_lifecycle [OF sample_skills_wf] by blast
qed

end
