(* ===== verification/Execution_Admission.thy ===== *)
theory Execution_Admission
  imports Cloud_Skill_Store Task_Store
begin

text \<open>
  The execution admission gate of \<^verbatim>\<open>MemoryStore\<close>
  (\<^verbatim>\<open>apps/longhub-cloud-api/src/memory-store.ts\<close>: \<^verbatim>\<open>reserveCloudSkillExecution\<close>,
  \<^verbatim>\<open>releaseCloudSkillExecution\<close>, \<^verbatim>\<open>expireCloudSkillExecutionLeases\<close> and the operational summary). A
  reservation is a lease for one task; rows stay after their release, so that the calls of a
  subscription period can be counted. The lemmas show that the call allowance, the rate and the
  concurrency limit of the plan hold, that a repeated request gets the original lease, and that a
  lease is released once.
\<close>

subsection \<open>Records\<close>

datatype CloudSkillExecutionRejectionReason =
    QUOTA_EXCEEDED | RATE_LIMITED | CONCURRENCY_LIMIT | SUBSCRIPTION_INACTIVE | SKILL_NOT_ENTITLED
  | PLAN_MISMATCH | IDEMPOTENCY_CONFLICT | INVALID_REQUEST | STORAGE_UNAVAILABLE

record CloudSkillExecutionReservation =
  r_reservation_id :: string
  r_task_id :: string
  r_user_id :: string
  r_tenant_id :: string
  r_device_id :: string
  r_agent_id :: string
  r_skill_id :: string
  r_plan_id :: string
  r_subscription_id :: string
  r_input_digest :: "string option"
  r_period_start :: string
  r_reserved_at :: string
  r_lease_expires_at :: string
  r_released_at :: "string option"

record CloudSkillExecutionReservationRequest =
  q_task_id :: string
  q_user_id :: string
  q_tenant_id :: string
  q_device_id :: string
  q_agent_id :: string
  q_skill_id :: string
  q_plan_id :: string
  q_subscription_id :: "string option"
  q_input_digest :: "string option"
  q_now :: "string option"
  q_lease_ttl_ms :: "js_number option"

text \<open>The refusal with its retry delay, or the \<^verbatim>\<open>RangeError\<close> of an instant out of range.\<close>

datatype admission_refusal =
    Rejected CloudSkillExecutionRejectionReason "int option"
  | RangeError

record CloudSkillExecutionReleaseRequest =
  l_reservation_id :: "string option"
  l_task_id :: "string option"
  l_user_id :: "string option"
  l_tenant_id :: "string option"
  l_now :: "string option"

record CloudSkillExecutionReleaseResult =
  lr_released :: bool
  lr_reservation :: "CloudSkillExecutionReservation option"

record admission_store =
  xs_reservations :: "(string, CloudSkillExecutionReservation) js_map"
  xs_byTask :: "(string, string) js_map"

definition empty_admission_store :: admission_store where
  "empty_admission_store = \<lparr>xs_reservations = [], xs_byTask = []\<rparr>"

subsection \<open>Times and lengths\<close>

definition DEFAULT_CLOUD_SKILL_LEASE_TTL_MS :: int where "DEFAULT_CLOUD_SKILL_LEASE_TTL_MS = 300000"

definition MAX_CLOUD_SKILL_LEASE_TTL_MS :: int where "MAX_CLOUD_SKILL_LEASE_TTL_MS = 900000"

definition MIN_CLOUD_SKILL_LEASE_TTL_MS :: int where "MIN_CLOUD_SKILL_LEASE_TTL_MS = 1000"

definition parseExecutionNow :: "js_env \<Rightarrow> string option \<Rightarrow> int option" where
  "parseExecutionNow e value = (case value of None \<Rightarrow> Some (clock e 0) | Some v \<Rightarrow> date_parse e v)"

definition normalizeLeaseTtl :: "js_number option \<Rightarrow> int option" where
  "normalizeLeaseTtl value =
    (case value of
       None \<Rightarrow> Some DEFAULT_CLOUD_SKILL_LEASE_TTL_MS
     | Some n \<Rightarrow>
         (case safeInteger n of
            None \<Rightarrow> None
          | Some i \<Rightarrow> if i < MIN_CLOUD_SKILL_LEASE_TTL_MS \<or> MAX_CLOUD_SKILL_LEASE_TTL_MS < i then None else Some i))"

text \<open>\<^verbatim>\<open>Math.ceil(ms / 1000)\<close>\<close>

definition ceil_seconds :: "int \<Rightarrow> int" where
  "ceil_seconds ms = - ((- ms) div 1000)"

definition retryAfterSeconds :: "int \<Rightarrow> int \<Rightarrow> int option" where
  "retryAfterSeconds untilMs nowMs =
    (if untilMs \<le> nowMs then None else Some (max 1 (ceil_seconds (untilMs - nowMs))))"

definition within :: "nat \<Rightarrow> string \<Rightarrow> bool" where
  "within n s \<longleftrightarrow> s \<noteq> [] \<and> length s \<le> n"

definition valid_request :: "CloudSkillExecutionReservationRequest \<Rightarrow> bool" where
  "valid_request p \<longleftrightarrow>
    list_all (within 256) [q_task_id p, q_user_id p, q_tenant_id p, q_device_id p, q_agent_id p, q_skill_id p, q_plan_id p] \<and>
    (case q_subscription_id p of None \<Rightarrow> True | Some v \<Rightarrow> within 256 v) \<and>
    (case q_input_digest p of None \<Rightarrow> True | Some v \<Rightarrow> within 512 v)"

subsection \<open>Leases\<close>

definition lease_over :: "js_env \<Rightarrow> int \<Rightarrow> CloudSkillExecutionReservation \<Rightarrow> bool" where
  "lease_over e nowMs r \<longleftrightarrow>
    r_released_at r = None \<and> (case date_parse e (r_lease_expires_at r) of None \<Rightarrow> False | Some t \<Rightarrow> t \<le> nowMs)"

definition expireCloudSkillExecutionLeases :: "js_env \<Rightarrow> int \<Rightarrow> admission_store \<Rightarrow> admission_store" where
  "expireCloudSkillExecutionLeases e nowMs x =
    x\<lparr>xs_reservations :=
       map_each (\<lambda>r. if lease_over e nowMs r then r\<lparr>r_released_at := Some (toISOString nowMs)\<rparr> else r)
         (xs_reservations x)\<rparr>"

definition sameBinding :: "CloudSkillExecutionReservationRequest \<Rightarrow> CloudSkillExecutionReservation \<Rightarrow> bool" where
  "sameBinding p r \<longleftrightarrow>
    r_user_id r = q_user_id p \<and> r_tenant_id r = q_tenant_id p \<and> r_device_id r = q_device_id p \<and>
    r_agent_id r = q_agent_id p \<and> r_skill_id r = q_skill_id p \<and> r_plan_id r = q_plan_id p \<and>
    (q_subscription_id p = None \<or> Some (r_subscription_id r) = q_subscription_id p) \<and>
    r_input_digest r = q_input_digest p"

subsection \<open>The limits\<close>

definition matching_subscriptions ::
  "js_env \<Rightarrow> CloudSkillExecutionReservationRequest \<Rightarrow> skill_store \<Rightarrow> CloudSkillSubscriptionRecord list" where
  "matching_subscriptions e p ks =
    js_sort (\<lambda>l r. localeCompare e (sb_created_at r) (sb_created_at l))
      (filter (\<lambda>b. sb_plan_id b = q_plan_id p \<and> sb_user_id b = q_user_id p \<and> sb_tenant_id b = q_tenant_id p \<and>
                    (q_subscription_id p = None \<or> Some (sb_subscription_id b) = q_subscription_id p))
        (map_values (ks_subscriptions ks)))"

definition entitled_rows ::
  "js_env \<Rightarrow> CloudSkillExecutionReservationRequest \<Rightarrow> string \<Rightarrow> int \<Rightarrow> skill_store \<Rightarrow> CloudSkillEntitlementRecord list" where
  "entitled_rows e p subscriptionId nowMs ks =
    js_sort (\<lambda>l r. localeCompare e (ce_created_at r) (ce_created_at l))
      (filter (\<lambda>en. ce_subscription_id en = subscriptionId \<and> ce_tenant_id en = q_tenant_id p \<and>
                     ce_user_id en = q_user_id p \<and> ce_skill_id en = q_skill_id p \<and> ce_plan_id en = q_plan_id p \<and>
                     ce_status en = CsActive \<and>
                     (case date_parse e (ce_expires_at en) of None \<Rightarrow> False | Some t \<Rightarrow> nowMs < t))
        (map_values (ks_entitlements ks)))"

definition subscription_rows :: "string \<Rightarrow> admission_store \<Rightarrow> CloudSkillExecutionReservation list" where
  "subscription_rows subscriptionId x =
    filter (\<lambda>r. r_subscription_id r = subscriptionId) (map_values (xs_reservations x))"

definition reserved_between :: "js_env \<Rightarrow> int \<Rightarrow> int \<Rightarrow> CloudSkillExecutionReservation \<Rightarrow> bool" where
  "reserved_between e lo hi r =
    (case date_parse e (r_reserved_at r) of None \<Rightarrow> False | Some t \<Rightarrow> lo \<le> t \<and> t \<le> hi)"

definition cycle_calls :: "js_env \<Rightarrow> string \<Rightarrow> string \<Rightarrow> int \<Rightarrow> int \<Rightarrow> admission_store \<Rightarrow> nat" where
  "cycle_calls e subscriptionId skillId starts nowMs x =
    length (filter (\<lambda>r. r_skill_id r = skillId \<and> reserved_between e starts nowMs r) (subscription_rows subscriptionId x))"

definition owner_rows :: "string \<Rightarrow> CloudSkillExecutionReservationRequest \<Rightarrow> admission_store \<Rightarrow> CloudSkillExecutionReservation list" where
  "owner_rows subscriptionId p x =
    filter (\<lambda>r. r_tenant_id r = q_tenant_id p \<and> r_user_id r = q_user_id p \<and> r_device_id r = q_device_id p)
      (subscription_rows subscriptionId x)"

definition minute_start :: "int \<Rightarrow> int" where
  "minute_start nowMs = (nowMs div 60000) * 60000"

definition minute_calls :: "js_env \<Rightarrow> string \<Rightarrow> CloudSkillExecutionReservationRequest \<Rightarrow> int \<Rightarrow> admission_store \<Rightarrow> nat" where
  "minute_calls e subscriptionId p nowMs x =
    length (filter (reserved_between e (minute_start nowMs) nowMs) (owner_rows subscriptionId p x))"

definition lease_active :: "js_env \<Rightarrow> int \<Rightarrow> CloudSkillExecutionReservation \<Rightarrow> bool" where
  "lease_active e nowMs r \<longleftrightarrow>
    r_released_at r = None \<and> (case date_parse e (r_lease_expires_at r) of None \<Rightarrow> False | Some t \<Rightarrow> nowMs < t)"

definition active_leases ::
  "js_env \<Rightarrow> string \<Rightarrow> CloudSkillExecutionReservationRequest \<Rightarrow> int \<Rightarrow> admission_store \<Rightarrow> CloudSkillExecutionReservation list" where
  "active_leases e subscriptionId p nowMs x = filter (lease_active e nowMs) (owner_rows subscriptionId p x)"

text \<open>\<^verbatim>\<open>Math.min(...)\<close> of the expiries of the active leases; \<open>None\<close> is the infinity of no argument.\<close>

definition next_expiry :: "js_env \<Rightarrow> CloudSkillExecutionReservation list \<Rightarrow> int option" where
  "next_expiry e active =
    (case List.map_filter (\<lambda>r. date_parse e (r_lease_expires_at r)) active of
       [] \<Rightarrow> None
     | t # ts \<Rightarrow> Some (fold min ts t))"

subsection \<open>Admission\<close>

definition new_reservation ::
  "js_env \<Rightarrow> CloudSkillExecutionReservationRequest \<Rightarrow> string \<Rightarrow> int \<Rightarrow> int \<Rightarrow> string \<Rightarrow> CloudSkillExecutionReservation" where
  "new_reservation e p subscriptionId starts nowMs leaseExpires =
    \<lparr>r_reservation_id = ''csres-'' @ uuid e 0, r_task_id = q_task_id p, r_user_id = q_user_id p,
     r_tenant_id = q_tenant_id p, r_device_id = q_device_id p, r_agent_id = q_agent_id p,
     r_skill_id = q_skill_id p, r_plan_id = q_plan_id p, r_subscription_id = subscriptionId,
     r_input_digest = q_input_digest p, r_period_start = toISOString starts,
     r_reserved_at = toISOString nowMs, r_lease_expires_at = leaseExpires, r_released_at = None\<rparr>"

definition insert_reservation :: "CloudSkillExecutionReservation \<Rightarrow> admission_store \<Rightarrow> admission_store" where
  "insert_reservation r x =
    x\<lparr>xs_reservations := map_set (r_reservation_id r) r (xs_reservations x),
      xs_byTask := map_set (r_task_id r) (r_reservation_id r) (xs_byTask x)\<rparr>"

text \<open>Plan, subscription and entitlement: the row admission is counted against, with its start.\<close>

definition authorise ::
  "js_env \<Rightarrow> CloudSkillExecutionReservationRequest \<Rightarrow> int \<Rightarrow> skill_store \<Rightarrow>
   CloudSkillExecutionRejectionReason + (CloudSkillPlanRecord \<times> CloudSkillSubscriptionRecord \<times> int)" where
  "authorise e p nowMs ks =
    (case map_get (ks_plans ks) (q_plan_id p) of
       None \<Rightarrow> Inl PLAN_MISMATCH
     | Some plan \<Rightarrow>
         (case matching_subscriptions e p ks of
            [] \<Rightarrow> Inl PLAN_MISMATCH
          | sub # _ \<Rightarrow>
              (case (date_parse e (sb_starts_at sub), date_parse e (sb_expires_at sub)) of
                 (Some starts, Some expires) \<Rightarrow>
                   if sb_status sub \<noteq> SubActive \<or> nowMs < starts \<or> expires \<le> nowMs then Inl SUBSCRIPTION_INACTIVE
                   else if q_skill_id p \<notin> set (pl_skill_ids plan) then Inl SKILL_NOT_ENTITLED
                   else if entitled_rows e p (sb_subscription_id sub) nowMs ks = [] then Inl SKILL_NOT_ENTITLED
                   else Inr (plan, sub, starts)
               | _ \<Rightarrow> Inl SUBSCRIPTION_INACTIVE)))"

definition limits_refusal ::
  "js_env \<Rightarrow> CloudSkillExecutionReservationRequest \<Rightarrow> CloudSkillPlanRecord \<Rightarrow> string \<Rightarrow> int \<Rightarrow> int \<Rightarrow>
   admission_store \<Rightarrow> admission_refusal option" where
  "limits_refusal e p plan subscriptionId starts nowMs x =
    (if pl_included_calls plan \<le> int (cycle_calls e subscriptionId (q_skill_id p) starts nowMs x)
     then Some (Rejected QUOTA_EXCEEDED None)
     else if pl_requests_per_minute plan \<le> int (minute_calls e subscriptionId p nowMs x)
     then Some (Rejected RATE_LIMITED (Some (max 1 (ceil_seconds (minute_start nowMs + 60000 - nowMs)))))
     else
       let active = active_leases e subscriptionId p nowMs x
       in if pl_max_concurrency plan \<le> int (length active)
          then Some (Rejected CONCURRENCY_LIMIT
                 (case next_expiry e active of None \<Rightarrow> None | Some t \<Rightarrow> retryAfterSeconds t nowMs))
          else None)"

definition admit ::
  "js_env \<Rightarrow> CloudSkillExecutionReservationRequest \<Rightarrow> int \<Rightarrow> int \<Rightarrow> skill_store \<Rightarrow> admission_store \<Rightarrow>
   admission_store \<times> (admission_refusal + CloudSkillExecutionReservation)" where
  "admit e p nowMs leaseTtlMs ks x =
    (case authorise e p nowMs ks of
       Inl reason \<Rightarrow> (x, Inl (Rejected reason None))
     | Inr (plan, sub, starts) \<Rightarrow>
         (case limits_refusal e p plan (sb_subscription_id sub) starts nowMs x of
            Some refusal \<Rightarrow> (x, Inl refusal)
          | None \<Rightarrow>
              (case iso_string (nowMs + leaseTtlMs) of
                 None \<Rightarrow> (x, Inl RangeError)
               | Some leaseExpires \<Rightarrow>
                   let r = new_reservation e p (sb_subscription_id sub) starts nowMs leaseExpires
                   in (insert_reservation r x, Inr r))))"

definition reserveCloudSkillExecution ::
  "skill_store \<Rightarrow> js_env \<Rightarrow> CloudSkillExecutionReservationRequest \<Rightarrow> admission_store \<Rightarrow>
   admission_store \<times> (admission_refusal + CloudSkillExecutionReservation)" where
  "reserveCloudSkillExecution ks e p x =
    (if \<not> valid_request p then (x, Inl (Rejected INVALID_REQUEST None))
     else (case (parseExecutionNow e (q_now p), normalizeLeaseTtl (q_lease_ttl_ms p)) of
         (Some nowMs, Some leaseTtlMs) \<Rightarrow>
           let x1 = expireCloudSkillExecutionLeases e nowMs x
           in (case map_get (xs_byTask x1) (q_task_id p) of
                 None \<Rightarrow> admit e p nowMs leaseTtlMs ks x1
               | Some existingId \<Rightarrow>
                   (case map_get (xs_reservations x1) existingId of
                      None \<Rightarrow> admit e p nowMs leaseTtlMs ks (x1\<lparr>xs_byTask := map_delete (q_task_id p) (xs_byTask x1)\<rparr>)
                    | Some existing \<Rightarrow>
                        if sameBinding p existing then (x1, Inr existing)
                        else (x1, Inl (Rejected IDEMPOTENCY_CONFLICT None))))
       | _ \<Rightarrow> (x, Inl (Rejected INVALID_REQUEST None))))"

definition not_released :: CloudSkillExecutionReleaseResult where
  "not_released = \<lparr>lr_released = False, lr_reservation = None\<rparr>"

definition releaseCloudSkillExecution ::
  "js_env \<Rightarrow> CloudSkillExecutionReleaseRequest \<Rightarrow> admission_store \<Rightarrow> admission_store \<times> CloudSkillExecutionReleaseResult" where
  "releaseCloudSkillExecution e p x =
    (case parseExecutionNow e (l_now p) of
       None \<Rightarrow> (x, not_released)
     | Some nowMs \<Rightarrow>
         if truthy (l_reservation_id p) = None \<and> truthy (l_task_id p) = None then (x, not_released)
         else
           let x1 = expireCloudSkillExecutionLeases e nowMs x;
               reservationId = (case l_reservation_id p of
                 Some i \<Rightarrow> Some i
               | None \<Rightarrow> (case l_task_id p of None \<Rightarrow> None | Some t \<Rightarrow> map_get (xs_byTask x1) t))
           in (case truthy reservationId of
                 None \<Rightarrow> (x1, not_released)
               | Some i \<Rightarrow>
                   (case map_get (xs_reservations x1) i of
                      None \<Rightarrow> (x1, not_released)
                    | Some r \<Rightarrow>
                        if (l_task_id p \<noteq> None \<and> Some (r_task_id r) \<noteq> l_task_id p) \<or>
                           (l_user_id p \<noteq> None \<and> Some (r_user_id r) \<noteq> l_user_id p) \<or>
                           (l_tenant_id p \<noteq> None \<and> Some (r_tenant_id r) \<noteq> l_tenant_id p)
                        then (x1, not_released)
                        else if r_released_at r \<noteq> None then (x1, \<lparr>lr_released = False, lr_reservation = Some r\<rparr>)
                        else
                          let r' = r\<lparr>r_released_at := Some (toISOString nowMs)\<rparr>
                          in (x1\<lparr>xs_reservations := map_set i r' (xs_reservations x1)\<rparr>,
                              \<lparr>lr_released = True, lr_reservation = Some r'\<rparr>))))"

subsection \<open>The operational summary\<close>

record CloudSkillOperationalMetric =
  om_plan_id :: string
  om_skill_id :: string
  om_calls :: nat
  om_active_concurrency :: nat
  om_succeeded :: nat
  om_failed :: nat
  om_cancelled :: nat
  om_active_subscriptions :: nat
  om_included_calls_per_subscription :: int

record CloudSkillOperationalSummary =
  os_window_hours :: nat
  os_generated_at :: string
  os_skills :: "CloudSkillOperationalMetric list"

definition subscription_runs :: "js_env \<Rightarrow> int \<Rightarrow> CloudSkillSubscriptionRecord \<Rightarrow> bool" where
  "subscription_runs e nowMs sub \<longleftrightarrow>
    sb_status sub = SubActive \<and>
    (case date_parse e (sb_starts_at sub) of None \<Rightarrow> False | Some t \<Rightarrow> t \<le> nowMs) \<and>
    (case date_parse e (sb_expires_at sub) of None \<Rightarrow> False | Some t \<Rightarrow> nowMs < t)"

definition status_count ::
  "task_store \<Rightarrow> CloudTaskStatus list \<Rightarrow> CloudSkillExecutionReservation list \<Rightarrow> nat" where
  "status_count tasks statuses rows =
    length (filter (\<lambda>r. case map_get (ts_tasks tasks) (r_task_id r) of None \<Rightarrow> False
                        | Some t \<Rightarrow> t_status t \<in> set statuses) rows)"

definition skill_metric ::
  "js_env \<Rightarrow> int \<Rightarrow> skill_store \<Rightarrow> task_store \<Rightarrow> admission_store \<Rightarrow> CloudSkillPlanRecord \<Rightarrow> string \<Rightarrow> CloudSkillOperationalMetric" where
  "skill_metric e nowMs ks tasks x plan skillId =
    (let rows = filter (\<lambda>r. r_plan_id r = pl_plan_id plan \<and> r_skill_id r = skillId) (map_values (xs_reservations x));
         windowRows = filter (reserved_between e (nowMs - 24 * 60 * 60000) nowMs) rows
     in \<lparr>om_plan_id = pl_plan_id plan, om_skill_id = skillId, om_calls = length windowRows,
         om_active_concurrency = length (filter (lease_active e nowMs) rows),
         om_succeeded = status_count tasks [Succeeded] windowRows,
         om_failed = status_count tasks [Failed, TimedOut] windowRows,
         om_cancelled = status_count tasks [Cancelled] windowRows,
         om_active_subscriptions =
           length (filter (\<lambda>b. subscription_runs e nowMs b \<and> sb_plan_id b = pl_plan_id plan) (map_values (ks_subscriptions ks))),
         om_included_calls_per_subscription = pl_included_calls plan\<rparr>)"

text \<open>\<open>None\<close> is the thrown \<^verbatim>\<open>INVALID_CLOUD_SKILL_OPERATIONAL_TIME\<close>.\<close>

definition getCloudSkillOperationalSummary ::
  "js_env \<Rightarrow> string option \<Rightarrow> skill_store \<Rightarrow> task_store \<Rightarrow> admission_store \<Rightarrow> CloudSkillOperationalSummary option" where
  "getCloudSkillOperationalSummary e nowValue ks tasks x =
    (case parseExecutionNow e nowValue of
       None \<Rightarrow> None
     | Some nowMs \<Rightarrow>
         Some \<lparr>os_window_hours = 24, os_generated_at = toISOString nowMs,
           os_skills = concat (map (\<lambda>plan. map (skill_metric e nowMs ks tasks x plan)
               (js_sort code_unit_compare (pl_skill_ids plan)))
             (js_sort (\<lambda>l r. localeCompare e (pl_plan_id l) (pl_plan_id r)) (map_values (ks_plans ks))))\<rparr>)"

subsection \<open>The invariant\<close>

definition admission_wf :: "admission_store \<Rightarrow> bool" where
  "admission_wf x \<longleftrightarrow> map_ok (xs_reservations x) \<and>
    (\<forall>i r. map_get (xs_reservations x) i = Some r \<longrightarrow> r_reservation_id r = i) \<and>
    (\<forall>t i. map_get (xs_byTask x) t = Some i \<longrightarrow> (\<exists>r. map_get (xs_reservations x) i = Some r \<and> r_task_id r = t))"

lemma admission_wf_empty: "admission_wf empty_admission_store"
  by (simp add: admission_wf_def empty_admission_store_def)

definition expired :: "js_env \<Rightarrow> int \<Rightarrow> CloudSkillExecutionReservation \<Rightarrow> CloudSkillExecutionReservation" where
  "expired e t r = (if lease_over e t r then r\<lparr>r_released_at := Some (toISOString t)\<rparr> else r)"

lemma expired_fields [simp]:
  "r_reservation_id (expired e t r) = r_reservation_id r" "r_task_id (expired e t r) = r_task_id r"
  "r_user_id (expired e t r) = r_user_id r" "r_tenant_id (expired e t r) = r_tenant_id r"
  "r_device_id (expired e t r) = r_device_id r" "r_agent_id (expired e t r) = r_agent_id r"
  "r_skill_id (expired e t r) = r_skill_id r" "r_plan_id (expired e t r) = r_plan_id r"
  "r_subscription_id (expired e t r) = r_subscription_id r" "r_input_digest (expired e t r) = r_input_digest r"
  "r_period_start (expired e t r) = r_period_start r" "r_reserved_at (expired e t r) = r_reserved_at r"
  "r_lease_expires_at (expired e t r) = r_lease_expires_at r"
  by (simp_all add: expired_def)

lemma expire_eq:
  "expireCloudSkillExecutionLeases e t x = x\<lparr>xs_reservations := map_each (expired e t) (xs_reservations x)\<rparr>"
  by (simp add: expireCloudSkillExecutionLeases_def expired_def [abs_def])

lemma expire_simps [simp]:
  "xs_byTask (expireCloudSkillExecutionLeases e t x) = xs_byTask x"
  "map_get (xs_reservations (expireCloudSkillExecutionLeases e t x)) i = map_option (expired e t) (map_get (xs_reservations x) i)"
  "map_keys (xs_reservations (expireCloudSkillExecutionLeases e t x)) = map_keys (xs_reservations x)"
  by (simp_all add: expire_eq)

lemma expire_wf [inv_intro]: "admission_wf x \<Longrightarrow> admission_wf (expireCloudSkillExecutionLeases e t x)"
  unfolding admission_wf_def by (auto simp: expire_eq) fastforce+

lemma insert_reservation_wf:
  assumes "admission_wf x" and "map_get (xs_reservations x) (r_reservation_id r) = None"
  shows "admission_wf (insert_reservation r x)"
  using assms unfolding admission_wf_def insert_reservation_def by (auto split: if_splits) (metis option.distinct(1))

text \<open>Nothing is inserted unless every check was passed.\<close>

lemma admit_done:
  assumes "admit e p t ttl ks x = (x', Inr r)"
  obtains plan sub starts lease where "authorise e p t ks = Inr (plan, sub, starts)"
    and "limits_refusal e p plan (sb_subscription_id sub) starts t x = None" and "iso_string (t + ttl) = Some lease"
    and "r = new_reservation e p (sb_subscription_id sub) starts t lease" and "x' = insert_reservation r x"
  using assms by (auto simp: admit_def Let_def split: sum.splits option.splits)

lemma admit_refused: "admit e p t ttl ks x = (x', Inl err) \<Longrightarrow> x' = x"
  by (auto simp: admit_def Let_def split: sum.splits option.splits)

lemma authorise_done:
  assumes "authorise e p t ks = Inr (plan, sub, starts)"
  shows "map_get (ks_plans ks) (q_plan_id p) = Some plan" and "sub \<in> set (map_values (ks_subscriptions ks))"
    and "sb_plan_id sub = q_plan_id p" and "sb_user_id sub = q_user_id p" and "sb_tenant_id sub = q_tenant_id p"
    and "q_subscription_id p = None \<or> Some (sb_subscription_id sub) = q_subscription_id p"
    and "sb_status sub = SubActive" and "date_parse e (sb_starts_at sub) = Some starts"
    and "q_skill_id p \<in> set (pl_skill_ids plan)" and "entitled_rows e p (sb_subscription_id sub) t ks \<noteq> []"
proof -
  obtain rest where m: "matching_subscriptions e p ks = sub # rest"
    using assms by (auto simp: authorise_def split: option.splits list.splits if_splits)
  then have "sub \<in> set (matching_subscriptions e p ks)" by simp
  then show "sub \<in> set (map_values (ks_subscriptions ks))" "sb_plan_id sub = q_plan_id p" "sb_user_id sub = q_user_id p"
    "sb_tenant_id sub = q_tenant_id p" "q_subscription_id p = None \<or> Some (sb_subscription_id sub) = q_subscription_id p"
    unfolding matching_subscriptions_def by (simp_all del: set_map)
  show "map_get (ks_plans ks) (q_plan_id p) = Some plan" "sb_status sub = SubActive"
    "date_parse e (sb_starts_at sub) = Some starts" "q_skill_id p \<in> set (pl_skill_ids plan)"
    "entitled_rows e p (sb_subscription_id sub) t ks \<noteq> []"
    using assms m by (auto simp: authorise_def split: option.splits if_splits)
qed

text \<open>The ways a reservation request ends.\<close>

lemma reserve_cases:
  assumes wf: "admission_wf x"
  obtains (invalid) "reserveCloudSkillExecution ks e p x = (x, Inl (Rejected INVALID_REQUEST None))"
  | (conflict) t where "parseExecutionNow e (q_now p) = Some t"
      and "reserveCloudSkillExecution ks e p x = (expireCloudSkillExecutionLeases e t x, Inl (Rejected IDEMPOTENCY_CONFLICT None))"
  | (again) t i r where "parseExecutionNow e (q_now p) = Some t"
      and "reserveCloudSkillExecution ks e p x = (expireCloudSkillExecutionLeases e t x, Inr (expired e t r))"
      and "map_get (xs_byTask x) (q_task_id p) = Some i" and "map_get (xs_reservations x) i = Some r"
      and "sameBinding p r"
  | (admitted) t ttl where "parseExecutionNow e (q_now p) = Some t" and "normalizeLeaseTtl (q_lease_ttl_ms p) = Some ttl"
      and "map_get (xs_byTask x) (q_task_id p) = None"
      and "reserveCloudSkillExecution ks e p x = admit e p t ttl ks (expireCloudSkillExecutionLeases e t x)"
proof (cases "valid_request p \<and> parseExecutionNow e (q_now p) \<noteq> None \<and> normalizeLeaseTtl (q_lease_ttl_ms p) \<noteq> None")
  case False
  then show thesis using invalid by (auto simp: reserveCloudSkillExecution_def split: option.splits)
next
  case True
  then obtain t ttl where t: "parseExecutionNow e (q_now p) = Some t" "normalizeLeaseTtl (q_lease_ttl_ms p) = Some ttl"
    and v: "valid_request p" by blast
  show thesis
  proof (cases "map_get (xs_byTask x) (q_task_id p)")
    case None
    then show thesis using admitted t v by (simp add: reserveCloudSkillExecution_def)
  next
    case (Some i)
    then obtain r where r: "map_get (xs_reservations x) i = Some r" using wf unfolding admission_wf_def by blast
    have same: "sameBinding p (expired e t r) = sameBinding p r" by (simp add: sameBinding_def)
    show thesis
    proof (cases "sameBinding p r")
      case True
      then show thesis using again [OF t(1) _ Some r] t v Some r same by (simp add: reserveCloudSkillExecution_def)
    next
      case False
      then show thesis using conflict [OF t(1)] t v Some r same by (simp add: reserveCloudSkillExecution_def)
    qed
  qed
qed

lemma new_reservation_id [simp]: "r_reservation_id (new_reservation e p b st t l) = ''csres-'' @ uuid e 0"
  by (simp add: new_reservation_def)

lemma reserve_wf [inv_intro]:
  assumes wf: "admission_wf x" and new: "map_get (xs_reservations x) (''csres-'' @ uuid e 0) = None"
  shows "admission_wf (fst (reserveCloudSkillExecution ks e p x))"
  using wf
proof (cases rule: reserve_cases [where ks = ks and e = e and p = p])
  case (admitted t ttl)
  let ?x = "expireCloudSkillExecutionLeases e t x"
  show ?thesis
  proof (cases "admit e p t ttl ks ?x")
    case (Pair x' res)
    show ?thesis
    proof (cases res)
      case (Inl err)
      then show ?thesis using admitted(4) Pair admit_refused [of e p t ttl ks ?x x' err] wf expire_wf by simp
    next
      case (Inr r)
      with Pair have "admit e p t ttl ks ?x = (x', Inr r)" by simp
      then have "r_reservation_id r = ''csres-'' @ uuid e 0" "x' = insert_reservation r ?x"
        by (auto elim!: admit_done)
      then show ?thesis
        using admitted(4) Pair insert_reservation_wf [OF expire_wf [OF wf], of e t r] new by simp
    qed
  qed
qed (use wf in \<open>simp_all add: expire_wf\<close>)

lemma release_cases:
  obtains (unchanged) "releaseCloudSkillExecution e p x = (x, not_released)"
  | (kept) t res where "parseExecutionNow e (l_now p) = Some t" and "\<not> lr_released res"
      and "releaseCloudSkillExecution e p x = (expireCloudSkillExecutionLeases e t x, res)"
  | (released) t i r where "parseExecutionNow e (l_now p) = Some t"
      and "map_get (xs_reservations (expireCloudSkillExecutionLeases e t x)) i = Some r" and "r_released_at r = None"
      and "l_user_id p \<noteq> None \<Longrightarrow> l_user_id p = Some (r_user_id r)"
      and "l_tenant_id p \<noteq> None \<Longrightarrow> l_tenant_id p = Some (r_tenant_id r)"
      and "l_task_id p \<noteq> None \<Longrightarrow> l_task_id p = Some (r_task_id r)"
      and "releaseCloudSkillExecution e p x =
        ((expireCloudSkillExecutionLeases e t x)\<lparr>xs_reservations :=
            map_set i (r\<lparr>r_released_at := Some (toISOString t)\<rparr>) (xs_reservations (expireCloudSkillExecutionLeases e t x))\<rparr>,
         \<lparr>lr_released = True, lr_reservation = Some (r\<lparr>r_released_at := Some (toISOString t)\<rparr>)\<rparr>)"
proof (cases "parseExecutionNow e (l_now p)")
  case None
  then show thesis using unchanged by (simp add: releaseCloudSkillExecution_def)
next
  case t: (Some t)
  define rid where "rid = (case l_reservation_id p of Some i \<Rightarrow> Some i
    | None \<Rightarrow> (case l_task_id p of None \<Rightarrow> None | Some k \<Rightarrow> map_get (xs_byTask x) k))"
  show thesis
  proof (cases "truthy (l_reservation_id p) = None \<and> truthy (l_task_id p) = None")
    case True
    with t show thesis using unchanged by (simp add: releaseCloudSkillExecution_def)
  next
    case False
    note def = releaseCloudSkillExecution_def [of e p x, unfolded t option.case if_not_P [OF False] Let_def expire_simps(1), folded rid_def]
    show thesis
    proof (cases "truthy rid")
      case None
      then show thesis
        using False unfolding def by (intro kept [OF t, of not_released]) (simp_all add: def not_released_def)
    next
      case i: (Some i)
      show thesis
      proof (cases "map_get (xs_reservations (expireCloudSkillExecutionLeases e t x)) i")
        case None
        then show thesis
          using False i by (intro kept [OF t, of not_released]) (simp_all add: def not_released_def)
      next
        case r: (Some r)
        let ?other = "(l_task_id p \<noteq> None \<and> Some (r_task_id r) \<noteq> l_task_id p) \<or>
          (l_user_id p \<noteq> None \<and> Some (r_user_id r) \<noteq> l_user_id p) \<or>
          (l_tenant_id p \<noteq> None \<and> Some (r_tenant_id r) \<noteq> l_tenant_id p)"
        note eq = def [unfolded i option.case r option.case]
        consider (other) ?other | (over) "\<not> ?other" "r_released_at r \<noteq> None" | (now) "\<not> ?other" "r_released_at r = None"
          by blast
        then show thesis
        proof cases
          case other
          show thesis
            by (rule kept [OF t, of not_released]) (simp add: not_released_def, simp only: eq if_P [OF other])
        next
          case over
          show thesis
            by (rule kept [OF t, of "\<lparr>lr_released = False, lr_reservation = Some r\<rparr>"], simp,
              simp only: eq if_not_P [OF over(1)] if_P [OF over(2)])
        next
          case now
          have "l_user_id p \<noteq> None \<Longrightarrow> l_user_id p = Some (r_user_id r)"
            "l_tenant_id p \<noteq> None \<Longrightarrow> l_tenant_id p = Some (r_tenant_id r)"
            "l_task_id p \<noteq> None \<Longrightarrow> l_task_id p = Some (r_task_id r)" using now(1) by metis+
          then show thesis
            by (rule released [OF t r now(2)]) (simp_all only: eq if_not_P [OF now(1)] now(2), simp_all)
        qed
      qed
    qed
  qed
qed

text \<open>Writing a row back with its identity keeps the index.\<close>

lemma set_reservation_wf:
  assumes "admission_wf x" and "map_get (xs_reservations x) i = Some r" and "r_reservation_id r' = r_reservation_id r"
    and "r_task_id r' = r_task_id r"
  shows "admission_wf (x\<lparr>xs_reservations := map_set i r' (xs_reservations x)\<rparr>)"
  using assms unfolding admission_wf_def by (auto split: if_splits) (metis option.inject)

lemma release_wf [inv_intro]:
  assumes wf: "admission_wf x"
  shows "admission_wf (fst (releaseCloudSkillExecution e p x))"
proof (cases rule: release_cases [of e p x])
  case (released t i r)
  then show ?thesis using set_reservation_wf [OF expire_wf [OF wf] released(2)] by simp
qed (use wf in \<open>simp_all add: expire_wf\<close>)

subsection \<open>Leases over an execution\<close>

text \<open>
  A row is canonical when its lease ends at an instant of the years 0 to 9999 in the form
  \<^verbatim>\<open>toISOString\<close> writes; then the host's parser plays no role.
\<close>

definition canonical :: "CloudSkillExecutionReservation \<Rightarrow> bool" where
  "canonical r \<longleftrightarrow> toISOString (iso_value (r_lease_expires_at r)) = r_lease_expires_at r"

definition live :: "int \<Rightarrow> CloudSkillExecutionReservation \<Rightarrow> bool" where
  "live t r \<longleftrightarrow> r_released_at r = None \<and> t < iso_value (r_lease_expires_at r)"

lemma lease_active_live: "canonical r \<Longrightarrow> lease_active e t r = live t r"
  by (simp add: lease_active_def live_def canonical_def date_parse_def)

definition owned_by :: "string \<Rightarrow> string \<Rightarrow> string \<Rightarrow> string \<Rightarrow> CloudSkillExecutionReservation \<Rightarrow> bool" where
  "owned_by sid tenant user device r \<longleftrightarrow>
    r_subscription_id r = sid \<and> r_tenant_id r = tenant \<and> r_user_id r = user \<and> r_device_id r = device"

definition live_count :: "int \<Rightarrow> string \<Rightarrow> string \<Rightarrow> string \<Rightarrow> string \<Rightarrow> admission_store \<Rightarrow> nat" where
  "live_count t sid tenant user device x =
    length (filter (\<lambda>r. live t r \<and> owned_by sid tenant user device r) (map_values (xs_reservations x)))"

lemma active_leases_count:
  assumes "list_all canonical (map_values (xs_reservations x))"
  shows "length (active_leases e sid p t x) = live_count t sid (q_tenant_id p) (q_user_id p) (q_device_id p) x"
proof -
  have "filter (\<lambda>r. live t r \<and> owned_by sid (q_tenant_id p) (q_user_id p) (q_device_id p) r) (map_values (xs_reservations x)) =
      active_leases e sid p t x"
    unfolding active_leases_def owner_rows_def subscription_rows_def filter_filter
    using assms by (intro filter_cong) (auto simp: owned_by_def list_all_iff lease_active_live)
  then show ?thesis by (simp add: live_count_def)
qed

text \<open>Time passing and leases expiring only take live rows away.\<close>

lemma length_filter_mono: "(\<And>y. y \<in> set ys \<Longrightarrow> P y \<Longrightarrow> Q y) \<Longrightarrow> length (filter P ys) \<le> length (filter Q ys)"
  by (induction ys) auto

lemma live_count_later: "t \<le> t' \<Longrightarrow> live_count t' sid ten us dev x \<le> live_count t sid ten us dev x"
  unfolding live_count_def by (intro length_filter_mono) (auto simp: live_def)

lemma live_expired: "live t (expired e t' r) \<Longrightarrow> live t r"
  by (auto simp: live_def expired_def split: if_splits)

lemma live_count_expire: "live_count t sid ten us dev (expireCloudSkillExecutionLeases e t' x) \<le> live_count t sid ten us dev x"
proof -
  have "live_count t sid ten us dev (expireCloudSkillExecutionLeases e t' x) =
      length (filter (\<lambda>r. live t (expired e t' r) \<and> owned_by sid ten us dev r) (map_values (xs_reservations x)))"
    by (simp add: live_count_def expire_eq filter_map comp_def owned_by_def)
  also have "\<dots> \<le> live_count t sid ten us dev x"
    unfolding live_count_def by (intro length_filter_mono) (auto dest: live_expired)
  finally show ?thesis .
qed

lemma live_count_release:
  assumes "map_ok (xs_reservations x)" and "map_get (xs_reservations x) i = Some r"
  shows "live_count t sid ten us dev (x\<lparr>xs_reservations := map_set i (r\<lparr>r_released_at := Some s\<rparr>) (xs_reservations x)\<rparr>) \<le>
    live_count t sid ten us dev x"
  using count_values_set [OF assms, of "\<lambda>r. live t r \<and> owned_by sid ten us dev r" "r\<lparr>r_released_at := Some s\<rparr>"]
  by (simp add: live_count_def live_def)

lemma live_count_insert:
  assumes "map_get (xs_reservations x) (r_reservation_id r) = None"
  shows "live_count t sid ten us dev (insert_reservation r x) =
    live_count t sid ten us dev x + of_bool (live t r \<and> owned_by sid ten us dev r)"
  using assms by (simp add: live_count_def insert_reservation_def)

lemma canonical_expired [simp]: "canonical (expired e t r) = canonical r"
  by (simp add: canonical_def)

text \<open>
  Requests and releases at times that do not go back, while plans and subscriptions stay as they
  are; the ids drawn are new and the instants lie in the years 0 to 9999.
\<close>

inductive admission_step :: "skill_store \<Rightarrow> int \<times> admission_store \<Rightarrow> int \<times> admission_store \<Rightarrow> bool" for ks where
  reserve: "parseExecutionNow e (q_now p) = Some t' \<Longrightarrow> t \<le> t' \<Longrightarrow>
    common_era t' \<Longrightarrow> common_era (t' + MAX_CLOUD_SKILL_LEASE_TTL_MS) \<Longrightarrow>
    map_get (xs_reservations x) (''csres-'' @ uuid e 0) = None \<Longrightarrow>
    admission_step ks (t, x) (t', fst (reserveCloudSkillExecution ks e p x))"
| release: "parseExecutionNow e (l_now p) = Some t' \<Longrightarrow> t \<le> t' \<Longrightarrow>
    admission_step ks (t, x) (t', fst (releaseCloudSkillExecution e p x))"

definition within_concurrency :: "skill_store \<Rightarrow> int \<Rightarrow> admission_store \<Rightarrow> bool" where
  "within_concurrency ks t x \<longleftrightarrow>
    (\<forall>i sub plan ten us dev. map_get (ks_subscriptions ks) i = Some sub \<longrightarrow> map_get (ks_plans ks) (sb_plan_id sub) = Some plan \<longrightarrow>
      int (live_count t i ten us dev x) \<le> pl_max_concurrency plan)"

definition timed_wf :: "skill_store \<Rightarrow> int \<times> admission_store \<Rightarrow> bool" where
  "timed_wf ks tx \<longleftrightarrow> skill_wf ks \<and> admission_wf (snd tx) \<and>
    list_all canonical (map_values (xs_reservations (snd tx))) \<and> within_concurrency ks (fst tx) (snd tx)"

lemma within_concurrency_mono:
  assumes "within_concurrency ks t x"
    and "\<And>i ten us dev. live_count t' i ten us dev x' \<le> live_count t i ten us dev x"
  shows "within_concurrency ks t' x'"
  unfolding within_concurrency_def
proof (intro allI impI)
  fix i sub plan ten us dev
  assume "map_get (ks_subscriptions ks) i = Some sub" "map_get (ks_plans ks) (sb_plan_id sub) = Some plan"
  then have "int (live_count t i ten us dev x) \<le> pl_max_concurrency plan"
    using assms(1) unfolding within_concurrency_def by blast
  then show "int (live_count t' i ten us dev x') \<le> pl_max_concurrency plan" using assms(2) [of i ten us dev] by linarith
qed

lemma canonical_expire:
  "list_all canonical (map_values (xs_reservations x)) \<Longrightarrow>
   list_all canonical (map_values (xs_reservations (expireCloudSkillExecutionLeases e t x)))"
  by (simp add: expire_eq list_all_iff)

lemma timed_wf_expire:
  assumes "timed_wf ks (t, x)" and "t \<le> t'"
  shows "timed_wf ks (t', expireCloudSkillExecutionLeases e t' x)"
proof -
  have "live_count t' i ten us dev (expireCloudSkillExecutionLeases e t' x) \<le> live_count t i ten us dev x" for i ten us dev
    using live_count_expire [of t' i ten us dev e t' x] live_count_later [OF assms(2), of i ten us dev x] by linarith
  with assms show ?thesis
    by (auto simp: timed_wf_def expire_wf canonical_expire intro: within_concurrency_mono)
qed

lemma timed_wf_later: "timed_wf ks (t, x) \<Longrightarrow> t \<le> t' \<Longrightarrow> timed_wf ks (t', x)"
  by (auto simp: timed_wf_def intro: within_concurrency_mono live_count_later)

lemma normalizeLeaseTtl_bounds:
  "normalizeLeaseTtl v = Some i \<Longrightarrow> MIN_CLOUD_SKILL_LEASE_TTL_MS \<le> i \<and> i \<le> MAX_CLOUD_SKILL_LEASE_TTL_MS"
  by (auto simp: normalizeLeaseTtl_def DEFAULT_CLOUD_SKILL_LEASE_TTL_MS_def MIN_CLOUD_SKILL_LEASE_TTL_MS_def
      MAX_CLOUD_SKILL_LEASE_TTL_MS_def split: option.splits if_splits)

lemma common_era_between: "common_era t \<Longrightarrow> common_era u \<Longrightarrow> t \<le> v \<Longrightarrow> v \<le> u \<Longrightarrow> common_era v"
  unfolding common_era_def using year_of_mono by (meson order_trans)

lemma timed_wf_insert:
  assumes wf: "timed_wf ks (t, x)" and era: "common_era t" "common_era (t + MAX_CLOUD_SKILL_LEASE_TTL_MS)"
    and ttl: "normalizeLeaseTtl (q_lease_ttl_ms p) = Some ttl"
    and new: "map_get (xs_reservations x) (''csres-'' @ uuid e 0) = None"
    and ok: "admit e p t ttl ks x = (x', Inr r)"
  shows "timed_wf ks (t, x')"
proof -
  obtain plan sub starts lease where a: "authorise e p t ks = Inr (plan, sub, starts)"
    "limits_refusal e p plan (sb_subscription_id sub) starts t x = None" "iso_string (t + ttl) = Some lease"
    "r = new_reservation e p (sb_subscription_id sub) starts t lease" "x' = insert_reservation r x"
    using ok by (rule admit_done)
  have fresh: "map_get (xs_reservations x) (r_reservation_id r) = None" using new a(4) by simp
  have "common_era (t + ttl)"
    using era normalizeLeaseTtl_bounds [OF ttl] common_era_between [of t "t + MAX_CLOUD_SKILL_LEASE_TTL_MS" "t + ttl"]
    by (simp add: MIN_CLOUD_SKILL_LEASE_TTL_MS_def)
  moreover have "lease = toISOString (t + ttl)" using a(3) by (simp add: iso_string_def split: if_splits)
  ultimately have canon: "canonical r" using a(4) by (simp add: canonical_def new_reservation_def iso_value_toISOString)
  have owner: "owned_by i ten us dev r \<longleftrightarrow> i = sb_subscription_id sub \<and> ten = q_tenant_id p \<and> us = q_user_id p \<and> dev = q_device_id p"
    for i ten us dev using a(4) by (auto simp: owned_by_def new_reservation_def)
  have room: "int (live_count t (sb_subscription_id sub) (q_tenant_id p) (q_user_id p) (q_device_id p) x) < pl_max_concurrency plan"
    using a(2) active_leases_count [of x e "sb_subscription_id sub" p t] wf
    by (simp add: limits_refusal_def Let_def timed_wf_def split: if_splits)
  have plan: "plan' = plan" if "map_get (ks_subscriptions ks) (sb_subscription_id sub) = Some sub'"
      "map_get (ks_plans ks) (sb_plan_id sub') = Some plan'" for sub' plan'
  proof -
    have "map_get (ks_subscriptions ks) (sb_subscription_id sub) = Some sub"
      using authorise_done(2) [OF a(1)] map_values_get [of "ks_subscriptions ks" sub] wf
      by (auto simp: timed_wf_def skill_wf_def subs_wf_def simp del: set_map)
    with that authorise_done(1,3) [OF a(1)] show ?thesis by simp
  qed
  have "within_concurrency ks t (insert_reservation r x)"
    unfolding within_concurrency_def live_count_insert [OF fresh] owner
  proof (intro allI impI)
    fix i sub' plan' ten us dev
    assume s: "map_get (ks_subscriptions ks) i = Some sub'" "map_get (ks_plans ks) (sb_plan_id sub') = Some plan'"
    have "int (live_count t i ten us dev x) \<le> pl_max_concurrency plan'"
      using wf s unfolding timed_wf_def within_concurrency_def by simp
    then show "int (live_count t i ten us dev x + of_bool (live t r \<and> i = sb_subscription_id sub \<and> ten = q_tenant_id p \<and>
        us = q_user_id p \<and> dev = q_device_id p)) \<le> pl_max_concurrency plan'"
      using room plan s by auto
  qed
  then show ?thesis
    using wf canon fresh insert_reservation_wf [of x r] unfolding a(5)
    by (simp add: timed_wf_def insert_reservation_def)
qed

lemma admission_step_wf: "admission_step ks tx ty \<Longrightarrow> timed_wf ks tx \<Longrightarrow> timed_wf ks ty"
proof (induction rule: admission_step.induct)
  case (reserve e p t' t x)
  then have wf: "admission_wf x" by (simp add: timed_wf_def)
  note now = reserve(1)
  from wf show ?case
  proof (cases rule: reserve_cases [where ks = ks and e = e and p = p])
    case invalid
    then show ?thesis using reserve timed_wf_later by simp
  next
    case (conflict u)
    then show ?thesis using reserve timed_wf_expire by simp
  next
    case (again u i r)
    then show ?thesis using reserve timed_wf_expire by simp
  next
    case (admitted u ttl)
    then have u: "u = t'" using now by simp
    let ?x = "expireCloudSkillExecutionLeases e t' x"
    have wf1: "timed_wf ks (t', ?x)" using reserve timed_wf_expire by simp
    obtain x' res where ad: "admit e p t' ttl ks ?x = (x', res)" by fastforce
    show ?thesis
    proof (cases res)
      case (Inl err)
      then show ?thesis using admitted(4) ad u admit_refused [of e p t' ttl ks ?x x' err] wf1 by simp
    next
      case (Inr r)
      then have "timed_wf ks (t', x')"
        using timed_wf_insert [OF wf1 reserve(3,4) admitted(2), of e x' r] reserve(5) ad by simp
      then show ?thesis using admitted(4) ad u by simp
    qed
  qed
next
  case (release e p t' t x)
  show ?case
  proof (cases rule: release_cases [of e p x])
    case unchanged
    then show ?thesis using release timed_wf_later by simp
  next
    case (kept u res)
    then show ?thesis using release timed_wf_expire by simp
  next
    case (released u i r)
    then have u: "u = t'" using release(1) by simp
    let ?x = "expireCloudSkillExecutionLeases e t' x"
    have wf1: "timed_wf ks (t', ?x)" using release timed_wf_expire by simp
    then have ok: "map_ok (xs_reservations ?x)" by (simp add: timed_wf_def admission_wf_def)
    have get: "map_get (xs_reservations ?x) i = Some r" using released(2) u by simp
    have canon: "canonical r"
      using wf1 map_get_values [OF get] by (simp add: timed_wf_def list_all_iff del: set_map)
    have "list_all canonical (map_values (map_set i (r\<lparr>r_released_at := Some s\<rparr>) (xs_reservations ?x)))" for s
      using wf1 canon map_values_set by (fastforce simp: timed_wf_def list_all_iff canonical_def simp del: set_map)
    then show ?thesis
      using wf1 set_reservation_wf [OF _ get] within_concurrency_mono [OF _ live_count_release [OF ok get]]
      unfolding released(7) u by (simp add: timed_wf_def)
  qed
qed

interpretation admission_run: step_invariant "admission_step ks" "timed_wf ks" for ks
  by unfold_locales (rule admission_step_wf)

lemma timed_wf_empty: "skill_wf ks \<Longrightarrow> timed_wf ks (t, empty_admission_store)"
proof -
  assume wf: "skill_wf ks"
  have "0 \<le> pl_max_concurrency plan" if "map_get (ks_plans ks) i = Some plan" for i plan
  proof -
    have "plan_ok plan" using wf that unfolding skill_wf_def plans_wf_def by blast
    then show ?thesis by (simp add: plan_ok_def)
  qed
  moreover have "live_count t i ten us dev empty_admission_store = 0" for i ten us dev
    by (simp add: live_count_def empty_admission_store_def)
  ultimately have "within_concurrency ks t empty_admission_store" by (auto simp: within_concurrency_def)
  moreover have "xs_reservations empty_admission_store = []" by (simp add: empty_admission_store_def)
  ultimately show ?thesis using wf by (simp add: timed_wf_def admission_wf_empty)
qed

subsection \<open>Properties\<close>


definition sample_reserve :: CloudSkillExecutionReservationRequest where
  "sample_reserve = \<lparr>q_task_id = ''ct-1'', q_user_id = ''u'', q_tenant_id = ''t'', q_device_id = ''d'', q_agent_id = ''a'',
     q_skill_id = ''a.skill.b'', q_plan_id = ''pro'', q_subscription_id = None, q_input_digest = None, q_now = None,
     q_lease_ttl_ms = None\<rparr>"

definition sample_reservation :: CloudSkillExecutionReservation where
  "sample_reservation = new_reservation sample_env sample_reserve ''csub-uuid-0'' 1767225600000 1767225600000
     (toISOString 1767225900000)"

definition sample_admission :: admission_store where
  "sample_admission = insert_reservation sample_reservation empty_admission_store"

lemma sample_reserve_fields [simp]:
  "q_task_id sample_reserve = ''ct-1''" "q_user_id sample_reserve = ''u''" "q_tenant_id sample_reserve = ''t''"
  "q_device_id sample_reserve = ''d''" "q_agent_id sample_reserve = ''a''" "q_skill_id sample_reserve = ''a.skill.b''"
  "q_plan_id sample_reserve = ''pro''" "q_subscription_id sample_reserve = None" "q_input_digest sample_reserve = None"
  "q_now sample_reserve = None" "q_lease_ttl_ms sample_reserve = None"
  by (simp_all add: sample_reserve_def)

lemma iso_2027: "toISOString 1798761600000 = ''2027-01-01T00:00:00.000Z''"
  by (simp add: iso_eval)

lemma sample_dates:
  "date_parse sample_env ''2026-01-01T00:00:00.000Z'' = Some 1767225600000"
  "date_parse sample_env ''2027-01-01T00:00:00.000Z'' = Some 1798761600000"
  using date_parse_toISOString [OF common_eraI, of 1767225600000 sample_env]
    date_parse_toISOString [OF common_eraI, of 1798761600000 sample_env] by (simp_all add: iso_2026 iso_2027)

lemma sample_expire: "expireCloudSkillExecutionLeases e t empty_admission_store = empty_admission_store"
  by (simp add: expire_eq empty_admission_store_def map_each_def)

lemma sample_byTask: "xs_byTask empty_admission_store = []"
  by (simp add: empty_admission_store_def)

lemma sample_reserved:
  "reserveCloudSkillExecution sample_skills sample_env sample_reserve empty_admission_store =
    (sample_admission, Inr sample_reservation)"
proof -
  have "authorise sample_env sample_reserve 1767225600000 sample_skills = Inr (sample_plan, sample_sub, 1767225600000)"
    by (simp add: authorise_def sample_reserve_def sample_skills_eval matching_subscriptions_def js_sort_def sample_dates
        entitled_rows_def sample_ent_def sample_plan_def)
  moreover have "limits_refusal sample_env sample_reserve sample_plan ''csub-uuid-0'' 1767225600000 1767225600000
      empty_admission_store = None"
    by (simp add: limits_refusal_def sample_plan_def cycle_calls_def minute_calls_def active_leases_def owner_rows_def
        subscription_rows_def empty_admission_store_def)
  moreover have "clock sample_env 0 = 1767225600000" by (simp add: sample_env_def)
  ultimately show ?thesis
    using sample_byTask
    by (simp add: reserveCloudSkillExecution_def valid_request_def within_def parseExecutionNow_def normalizeLeaseTtl_def
        sample_expire admit_def sample_admission_def sample_reservation_def iso_string_def valid_time_def
        DEFAULT_CLOUD_SKILL_LEASE_TTL_MS_def Let_def)
qed

lemma sample_admission_step:
  "admission_step sample_skills (0, empty_admission_store) (1767225600000, sample_admission)"
proof -
  have "admission_step sample_skills (0, empty_admission_store)
      (1767225600000, fst (reserveCloudSkillExecution sample_skills sample_env sample_reserve empty_admission_store))"
    by (rule admission_step.reserve)
      (simp_all add: parseExecutionNow_def sample_reserve_def sample_env_def empty_admission_store_def
        MAX_CLOUD_SKILL_LEASE_TTL_MS_def common_eraI)
  then show ?thesis by (simp add: sample_reserved)
qed


lemma length_filter_snoc: "length (filter P (xs @ [y])) \<le> Suc (length (filter P xs))"
  by simp

lemma insert_rows:
  assumes "map_get (xs_reservations x) (r_reservation_id r) = None"
  shows "length (filter P (subscription_rows i (insert_reservation r x))) \<le> Suc (length (filter P (subscription_rows i x)))"
  using assms by (simp add: subscription_rows_def insert_reservation_def)

text \<open>
  C33: an admitted execution was within every limit of the plan. When a request of a new task is
  admitted, the plan lists the Skill, an active subscription of the user and tenant to the plan
  covers it, and, the new call included, the calls of the subscription period for
  this Skill are at most the included calls, those of the device in this minute at most the rate, and
  its active leases at most the concurrency limit.
\<close>

theorem admission_within_limits:
  assumes wf: "admission_wf x" and new: "map_get (xs_reservations x) (''csres-'' @ uuid e 0) = None"
    and task: "map_get (xs_byTask x) (q_task_id p) = None"
    and now: "parseExecutionNow e (q_now p) = Some t"
    and ok: "reserveCloudSkillExecution ks e p x = (x', Inr r)"
  shows "\<exists>plan sub starts. getCloudSkillPlan (q_plan_id p) ks = Some plan \<and> q_skill_id p \<in> set (pl_skill_ids plan) \<and>
    sub \<in> set (map_values (ks_subscriptions ks)) \<and> sb_subscription_id sub = r_subscription_id r \<and>
    sb_user_id sub = q_user_id p \<and> sb_tenant_id sub = q_tenant_id p \<and> sb_plan_id sub = q_plan_id p \<and>
    sb_status sub = SubActive \<and> date_parse e (sb_starts_at sub) = Some starts \<and>
    int (cycle_calls e (r_subscription_id r) (q_skill_id p) starts t x') \<le> pl_included_calls plan \<and>
    int (minute_calls e (r_subscription_id r) p t x') \<le> pl_requests_per_minute plan \<and>
    int (length (active_leases e (r_subscription_id r) p t x')) \<le> pl_max_concurrency plan"
  using wf
proof (cases rule: reserve_cases [where ks = ks and e = e and p = p])
  case (admitted u ttl)
  let ?x = "expireCloudSkillExecutionLeases e t x"
  have "admit e p t ttl ks ?x = (x', Inr r)" using admitted(1,4) ok now by simp
  then obtain plan sub starts lease where a: "authorise e p t ks = Inr (plan, sub, starts)"
    "limits_refusal e p plan (sb_subscription_id sub) starts t ?x = None"
    "r = new_reservation e p (sb_subscription_id sub) starts t lease" "x' = insert_reservation r ?x"
    by (rule admit_done)
  have sub: "r_subscription_id r = sb_subscription_id sub" using a(3) by (simp add: new_reservation_def)
  have "map_get (xs_reservations ?x) (r_reservation_id r) = None" using new a(3) by simp
  note rows = insert_rows [OF this, folded a(4), where i = "sb_subscription_id sub"]
  have lim: "int (cycle_calls e (sb_subscription_id sub) (q_skill_id p) starts t ?x) < pl_included_calls plan"
    "int (minute_calls e (sb_subscription_id sub) p t ?x) < pl_requests_per_minute plan"
    "int (length (active_leases e (sb_subscription_id sub) p t ?x)) < pl_max_concurrency plan"
    using a(2) by (simp_all add: limits_refusal_def Let_def split: if_splits)
  have "int (cycle_calls e (sb_subscription_id sub) (q_skill_id p) starts t x') \<le> pl_included_calls plan"
    using lim(1) rows [of "\<lambda>r. r_skill_id r = q_skill_id p \<and> reserved_between e starts t r"]
    by (simp add: cycle_calls_def)
  moreover have "int (minute_calls e (sb_subscription_id sub) p t x') \<le> pl_requests_per_minute plan"
    using lim(2) rows [of "\<lambda>r. reserved_between e (minute_start t) t r \<and> r_tenant_id r = q_tenant_id p \<and>
        r_user_id r = q_user_id p \<and> r_device_id r = q_device_id p"]
    by (simp add: minute_calls_def owner_rows_def conj_commute conj_left_commute)
  moreover have "int (length (active_leases e (sb_subscription_id sub) p t x')) \<le> pl_max_concurrency plan"
    using lim(3) rows [of "\<lambda>r. lease_active e t r \<and> r_tenant_id r = q_tenant_id p \<and>
        r_user_id r = q_user_id p \<and> r_device_id r = q_device_id p"]
    by (simp add: active_leases_def owner_rows_def conj_commute conj_left_commute)
  ultimately show ?thesis
    using authorise_done [OF a(1)] unfolding sub getCloudSkillPlan_def by blast
qed (use ok task in auto)

theorem admission_within_limits_witness:
  "\<exists>plan. getCloudSkillPlan ''pro'' sample_skills = Some plan \<and>
    int (minute_calls sample_env (r_subscription_id sample_reservation) sample_reserve 1767225600000 sample_admission)
      \<le> pl_requests_per_minute plan"
proof -
  have "parseExecutionNow sample_env (q_now sample_reserve) = Some 1767225600000"
    by (simp add: parseExecutionNow_def sample_reserve_def sample_env_def)
  from admission_within_limits [OF admission_wf_empty _ _ this sample_reserved] show ?thesis
    by (auto simp: empty_admission_store_def sample_reserve_def)
qed

text \<open>Whether a request is admitted now or before, its task then leads to the reservation returned.\<close>

lemma reserve_indexed:
  assumes wf: "admission_wf x" and ok: "reserveCloudSkillExecution ks e p x = (x', Inr r)"
  shows "map_get (xs_byTask x') (q_task_id p) = Some (r_reservation_id r) \<and>
    map_get (xs_reservations x') (r_reservation_id r) = Some r \<and> sameBinding p r"
  using wf
proof (cases rule: reserve_cases [where ks = ks and e = e and p = p])
  case (again t i s)
  moreover have "r_reservation_id s = i" using wf again(4) unfolding admission_wf_def by blast
  ultimately show ?thesis using ok by (auto simp: sameBinding_def)
next
  case (admitted t ttl)
  then have "admit e p t ttl ks (expireCloudSkillExecutionLeases e t x) = (x', Inr r)" using ok by simp
  then show ?thesis
  proof (rule admit_done)
    fix plan sub starts lease
    assume a: "authorise e p t ks = Inr (plan, sub, starts)"
      "r = new_reservation e p (sb_subscription_id sub) starts t lease"
      "x' = insert_reservation r (expireCloudSkillExecutionLeases e t x)"
    show ?thesis
      using authorise_done(6) [OF a(1)] a(2)
      unfolding a(3) by (auto simp: insert_reservation_def sameBinding_def new_reservation_def)
  qed
qed (use ok in auto)

text \<open>
  a request repeated for the same task gets the original lease. Whatever became of plan and
  subscription in between, a later request with the same task and the same binding answers with the
  reservation first made, up to its release time: no further call is counted, no row is added
  and the expiry is not extended.
\<close>

theorem reservation_retry:
  assumes wf: "admission_wf x" and new: "map_get (xs_reservations x) (''csres-'' @ uuid e 0) = None"
    and ok: "reserveCloudSkillExecution ks e p x = (x', Inr r)"
    and p': "p' = p\<lparr>q_now := n, q_lease_ttl_ms := l\<rparr>"
    and valid: "parseExecutionNow e' n = Some t" "normalizeLeaseTtl l = Some ttl"
  shows "\<exists>x'' r''. reserveCloudSkillExecution ks' e' p' x' = (x'', Inr r'') \<and>
    r''\<lparr>r_released_at := r_released_at r\<rparr> = r \<and>
    map_keys (xs_reservations x'') = map_keys (xs_reservations x')"
proof -
  have wf': "admission_wf x'" using reserve_wf [OF wf new, of ks p] ok by simp
  note ix = reserve_indexed [OF wf ok]
  have same: "sameBinding p' (expired e' t r)" using ix p' by (simp add: sameBinding_def)
  have "valid_request p" using ok by (auto simp: reserveCloudSkillExecution_def split: if_splits)
  then have "valid_request p'" using p' by (simp add: valid_request_def)
  then have "reserveCloudSkillExecution ks' e' p' x' = (expireCloudSkillExecutionLeases e' t x', Inr (expired e' t r))"
    using ix valid same p' by (simp add: reserveCloudSkillExecution_def)
  moreover have "(expired e' t r)\<lparr>r_released_at := r_released_at r\<rparr> = r" by (simp add: expired_def)
  ultimately show ?thesis by simp
qed

theorem reservation_retry_witness:
  "\<exists>x'' r''. reserveCloudSkillExecution sample_skills sample_env sample_reserve sample_admission = (x'', Inr r'') \<and>
    r''\<lparr>r_released_at := r_released_at sample_reservation\<rparr> = sample_reservation"
proof -
  have "sample_reserve = sample_reserve\<lparr>q_now := None, q_lease_ttl_ms := None\<rparr>" by (simp add: sample_reserve_def)
  from reservation_retry [OF admission_wf_empty _ sample_reserved this, of sample_env] show ?thesis
    by (fastforce simp: empty_admission_store_def parseExecutionNow_def normalizeLeaseTtl_def)
qed

text \<open>
  a lease is released once, and only by its owner. When a release succeeds, the lease was
  not released before, the user, tenant and task given in the request are those of the lease, and
  from then on the lease counts for no limit on concurrency; a second release of it reports that
  it changed nothing, and a release reports success for nothing else.
\<close>

theorem release_once:
  assumes wf: "admission_wf x" and rel: "releaseCloudSkillExecution e p x = (x', res)" and "lr_released res"
    and now: "parseExecutionNow e' n' = Some t'"
  shows "\<exists>r. lr_reservation res = Some r \<and> map_get (xs_reservations x') (r_reservation_id r) = Some r \<and>
    map_option r_released_at (map_get (xs_reservations x) (r_reservation_id r)) = Some None \<and>
    (l_user_id p \<noteq> None \<longrightarrow> l_user_id p = Some (r_user_id r)) \<and>
    (l_tenant_id p \<noteq> None \<longrightarrow> l_tenant_id p = Some (r_tenant_id r)) \<and>
    (l_task_id p \<noteq> None \<longrightarrow> l_task_id p = Some (r_task_id r)) \<and>
    (\<forall>t. \<not> lease_active e t r) \<and>
    (r_reservation_id r \<noteq> [] \<longrightarrow>
      releaseCloudSkillExecution e' \<lparr>l_reservation_id = Some (r_reservation_id r), l_task_id = None, l_user_id = None,
        l_tenant_id = None, l_now = n'\<rparr> x' =
      (expireCloudSkillExecutionLeases e' t' x', \<lparr>lr_released = False, lr_reservation = Some r\<rparr>))"
proof (cases rule: release_cases [of e p x])
  case (released t i r0)
  let ?r = "r0\<lparr>r_released_at := Some (toISOString t)\<rparr>"
  have res: "res = \<lparr>lr_released = True, lr_reservation = Some ?r\<rparr>"
    and x': "x' = (expireCloudSkillExecutionLeases e t x)\<lparr>xs_reservations :=
      map_set i ?r (xs_reservations (expireCloudSkillExecutionLeases e t x))\<rparr>"
    using rel released(7) by auto
  obtain s where s: "map_get (xs_reservations x) i = Some s" "r0 = expired e t s" using released(2) by auto
  have id: "r_reservation_id r0 = i" using wf s unfolding admission_wf_def by auto
  have "r_released_at s = None" using released(3) s(2) by (auto simp: expired_def lease_over_def split: if_splits)
  moreover have "map_get (xs_reservations x') i = Some ?r" by (simp add: x')
  moreover have "expired e' t' ?r = ?r" by (simp add: expired_def lease_over_def)
  ultimately show ?thesis
    using released(4-6) s id now unfolding res
    by (auto simp: releaseCloudSkillExecution_def Let_def lease_active_def)
qed (use rel assms(3) in \<open>auto simp: not_released_def\<close>)

definition sample_release :: CloudSkillExecutionReleaseRequest where
  "sample_release = \<lparr>l_reservation_id = None, l_task_id = Some ''ct-1'', l_user_id = None, l_tenant_id = None, l_now = None\<rparr>"

lemma sample_lease_end: "date_parse sample_env (toISOString 1767225900000) = Some 1767225900000"
  by (rule date_parse_toISOString, rule common_eraI) simp_all

theorem release_once_witness:
  "\<exists>r. lr_reservation (snd (releaseCloudSkillExecution sample_env sample_release sample_admission)) = Some r \<and>
    (\<forall>t. \<not> lease_active sample_env t r)"
proof -
  have wf: "admission_wf sample_admission"
    unfolding sample_admission_def by (rule insert_reservation_wf [OF admission_wf_empty])
      (simp add: sample_reservation_def empty_admission_store_def)
  have "lr_released (snd (releaseCloudSkillExecution sample_env sample_release sample_admission))"
    using sample_lease_end
    by (simp add: releaseCloudSkillExecution_def sample_release_def parseExecutionNow_def sample_admission_def
        insert_reservation_def empty_admission_store_def sample_reservation_def new_reservation_def expired_def
        lease_over_def Let_def)
      (simp add: sample_env_def)
  from release_once [OF wf prod.collapse [symmetric] this, of sample_env None "clock sample_env 0"] show ?thesis
    by (auto simp: parseExecutionNow_def)
qed

end
