(* ===== verification/Billing_Store.thy ===== *)
theory Billing_Store
  imports Account_Store Device_Store Cloud_Skill_Store
begin

text \<open>
  Products, orders, the wallet and the settlement of payments and refunds of \<^verbatim>\<open>MemoryStore\<close>
  (\<^verbatim>\<open>apps/longhub-cloud-api/src/memory-store.ts\<close>). A settlement reads every precondition first,
  stages what it will write, and then writes the wallet, the order, the entitlements, the settlement
  with its two indexes, the outbox event and the stored result. The state holds the account, device
  and Cloud Skill stores it writes into. The lemmas show that the wallet is the sum of its ledger, that an
  order is settled once per operation and key, and that a retry answers with the stored result.

  A remark or message outside the first 256 code units is written as the bytes of its UTF-8 form.
\<close>

subsection \<open>Records\<close>

datatype ProductStatus = ProductListed | ProductUnlisted

record ProductRecord =
  pr_product_id :: string
  pr_pack_id :: string
  pr_name :: string
  pr_description :: string
  pr_price_monthly_fen :: int
  pr_price_yearly_fen :: int
  pr_status :: ProductStatus
  pr_created_at :: string

datatype OrderStatus = OrderPending | OrderPaid | OrderCancelled | OrderRefunded

datatype OrderType = PlanOrder | CloudSkillPlanOrder | RechargeOrder

record OrderRecord =
  or_order_id :: string
  or_user_id :: string
  or_type :: OrderType
  or_product_id :: "string option"
  or_pack_id :: "string option"
  or_plan_id :: "string option"
  or_tenant_id :: "string option"
  or_period :: "BillingPeriod option"
  or_amount_fen :: int
  or_status :: OrderStatus
  or_pay_method :: "string option"
  or_created_at :: string
  or_paid_at :: "string option"
  or_refunded_at :: "string option"

datatype WalletTransactionType = TxnRecharge | TxnPurchase | TxnRefund | TxnAdjust

record WalletTransactionRecord =
  wt_txn_id :: string
  wt_user_id :: string
  wt_type :: WalletTransactionType
  wt_amount_fen :: int
  wt_balance_after_fen :: int
  wt_order_id :: "string option"
  wt_settlement_id :: "string option"
  wt_remark :: "string option"
  wt_created_at :: string

datatype BillingSettlementOperation = PaymentOp | RefundOp

datatype BillingSettlementReason =
    ORDER_NOT_FOUND
  | ORDER_NOT_PENDING
  | ORDER_NOT_PAID
  | INVALID_PAYMENT_METHOD
  | RECHARGE_BALANCE_FORBIDDEN
  | RECHARGE_REFUND_FORBIDDEN
  | INSUFFICIENT_BALANCE
  | IDEMPOTENCY_KEY_INVALID
  | IDEMPOTENCY_CONFLICT
  | REFUND_REQUIRES_RECONCILIATION
  | SETTLEMENT_UNAVAILABLE
  | FULFILLMENT_INVALID

text \<open>
  What a billing operation throws: a \<^verbatim>\<open>BillingSettlementError\<close> with its code and HTTP status, the
  plain \<^verbatim>\<open>Error\<close> of the wallet with its message, or the \<^verbatim>\<open>RangeError\<close> of an expiry beyond the
  largest time value.
\<close>

datatype billing_error = SettlementError BillingSettlementReason int | PlainError string | RANGE_ERROR

definition default_status :: "BillingSettlementReason \<Rightarrow> int" where
  "default_status code =
    (case code of INSUFFICIENT_BALANCE \<Rightarrow> 402 | ORDER_NOT_FOUND \<Rightarrow> 404 | SETTLEMENT_UNAVAILABLE \<Rightarrow> 503
     | IDEMPOTENCY_KEY_INVALID \<Rightarrow> 400 | IDEMPOTENCY_CONFLICT \<Rightarrow> 409 | _ \<Rightarrow> 409)"

definition BillingSettlementError :: "BillingSettlementReason \<Rightarrow> int option \<Rightarrow> billing_error" where
  "BillingSettlementError code status = SettlementError code (case_option (default_status code) id status)"

record BillingSettlementRecord =
  st_settlement_id :: string
  st_order_id :: string
  st_operation :: BillingSettlementOperation
  st_idempotency_key :: string
  st_request_hash :: string
  st_method :: "string option"
  st_provider_reference :: "string option"
  st_amount_fen :: int
  st_created_at :: string

datatype BillingEventType = PaymentSettled | RefundSettled

record BillingOutboxRecord =
  ob_outbox_id :: string
  ob_event_type :: BillingEventType
  ob_aggregate_id :: string
  ob_settlement_id :: string
  ob_payload :: "(string \<times> js_value) list"
  ob_attempts :: int
  ob_available_at :: string
  ob_locked_until :: "string option"
  ob_lock_token :: "string option"
  ob_published_at :: "string option"
  ob_dead_lettered_at :: "string option"
  ob_last_error :: "string option"
  ob_created_at :: string

record SettleOrderPaymentParams =
  sp_order_id :: string
  sp_user_id :: string
  sp_method :: string
  sp_provider_reference :: "string option"
  sp_idempotency_key :: string
  sp_request_hash :: string
  sp_paid_at :: "string option"

record SettleOrderRefundParams =
  sr_order_id :: string
  sr_actor :: string
  sr_idempotency_key :: string
  sr_request_hash :: string
  sr_provider_reference :: "string option"
  sr_refunded_at :: "string option"

record BillingSettlementResult =
  rs_replayed :: bool
  rs_settlement :: BillingSettlementRecord
  rs_order :: OrderRecord
  rs_wallet_transaction :: "WalletTransactionRecord option"
  rs_subscription :: "CloudSkillSubscriptionRecord option"
  rs_cloud_skill_entitlements :: "CloudSkillEntitlementRecord list option"
  rs_entitlements :: "EntitlementRecord list option"
  rs_outbox :: BillingOutboxRecord

record billing_store =
  bs_account :: account_store
  bs_device :: device_store
  bs_skill :: skill_store
  bs_products :: "(string, ProductRecord) js_map"
  bs_orders :: "(string, OrderRecord) js_map"
  bs_transactions :: "WalletTransactionRecord list"
  bs_settlements :: "(string, BillingSettlementRecord) js_map"
  bs_byOrderOperation :: "(string, string) js_map"
  bs_byOperationKey :: "(string, string) js_map"
  bs_results :: "(string, BillingSettlementResult) js_map"
  bs_outbox :: "(string, BillingOutboxRecord) js_map"

definition empty_billing_store :: billing_store where
  "empty_billing_store =
    \<lparr>bs_account = empty_account_store, bs_device = empty_device_store, bs_skill = empty_skill_store,
     bs_products = [], bs_orders = [], bs_transactions = [], bs_settlements = [], bs_byOrderOperation = [],
     bs_byOperationKey = [], bs_results = [], bs_outbox = []\<rparr>"

subsection \<open>Products and orders\<close>

record create_product_params =
  cq_pack_id :: string
  cq_name :: string
  cq_description :: string
  cq_price_monthly_fen :: int
  cq_price_yearly_fen :: int
  cq_status :: "ProductStatus option"

definition createProduct :: "js_env \<Rightarrow> create_product_params \<Rightarrow> billing_store \<Rightarrow> billing_store \<times> ProductRecord" where
  "createProduct e p s =
    (let product = \<lparr>pr_product_id = ''prd-'' @ uuid e 0, pr_pack_id = cq_pack_id p, pr_name = cq_name p,
           pr_description = cq_description p, pr_price_monthly_fen = cq_price_monthly_fen p,
           pr_price_yearly_fen = cq_price_yearly_fen p, pr_status = case_option ProductListed id (cq_status p),
           pr_created_at = now_iso e 0\<rparr>
     in (s\<lparr>bs_products := map_set (pr_product_id product) product (bs_products s)\<rparr>, product))"

record product_patch =
  qp_name :: "string option"
  qp_description :: "string option"
  qp_price_monthly_fen :: "int option"
  qp_price_yearly_fen :: "int option"
  qp_status :: "ProductStatus option"

definition updateProduct :: "string \<Rightarrow> product_patch \<Rightarrow> billing_store \<Rightarrow> billing_store \<times> ProductRecord option" where
  "updateProduct productId patch s =
    (case map_get (bs_products s) productId of
       None \<Rightarrow> (s, None)
     | Some product \<Rightarrow>
         let product' = product\<lparr>
               pr_name := case_option (pr_name product) id (qp_name patch),
               pr_description := case_option (pr_description product) id (qp_description patch),
               pr_price_monthly_fen := case_option (pr_price_monthly_fen product) id (qp_price_monthly_fen patch),
               pr_price_yearly_fen := case_option (pr_price_yearly_fen product) id (qp_price_yearly_fen patch),
               pr_status := case_option (pr_status product) id (qp_status patch)\<rparr>
         in (s\<lparr>bs_products := map_set productId product' (bs_products s)\<rparr>, Some product'))"

definition getProduct :: "string \<Rightarrow> billing_store \<Rightarrow> ProductRecord option" where
  "getProduct productId s = map_get (bs_products s) productId"

definition listProducts :: "billing_store \<Rightarrow> ProductRecord list" where
  "listProducts s = map_values (bs_products s)"

record create_order_params =
  co_user_id :: string
  co_type :: OrderType
  co_product_id :: "string option"
  co_pack_id :: "string option"
  co_plan_id :: "string option"
  co_tenant_id :: "string option"
  co_period :: "BillingPeriod option"
  co_amount_fen :: int

definition createOrder :: "js_env \<Rightarrow> create_order_params \<Rightarrow> billing_store \<Rightarrow> billing_store \<times> OrderRecord" where
  "createOrder e p s =
    (let order = \<lparr>or_order_id = ''ord-'' @ uuid e 0, or_user_id = co_user_id p, or_type = co_type p,
           or_product_id = co_product_id p, or_pack_id = co_pack_id p, or_plan_id = co_plan_id p,
           or_tenant_id = co_tenant_id p, or_period = co_period p, or_amount_fen = co_amount_fen p,
           or_status = OrderPending, or_pay_method = None, or_created_at = now_iso e 0,
           or_paid_at = None, or_refunded_at = None\<rparr>
     in (s\<lparr>bs_orders := map_set (or_order_id order) order (bs_orders s)\<rparr>, order))"

definition getOrder :: "string \<Rightarrow> billing_store \<Rightarrow> OrderRecord option" where
  "getOrder orderId s = map_get (bs_orders s) orderId"

record order_patch =
  op_status :: "OrderStatus option"
  op_pay_method :: "string option option"
  op_paid_at :: "string option option"
  op_refunded_at :: "string option option"

definition updateOrder :: "string \<Rightarrow> order_patch \<Rightarrow> billing_store \<Rightarrow> billing_store \<times> OrderRecord option" where
  "updateOrder orderId patch s =
    (case map_get (bs_orders s) orderId of
       None \<Rightarrow> (s, None)
     | Some order \<Rightarrow>
         let order' = order\<lparr>
               or_status := case_option (or_status order) id (op_status patch),
               or_pay_method := case_option (or_pay_method order) id (op_pay_method patch),
               or_paid_at := case_option (or_paid_at order) id (op_paid_at patch),
               or_refunded_at := case_option (or_refunded_at order) id (op_refunded_at patch)\<rparr>
         in (s\<lparr>bs_orders := map_set orderId order' (bs_orders s)\<rparr>, Some order'))"

definition listOrders :: "string option \<Rightarrow> billing_store \<Rightarrow> OrderRecord list" where
  "listOrders userId s = filter (\<lambda>order. userId = None \<or> Some (or_user_id order) = userId) (map_values (bs_orders s))"

subsection \<open>The wallet\<close>

record wallet_params =
  wp_user_id :: string
  wp_type :: WalletTransactionType
  wp_amount_fen :: int
  wp_order_id :: "string option"
  wp_remark :: "string option"

definition set_balance :: "UserRecord \<Rightarrow> int \<Rightarrow> account_store \<Rightarrow> account_store" where
  "set_balance user balance a = a\<lparr>as_users := map_set (u_user_id user) (user\<lparr>u_balance_fen := balance\<rparr>) (as_users a)\<rparr>"

definition addWalletTransaction ::
  "js_env \<Rightarrow> wallet_params \<Rightarrow> billing_store \<Rightarrow> billing_store \<times> (billing_error + WalletTransactionRecord)" where
  "addWalletTransaction e p s =
    (case map_get (as_users (bs_account s)) (wp_user_id p) of
       None \<Rightarrow> (s, Inl (PlainError (''Unknown user: '' @ wp_user_id p)))
     | Some user \<Rightarrow>
         let next = u_balance_fen user + wp_amount_fen p
         in if next < 0 then (s, Inl (PlainError ''INSUFFICIENT_BALANCE''))
            else
              let txn = \<lparr>wt_txn_id = ''txn-'' @ uuid e 0, wt_user_id = wp_user_id p, wt_type = wp_type p,
                    wt_amount_fen = wp_amount_fen p, wt_balance_after_fen = next, wt_order_id = wp_order_id p,
                    wt_settlement_id = None, wt_remark = wp_remark p, wt_created_at = now_iso e 0\<rparr>
              in (s\<lparr>bs_account := (bs_account s)\<lparr>as_users :=
                        map_set (wp_user_id p) (user\<lparr>u_balance_fen := next\<rparr>) (as_users (bs_account s))\<rparr>,
                    bs_transactions := bs_transactions s @ [txn]\<rparr>, Inr txn))"

definition listTransactions :: "string option \<Rightarrow> billing_store \<Rightarrow> WalletTransactionRecord list" where
  "listTransactions userId s = rev (filter (\<lambda>t. userId = None \<or> Some (wt_user_id t) = userId) (bs_transactions s))"

subsection \<open>Settlements: replay, expiry, references\<close>

fun operation_text :: "BillingSettlementOperation \<Rightarrow> string" where
  "operation_text PaymentOp = ''payment''"
| "operation_text RefundOp = ''refund''"

fun order_type_text :: "OrderType \<Rightarrow> string" where
  "order_type_text PlanOrder = ''plan''"
| "order_type_text CloudSkillPlanOrder = ''cloud_skill_plan''"
| "order_type_text RechargeOrder = ''recharge''"

definition order_lookup :: "string \<Rightarrow> BillingSettlementOperation \<Rightarrow> string" where
  "order_lookup orderId operation = orderId @ nul # operation_text operation"

definition key_lookup :: "BillingSettlementOperation \<Rightarrow> string \<Rightarrow> string" where
  "key_lookup operation key = operation_text operation @ nul # key"

text \<open>The fields a clone copies are values here; what is left of it is the replay mark.\<close>

definition billingSettlementResultClone :: "BillingSettlementResult \<Rightarrow> bool \<Rightarrow> BillingSettlementResult" where
  "billingSettlementResultClone result replayed = result\<lparr>rs_replayed := replayed\<rparr>"

text \<open>The stored settlement answers the request: same order, operation, key, hash, reference and method.\<close>

definition same_request ::
  "BillingSettlementOperation \<Rightarrow> string \<Rightarrow> string \<Rightarrow> string \<Rightarrow> string option \<Rightarrow> string option \<Rightarrow>
   BillingSettlementRecord \<Rightarrow> bool" where
  "same_request operation orderId key hash meth ref st \<longleftrightarrow>
    st_order_id st = orderId \<and> st_operation st = operation \<and> st_idempotency_key st = key \<and>
    st_request_hash st = hash \<and> st_provider_reference st = ref \<and>
    \<not> (operation = PaymentOp \<and> st_method st \<noteq> meth)"

definition billingSettlementReplay ::
  "BillingSettlementOperation \<Rightarrow> string \<Rightarrow> string \<Rightarrow> string \<Rightarrow> string option \<Rightarrow> string option \<Rightarrow>
   billing_store \<Rightarrow> billing_error + BillingSettlementResult option" where
  "billingSettlementReplay operation orderId key hash meth ref s =
    (if key = [] \<or> hash = [] then Inl (BillingSettlementError IDEMPOTENCY_CONFLICT None)
     else
       let byOrder = map_get (bs_byOrderOperation s) (order_lookup orderId operation);
           byKey = map_get (bs_byOperationKey s) (key_lookup operation key)
       in if byOrder = None \<and> byKey = None then Inr None
          else (case (byOrder, byKey) of
              (Some i, Some j) \<Rightarrow>
                if i \<noteq> j then Inl (BillingSettlementError IDEMPOTENCY_CONFLICT None)
                else (case (map_get (bs_settlements s) i, map_get (bs_results s) i) of
                    (Some st, Some result) \<Rightarrow>
                      if same_request operation orderId key hash meth ref st
                      then Inr (Some (billingSettlementResultClone result True))
                      else Inl (BillingSettlementError IDEMPOTENCY_CONFLICT None)
                  | _ \<Rightarrow> Inl (BillingSettlementError IDEMPOTENCY_CONFLICT None))
            | _ \<Rightarrow> Inl (BillingSettlementError IDEMPOTENCY_CONFLICT None)))"

definition period_days :: "BillingPeriod \<Rightarrow> int" where
  "period_days period = (case period of Monthly \<Rightarrow> 31 | Yearly \<Rightarrow> 366)"

definition billingPeriodExpiry :: "js_env \<Rightarrow> string \<Rightarrow> BillingPeriod \<Rightarrow> billing_error + string" where
  "billingPeriodExpiry e startedAt period =
    (case date_parse e startedAt of
       None \<Rightarrow> Inl (BillingSettlementError FULFILLMENT_INVALID None)
     | Some started \<Rightarrow>
         (case iso_string (started + period_days period * 24 * 60 * 60 * 1000) of
            None \<Rightarrow> Inl RANGE_ERROR
          | Some t \<Rightarrow> Inr t))"

text \<open>\<^verbatim>\<open>/^[A-Za-z0-9][A-Za-z0-9._:/-]{0,255}$/u\<close>\<close>

definition validProviderReference :: "string option \<Rightarrow> bool" where
  "validProviderReference value =
    (case value of None \<Rightarrow> False
     | Some v \<Rightarrow> head_tail is_alnum (\<lambda>c. is_alnum c \<or> c \<in> set ''._:/-'') 0 255 v)"

subsection \<open>Payment\<close>

text \<open>What a settlement is about to write besides the order and the wallet.\<close>

record staged =
  sg_packs :: "EntitlementRecord list"
  sg_subscription :: "CloudSkillSubscriptionRecord option"
  sg_cloud :: "CloudSkillEntitlementRecord list"

definition nothing_staged :: staged where
  "nothing_staged = \<lparr>sg_packs = [], sg_subscription = None, sg_cloud = []\<rparr>"

text \<open>
  The loop over the active devices of the buyer: a row of the same order, device and pack is renewed,
  otherwise a new one is made. \<open>k\<close> ids have been drawn when the head of the list is reached.
\<close>

definition staged_pack ::
  "js_env \<Rightarrow> OrderRecord \<Rightarrow> string \<Rightarrow> string \<Rightarrow> string \<Rightarrow> (string, EntitlementRecord) js_map \<Rightarrow> DeviceRecord \<Rightarrow> nat \<Rightarrow>
   EntitlementRecord \<times> nat" where
  "staged_pack e order packId expiresAt createdAt ents device k =
    (case map_find (\<lambda>en. en_source_order_id en = Some (or_order_id order) \<and> en_device_id en = d_device_id device \<and>
            en_pack_id en = packId) ents of
       Some (_, existing) \<Rightarrow>
         (existing\<lparr>en_tenant_id := d_tenant_id device, en_scope := ScopeUser, en_status := EntActive,
                   en_expires_at := expiresAt\<rparr>, k)
     | None \<Rightarrow>
         (\<lparr>en_entitlement_id = ''ent-'' @ uuid e k, en_tenant_id = d_tenant_id device,
           en_device_id = d_device_id device, en_pack_id = packId, en_scope = ScopeUser, en_status = EntActive,
           en_expires_at = expiresAt, en_source_activation_code_id = None,
           en_source_order_id = Some (or_order_id order), en_created_at = createdAt\<rparr>, Suc k))"

fun stage_packs ::
  "js_env \<Rightarrow> OrderRecord \<Rightarrow> string \<Rightarrow> string \<Rightarrow> string \<Rightarrow> (string, EntitlementRecord) js_map \<Rightarrow> DeviceRecord list \<Rightarrow> nat \<Rightarrow>
   EntitlementRecord list \<times> nat" where
  "stage_packs e order packId expiresAt createdAt ents [] k = ([], k)"
| "stage_packs e order packId expiresAt createdAt ents (device # devices) k =
    (let (en, k') = staged_pack e order packId expiresAt createdAt ents device k;
         (rest, k'') = stage_packs e order packId expiresAt createdAt ents devices k'
     in (en # rest, k''))"

definition buyer_devices :: "js_env \<Rightarrow> string \<Rightarrow> device_store \<Rightarrow> DeviceRecord list" where
  "buyer_devices e userId d =
    js_sort (\<lambda>l r. localeCompare e (d_device_id l) (d_device_id r))
      (filter (\<lambda>device. d_user_id device = Some userId \<and> d_status device = DeviceActive) (map_values (ds_devices d)))"

definition stage_pack_order ::
  "js_env \<Rightarrow> OrderRecord \<Rightarrow> string \<Rightarrow> string \<Rightarrow> nat \<Rightarrow> billing_store \<Rightarrow> billing_error + staged \<times> nat" where
  "stage_pack_order e order paidAt createdAt k s =
    (case (truthy (or_pack_id order), or_period order) of
       (Some packId, Some period) \<Rightarrow>
         (case billingPeriodExpiry e paidAt period of
            Inl x \<Rightarrow> Inl x
          | Inr expiresAt \<Rightarrow>
              let (packs, k') = stage_packs e order packId expiresAt createdAt (ds_entitlements (bs_device s))
                    (buyer_devices e (or_user_id order) (bs_device s)) k
              in Inr (nothing_staged\<lparr>sg_packs := packs\<rparr>, k'))
     | _ \<Rightarrow> Inl (BillingSettlementError FULFILLMENT_INVALID None))"

text \<open>The subscription of a Cloud Skill order: the row of the order is reactivated, or a new one is made.\<close>

definition staged_subscription ::
  "js_env \<Rightarrow> OrderRecord \<Rightarrow> string \<Rightarrow> string \<Rightarrow> BillingPeriod \<Rightarrow> string \<Rightarrow> string \<Rightarrow> string \<Rightarrow> nat \<Rightarrow> skill_store \<Rightarrow>
   billing_error + CloudSkillSubscriptionRecord \<times> nat" where
  "staged_subscription e order planId tenantId period paidAt expiresAt createdAt k ks =
    (case getCloudSkillSubscriptionByOrder (or_order_id order) ks of
       Some existing \<Rightarrow>
         if sb_user_id existing \<noteq> or_user_id order \<or> sb_tenant_id existing \<noteq> tenantId \<or>
            sb_plan_id existing \<noteq> planId \<or> sb_period existing \<noteq> period \<or> sb_status existing = SubRefunded
         then Inl (BillingSettlementError FULFILLMENT_INVALID None)
         else Inr (existing\<lparr>sb_status := SubActive, sb_starts_at := paidAt, sb_expires_at := expiresAt,
                     sb_cancelled_at := None, sb_refunded_at := None\<rparr>, k)
     | None \<Rightarrow>
         Inr (\<lparr>sb_subscription_id = ''csub-'' @ uuid e k, sb_user_id = or_user_id order, sb_tenant_id = tenantId,
               sb_plan_id = planId, sb_status = SubActive, sb_period = period, sb_starts_at = paidAt,
               sb_expires_at = expiresAt, sb_cancelled_at = None, sb_refunded_at = None,
               sb_source_order_id = or_order_id order, sb_created_at = createdAt\<rparr>, Suc k))"

definition staged_skill ::
  "js_env \<Rightarrow> OrderRecord \<Rightarrow> string \<Rightarrow> string \<Rightarrow> string \<Rightarrow> string \<Rightarrow> string \<Rightarrow>
   (string, CloudSkillEntitlementRecord) js_map \<Rightarrow> string \<Rightarrow> nat \<Rightarrow> CloudSkillEntitlementRecord \<times> nat" where
  "staged_skill e order tenantId planId subscriptionId expiresAt createdAt ents skillId k =
    (case map_find (\<lambda>en. ce_subscription_id en = subscriptionId \<and> ce_plan_id en = planId \<and> ce_skill_id en = skillId) ents of
       Some (_, existing) \<Rightarrow>
         (existing\<lparr>ce_tenant_id := tenantId, ce_user_id := or_user_id order, ce_status := CsActive,
                   ce_expires_at := expiresAt\<rparr>, k)
     | None \<Rightarrow>
         (\<lparr>ce_entitlement_id = ''csent-'' @ uuid e k, ce_subscription_id = subscriptionId, ce_tenant_id = tenantId,
           ce_user_id = or_user_id order, ce_skill_id = skillId, ce_plan_id = planId, ce_status = CsActive,
           ce_expires_at = expiresAt, ce_created_at = createdAt\<rparr>, Suc k))"

fun stage_skills ::
  "js_env \<Rightarrow> OrderRecord \<Rightarrow> string \<Rightarrow> string \<Rightarrow> string \<Rightarrow> string \<Rightarrow> string \<Rightarrow>
   (string, CloudSkillEntitlementRecord) js_map \<Rightarrow> string list \<Rightarrow> nat \<Rightarrow> CloudSkillEntitlementRecord list \<times> nat" where
  "stage_skills e order tenantId planId subscriptionId expiresAt createdAt ents [] k = ([], k)"
| "stage_skills e order tenantId planId subscriptionId expiresAt createdAt ents (skillId # skillIds) k =
    (let (en, k') = staged_skill e order tenantId planId subscriptionId expiresAt createdAt ents skillId k;
         (rest, k'') = stage_skills e order tenantId planId subscriptionId expiresAt createdAt ents skillIds k'
     in (en # rest, k''))"

definition stage_cloud_order ::
  "js_env \<Rightarrow> OrderRecord \<Rightarrow> string \<Rightarrow> string \<Rightarrow> nat \<Rightarrow> billing_store \<Rightarrow> billing_error + staged \<times> nat" where
  "stage_cloud_order e order paidAt createdAt k s =
    (case (truthy (or_plan_id order), truthy (or_tenant_id order), or_period order) of
       (Some planId, Some tenantId, Some period) \<Rightarrow>
         (case map_get (ks_plans (bs_skill s)) planId of
            None \<Rightarrow> Inl (BillingSettlementError FULFILLMENT_INVALID None)
          | Some plan \<Rightarrow>
              (case billingPeriodExpiry e paidAt period of
                 Inl x \<Rightarrow> Inl x
               | Inr expiresAt \<Rightarrow>
                   (case staged_subscription e order planId tenantId period paidAt expiresAt createdAt k (bs_skill s) of
                      Inl x \<Rightarrow> Inl x
                    | Inr (sub, k') \<Rightarrow>
                        let (ents, k'') = stage_skills e order tenantId (pl_plan_id plan) (sb_subscription_id sub) expiresAt
                              createdAt (ks_entitlements (bs_skill s)) (js_sort code_unit_compare (pl_skill_ids plan)) k'
                        in Inr (\<lparr>sg_packs = [], sg_subscription = Some sub, sg_cloud = ents\<rparr>, k''))))
     | _ \<Rightarrow> Inl (BillingSettlementError FULFILLMENT_INVALID None))"

definition stage_payment ::
  "js_env \<Rightarrow> OrderRecord \<Rightarrow> string \<Rightarrow> string \<Rightarrow> nat \<Rightarrow> billing_store \<Rightarrow> billing_error + staged \<times> nat" where
  "stage_payment e order paidAt createdAt k s =
    (case or_type order of
       PlanOrder \<Rightarrow> stage_pack_order e order paidAt createdAt k s
     | CloudSkillPlanOrder \<Rightarrow> stage_cloud_order e order paidAt createdAt k s
     | RechargeOrder \<Rightarrow> Inr (nothing_staged, k))"

text \<open>The preconditions of a payment in their order; the order, its user and the time of payment.\<close>

definition payment_preconditions ::
  "js_env \<Rightarrow> SettleOrderPaymentParams \<Rightarrow> billing_store \<Rightarrow> billing_error + OrderRecord \<times> UserRecord \<times> string" where
  "payment_preconditions e p s =
    (if sp_method p \<noteq> ''balance'' \<and> sp_method p \<noteq> ''mock'' \<and> sp_method p \<noteq> ''provider''
     then Inl (BillingSettlementError INVALID_PAYMENT_METHOD (Some 422))
     else if sp_method p = ''provider'' \<and> \<not> validProviderReference (sp_provider_reference p)
     then Inl (BillingSettlementError FULFILLMENT_INVALID (Some 422))
     else (case map_get (bs_orders s) (sp_order_id p) of
         None \<Rightarrow> Inl (BillingSettlementError ORDER_NOT_FOUND None)
       | Some order \<Rightarrow>
           if or_user_id order \<noteq> sp_user_id p then Inl (BillingSettlementError ORDER_NOT_FOUND None)
           else if or_status order \<noteq> OrderPending then Inl (BillingSettlementError ORDER_NOT_PENDING None)
           else if or_type order = RechargeOrder \<and> sp_method p = ''balance''
           then Inl (BillingSettlementError RECHARGE_BALANCE_FORBIDDEN (Some 422))
           else (case map_get (as_users (bs_account s)) (or_user_id order) of
               None \<Rightarrow> Inl (BillingSettlementError ORDER_NOT_FOUND None)
             | Some user \<Rightarrow>
                 let paidAt = case_option (now_iso e 0) id (sp_paid_at p)
                 in if date_parse e paidAt = None then Inl (BillingSettlementError FULFILLMENT_INVALID None)
                    else Inr (order, user, paidAt))))"

text \<open>The change of the wallet and the row that records it: recharges credit, purchases from the balance debit.\<close>

definition wallet_change :: "OrderRecord \<Rightarrow> string \<Rightarrow> int \<times> (WalletTransactionType \<times> string) option" where
  "wallet_change order meth =
    (if or_type order = RechargeOrder
     then (or_amount_fen order, Some (TxnRecharge,
       map char_of [230 :: nat, 168, 161, 230, 139, 159, 230, 148, 175, 228, 187, 152, 229, 133, 133, 229, 128, 188]))
     else if meth = ''balance''
     then (- or_amount_fen order, Some (TxnPurchase,
       if or_type order = CloudSkillPlanOrder
       then map char_of [228 :: nat, 189, 153, 233, 162, 157, 232, 180, 173, 228, 185, 176, 228, 186, 145, 231, 171, 175] @
              '' Skill '' @ map char_of [232 :: nat, 174, 162, 233, 152, 133]
       else map char_of [228 :: nat, 189, 153, 233, 162, 157, 232, 180, 173, 228, 185, 176, 229, 165, 151, 232, 163, 133,
              232, 174, 162, 233, 152, 133]))
     else (0, None))"

definition non_empty :: "'a list \<Rightarrow> 'a list option" where
  "non_empty xs = (if xs = [] then None else Some xs)"

definition payment_settlement ::
  "SettleOrderPaymentParams \<Rightarrow> OrderRecord \<Rightarrow> string \<Rightarrow> string \<Rightarrow> BillingSettlementRecord" where
  "payment_settlement p order settlementId createdAt =
    \<lparr>st_settlement_id = settlementId, st_order_id = or_order_id order, st_operation = PaymentOp,
     st_idempotency_key = sp_idempotency_key p, st_request_hash = sp_request_hash p, st_method = Some (sp_method p),
     st_provider_reference = truthy (sp_provider_reference p), st_amount_fen = or_amount_fen order,
     st_created_at = createdAt\<rparr>"

definition payment_outbox ::
  "js_env \<Rightarrow> SettleOrderPaymentParams \<Rightarrow> OrderRecord \<Rightarrow> string \<Rightarrow> string \<Rightarrow> nat \<Rightarrow> BillingOutboxRecord" where
  "payment_outbox e p order settlementId createdAt k =
    \<lparr>ob_outbox_id = ''bout-'' @ uuid e k, ob_event_type = PaymentSettled, ob_aggregate_id = or_order_id order,
     ob_settlement_id = settlementId,
     ob_payload = [(''order_id'', Str (or_order_id order)), (''user_id'', Str (or_user_id order)),
       (''order_type'', Str (order_type_text (or_type order))), (''method'', Str (sp_method p)),
       (''amount_fen'', Number (IntNum (or_amount_fen order)))],
     ob_attempts = 0, ob_available_at = createdAt, ob_locked_until = None, ob_lock_token = None,
     ob_published_at = None, ob_dead_lettered_at = None, ob_last_error = None, ob_created_at = createdAt\<rparr>"


definition settlement_txn ::
  "OrderRecord \<Rightarrow> string \<Rightarrow> string \<Rightarrow> string \<Rightarrow> int \<Rightarrow> int \<Rightarrow> WalletTransactionType \<Rightarrow> string \<Rightarrow> WalletTransactionRecord" where
  "settlement_txn order txnId settlementId createdAt delta balanceAfter type remark =
    \<lparr>wt_txn_id = txnId, wt_user_id = or_user_id order, wt_type = type, wt_amount_fen = delta,
     wt_balance_after_fen = balanceAfter, wt_order_id = Some (or_order_id order),
     wt_settlement_id = Some settlementId, wt_remark = Some remark, wt_created_at = createdAt\<rparr>"

text \<open>Everything that is computed before the first write.\<close>

record prepared =
  pp_user :: UserRecord
  pp_balanceDelta :: int
  pp_balanceAfter :: int
  pp_staged :: staged
  pp_result :: BillingSettlementResult

definition prepare_payment ::
  "js_env \<Rightarrow> SettleOrderPaymentParams \<Rightarrow> billing_store \<Rightarrow> billing_error + prepared" where
  "prepare_payment e p s =
    (case payment_preconditions e p s of
       Inl x \<Rightarrow> Inl x
     | Inr (order, user, paidAt) \<Rightarrow>
         let (balanceDelta, txn) = wallet_change order (sp_method p);
             balanceAfter = u_balance_fen user + balanceDelta
         in if balanceAfter < 0 then Inl (BillingSettlementError INSUFFICIENT_BALANCE None)
            else
              let settlementId = ''bst-'' @ uuid e 0;
                  createdAt = now_iso e (if sp_paid_at p = None then 1 else 0);
                  paidOrder = order\<lparr>or_status := OrderPaid, or_pay_method := Some (sp_method p), or_paid_at := Some paidAt\<rparr>;
                  walletTransaction = map_option (\<lambda>(type, remark).
                    settlement_txn order (''txn-'' @ uuid e 1) settlementId createdAt balanceDelta balanceAfter type remark) txn
              in (case stage_payment e paidOrder paidAt createdAt (if txn = None then 1 else 2) s of
                    Inl x \<Rightarrow> Inl x
                  | Inr (sg, k) \<Rightarrow>
                      Inr \<lparr>pp_user = user, pp_balanceDelta = balanceDelta, pp_balanceAfter = balanceAfter, pp_staged = sg,
                           pp_result = \<lparr>rs_replayed = False,
                             rs_settlement = payment_settlement p order settlementId createdAt, rs_order = paidOrder,
                             rs_wallet_transaction = walletTransaction, rs_subscription = sg_subscription sg,
                             rs_cloud_skill_entitlements = non_empty (sg_cloud sg),
                             rs_entitlements = non_empty (sg_packs sg),
                             rs_outbox = payment_outbox e p paidOrder settlementId createdAt k\<rparr>\<rparr>))"

text \<open>The writes payments and refunds share, in their order.\<close>

definition write_order :: "BillingSettlementResult \<Rightarrow> billing_store \<Rightarrow> billing_store" where
  "write_order r s =
    s\<lparr>bs_transactions := bs_transactions s @ (case rs_wallet_transaction r of None \<Rightarrow> [] | Some t \<Rightarrow> [t]),
      bs_orders := map_set (or_order_id (rs_order r)) (rs_order r) (bs_orders s)\<rparr>"

definition write_packs :: "EntitlementRecord list \<Rightarrow> billing_store \<Rightarrow> billing_store" where
  "write_packs packs s =
    s\<lparr>bs_device := (bs_device s)\<lparr>ds_entitlements :=
        fold (\<lambda>en. map_set (en_entitlement_id en) en) packs (ds_entitlements (bs_device s))\<rparr>\<rparr>"

definition write_cloud :: "CloudSkillEntitlementRecord list \<Rightarrow> billing_store \<Rightarrow> billing_store" where
  "write_cloud ents s =
    s\<lparr>bs_skill := (bs_skill s)\<lparr>ks_entitlements :=
        fold (\<lambda>en. map_set (ce_entitlement_id en) en) ents (ks_entitlements (bs_skill s))\<rparr>\<rparr>"

definition write_settlement :: "BillingSettlementResult \<Rightarrow> billing_store \<Rightarrow> billing_store" where
  "write_settlement r s =
    (let st = rs_settlement r
     in s\<lparr>bs_settlements := map_set (st_settlement_id st) st (bs_settlements s),
          bs_byOrderOperation := map_set (order_lookup (or_order_id (rs_order r)) (st_operation st)) (st_settlement_id st)
            (bs_byOrderOperation s),
          bs_byOperationKey := map_set (key_lookup (st_operation st) (st_idempotency_key st)) (st_settlement_id st)
            (bs_byOperationKey s),
          bs_outbox := map_set (ob_outbox_id (rs_outbox r)) (rs_outbox r) (bs_outbox s),
          bs_results := map_set (st_settlement_id st) (billingSettlementResultClone r (rs_replayed r)) (bs_results s)\<rparr>)"

definition write_paid_subscription :: "CloudSkillSubscriptionRecord option \<Rightarrow> billing_store \<Rightarrow> billing_store" where
  "write_paid_subscription sub s =
    (case sub of
       None \<Rightarrow> s
     | Some b \<Rightarrow>
         s\<lparr>bs_skill := (bs_skill s)\<lparr>
             ks_subscriptions := map_set (sb_subscription_id b) b (ks_subscriptions (bs_skill s)),
             ks_subscriptionsByOrder := map_set (sb_source_order_id b) (sb_subscription_id b)
               (ks_subscriptionsByOrder (bs_skill s))\<rparr>\<rparr>)"

definition commit_payment :: "prepared \<Rightarrow> billing_store \<Rightarrow> billing_store" where
  "commit_payment c s =
    (let s1 = (if pp_balanceDelta c \<noteq> 0
               then s\<lparr>bs_account := set_balance (pp_user c) (pp_balanceAfter c) (bs_account s)\<rparr> else s);
         s2 = write_order (pp_result c) s1;
         s3 = write_packs (sg_packs (pp_staged c)) s2;
         s4 = write_paid_subscription (sg_subscription (pp_staged c)) s3;
         s5 = write_cloud (sg_cloud (pp_staged c)) s4
     in write_settlement (pp_result c) s5)"

definition settleOrderPayment ::
  "js_env \<Rightarrow> SettleOrderPaymentParams \<Rightarrow> billing_store \<Rightarrow> billing_store \<times> (billing_error + BillingSettlementResult)" where
  "settleOrderPayment e p s =
    (case billingSettlementReplay PaymentOp (sp_order_id p) (sp_idempotency_key p) (sp_request_hash p)
            (Some (sp_method p)) (sp_provider_reference p) s of
       Inl x \<Rightarrow> (s, Inl x)
     | Inr (Some replay) \<Rightarrow> (s, Inr replay)
     | Inr None \<Rightarrow>
         (case prepare_payment e p s of
            Inl x \<Rightarrow> (s, Inl x)
          | Inr c \<Rightarrow> (commit_payment c s, Inr (billingSettlementResultClone (pp_result c) (rs_replayed (pp_result c))))))"

subsection \<open>Refund\<close>

definition stage_pack_refund :: "OrderRecord \<Rightarrow> billing_store \<Rightarrow> billing_error + staged" where
  "stage_pack_refund order s =
    (case truthy (or_pack_id order) of
       None \<Rightarrow> Inl (BillingSettlementError REFUND_REQUIRES_RECONCILIATION None)
     | Some packId \<Rightarrow>
         let userDeviceIds = map d_device_id
               (filter (\<lambda>device. d_user_id device = Some (or_user_id order)) (map_values (ds_devices (bs_device s))));
             orderOwned = filter (\<lambda>en. en_source_order_id en = Some (or_order_id order))
               (map_values (ds_entitlements (bs_device s)));
             ambiguousLegacy = list_ex (\<lambda>en. en_device_id en \<in> set userDeviceIds \<and> en_pack_id en = packId \<and>
                 en_status en = EntActive \<and> en_source_order_id en = None \<and> en_source_activation_code_id en = None)
               (map_values (ds_entitlements (bs_device s)))
         in if ambiguousLegacy then Inl (BillingSettlementError REFUND_REQUIRES_RECONCILIATION None)
            else Inr (nothing_staged\<lparr>sg_packs := map (\<lambda>en. en\<lparr>en_status := EntRevoked\<rparr>) orderOwned\<rparr>))"

definition stage_cloud_refund :: "OrderRecord \<Rightarrow> string \<Rightarrow> billing_store \<Rightarrow> billing_error + staged" where
  "stage_cloud_refund order refundedAt s =
    (case getCloudSkillSubscriptionByOrder (or_order_id order) (bs_skill s) of
       None \<Rightarrow> Inl (BillingSettlementError REFUND_REQUIRES_RECONCILIATION None)
     | Some sub \<Rightarrow>
         if sb_user_id sub \<noteq> or_user_id order \<or> Some (sb_plan_id sub) \<noteq> or_plan_id order
         then Inl (BillingSettlementError REFUND_REQUIRES_RECONCILIATION None)
         else Inr \<lparr>sg_packs = [],
                sg_subscription = Some (sub\<lparr>sb_status := SubRefunded, sb_refunded_at := Some refundedAt\<rparr>),
                sg_cloud = map (\<lambda>en. en\<lparr>ce_status := CsRevoked\<rparr>)
                  (filter (\<lambda>en. ce_subscription_id en = sb_subscription_id sub)
                    (map_values (ks_entitlements (bs_skill s))))\<rparr>)"

definition stage_refund :: "OrderRecord \<Rightarrow> string \<Rightarrow> billing_store \<Rightarrow> billing_error + staged" where
  "stage_refund order refundedAt s =
    (if or_type order = PlanOrder then stage_pack_refund order s else stage_cloud_refund order refundedAt s)"

definition refund_preconditions ::
  "js_env \<Rightarrow> SettleOrderRefundParams \<Rightarrow> billing_store \<Rightarrow> billing_error + OrderRecord \<times> UserRecord \<times> string" where
  "refund_preconditions e p s =
    (case map_get (bs_orders s) (sr_order_id p) of
       None \<Rightarrow> Inl (BillingSettlementError ORDER_NOT_FOUND None)
     | Some order \<Rightarrow>
         if or_type order = RechargeOrder then Inl (BillingSettlementError RECHARGE_REFUND_FORBIDDEN None)
         else if or_status order \<noteq> OrderPaid then Inl (BillingSettlementError ORDER_NOT_PAID None)
         else (case map_get (as_users (bs_account s)) (or_user_id order) of
             None \<Rightarrow> Inl (BillingSettlementError ORDER_NOT_FOUND None)
           | Some user \<Rightarrow>
               let refundedAt = case_option (now_iso e 0) id (sr_refunded_at p)
               in if date_parse e refundedAt = None then Inl (BillingSettlementError FULFILLMENT_INVALID None)
                  else if sr_provider_reference p \<noteq> None \<and> \<not> validProviderReference (sr_provider_reference p)
                  then Inl (BillingSettlementError FULFILLMENT_INVALID (Some 422))
                  else Inr (order, user, refundedAt)))"

definition refund_settlement ::
  "SettleOrderRefundParams \<Rightarrow> OrderRecord \<Rightarrow> string \<Rightarrow> string \<Rightarrow> BillingSettlementRecord" where
  "refund_settlement p order settlementId createdAt =
    \<lparr>st_settlement_id = settlementId, st_order_id = or_order_id order, st_operation = RefundOp,
     st_idempotency_key = sr_idempotency_key p, st_request_hash = sr_request_hash p,
     st_method = map_option (\<lambda>_. ''provider'') (truthy (sr_provider_reference p)),
     st_provider_reference = truthy (sr_provider_reference p), st_amount_fen = or_amount_fen order,
     st_created_at = createdAt\<rparr>"

definition refund_outbox ::
  "js_env \<Rightarrow> SettleOrderRefundParams \<Rightarrow> OrderRecord \<Rightarrow> string \<Rightarrow> string \<Rightarrow> nat \<Rightarrow> BillingOutboxRecord" where
  "refund_outbox e p order settlementId createdAt k =
    \<lparr>ob_outbox_id = ''bout-'' @ uuid e k, ob_event_type = RefundSettled, ob_aggregate_id = or_order_id order,
     ob_settlement_id = settlementId,
     ob_payload = [(''order_id'', Str (or_order_id order)), (''user_id'', Str (or_user_id order)),
       (''order_type'', Str (order_type_text (or_type order))), (''amount_fen'', Number (IntNum (or_amount_fen order))),
       (''actor'', Str (sr_actor p))],
     ob_attempts = 0, ob_available_at = createdAt, ob_locked_until = None, ob_lock_token = None,
     ob_published_at = None, ob_dead_lettered_at = None, ob_last_error = None, ob_created_at = createdAt\<rparr>"

definition prepare_refund ::
  "js_env \<Rightarrow> SettleOrderRefundParams \<Rightarrow> billing_store \<Rightarrow> billing_error + prepared" where
  "prepare_refund e p s =
    (case refund_preconditions e p s of
       Inl x \<Rightarrow> Inl x
     | Inr (order, user, refundedAt) \<Rightarrow>
         (case stage_refund order refundedAt s of
            Inl x \<Rightarrow> Inl x
          | Inr sg \<Rightarrow>
              let settlementId = ''bst-'' @ uuid e 0;
                  createdAt = now_iso e (if sr_refunded_at p = None then 1 else 0);
                  balanceAfter = u_balance_fen user + or_amount_fen order
              in Inr \<lparr>pp_user = user, pp_balanceDelta = or_amount_fen order, pp_balanceAfter = balanceAfter, pp_staged = sg,
                      pp_result = \<lparr>rs_replayed = False,
                        rs_settlement = refund_settlement p order settlementId createdAt,
                        rs_order = order\<lparr>or_status := OrderRefunded, or_refunded_at := Some refundedAt\<rparr>,
                        rs_wallet_transaction = Some (settlement_txn order (''txn-'' @ uuid e 1) settlementId createdAt
                          (or_amount_fen order) balanceAfter TxnRefund
                          (map char_of [231 :: nat, 174, 161, 231, 144, 134, 231, 171, 175, 233, 128, 128, 230, 172, 190,
                             229, 133, 165, 228, 189, 153, 233, 162, 157])),
                        rs_subscription = sg_subscription sg,
                        rs_cloud_skill_entitlements = non_empty (sg_cloud sg),
                        rs_entitlements = non_empty (sg_packs sg),
                        rs_outbox = refund_outbox e p order settlementId createdAt 2\<rparr>\<rparr>))"

definition write_refunded_subscription :: "CloudSkillSubscriptionRecord option \<Rightarrow> billing_store \<Rightarrow> billing_store" where
  "write_refunded_subscription sub s =
    (case sub of
       None \<Rightarrow> s
     | Some b \<Rightarrow>
         s\<lparr>bs_skill := (bs_skill s)\<lparr>
             ks_subscriptions := map_set (sb_subscription_id b) b (ks_subscriptions (bs_skill s))\<rparr>\<rparr>)"

definition refund_audit ::
  "js_env \<Rightarrow> (string \<Rightarrow> string) \<Rightarrow> SettleOrderRefundParams \<Rightarrow> BillingSettlementResult \<Rightarrow> AuditLogRecord" where
  "refund_audit e rx p r =
    \<lparr>au_audit_id = ''aud-'' @ uuid e 3, au_actor = sr_actor p, au_action = ''order.refund'',
     au_detail = redactLogValue rx (Obj [(''order_id'', Str (or_order_id (rs_order r))),
       (''amount_fen'', Number (IntNum (or_amount_fen (rs_order r))))]),
     au_created_at = st_created_at (rs_settlement r)\<rparr>"

definition commit_refund ::
  "js_env \<Rightarrow> (string \<Rightarrow> string) \<Rightarrow> SettleOrderRefundParams \<Rightarrow> prepared \<Rightarrow> billing_store \<Rightarrow> billing_store" where
  "commit_refund e rx p c s =
    (let s1 = s\<lparr>bs_account := set_balance (pp_user c) (pp_balanceAfter c) (bs_account s)\<rparr>;
         s2 = write_order (pp_result c) s1;
         s3 = write_packs (sg_packs (pp_staged c)) s2;
         s4 = write_refunded_subscription (sg_subscription (pp_staged c)) s3;
         s5 = write_cloud (sg_cloud (pp_staged c)) s4;
         s6 = s5\<lparr>bs_account := (bs_account s5)\<lparr>as_audits :=
                as_audits (bs_account s5) @ [refund_audit e rx p (pp_result c)]\<rparr>\<rparr>
     in write_settlement (pp_result c) s6)"

definition settleOrderRefund ::
  "js_env \<Rightarrow> (string \<Rightarrow> string) \<Rightarrow> SettleOrderRefundParams \<Rightarrow> billing_store \<Rightarrow>
   billing_store \<times> (billing_error + BillingSettlementResult)" where
  "settleOrderRefund e rx p s =
    (case billingSettlementReplay RefundOp (sr_order_id p) (sr_idempotency_key p) (sr_request_hash p)
            None (sr_provider_reference p) s of
       Inl x \<Rightarrow> (s, Inl x)
     | Inr (Some replay) \<Rightarrow> (s, Inr replay)
     | Inr None \<Rightarrow>
         (case prepare_refund e p s of
            Inl x \<Rightarrow> (s, Inl x)
          | Inr c \<Rightarrow> (commit_refund e rx p c s,
              Inr (billingSettlementResultClone (pp_result c) (rs_replayed (pp_result c))))))"


subsection \<open>What the commits write\<close>

lemma write_packs_sel [simp]:
  "bs_account (write_packs ps s) = bs_account s" "bs_skill (write_packs ps s) = bs_skill s"
  "bs_orders (write_packs ps s) = bs_orders s" "bs_transactions (write_packs ps s) = bs_transactions s"
  "bs_settlements (write_packs ps s) = bs_settlements s" "bs_byOrderOperation (write_packs ps s) = bs_byOrderOperation s"
  "bs_byOperationKey (write_packs ps s) = bs_byOperationKey s" "bs_results (write_packs ps s) = bs_results s"
  "bs_outbox (write_packs ps s) = bs_outbox s"
  by (simp_all add: write_packs_def)

lemma write_cloud_sel [simp]:
  "bs_account (write_cloud ps s) = bs_account s" "bs_device (write_cloud ps s) = bs_device s"
  "bs_orders (write_cloud ps s) = bs_orders s" "bs_transactions (write_cloud ps s) = bs_transactions s"
  "bs_settlements (write_cloud ps s) = bs_settlements s" "bs_byOrderOperation (write_cloud ps s) = bs_byOrderOperation s"
  "bs_byOperationKey (write_cloud ps s) = bs_byOperationKey s" "bs_results (write_cloud ps s) = bs_results s"
  "bs_outbox (write_cloud ps s) = bs_outbox s"
  by (simp_all add: write_cloud_def)

lemma write_paid_subscription_sel [simp]:
  "bs_account (write_paid_subscription b s) = bs_account s" "bs_device (write_paid_subscription b s) = bs_device s"
  "bs_orders (write_paid_subscription b s) = bs_orders s"
  "bs_transactions (write_paid_subscription b s) = bs_transactions s"
  "bs_settlements (write_paid_subscription b s) = bs_settlements s"
  "bs_byOrderOperation (write_paid_subscription b s) = bs_byOrderOperation s"
  "bs_byOperationKey (write_paid_subscription b s) = bs_byOperationKey s"
  "bs_results (write_paid_subscription b s) = bs_results s" "bs_outbox (write_paid_subscription b s) = bs_outbox s"
  by (simp_all add: write_paid_subscription_def split: option.split)

lemma write_refunded_subscription_sel [simp]:
  "bs_account (write_refunded_subscription b s) = bs_account s" "bs_device (write_refunded_subscription b s) = bs_device s"
  "bs_orders (write_refunded_subscription b s) = bs_orders s"
  "bs_transactions (write_refunded_subscription b s) = bs_transactions s"
  "bs_settlements (write_refunded_subscription b s) = bs_settlements s"
  "bs_byOrderOperation (write_refunded_subscription b s) = bs_byOrderOperation s"
  "bs_byOperationKey (write_refunded_subscription b s) = bs_byOperationKey s"
  "bs_results (write_refunded_subscription b s) = bs_results s" "bs_outbox (write_refunded_subscription b s) = bs_outbox s"
  by (simp_all add: write_refunded_subscription_def split: option.split)

lemma write_order_sel [simp]:
  "bs_account (write_order r s) = bs_account s" "bs_device (write_order r s) = bs_device s"
  "bs_skill (write_order r s) = bs_skill s"
  "bs_orders (write_order r s) = map_set (or_order_id (rs_order r)) (rs_order r) (bs_orders s)"
  "bs_transactions (write_order r s) =
     bs_transactions s @ (case rs_wallet_transaction r of None \<Rightarrow> [] | Some t \<Rightarrow> [t])"
  "bs_settlements (write_order r s) = bs_settlements s" "bs_byOrderOperation (write_order r s) = bs_byOrderOperation s"
  "bs_byOperationKey (write_order r s) = bs_byOperationKey s" "bs_results (write_order r s) = bs_results s"
  "bs_outbox (write_order r s) = bs_outbox s"
  by (simp_all add: write_order_def)

lemma write_settlement_sel [simp]:
  "bs_account (write_settlement r s) = bs_account s" "bs_device (write_settlement r s) = bs_device s"
  "bs_skill (write_settlement r s) = bs_skill s" "bs_orders (write_settlement r s) = bs_orders s"
  "bs_transactions (write_settlement r s) = bs_transactions s"
  by (simp_all add: write_settlement_def Let_def)

lemma clone_same [simp]: "billingSettlementResultClone r (rs_replayed r) = r"
  by (simp add: billingSettlementResultClone_def)

text \<open>The part of the state the replay of a settlement reads.\<close>

definition settlement_part where
  "settlement_part s = (bs_settlements s, bs_byOrderOperation s, bs_byOperationKey s, bs_results s)"

lemma settlement_part_write [simp]:
  "settlement_part (write_packs ps s) = settlement_part s" "settlement_part (write_cloud cs s) = settlement_part s"
  "settlement_part (write_paid_subscription b s) = settlement_part s"
  "settlement_part (write_refunded_subscription b s) = settlement_part s"
  "settlement_part (write_order r s) = settlement_part s"
  "settlement_part (s\<lparr>bs_account := a\<rparr>) = settlement_part s"
  by (simp_all add: settlement_part_def)

lemma replay_cong: "settlement_part s = settlement_part t \<Longrightarrow> billingSettlementReplay op i k h m f s = billingSettlementReplay op i k h m f t"
  by (simp add: settlement_part_def billingSettlementReplay_def Let_def split: option.split)

lemma write_settlement_cong: "settlement_part s = settlement_part t \<Longrightarrow>
    settlement_part (write_settlement r s) = settlement_part (write_settlement r t)"
  by (simp add: settlement_part_def write_settlement_def Let_def)

lemma commit_settlement_part:
  "settlement_part (commit_payment c s) = settlement_part (write_settlement (pp_result c) s)"
  "settlement_part (commit_refund e rx p c s) = settlement_part (write_settlement (pp_result c) s)"
  by (auto simp: commit_payment_def commit_refund_def Let_def intro!: write_settlement_cong)

lemma commit_wallet:
  "bs_account (commit_payment c s) = (if pp_balanceDelta c \<noteq> 0
     then set_balance (pp_user c) (pp_balanceAfter c) (bs_account s) else bs_account s)"
  "as_users (bs_account (commit_refund e rx p c s)) = as_users (set_balance (pp_user c) (pp_balanceAfter c) (bs_account s))"
  "bs_transactions (commit_payment c s) =
     bs_transactions s @ (case rs_wallet_transaction (pp_result c) of None \<Rightarrow> [] | Some t \<Rightarrow> [t])"
  "bs_transactions (commit_refund e rx p c s) =
     bs_transactions s @ (case rs_wallet_transaction (pp_result c) of None \<Rightarrow> [] | Some t \<Rightarrow> [t])"
  "bs_orders (commit_payment c s) = map_set (or_order_id (rs_order (pp_result c))) (rs_order (pp_result c)) (bs_orders s)"
  "bs_orders (commit_refund e rx p c s) = map_set (or_order_id (rs_order (pp_result c))) (rs_order (pp_result c)) (bs_orders s)"
  by (simp_all add: commit_payment_def commit_refund_def Let_def)

subsection \<open>What the preparations compute\<close>

lemma payment_preconditions_done:
  assumes "payment_preconditions e p s = Inr (order, user, paidAt)"
  shows "map_get (bs_orders s) (sp_order_id p) = Some order" "or_user_id order = sp_user_id p"
    "or_status order = OrderPending" "map_get (as_users (bs_account s)) (or_user_id order) = Some user"
    "sp_method p \<in> {''balance'', ''mock'', ''provider''}" "or_type order = RechargeOrder \<Longrightarrow> sp_method p \<noteq> ''balance''"
    "date_parse e paidAt \<noteq> None"
  using assms by (auto simp: payment_preconditions_def Let_def split: if_splits option.splits)

lemma refund_preconditions_done:
  assumes "refund_preconditions e p s = Inr (order, user, refundedAt)"
  shows "map_get (bs_orders s) (sr_order_id p) = Some order" "or_type order \<noteq> RechargeOrder"
    "or_status order = OrderPaid" "map_get (as_users (bs_account s)) (or_user_id order) = Some user"
    "validProviderReference (sr_provider_reference p) \<or> sr_provider_reference p = None"
  using assms by (auto simp: refund_preconditions_def Let_def split: if_splits option.splits)


lemma prepare_payment_done:
  assumes "prepare_payment e p s = Inr c"
  obtains order user paidAt sg k createdAt where "payment_preconditions e p s = Inr (order, user, paidAt)"
    "stage_payment e (order\<lparr>or_status := OrderPaid, or_pay_method := Some (sp_method p), or_paid_at := Some paidAt\<rparr>) paidAt
       createdAt (if snd (wallet_change order (sp_method p)) = None then 1 else 2) s = Inr (sg, k)"
    "pp_user c = user" "pp_balanceDelta c = fst (wallet_change order (sp_method p))"
    "pp_balanceAfter c = u_balance_fen user + fst (wallet_change order (sp_method p))" "0 \<le> pp_balanceAfter c"
    "pp_staged c = sg" "rs_replayed (pp_result c) = False"
    "rs_order (pp_result c) = order\<lparr>or_status := OrderPaid, or_pay_method := Some (sp_method p), or_paid_at := Some paidAt\<rparr>"
    "rs_settlement (pp_result c) = payment_settlement p order (''bst-'' @ uuid e 0) createdAt"
    "rs_wallet_transaction (pp_result c) = map_option (\<lambda>(type, remark). settlement_txn order (''txn-'' @ uuid e 1)
       (''bst-'' @ uuid e 0) createdAt (pp_balanceDelta c) (pp_balanceAfter c) type remark) (snd (wallet_change order (sp_method p)))"
    "rs_subscription (pp_result c) = sg_subscription sg"
    "rs_outbox (pp_result c) = payment_outbox e p (rs_order (pp_result c)) (''bst-'' @ uuid e 0) createdAt k"
    "createdAt = now_iso e (if sp_paid_at p = None then 1 else 0)"
  using assms
  by (auto simp: prepare_payment_def Let_def split: sum.splits prod.splits if_splits)

lemma prepare_refund_done:
  assumes "prepare_refund e p s = Inr c"
  obtains order user refundedAt sg createdAt where "refund_preconditions e p s = Inr (order, user, refundedAt)"
    "stage_refund order refundedAt s = Inr sg" "pp_user c = user" "pp_balanceDelta c = or_amount_fen order"
    "pp_balanceAfter c = u_balance_fen user + or_amount_fen order" "pp_staged c = sg" "rs_replayed (pp_result c) = False"
    "rs_order (pp_result c) = order\<lparr>or_status := OrderRefunded, or_refunded_at := Some refundedAt\<rparr>"
    "rs_settlement (pp_result c) = refund_settlement p order (''bst-'' @ uuid e 0) createdAt"
    "\<exists>i r. rs_wallet_transaction (pp_result c) = Some (settlement_txn order i (''bst-'' @ uuid e 0) createdAt
       (pp_balanceDelta c) (pp_balanceAfter c) TxnRefund r)"
    "rs_outbox (pp_result c) = refund_outbox e p order (''bst-'' @ uuid e 0) createdAt 2"
  using assms by (auto simp: prepare_refund_def Let_def split: sum.splits prod.splits) blast


lemma settleOrderPayment_cases [consumes 1, case_names replay settled]:
  assumes "settleOrderPayment e p s = (s', Inr r)"
  obtains (replay) r' where "billingSettlementReplay PaymentOp (sp_order_id p) (sp_idempotency_key p) (sp_request_hash p)
       (Some (sp_method p)) (sp_provider_reference p) s = Inr (Some r')" "s' = s" "r = r'"
  | (settled) c where "billingSettlementReplay PaymentOp (sp_order_id p) (sp_idempotency_key p) (sp_request_hash p)
       (Some (sp_method p)) (sp_provider_reference p) s = Inr None" "prepare_payment e p s = Inr c"
      "s' = commit_payment c s" "r = pp_result c"
  using assms by (auto simp: settleOrderPayment_def split: sum.splits option.splits)

lemma settleOrderRefund_cases [consumes 1, case_names replay settled]:
  assumes "settleOrderRefund e rx p s = (s', Inr r)"
  obtains (replay) r' where "billingSettlementReplay RefundOp (sr_order_id p) (sr_idempotency_key p) (sr_request_hash p)
       None (sr_provider_reference p) s = Inr (Some r')" "s' = s" "r = r'"
  | (settled) c where "billingSettlementReplay RefundOp (sr_order_id p) (sr_idempotency_key p) (sr_request_hash p)
       None (sr_provider_reference p) s = Inr None" "prepare_refund e p s = Inr c"
      "s' = commit_refund e rx p c s" "r = pp_result c"
  using assms by (auto simp: settleOrderRefund_def split: sum.splits option.splits)

text \<open>A call that throws writes nothing; every precondition is read before the first write.\<close>

lemma settle_error_unchanged:
  "settleOrderPayment e p s = (s', Inl x) \<Longrightarrow> s' = s"
  "settleOrderRefund e rx q s = (s', Inl x) \<Longrightarrow> s' = s"
  "addWalletTransaction e w s = (s', Inl x) \<Longrightarrow> s' = s"
  by (auto simp: settleOrderPayment_def settleOrderRefund_def addWalletTransaction_def Let_def
      split: sum.splits option.splits if_splits)

lemma settle_fst_cases:
  "fst (settleOrderPayment e p s) = s \<or> (\<exists>c. prepare_payment e p s = Inr c \<and>
     billingSettlementReplay PaymentOp (sp_order_id p) (sp_idempotency_key p) (sp_request_hash p)
       (Some (sp_method p)) (sp_provider_reference p) s = Inr None \<and> fst (settleOrderPayment e p s) = commit_payment c s)"
  "fst (settleOrderRefund e rx q s) = s \<or> (\<exists>c. prepare_refund e q s = Inr c \<and>
     billingSettlementReplay RefundOp (sr_order_id q) (sr_idempotency_key q) (sr_request_hash q)
       None (sr_provider_reference q) s = Inr None \<and> fst (settleOrderRefund e rx q s) = commit_refund e rx q c s)"
  by (auto simp: settleOrderPayment_def settleOrderRefund_def split: sum.splits option.splits)

subsection \<open>The ledger\<close>

definition ledger_sum :: "string \<Rightarrow> WalletTransactionRecord list \<Rightarrow> int" where
  "ledger_sum i ts = sum_list (map wt_amount_fen (filter (\<lambda>t. wt_user_id t = i) ts))"

text \<open>Every row holds the balance of its user right after it.\<close>

definition running :: "WalletTransactionRecord list \<Rightarrow> bool" where
  "running ts \<longleftrightarrow> (\<forall>k < length ts. wt_balance_after_fen (ts ! k) = ledger_sum (wt_user_id (ts ! k)) (take (Suc k) ts))"

lemma running_Nil [simp]: "running []"
  by (simp add: running_def)

lemma running_snoc [simp]:
  "running (ts @ [t]) \<longleftrightarrow> running ts \<and> wt_balance_after_fen t = ledger_sum (wt_user_id t) (ts @ [t])"
  unfolding running_def by (auto simp: nth_append less_Suc_eq all_conj_distrib)

lemma ledger_sum_snoc [simp]:
  "ledger_sum i (ts @ [t]) = ledger_sum i ts + (if wt_user_id t = i then wt_amount_fen t else 0)"
  "ledger_sum i [] = 0"
  by (simp_all add: ledger_sum_def)

definition ledger_ok :: "(string, UserRecord) js_map \<Rightarrow> WalletTransactionRecord list \<Rightarrow> bool" where
  "ledger_ok users ts \<longleftrightarrow> running ts \<and> (\<forall>t \<in> set ts. map_get users (wt_user_id t) \<noteq> None) \<and>
    (\<forall>i u. map_get users i = Some u \<longrightarrow> u_balance_fen u = ledger_sum i ts \<and> 0 \<le> ledger_sum i ts)"

lemma ledger_ok_append:
  assumes "ledger_ok users ts" and "map_get users i = Some u" and "wt_user_id t = i"
    and "wt_balance_after_fen t = u_balance_fen u + wt_amount_fen t" and "0 \<le> wt_balance_after_fen t"
  shows "ledger_ok (map_set i (u\<lparr>u_balance_fen := wt_balance_after_fen t\<rparr>) users) (ts @ [t])"
  using assms by (auto simp: ledger_ok_def)

lemma ledger_ok_append_zero:
  assumes "ledger_ok users ts" and "map_get users (wt_user_id t) = Some u" and "wt_amount_fen t = 0"
    and "wt_balance_after_fen t = u_balance_fen u"
  shows "ledger_ok users (ts @ [t])"
  using assms by (auto simp: ledger_ok_def)

text \<open>No user has rows before the account exists.\<close>

lemma ledger_ok_absent: "ledger_ok users ts \<Longrightarrow> map_get users i = None \<Longrightarrow> ledger_sum i ts = 0"
  by (auto simp: ledger_ok_def ledger_sum_def filter_empty_conv sum_list_eq_0_iff)
    (metis (mono_tags, lifting) filter_False list.map(1) option.distinct(1) sum_list.Nil)


subsection \<open>The invariant and executions\<close>

definition orders_ok :: "(string, OrderRecord) js_map \<Rightarrow> bool" where
  "orders_ok os \<longleftrightarrow> (\<forall>i order. map_get os i = Some order \<longrightarrow> or_order_id order = i \<and> 0 \<le> or_amount_fen order)"

text \<open>Every settlement is found under its order and under its key, and its result is stored with it.\<close>

definition settlements_ok :: "billing_store \<Rightarrow> bool" where
  "settlements_ok s \<longleftrightarrow> (\<forall>i st. map_get (bs_settlements s) i = Some st \<longrightarrow>
     map_get (bs_byOrderOperation s) (order_lookup (st_order_id st) (st_operation st)) = Some i \<and>
     map_get (bs_byOperationKey s) (key_lookup (st_operation st) (st_idempotency_key st)) = Some i \<and>
     (\<exists>r. map_get (bs_results s) i = Some r \<and> rs_settlement r = st))"

definition billing_wf :: "billing_store \<Rightarrow> bool" where
  "billing_wf s \<longleftrightarrow> account_wf (bs_account s) \<and> ledger_ok (as_users (bs_account s)) (bs_transactions s) \<and>
     orders_ok (bs_orders s) \<and> settlements_ok s"

text \<open>
  One operation of a caller. \<^verbatim>\<open>randomUUID\<close> never repeats the id of a settlement, an order has the
  amount the routes computed from a price or checked to be positive. The device and Cloud Skill
  stores and the outbox may change in any way between two calls.
\<close>

inductive billing_step :: "billing_store \<Rightarrow> billing_store \<Rightarrow> bool" where
  product: "billing_step s (fst (createProduct e cq s))"
| product_patch: "billing_step s (fst (updateProduct i qp s))"
| order: "0 \<le> co_amount_fen co \<Longrightarrow> billing_step s (fst (createOrder e co s))"
| order_patch: "billing_step s (fst (updateOrder i op s))"
| wallet: "billing_step s (fst (addWalletTransaction e wp s))"
| payment: "map_get (bs_settlements s) (''bst-'' @ uuid e 0) = None \<Longrightarrow> billing_step s (fst (settleOrderPayment e p s))"
| refund: "map_get (bs_settlements s) (''bst-'' @ uuid e 0) = None \<Longrightarrow> billing_step s (fst (settleOrderRefund e rx q s))"
| account: "account_step (bs_account s) a \<Longrightarrow> billing_step s (s\<lparr>bs_account := a\<rparr>)"
| others: "billing_step s (s\<lparr>bs_device := d, bs_skill := ks, bs_outbox := obs\<rparr>)"

lemma billing_wf_empty: "billing_wf empty_billing_store"
  using account_wf_empty
  by (simp add: billing_wf_def empty_billing_store_def ledger_ok_def orders_ok_def settlements_ok_def
      empty_account_store_def)

lemma account_wf_set_balance:
  "account_wf a \<Longrightarrow> map_get (as_users a) i = Some u \<Longrightarrow> account_wf (a\<lparr>as_users := map_set i (u\<lparr>u_balance_fen := b\<rparr>) (as_users a)\<rparr>)"
  unfolding account_wf_def by (auto simp: map_field_set [where f = u_email] simp del: map_map)

lemma account_wf_audits: "account_wf (a\<lparr>as_audits := xs\<rparr>) = account_wf a"
  by (simp add: account_wf_def)

lemma account_user_id: "account_wf a \<Longrightarrow> map_get (as_users a) i = Some u \<Longrightarrow> u_user_id u = i"
  by (simp add: account_wf_def)

lemma settlements_ok_cong: "settlement_part s = settlement_part t \<Longrightarrow> settlements_ok s = settlements_ok t"
  by (simp add: settlement_part_def settlements_ok_def)

lemma replay_None:
  "billingSettlementReplay op i k h m f s = Inr None \<Longrightarrow>
     map_get (bs_byOrderOperation s) (order_lookup i op) = None \<and> map_get (bs_byOperationKey s) (key_lookup op k) = None"
  by (auto simp: billingSettlementReplay_def Let_def split: if_splits option.splits)

lemma write_settlement_ok:
  assumes "settlements_ok s" and "or_order_id (rs_order r) = st_order_id (rs_settlement r)"
    and "map_get (bs_byOrderOperation s) (order_lookup (st_order_id (rs_settlement r)) (st_operation (rs_settlement r))) = None"
    and "map_get (bs_byOperationKey s) (key_lookup (st_operation (rs_settlement r)) (st_idempotency_key (rs_settlement r))) = None"
  shows "settlements_ok (write_settlement r s)"
  using assms unfolding settlements_ok_def write_settlement_def Let_def by (auto; metis option.distinct(1))

text \<open>The settlement a payment or a refund writes is the one its request asks for.\<close>

lemma prepared_settlement:
  assumes "orders_ok (bs_orders s)"
  shows "prepare_payment e p s = Inr c \<Longrightarrow> st_order_id (rs_settlement (pp_result c)) = sp_order_id p \<and>
      or_order_id (rs_order (pp_result c)) = sp_order_id p \<and> st_operation (rs_settlement (pp_result c)) = PaymentOp \<and>
      st_idempotency_key (rs_settlement (pp_result c)) = sp_idempotency_key p \<and>
      st_settlement_id (rs_settlement (pp_result c)) = ''bst-'' @ uuid e 0 \<and> \<not> rs_replayed (pp_result c)"
    and "prepare_refund e q s = Inr c \<Longrightarrow> st_order_id (rs_settlement (pp_result c)) = sr_order_id q \<and>
      or_order_id (rs_order (pp_result c)) = sr_order_id q \<and> st_operation (rs_settlement (pp_result c)) = RefundOp \<and>
      st_idempotency_key (rs_settlement (pp_result c)) = sr_idempotency_key q \<and>
      st_settlement_id (rs_settlement (pp_result c)) = ''bst-'' @ uuid e 0 \<and> \<not> rs_replayed (pp_result c)"
  using assms unfolding orders_ok_def
  by (auto elim!: prepare_payment_done prepare_refund_done
      dest!: payment_preconditions_done(1) refund_preconditions_done(1) simp: payment_settlement_def refund_settlement_def)


lemma wallet_change_txn:
  "snd (wallet_change order m) = None \<Longrightarrow> fst (wallet_change order m) = 0"
  by (simp add: wallet_change_def split: if_splits)

text \<open>A payment and a refund move the wallet and write the row of the movement together.\<close>

lemma commit_payment_ledger:
  assumes wf: "billing_wf s" and c: "prepare_payment e p s = Inr c"
  shows "ledger_ok (as_users (bs_account (commit_payment c s))) (bs_transactions (commit_payment c s)) \<and>
    account_wf (bs_account (commit_payment c s))"
  using c
proof (cases rule: prepare_payment_done)
  case (1 order user paidAt sg k createdAt)
  have acc: "account_wf (bs_account s)" and led: "ledger_ok (as_users (bs_account s)) (bs_transactions s)"
    using wf by (simp_all add: billing_wf_def)
  have user: "map_get (as_users (bs_account s)) (or_user_id order) = Some (pp_user c)"
    using payment_preconditions_done(4) [OF 1(1)] 1(3) by simp
  have id: "u_user_id (pp_user c) = or_user_id order" by (rule account_user_id [OF acc user])
  show ?thesis
  proof (cases "snd (wallet_change order (sp_method p))")
    case None
    then show ?thesis using acc led 1(4,11) wallet_change_txn [OF None] by (simp add: commit_wallet)
  next
    case (Some row)
    obtain type remark where row: "row = (type, remark)" by (cases row)
    define t where "t = settlement_txn order (''txn-'' @ uuid e 1) (''bst-'' @ uuid e 0) createdAt (pp_balanceDelta c)
      (pp_balanceAfter c) type remark"
    have t: "rs_wallet_transaction (pp_result c) = Some t" "wt_user_id t = or_user_id order"
      "wt_amount_fen t = pp_balanceDelta c" "wt_balance_after_fen t = pp_balanceAfter c"
      using 1(11) Some row by (simp_all add: t_def settlement_txn_def)
    have after: "pp_balanceAfter c = u_balance_fen (pp_user c) + pp_balanceDelta c" using 1(3-5) by simp
    show ?thesis
    proof (cases "pp_balanceDelta c = 0")
      case True
      then show ?thesis
        using acc ledger_ok_append_zero [OF led, of t "pp_user c"] user t after by (simp add: commit_wallet)
    next
      case False
      then show ?thesis
        using ledger_ok_append [OF led user, of t] t after 1(6) account_wf_set_balance [OF acc user]
        by (simp add: commit_wallet set_balance_def id)
    qed
  qed
qed

lemma commit_refund_ledger:
  assumes wf: "billing_wf s" and c: "prepare_refund e p s = Inr c"
  shows "ledger_ok (as_users (bs_account (commit_refund e rx p c s))) (bs_transactions (commit_refund e rx p c s)) \<and>
    account_wf (bs_account (commit_refund e rx p c s))"
  using c
proof (cases rule: prepare_refund_done)
  case (1 order user refundedAt sg createdAt)
  have acc: "account_wf (bs_account s)" and led: "ledger_ok (as_users (bs_account s)) (bs_transactions s)"
    and ord: "orders_ok (bs_orders s)" using wf by (simp_all add: billing_wf_def)
  have user: "map_get (as_users (bs_account s)) (or_user_id order) = Some (pp_user c)"
    using refund_preconditions_done(4) [OF 1(1)] 1(3) by simp
  have id: "u_user_id (pp_user c) = or_user_id order" by (rule account_user_id [OF acc user])
  obtain t where t: "rs_wallet_transaction (pp_result c) = Some t" "wt_user_id t = or_user_id order"
    "wt_amount_fen t = or_amount_fen order" "wt_balance_after_fen t = pp_balanceAfter c"
    using 1(4,10) by (auto simp: settlement_txn_def)
  have "0 \<le> or_amount_fen order" "0 \<le> u_balance_fen (pp_user c)"
    using ord refund_preconditions_done(1) [OF 1(1)] led user by (auto simp: orders_ok_def ledger_ok_def)
  then have "ledger_ok (map_set (or_user_id order) ((pp_user c)\<lparr>u_balance_fen := pp_balanceAfter c\<rparr>) (as_users (bs_account s)))
      (bs_transactions s @ [t])"
    using ledger_ok_append [OF led user t(2)] t 1(3,5) by simp
  moreover have "account_wf (bs_account (commit_refund e rx p c s))"
    using account_wf_set_balance [OF acc user, of "pp_balanceAfter c"]
    by (simp add: commit_refund_def Let_def account_wf_audits set_balance_def id)
  ultimately show ?thesis using t(1) by (simp add: commit_wallet set_balance_def id)
qed

lemma orders_ok_set:
  "orders_ok os \<Longrightarrow> 0 \<le> or_amount_fen order \<Longrightarrow> orders_ok (map_set (or_order_id order) order os)"
  by (auto simp: orders_ok_def)

lemma prepared_order_amount:
  assumes "orders_ok (bs_orders s)"
  shows "prepare_payment e p s = Inr c \<Longrightarrow> 0 \<le> or_amount_fen (rs_order (pp_result c))"
    and "prepare_refund e q s = Inr c \<Longrightarrow> 0 \<le> or_amount_fen (rs_order (pp_result c))"
  using assms unfolding orders_ok_def
  by (auto elim!: prepare_payment_done prepare_refund_done dest!: payment_preconditions_done(1) refund_preconditions_done(1))

lemma settlements_ok_commit:
  assumes "settlements_ok s" and "orders_ok (bs_orders s)"
  shows "prepare_payment e p s = Inr c \<Longrightarrow> billingSettlementReplay PaymentOp (sp_order_id p) (sp_idempotency_key p) h m f s = Inr None \<Longrightarrow>
      settlements_ok (commit_payment c s)"
    and "prepare_refund e q s = Inr c \<Longrightarrow> billingSettlementReplay RefundOp (sr_order_id q) (sr_idempotency_key q) h m f s = Inr None \<Longrightarrow>
      settlements_ok (commit_refund e rx q c s)"
  using write_settlement_ok [OF assms(1), of "pp_result c"] prepared_settlement [OF assms(2)]
  by (auto simp: settlements_ok_cong [OF commit_settlement_part(1)] settlements_ok_cong [OF commit_settlement_part(2)]
      dest!: replay_None)

lemma settleOrderPayment_wf [inv_intro]: "billing_wf s \<Longrightarrow> billing_wf (fst (settleOrderPayment e p s))"
  using settle_fst_cases(1) [of e p s] commit_payment_ledger [of s e p]
    settlements_ok_commit(1) [of s e p] orders_ok_set [of "bs_orders s"] prepared_order_amount(1) [of s e p]
  unfolding billing_wf_def by (elim disjE exE conjE) (simp_all add: commit_wallet(5))

lemma settleOrderRefund_wf [inv_intro]: "billing_wf s \<Longrightarrow> billing_wf (fst (settleOrderRefund e rx q s))"
  using settle_fst_cases(2) [of e rx q s] commit_refund_ledger [of s e q]
    settlements_ok_commit(2) [of s e q] orders_ok_set [of "bs_orders s"] prepared_order_amount(2) [of s e q]
  unfolding billing_wf_def by (elim disjE exE conjE) (simp_all add: commit_wallet(6))


lemma addWalletTransaction_wf [inv_intro]:
  assumes "billing_wf s"
  shows "billing_wf (fst (addWalletTransaction e p s))"
proof (cases "map_get (as_users (bs_account s)) (wp_user_id p)")
  case None
  then show ?thesis using assms by (simp add: addWalletTransaction_def)
next
  case (Some user)
  let ?next = "u_balance_fen user + wp_amount_fen p"
  show ?thesis
  proof (cases "?next < 0")
    case True
    then show ?thesis using assms Some by (simp add: addWalletTransaction_def)
  next
    case False
    define t where "t = \<lparr>wt_txn_id = ''txn-'' @ uuid e 0, wt_user_id = wp_user_id p, wt_type = wp_type p,
      wt_amount_fen = wp_amount_fen p, wt_balance_after_fen = ?next, wt_order_id = wp_order_id p,
      wt_settlement_id = None, wt_remark = wp_remark p, wt_created_at = now_iso e 0\<rparr>"
    have result: "fst (addWalletTransaction e p s) =
        s\<lparr>bs_account := (bs_account s)\<lparr>as_users := map_set (wp_user_id p) (user\<lparr>u_balance_fen := ?next\<rparr>) (as_users (bs_account s))\<rparr>,
          bs_transactions := bs_transactions s @ [t]\<rparr>"
      using Some False by (simp add: addWalletTransaction_def Let_def t_def)
    have acc: "account_wf (bs_account s)" and led: "ledger_ok (as_users (bs_account s)) (bs_transactions s)"
      and rest: "orders_ok (bs_orders s)" "settlements_ok s" using assms by (simp_all add: billing_wf_def)
    show ?thesis
      using ledger_ok_append [OF led Some, of t] account_wf_set_balance [OF acc Some, of ?next] rest False
      unfolding billing_wf_def result by (simp add: t_def settlements_ok_def)
  qed
qed

text \<open>An account operation opens accounts with an empty wallet and moves no money.\<close>

lemma ledger_ok_account:
  assumes "ledger_ok (as_users a) ts" and "\<And>i u. map_get (as_users b) i = Some u \<Longrightarrow>
      (\<exists>u0. map_get (as_users a) i = Some u0 \<and> u_balance_fen u = u_balance_fen u0) \<or>
      map_get (as_users a) i = None \<and> u_balance_fen u = 0"
    and "\<And>i. map_get (as_users a) i \<noteq> None \<Longrightarrow> map_get (as_users b) i \<noteq> None"
  shows "ledger_ok (as_users b) ts"
  unfolding ledger_ok_def
proof (intro conjI ballI allI impI)
  show "running ts" using assms(1) by (simp add: ledger_ok_def)
  show "map_get (as_users b) (wt_user_id t) \<noteq> None" if "t \<in> set ts" for t
    using assms(1,3) that by (auto simp: ledger_ok_def)
  show "u_balance_fen u = ledger_sum i ts" "0 \<le> ledger_sum i ts" if "map_get (as_users b) i = Some u" for i u
    using assms(2) [OF that] ledger_ok_absent [OF assms(1), of i] assms(1) by (auto simp: ledger_ok_def)
qed

lemma account_step_balance:
  assumes "account_step a b"
  shows "map_get (as_users b) i = Some u \<Longrightarrow>
      (\<exists>u0. map_get (as_users a) i = Some u0 \<and> u_balance_fen u = u_balance_fen u0) \<or>
      map_get (as_users a) i = None \<and> u_balance_fen u = 0"
    and "map_get (as_users a) i \<noteq> None \<Longrightarrow> map_get (as_users b) i \<noteq> None"
  using assms
  by (auto elim!: account_step.cases simp: createUser_def setUserStatus_def createSession_def getSession_def
      deleteSession_def createAdmin_def appendAudit_def Let_def split: option.splits if_splits)

lemma billing_product_wf [inv_intro]:
  "billing_wf s \<Longrightarrow> billing_wf (fst (createProduct e cq s))"
  "billing_wf s \<Longrightarrow> billing_wf (fst (updateProduct i qp s))"
  "billing_wf s \<Longrightarrow> billing_wf (s\<lparr>bs_device := d, bs_skill := ks, bs_outbox := obs\<rparr>)"
  by (auto simp: billing_wf_def createProduct_def updateProduct_def settlements_ok_def Let_def split: option.split)

lemma billing_step_wf: "billing_step s t \<Longrightarrow> billing_wf s \<Longrightarrow> billing_wf t"
proof (induction rule: billing_step.induct)
  case (account s a)
  then have "ledger_ok (as_users a) (bs_transactions s)" "account_wf a"
    using ledger_ok_account [OF _ account_step_balance [OF account(1)]] account_step_wf by (auto simp: billing_wf_def)
  then show ?case using account(2) by (simp add: billing_wf_def settlements_ok_def)
next
  case (order co s e)
  then show ?case by (auto simp: billing_wf_def createOrder_def Let_def settlements_ok_def orders_ok_def)
next
  case (order_patch s i op)
  then show ?case
    by (auto simp: billing_wf_def updateOrder_def Let_def settlements_ok_def orders_ok_def split: option.split)
qed (auto intro: inv_intro)


text \<open>A settlement, its indexes and its result stay what they are.\<close>

definition settled_le :: "billing_store \<Rightarrow> billing_store \<Rightarrow> bool" where
  "settled_le s t \<longleftrightarrow>
    (\<forall>i st. map_get (bs_settlements s) i = Some st \<longrightarrow>
       map_get (bs_settlements t) i = Some st \<and> map_get (bs_results t) i = map_get (bs_results s) i) \<and>
    (\<forall>k i. map_get (bs_byOrderOperation s) k = Some i \<longrightarrow> map_get (bs_byOrderOperation t) k = Some i) \<and>
    (\<forall>k i. map_get (bs_byOperationKey s) k = Some i \<longrightarrow> map_get (bs_byOperationKey t) k = Some i)"

lemma settled_le_refl: "settled_le s s"
  by (simp add: settled_le_def)

lemma settled_le_trans: "settled_le s t \<Longrightarrow> settled_le t u \<Longrightarrow> settled_le s u"
  unfolding settled_le_def by (metis)

lemma settled_le_part: "settlement_part s = settlement_part t \<Longrightarrow> settled_le s t"
  by (simp add: settled_le_def settlement_part_def)

lemma settled_le_cong: "settlement_part t = settlement_part u \<Longrightarrow> settled_le s t = settled_le s u"
  by (simp add: settled_le_def settlement_part_def)

lemma write_settlement_le:
  assumes "map_get (bs_settlements s) (st_settlement_id (rs_settlement r)) = None"
    and "map_get (bs_byOrderOperation s) (order_lookup (or_order_id (rs_order r)) (st_operation (rs_settlement r))) = None"
    and "map_get (bs_byOperationKey s) (key_lookup (st_operation (rs_settlement r)) (st_idempotency_key (rs_settlement r))) = None"
  shows "settled_le s (write_settlement r s)"
  using assms by (auto simp: settled_le_def write_settlement_def Let_def)

lemma commit_settled_le:
  assumes "orders_ok (bs_orders s)" and "map_get (bs_settlements s) (''bst-'' @ uuid e 0) = None"
  shows "prepare_payment e p s = Inr c \<Longrightarrow> billingSettlementReplay PaymentOp (sp_order_id p) (sp_idempotency_key p) h m f s = Inr None \<Longrightarrow>
      settled_le s (commit_payment c s)"
    and "prepare_refund e q s = Inr c \<Longrightarrow> billingSettlementReplay RefundOp (sr_order_id q) (sr_idempotency_key q) h m f s = Inr None \<Longrightarrow>
      settled_le s (commit_refund e rx q c s)"
  using write_settlement_le [of s "pp_result c"] prepared_settlement [OF assms(1)] assms(2)
  by (auto simp: settled_le_cong [OF commit_settlement_part(1)] settled_le_cong [OF commit_settlement_part(2)]
      dest!: replay_None)

lemma settle_settled_le:
  assumes "billing_wf s" and "map_get (bs_settlements s) (''bst-'' @ uuid e 0) = None"
  shows "settled_le s (fst (settleOrderPayment e p s))" and "settled_le s (fst (settleOrderRefund e rx q s))"
  using settle_fst_cases(1) [of e p s] settle_fst_cases(2) [of e rx q s] commit_settled_le [OF _ assms(2)] assms(1) settled_le_refl
  unfolding billing_wf_def by metis+

lemma settlement_part_steps [simp]:
  "settlement_part (fst (createProduct e cq s)) = settlement_part s"
  "settlement_part (fst (updateProduct i qp s)) = settlement_part s"
  "settlement_part (fst (createOrder e co s)) = settlement_part s"
  "settlement_part (fst (updateOrder i op s)) = settlement_part s"
  "settlement_part (fst (addWalletTransaction e wp s)) = settlement_part s"
  "settlement_part (s\<lparr>bs_device := d, bs_skill := ks, bs_outbox := obs\<rparr>) = settlement_part s"
  by (auto simp: settlement_part_def createProduct_def updateProduct_def createOrder_def updateOrder_def
      addWalletTransaction_def Let_def split: option.splits)

lemma billing_step_le: "billing_step s t \<Longrightarrow> billing_wf s \<Longrightarrow> settled_le s t"
  by (induction rule: billing_step.induct) (auto intro: settled_le_part settle_settled_le)

interpretation billing_run: step_monotone billing_step billing_wf settled_le
  by unfold_locales (blast intro: billing_step_wf settled_le_refl settled_le_trans billing_step_le)+

text \<open>Where the request's settlement is stored, a replay answers with its result, now and later.\<close>

definition answers ::
  "BillingSettlementOperation \<Rightarrow> string \<Rightarrow> string \<Rightarrow> string \<Rightarrow> string option \<Rightarrow> string option \<Rightarrow> BillingSettlementResult \<Rightarrow>
   billing_store \<Rightarrow> bool" where
  "answers op orderId key hash m f r s \<longleftrightarrow> key \<noteq> [] \<and> hash \<noteq> [] \<and>
    (\<exists>i st r0. map_get (bs_byOrderOperation s) (order_lookup orderId op) = Some i \<and>
      map_get (bs_byOperationKey s) (key_lookup op key) = Some i \<and> map_get (bs_settlements s) i = Some st \<and>
      map_get (bs_results s) i = Some r0 \<and> r0\<lparr>rs_replayed := True\<rparr> = r\<lparr>rs_replayed := True\<rparr> \<and>
      same_request op orderId key hash m f st)"

lemma answers_replay:
  "answers op i k h m f r s \<Longrightarrow> billingSettlementReplay op i k h m f s = Inr (Some (r\<lparr>rs_replayed := True\<rparr>))"
  by (auto simp: answers_def billingSettlementReplay_def billingSettlementResultClone_def Let_def)

lemma replay_answers:
  "billingSettlementReplay op i k h m f s = Inr (Some r) \<Longrightarrow> answers op i k h m f r s"
  by (auto simp: answers_def billingSettlementReplay_def billingSettlementResultClone_def Let_def split: option.splits if_splits)

lemma answers_le: "answers op i k h m f r s \<Longrightarrow> settled_le s t \<Longrightarrow> answers op i k h m f r t"
  unfolding answers_def settled_le_def by metis

lemma answers_cong: "settlement_part s = settlement_part t \<Longrightarrow> answers op i k h m f r s = answers op i k h m f r t"
  by (simp add: answers_def settlement_part_def)

lemma write_settlement_answers:
  assumes "same_request op i k h m f (rs_settlement r)" and "or_order_id (rs_order r) = i" and "k \<noteq> []" and "h \<noteq> []"
  shows "answers op i k h m f r (write_settlement r s)"
  using assms by (auto simp: answers_def write_settlement_def Let_def same_request_def)

lemma replay_key: "billingSettlementReplay op i k h m f s = Inr x \<Longrightarrow> k \<noteq> [] \<and> h \<noteq> []"
  by (auto simp: billingSettlementReplay_def)


lemma validProviderReference_truthy: "validProviderReference f \<Longrightarrow> truthy f = f"
  by (cases f rule: truthy.cases) (auto simp: validProviderReference_def)

lemma payment_answers:
  assumes "billing_wf s" and "settleOrderPayment e p s = (s', Inr r)" and "sp_provider_reference p \<noteq> Some []"
  shows "answers PaymentOp (sp_order_id p) (sp_idempotency_key p) (sp_request_hash p) (Some (sp_method p))
    (sp_provider_reference p) r s'"
  using assms(2)
proof (cases rule: settleOrderPayment_cases)
  case (replay r')
  then show ?thesis using replay_answers by simp
next
  case (settled c)
  have ord: "orders_ok (bs_orders s)" using assms(1) by (simp add: billing_wf_def)
  have ref: "truthy (sp_provider_reference p) = sp_provider_reference p"
    using assms(3) by (cases "sp_provider_reference p" rule: truthy.cases) auto
  have "same_request PaymentOp (sp_order_id p) (sp_idempotency_key p) (sp_request_hash p) (Some (sp_method p))
      (sp_provider_reference p) (rs_settlement (pp_result c))"
    using prepared_settlement(1) [OF ord settled(2)] settled(2)
    by (auto simp: same_request_def payment_settlement_def ref elim!: prepare_payment_done)
  then show ?thesis
    using write_settlement_answers prepared_settlement(1) [OF ord settled(2)] replay_key [OF settled(1)] settled(3,4)
    by (simp add: answers_cong [OF commit_settlement_part(1)])
qed

lemma refund_answers:
  assumes "billing_wf s" and "settleOrderRefund e rx p s = (s', Inr r)"
  shows "answers RefundOp (sr_order_id p) (sr_idempotency_key p) (sr_request_hash p) None (sr_provider_reference p) r s'"
  using assms(2)
proof (cases rule: settleOrderRefund_cases)
  case (replay r')
  then show ?thesis using replay_answers by simp
next
  case (settled c)
  have ord: "orders_ok (bs_orders s)" using assms(1) by (simp add: billing_wf_def)
  have "same_request RefundOp (sr_order_id p) (sr_idempotency_key p) (sr_request_hash p) None
      (sr_provider_reference p) (rs_settlement (pp_result c))"
    using prepared_settlement(2) [OF ord settled(2)] settled(2)
    by (auto simp: same_request_def refund_settlement_def validProviderReference_truthy elim!: prepare_refund_done
        dest!: refund_preconditions_done(5))
  then show ?thesis
    using write_settlement_answers prepared_settlement(2) [OF ord settled(2)] replay_key [OF settled(1)] settled(3,4)
    by (simp add: answers_cong [OF commit_settlement_part(2)])
qed

text \<open>Payments and refunds are operations a client may retry.\<close>

definition replay_mark :: "BillingSettlementResult \<Rightarrow> BillingSettlementResult" where
  "replay_mark r = r\<lparr>rs_replayed := True\<rparr>"

definition retriable :: "js_env \<Rightarrow> SettleOrderPaymentParams \<Rightarrow> billing_store \<Rightarrow> bool" where
  "retriable e p s \<longleftrightarrow> billing_wf s \<and> sp_provider_reference p \<noteq> Some []"

interpretation payment: idempotent_op settleOrderPayment retriable replay_mark
proof
  fix e p s s' r e'
  assume ok: "retriable e p s" and call: "settleOrderPayment e p s = (s', Inr r)"
  then show "settleOrderPayment e' p s' = (s', Inr (replay_mark r))"
    using answers_replay [OF payment_answers [OF _ call]]
    by (simp add: retriable_def settleOrderPayment_def replay_mark_def)
  show "retriable e' p s'" using ok settleOrderPayment_wf [of s e p] call by (simp add: retriable_def)
qed (simp add: replay_mark_def)

interpretation refund: idempotent_op "\<lambda>e. settleOrderRefund e rx" "\<lambda>e p. billing_wf" replay_mark
proof
  fix e p s s' r e'
  assume wf: "billing_wf s" and call: "settleOrderRefund e rx p s = (s', Inr r)"
  show "settleOrderRefund e' rx p s' = (s', Inr (replay_mark r))"
    using answers_replay [OF refund_answers [OF wf call]] by (simp add: settleOrderRefund_def replay_mark_def)
  show "billing_wf s'" using settleOrderRefund_wf [OF wf, of e rx p] call by simp
qed (simp add: replay_mark_def)

subsection \<open>Properties\<close>




text \<open>A request that meets the index of a settlement it does not match is a conflict.\<close>

lemma replay_conflict:
  assumes "answers op i k h m f r s" and "i' = i \<or> k' = k" and "(i', k', h', f') \<noteq> (i, k, h, f) \<or> op = PaymentOp \<and> m' \<noteq> m"
  shows "billingSettlementReplay op i' k' h' m' f' s = Inl (SettlementError IDEMPOTENCY_CONFLICT 409)"
proof -
  have no: "\<not> same_request op i' k' h' m' f' st" if "same_request op i k h m f st" for st
    using that assms(3) by (auto simp: same_request_def)
  obtain j st r0 where "map_get (bs_byOrderOperation s) (order_lookup i op) = Some j"
    "map_get (bs_byOperationKey s) (key_lookup op k) = Some j" "map_get (bs_settlements s) j = Some st"
    "same_request op i k h m f st" using assms(1) unfolding answers_def by blast
  then show ?thesis
    using assms(2) no [of st]
    by (elim disjE) (simp_all add: billingSettlementReplay_def BillingSettlementError_def default_status_def Let_def
        split: option.split)
qed

text \<open>
  C22: an order is paid once and an idempotency key stands for one request. After a payment
  answered, a payment of the same order under another key, or of another order under the same key,
  or with another request hash, method or provider reference, is refused with a conflict (HTTP 409) and
  changes nothing, however the other operations interleave.
\<close>

theorem payment_conflict:
  assumes "billing_step\<^sup>*\<^sup>* empty_billing_store s" and "settleOrderPayment e p s = (s1, Inr r)"
    and "sp_provider_reference p \<noteq> Some []" and "billing_step\<^sup>*\<^sup>* s1 t"
    and "sp_order_id p' = sp_order_id p \<or> sp_idempotency_key p' = sp_idempotency_key p"
    and "(sp_order_id p', sp_idempotency_key p', sp_request_hash p', sp_provider_reference p', sp_method p') \<noteq>
      (sp_order_id p, sp_idempotency_key p, sp_request_hash p, sp_provider_reference p, sp_method p)"
  shows "settleOrderPayment e' p' t = (t, Inl (SettlementError IDEMPOTENCY_CONFLICT 409))"
proof -
  have wf: "billing_wf s" by (rule billing_run.run_inv [OF assms(1) billing_wf_empty])
  then have "billing_wf s1" using settleOrderPayment_wf [OF wf, of e p] assms(2) by simp
  then have "settled_le s1 t" using billing_run.run_le assms(4) by blast
  from answers_le [OF payment_answers [OF wf assms(2,3)] this] assms(5)
  have "billingSettlementReplay PaymentOp (sp_order_id p') (sp_idempotency_key p') (sp_request_hash p')
      (Some (sp_method p')) (sp_provider_reference p') t = Inl (SettlementError IDEMPOTENCY_CONFLICT 409)"
    by (rule replay_conflict) (use assms(6) in auto)
  then show ?thesis by (simp add: settleOrderPayment_def)
qed

text \<open>
  in every reachable state an order has at most one settled payment and at most one settled refund,
  and a key of an operation stands for at most one settlement.
\<close>

theorem settled_once:
  assumes "billing_step\<^sup>*\<^sup>* empty_billing_store s" and "map_get (bs_settlements s) i = Some x"
    and "map_get (bs_settlements s) j = Some y" and "st_operation x = st_operation y"
    and "st_order_id x = st_order_id y \<or> st_idempotency_key x = st_idempotency_key y"
  shows "i = j \<and> x = y"
proof -
  have "settlements_ok s"
    using billing_run.run_inv [OF assms(1) billing_wf_empty] by (simp add: billing_wf_def)
  then have "i = j" using assms(2-5) unfolding settlements_ok_def by (metis option.inject)
  with assms(2,3) show ?thesis by simp
qed

lemma wallet_change_amount:
  "fst (wallet_change order m) =
    (if or_type order = RechargeOrder then or_amount_fen order else if m = ''balance'' then - or_amount_fen order else 0)"
  by (simp add: wallet_change_def split: if_split)

text \<open>
  what a payment that is not a replay did. The order was pending and is the caller's; it is
  paid now, the buyer's balance moved by the amount of a recharge, by minus the amount of a purchase
  from the balance and not at all otherwise, and stayed non-negative; no other user's balance
  moved, and one outbox event names the settlement and the order. A refused payment changed nothing.
\<close>

theorem payment_effect:
  assumes "billing_step\<^sup>*\<^sup>* empty_billing_store s"
    and "settleOrderPayment e p s = (s1, Inr r)" and "\<not> rs_replayed r"
  shows "\<exists>order user. getOrder (sp_order_id p) s = Some order \<and> or_status order = OrderPending \<and>
      or_user_id order = sp_user_id p \<and> getUser (sp_user_id p) (bs_account s) = Some user \<and>
      getOrder (sp_order_id p) s1 = Some (rs_order r) \<and> or_status (rs_order r) = OrderPaid \<and>
      map_option u_balance_fen (getUser (sp_user_id p) (bs_account s1)) = Some (u_balance_fen user +
        (if or_type order = RechargeOrder then or_amount_fen order
         else if sp_method p = ''balance'' then - or_amount_fen order else 0)) \<and>
      (\<forall>i. i \<noteq> sp_user_id p \<longrightarrow> getUser i (bs_account s1) = getUser i (bs_account s)) \<and>
      map_get (bs_outbox s1) (ob_outbox_id (rs_outbox r)) = Some (rs_outbox r) \<and>
      ob_settlement_id (rs_outbox r) = st_settlement_id (rs_settlement r) \<and>
      ob_aggregate_id (rs_outbox r) = sp_order_id p"
  using assms(2)
proof (cases rule: settleOrderPayment_cases)
  case (replay r')
  then show ?thesis using assms(3)
    by (auto simp: billingSettlementReplay_def billingSettlementResultClone_def Let_def split: if_splits option.splits)
next
  case (settled c)
  have wf: "billing_wf s" by (rule billing_run.run_inv [OF assms(1) billing_wf_empty])
  then have ord: "orders_ok (bs_orders s)" and acc: "account_wf (bs_account s)" by (simp_all add: billing_wf_def)
  note st = prepared_settlement(1) [OF ord settled(2)]
  from settled(2) show ?thesis
  proof (cases rule: prepare_payment_done)
    case (1 order user paidAt sg k createdAt)
    note pre = payment_preconditions_done [OF 1(1)]
    have user: "map_get (as_users (bs_account s)) (sp_user_id p) = Some (pp_user c)" using pre(2,4) 1(3) by simp
    have id: "u_user_id (pp_user c) = sp_user_id p" by (rule account_user_id [OF acc user])
    have "map_get (bs_outbox s1) (ob_outbox_id (rs_outbox r)) = Some (rs_outbox r)"
      using settled(3,4) by (simp add: commit_payment_def write_settlement_def Let_def)
    then show ?thesis
      using settled(3,4) pre user st 1(3-5,9,13) id
      by (intro exI [of _ order] exI [of _ user])
        (auto simp: getOrder_def getUser_def commit_wallet set_balance_def wallet_change_amount payment_outbox_def)
  qed
qed


subsection \<open>A recharge\<close>

lemma sample_date: "date_parse sample_env ''2026-01-01T00:00:00.000Z'' = Some 1767225600000"
  using date_parse_toISOString [OF common_eraI, of 1767225600000 sample_env] by (simp add: iso_2026)

definition sample_opened :: billing_store where
  "sample_opened = empty_billing_store\<lparr>bs_account := sample_accounts\<rparr>"

definition sample_order_params :: create_order_params where
  "sample_order_params = \<lparr>co_user_id = ''usr-uuid-0'', co_type = RechargeOrder, co_product_id = None, co_pack_id = None,
     co_plan_id = None, co_tenant_id = None, co_period = None, co_amount_fen = 500\<rparr>"

definition sample_ordered :: billing_store where
  "sample_ordered = fst (createOrder sample_env sample_order_params sample_opened)"

definition sample_payment :: SettleOrderPaymentParams where
  "sample_payment = \<lparr>sp_order_id = ''ord-uuid-0'', sp_user_id = ''usr-uuid-0'', sp_method = ''mock'',
     sp_provider_reference = None, sp_idempotency_key = ''key-1'', sp_request_hash = ''v1:hash'', sp_paid_at = None\<rparr>"

definition sample_result :: BillingSettlementResult where
  "sample_result = projr (snd (settleOrderPayment sample_env sample_payment sample_ordered))"

definition sample_recharged :: billing_store where
  "sample_recharged = fst (settleOrderPayment sample_env sample_payment sample_ordered)"

lemma sample_ordered_run: "billing_step\<^sup>*\<^sup>* empty_billing_store sample_ordered"
proof -
  have "account_step empty_account_store sample_accounts"
    unfolding sample_accounts_def by (rule account_step.user) (simp add: empty_account_store_def)
  then have "account_step (bs_account empty_billing_store) sample_accounts" by (simp add: empty_billing_store_def)
  from billing_step.account [OF this] have "billing_step empty_billing_store sample_opened" by (simp add: sample_opened_def)
  moreover have "billing_step sample_opened sample_ordered"
    unfolding sample_ordered_def by (rule billing_step.order) (simp add: sample_order_params_def)
  ultimately show ?thesis by (meson converse_rtranclp_into_rtranclp rtranclp.rtrancl_refl)
qed

lemma sample_paid_call:
  "settleOrderPayment sample_env sample_payment sample_ordered = (sample_recharged, Inr sample_result)"
proof -
  have "\<exists>r. snd (settleOrderPayment sample_env sample_payment sample_ordered) = Inr r"
    by (simp add: settleOrderPayment_def billingSettlementReplay_def prepare_payment_def payment_preconditions_def
        sample_payment_def sample_ordered_def createOrder_def sample_order_params_def sample_opened_def sample_accounts_eval
        empty_billing_store_def wallet_change_def stage_payment_def nothing_staged_def sample_date Let_def
        sample_user_def createUser_def empty_account_store_def map_find_def)
  then show ?thesis by (auto simp: sample_recharged_def sample_result_def prod_eq_iff)
qed


lemma sample_recharged_run: "billing_step\<^sup>*\<^sup>* empty_billing_store sample_recharged"
proof -
  have "billing_step sample_ordered sample_recharged"
    unfolding sample_recharged_def
    by (rule billing_step.payment) (simp add: sample_ordered_def createOrder_def sample_opened_def empty_billing_store_def Let_def)
  with sample_ordered_run show ?thesis by simp
qed

lemma sample_not_replayed: "\<not> rs_replayed sample_result"
  using sample_paid_call
proof (cases rule: settleOrderPayment_cases)
  case (settled c)
  then show ?thesis using prepare_payment_done [OF settled(2)] by metis
next
  case (replay r')
  from replay(1) show ?thesis
    by (simp add: billingSettlementReplay_def sample_ordered_def createOrder_def sample_opened_def empty_billing_store_def Let_def
        split: if_splits)
qed

lemma sample_order_eval:
  "getOrder ''ord-uuid-0'' sample_ordered = Some \<lparr>or_order_id = ''ord-uuid-0'', or_user_id = ''usr-uuid-0'', or_type = RechargeOrder,
     or_product_id = None, or_pack_id = None, or_plan_id = None, or_tenant_id = None, or_period = None, or_amount_fen = 500,
     or_status = OrderPending, or_pay_method = None, or_created_at = ''2026-01-01T00:00:00.000Z'', or_paid_at = None,
     or_refunded_at = None\<rparr>"
  "getUser ''usr-uuid-0'' (bs_account sample_ordered) = Some sample_user" "u_balance_fen sample_user = 0"
  by (simp_all add: getOrder_def getUser_def sample_ordered_def createOrder_def sample_order_params_def sample_opened_def
      empty_billing_store_def sample_accounts_eval sample_user_def createUser_def empty_account_store_def map_find_def Let_def)

theorem payment_effect_witness:
  "map_option or_status (getOrder ''ord-uuid-0'' sample_recharged) = Some OrderPaid \<and>
   map_option u_balance_fen (getUser ''usr-uuid-0'' (bs_account sample_recharged)) = Some 500"
  using payment_effect [OF sample_ordered_run sample_paid_call sample_not_replayed]
  by (auto simp: sample_payment_def sample_order_eval)



theorem payment_conflict_witness:
  "settleOrderPayment sample_env (sample_payment\<lparr>sp_idempotency_key := ''key-2''\<rparr>) sample_recharged =
    (sample_recharged, Inl (SettlementError IDEMPOTENCY_CONFLICT 409))"
  by (rule payment_conflict [OF sample_ordered_run sample_paid_call _ rtranclp.rtrancl_refl]) (simp_all add: sample_payment_def)

theorem settled_once_witness:
  "\<exists>i st. map_get (bs_settlements sample_recharged) i = Some st \<and> st_order_id st = ''ord-uuid-0''"
proof -
  have "billing_wf sample_ordered" by (rule billing_run.run_inv [OF sample_ordered_run billing_wf_empty])
  from payment_answers [OF this sample_paid_call] obtain i st where
    st: "map_get (bs_settlements sample_recharged) i = Some st" "st_order_id st = ''ord-uuid-0''"
    by (auto simp: sample_payment_def answers_def same_request_def)
  from settled_once [OF sample_recharged_run st(1) st(1)] st show ?thesis by blast
qed

end
