(* ===== verification/Billing_Fulfilment.thy ===== *)
theory Billing_Fulfilment
  imports Billing_Store
begin

text \<open>
  What settlements do to the stores they fulfil: the packs of a device and the Cloud Skill
  subscriptions (\<^verbatim>\<open>settleOrderPayment\<close> and \<^verbatim>\<open>settleOrderRefund\<close> of
  \<^verbatim>\<open>apps/longhub-cloud-api/src/memory-store.ts\<close>). The lemmas show that settlements keep the
  invariant of the Cloud Skill store, that a paid subscription opens every Skill of its plan until it expires, and that
  a refund closes what the order had opened.
\<close>

subsection \<open>Writing a list of records\<close>


lemma fold_set_cases:
  assumes "map_get (fold (\<lambda>x. map_set (f x) x) xs m) j = Some v"
  shows "v \<in> set xs \<and> f v = j \<or> map_get m j = Some v \<and> (\<forall>x \<in> set xs. f x \<noteq> j)"
  using assms by (induction xs rule: rev_induct) (auto split: if_splits)

lemma fold_set_member:
  assumes "x \<in> set xs" and "distinct (map f xs)"
  shows "map_get (fold (\<lambda>x. map_set (f x) x) xs m) (f x) = Some x"
  using assms by (induction xs rule: rev_induct) (auto simp: rev_image_eqI)

lemma fold_set_ok: "map_ok m \<Longrightarrow> map_ok (fold (\<lambda>x. map_set (f x) x) xs m)"
  by (induction xs arbitrary: m) auto

subsection \<open>The Cloud Skill store after a settlement\<close>

lemma commit_payment_skill:
  "ks_plans (bs_skill (commit_payment c s)) = ks_plans (bs_skill s)"
  "ks_bindings (bs_skill (commit_payment c s)) = ks_bindings (bs_skill s)"
  "ks_bindingByOwner (bs_skill (commit_payment c s)) = ks_bindingByOwner (bs_skill s)"
  "ks_subscriptions (bs_skill (commit_payment c s)) = (case sg_subscription (pp_staged c) of
     None \<Rightarrow> ks_subscriptions (bs_skill s) | Some b \<Rightarrow> map_set (sb_subscription_id b) b (ks_subscriptions (bs_skill s)))"
  "ks_subscriptionsByOrder (bs_skill (commit_payment c s)) = (case sg_subscription (pp_staged c) of
     None \<Rightarrow> ks_subscriptionsByOrder (bs_skill s)
   | Some b \<Rightarrow> map_set (sb_source_order_id b) (sb_subscription_id b) (ks_subscriptionsByOrder (bs_skill s)))"
  "ks_entitlements (bs_skill (commit_payment c s)) =
     fold (\<lambda>en. map_set (ce_entitlement_id en) en) (sg_cloud (pp_staged c)) (ks_entitlements (bs_skill s))"
  by (simp_all add: commit_payment_def write_cloud_def write_paid_subscription_def Let_def split: option.split)

lemma commit_refund_skill:
  "ks_plans (bs_skill (commit_refund e rx p c s)) = ks_plans (bs_skill s)"
  "ks_bindings (bs_skill (commit_refund e rx p c s)) = ks_bindings (bs_skill s)"
  "ks_bindingByOwner (bs_skill (commit_refund e rx p c s)) = ks_bindingByOwner (bs_skill s)"
  "ks_subscriptions (bs_skill (commit_refund e rx p c s)) = (case sg_subscription (pp_staged c) of
     None \<Rightarrow> ks_subscriptions (bs_skill s) | Some b \<Rightarrow> map_set (sb_subscription_id b) b (ks_subscriptions (bs_skill s)))"
  "ks_subscriptionsByOrder (bs_skill (commit_refund e rx p c s)) = ks_subscriptionsByOrder (bs_skill s)"
  "ks_entitlements (bs_skill (commit_refund e rx p c s)) =
     fold (\<lambda>en. map_set (ce_entitlement_id en) en) (sg_cloud (pp_staged c)) (ks_entitlements (bs_skill s))"
  by (simp_all add: commit_refund_def write_cloud_def write_refunded_subscription_def Let_def split: option.split)

lemma commit_packs:
  "ds_entitlements (bs_device (commit_payment c s)) =
     fold (\<lambda>en. map_set (en_entitlement_id en) en) (sg_packs (pp_staged c)) (ds_entitlements (bs_device s))"
  "ds_entitlements (bs_device (commit_refund e rx p c s)) =
     fold (\<lambda>en. map_set (en_entitlement_id en) en) (sg_packs (pp_staged c)) (ds_entitlements (bs_device s))"
  by (simp_all add: commit_payment_def commit_refund_def write_packs_def Let_def)

text \<open>Every entitlement is held under its id.\<close>

definition skill_keyed :: "skill_store \<Rightarrow> bool" where
  "skill_keyed s \<longleftrightarrow> (\<forall>i en. map_get (ks_entitlements s) i = Some en \<longrightarrow> ce_entitlement_id en = i)"


subsection \<open>What is staged\<close>

text \<open>A staged Skill row is active, in the scope of the order, and renews a row of its Skill or has a fresh id.\<close>

lemma staged_skill_row:
  assumes "staged_skill e order t pl sub ex cr ents skill k = (en, k')" and "map_ok ents"
    and "\<And>i en. map_get ents i = Some en \<Longrightarrow> ce_entitlement_id en = i"
  shows "ce_subscription_id en = sub" "ce_tenant_id en = t" "ce_user_id en = or_user_id order" "ce_plan_id en = pl"
    "ce_skill_id en = skill" "ce_status en = CsActive" "ce_expires_at en = ex" "k \<le> k'"
    "(\<exists>row. map_get ents (ce_entitlement_id en) = Some row \<and> ce_skill_id row = skill) \<or>
     ce_entitlement_id en = ''csent-'' @ uuid e k \<and> k' = Suc k"
proof -
  let ?P = "\<lambda>en. ce_subscription_id en = sub \<and> ce_plan_id en = pl \<and> ce_skill_id en = skill"
  have "ce_subscription_id en = sub \<and> ce_tenant_id en = t \<and> ce_user_id en = or_user_id order \<and> ce_plan_id en = pl \<and>
    ce_skill_id en = skill \<and> ce_status en = CsActive \<and> ce_expires_at en = ex \<and> k \<le> k' \<and>
    ((\<exists>row. map_get ents (ce_entitlement_id en) = Some row \<and> ce_skill_id row = skill) \<or>
     ce_entitlement_id en = ''csent-'' @ uuid e k \<and> k' = Suc k)"
    using assms(2)
  proof (cases rule: map_find_cases [where P = ?P])
    case none
    then show ?thesis using assms(1) by (auto simp: staged_skill_def)
  next
    case (found i row)
    then show ?thesis using assms(1) assms(3) [OF found(2)] by (auto simp: staged_skill_def)
  qed
  then show "ce_subscription_id en = sub" "ce_tenant_id en = t" "ce_user_id en = or_user_id order" "ce_plan_id en = pl"
    "ce_skill_id en = skill" "ce_status en = CsActive" "ce_expires_at en = ex" "k \<le> k'"
    "(\<exists>row. map_get ents (ce_entitlement_id en) = Some row \<and> ce_skill_id row = skill) \<or>
     ce_entitlement_id en = ''csent-'' @ uuid e k \<and> k' = Suc k" by simp_all
qed

lemma stage_skills_rows:
  assumes "map_ok ents" and "\<And>i en. map_get ents i = Some en \<Longrightarrow> ce_entitlement_id en = i"
    and "en \<in> set (fst (stage_skills e order t pl sub ex cr ents skills k))"
  shows "ce_subscription_id en = sub \<and> ce_tenant_id en = t \<and> ce_user_id en = or_user_id order \<and> ce_plan_id en = pl \<and>
    ce_skill_id en \<in> set skills \<and> ce_status en = CsActive \<and> ce_expires_at en = ex \<and>
    ((\<exists>row. map_get ents (ce_entitlement_id en) = Some row \<and> ce_skill_id row = ce_skill_id en) \<or>
     (\<exists>j \<ge> k. ce_entitlement_id en = ''csent-'' @ uuid e j))"
  using assms(3)
proof (induction skills arbitrary: k)
  case (Cons skill skills)
  obtain x k' where x: "staged_skill e order t pl sub ex cr ents skill k = (x, k')" by fastforce
  note row = staged_skill_row [OF x assms(1,2)]
  show ?case
  proof (cases "en = x")
    case True
    then show ?thesis using row by auto
  next
    case False
    then have "en \<in> set (fst (stage_skills e order t pl sub ex cr ents skills k'))"
      using Cons.prems x by (auto simp: Let_def split: prod.splits)
    from Cons.IH [OF this] show ?thesis using row(8) by (auto intro: order_trans)
  qed
qed simp

lemma stage_skills_covers:
  assumes "map_ok ents" and "\<And>i en. map_get ents i = Some en \<Longrightarrow> ce_entitlement_id en = i" and "skill \<in> set skills"
  shows "\<exists>en \<in> set (fst (stage_skills e order t pl sub ex cr ents skills k)). ce_skill_id en = skill"
  using assms(3)
proof (induction skills arbitrary: k)
  case (Cons a skills)
  obtain x k' where x: "staged_skill e order t pl sub ex cr ents a k = (x, k')" by fastforce
  show ?case
    using Cons.IH [of k'] Cons.prems staged_skill_row(5) [OF x assms(1,2)] x by (auto simp: Let_def split: prod.splits)
qed simp

lemma stage_skills_distinct:
  assumes "map_ok ents" and keyed: "\<And>i en. map_get ents i = Some en \<Longrightarrow> ce_entitlement_id en = i"
    and "inj (uuid e)" and fresh: "\<And>j. map_get ents (''csent-'' @ uuid e j) = None" and "distinct skills"
  shows "distinct (map ce_entitlement_id (fst (stage_skills e order t pl sub ex cr ents skills k)))"
  using assms(5)
proof (induction skills arbitrary: k)
  case (Cons skill skills)
  obtain x k' where x: "staged_skill e order t pl sub ex cr ents skill k = (x, k')" by fastforce
  note row = staged_skill_row [OF x assms(1) keyed]
  have "ce_entitlement_id en \<noteq> ce_entitlement_id x"
    if en: "en \<in> set (fst (stage_skills e order t pl sub ex cr ents skills k'))" for en
  proof
    assume same: "ce_entitlement_id en = ce_entitlement_id x"
    note other = stage_skills_rows [OF assms(1) keyed en]
    then have "ce_skill_id en \<noteq> skill" using Cons.prems by auto
    with row(9) other same fresh assms(3) show False by (auto simp: inj_eq)
  qed
  then have "ce_entitlement_id x \<notin> ce_entitlement_id ` set (fst (stage_skills e order t pl sub ex cr ents skills k'))"
    by (metis imageE)
  moreover have "fst (stage_skills e order t pl sub ex cr ents (skill # skills) k) =
      x # fst (stage_skills e order t pl sub ex cr ents skills k')"
    using x by (simp add: Let_def split: prod.split)
  moreover have "distinct (map ce_entitlement_id (fst (stage_skills e order t pl sub ex cr ents skills k')))"
    using Cons.prems by (intro Cons.IH) simp
  ultimately show ?case by simp
qed simp


text \<open>The staging of a Cloud Skill order, field by field.\<close>

lemma stage_cloud_order_done:
  assumes "stage_cloud_order e order paidAt createdAt k s = Inr (sg, k')"
  obtains planId tenantId period plan expiresAt sub j where
    "or_plan_id order = Some planId" "planId \<noteq> []" "or_tenant_id order = Some tenantId" "tenantId \<noteq> []"
    "or_period order = Some period" "map_get (ks_plans (bs_skill s)) planId = Some plan"
    "billingPeriodExpiry e paidAt period = Inr expiresAt"
    "staged_subscription e order planId tenantId period paidAt expiresAt createdAt k (bs_skill s) = Inr (sub, j)"
    "sg_packs sg = []" "sg_subscription sg = Some sub"
    "sg_cloud sg = fst (stage_skills e order tenantId (pl_plan_id plan) (sb_subscription_id sub) expiresAt createdAt
       (ks_entitlements (bs_skill s)) (js_sort code_unit_compare (pl_skill_ids plan)) j)"
  using assms by (auto simp: stage_cloud_order_def Let_def split: option.splits sum.splits prod.splits)

text \<open>The staged subscription is active for the order, and is the order's row or a row with a fresh id.\<close>

lemma staged_subscription_row:
  assumes "staged_subscription e order planId tenantId period paidAt expiresAt createdAt k ks = Inr (sub, j)" and "subs_wf ks"
  shows "sb_user_id sub = or_user_id order \<and> sb_tenant_id sub = tenantId \<and> sb_plan_id sub = planId \<and>
    sb_status sub = SubActive \<and> sb_starts_at sub = paidAt \<and> sb_expires_at sub = expiresAt \<and>
    sb_source_order_id sub = or_order_id order \<and>
    ((\<exists>old. map_get (ks_subscriptions ks) (sb_subscription_id sub) = Some old \<and> sb_user_id old = sb_user_id sub \<and>
        sb_tenant_id old = sb_tenant_id sub \<and> sb_plan_id old = sb_plan_id sub \<and> sb_source_order_id old = sb_source_order_id sub) \<or>
     sb_subscription_id sub = ''csub-'' @ uuid e k)"
proof (cases "getCloudSkillSubscriptionByOrder (or_order_id order) ks")
  case None
  then show ?thesis using assms(1) by (auto simp: staged_subscription_def)
next
  case (Some old)
  then obtain i where "map_get (ks_subscriptionsByOrder ks) (or_order_id order) = Some i" "map_get (ks_subscriptions ks) i = Some old"
    by (auto simp: getCloudSkillSubscriptionByOrder_def getCloudSkillSubscription_def split: option.splits)
  then have old: "map_get (ks_subscriptions ks) (sb_subscription_id old) = Some old" "sb_source_order_id old = or_order_id order"
    using assms(2) unfolding subs_wf_def by fastforce+
  show ?thesis using assms(1) Some old by (auto simp: staged_subscription_def split: if_splits)
qed

text \<open>Ids a settlement draws are not in use in the Cloud Skill store.\<close>

definition fresh_skill_ids :: "js_env \<Rightarrow> skill_store \<Rightarrow> bool" where
  "fresh_skill_ids e ks \<longleftrightarrow> inj (uuid e) \<and> (\<forall>j. map_get (ks_subscriptions ks) (''csub-'' @ uuid e j) = None \<and>
     map_get (ks_entitlements ks) (''csent-'' @ uuid e j) = None)"

subsection \<open>Settlements keep the invariant of the Cloud Skill store\<close>

lemma subs_wf_set:
  assumes "subs_wf ks" and "map_get (ks_subscriptions ks) (sb_subscription_id b) = None \<or>
      (\<exists>old. map_get (ks_subscriptions ks) (sb_subscription_id b) = Some old \<and> sb_source_order_id old = sb_source_order_id b)"
    and "ks_subscriptions ks' = map_set (sb_subscription_id b) b (ks_subscriptions ks)"
    and "ks_subscriptionsByOrder ks' = ks_subscriptionsByOrder ks \<or> ks_subscriptionsByOrder ks' =
      map_set (sb_source_order_id b) (sb_subscription_id b) (ks_subscriptionsByOrder ks)"
  shows "subs_wf ks'"
  using assms unfolding subs_wf_def by (auto split: if_splits) (metis option.distinct(1) option.inject)+


lemma ents_wf_paid:
  assumes wf: "ents_wf ks" and subs: "ks_subscriptions ks' = map_set (sb_subscription_id b) b (ks_subscriptions ks)"
    and ents: "ks_entitlements ks' = fold (\<lambda>en. map_set (ce_entitlement_id en) en) xs (ks_entitlements ks)"
    and active: "sb_status b = SubActive"
    and xs: "\<And>en. en \<in> set xs \<Longrightarrow> ce_subscription_id en = sb_subscription_id b \<and> ce_user_id en = sb_user_id b \<and>
      ce_tenant_id en = sb_tenant_id b \<and> ce_plan_id en = sb_plan_id b"
    and old: "\<And>b0. map_get (ks_subscriptions ks) (sb_subscription_id b) = Some b0 \<Longrightarrow>
      sb_user_id b0 = sb_user_id b \<and> sb_tenant_id b0 = sb_tenant_id b \<and> sb_plan_id b0 = sb_plan_id b"
  shows "ents_wf ks'"
  unfolding ents_wf_def
proof (intro conjI allI impI)
  show "map_ok (ks_entitlements ks')" using wf by (auto simp: ents ents_wf_def intro: fold_set_ok)
  fix i en
  assume "map_get (ks_entitlements ks') i = Some en"
  from fold_set_cases [OF this [unfolded ents]]
  show "\<exists>b. map_get (ks_subscriptions ks') (ce_subscription_id en) = Some b \<and> sb_user_id b = ce_user_id en \<and>
      sb_tenant_id b = ce_tenant_id en \<and> sb_plan_id b = ce_plan_id en \<and> (ce_status en = CsActive \<longrightarrow> sb_status b = SubActive)"
  proof
    assume "en \<in> set xs \<and> ce_entitlement_id en = i"
    then show ?thesis using xs [of en] active by (auto simp: subs)
  next
    assume "map_get (ks_entitlements ks) i = Some en \<and> (\<forall>x\<in>set xs. ce_entitlement_id x \<noteq> i)"
    then obtain b0 where b0: "map_get (ks_subscriptions ks) (ce_subscription_id en) = Some b0" "sb_user_id b0 = ce_user_id en"
      "sb_tenant_id b0 = ce_tenant_id en" "sb_plan_id b0 = ce_plan_id en" "ce_status en = CsActive \<longrightarrow> sb_status b0 = SubActive"
      using wf unfolding ents_wf_def by blast
    show ?thesis
      using b0 old [of b0] active by (cases "ce_subscription_id en = sb_subscription_id b") (auto simp: subs)
  qed
qed

lemma keyed_fold:
  "skill_keyed ks \<Longrightarrow> ks_entitlements ks' = fold (\<lambda>en. map_set (ce_entitlement_id en) en) xs (ks_entitlements ks) \<Longrightarrow> skill_keyed ks'"
  by (auto simp: skill_keyed_def dest: fold_set_cases)

lemma plans_bindings_same:
  "plans_wf ks \<Longrightarrow> ks_plans ks' = ks_plans ks \<Longrightarrow> plans_wf ks'"
  "bindings_wf ks \<Longrightarrow> ks_bindings ks' = ks_bindings ks \<Longrightarrow> ks_bindingByOwner ks' = ks_bindingByOwner ks \<Longrightarrow> bindings_wf ks'"
  by (simp_all add: plans_wf_def bindings_wf_def)

text \<open>Only an order for a Cloud Skill plan stages anything for the Cloud Skill store.\<close>

lemma stage_payment_other:
  "stage_payment e order paidAt createdAt k s = Inr (sg, k') \<Longrightarrow> or_type order \<noteq> CloudSkillPlanOrder \<Longrightarrow>
    sg_subscription sg = None \<and> sg_cloud sg = []"
  by (auto simp: stage_payment_def stage_pack_order_def nothing_staged_def Let_def
      split: OrderType.splits option.splits sum.splits prod.splits)

lemma commit_payment_skill_wf:
  assumes wf: "skill_wf (bs_skill s)" "skill_keyed (bs_skill s)" and fresh: "fresh_skill_ids e (bs_skill s)"
    and c: "prepare_payment e p s = Inr c"
  shows "skill_wf (bs_skill (commit_payment c s)) \<and> skill_keyed (bs_skill (commit_payment c s))"
  using c
proof (cases rule: prepare_payment_done)
  case (1 order user paidAt sg k createdAt)
  let ?order = "order\<lparr>or_status := OrderPaid, or_pay_method := Some (sp_method p), or_paid_at := Some paidAt\<rparr>"
  note sel = commit_payment_skill [of c s, unfolded 1(7)]
  have parts: "plans_wf (bs_skill s)" "subs_wf (bs_skill s)" "ents_wf (bs_skill s)" "bindings_wf (bs_skill s)"
    using wf by (simp_all add: skill_wf_def)
  have keyed: "skill_keyed (bs_skill (commit_payment c s))" by (rule keyed_fold [OF wf(2) sel(6)])
  show ?thesis
  proof (cases "or_type order = CloudSkillPlanOrder")
    case False
    with stage_payment_other [OF 1(2)] have "bs_skill (commit_payment c s) = bs_skill s" using 1(7)
      by (simp add: commit_payment_def write_cloud_def write_paid_subscription_def Let_def)
    with wf show ?thesis by simp
  next
    case True
    with 1(2) have "stage_cloud_order e ?order paidAt createdAt
        (if snd (wallet_change order (sp_method p)) = None then 1 else 2) s = Inr (sg, k)" by (simp add: stage_payment_def)
    then show ?thesis
    proof (cases rule: stage_cloud_order_done)
      case st: (1 planId tenantId period plan expiresAt sub j)
      note row = staged_subscription_row [OF st(8) parts(2)]
      have "pl_plan_id plan = planId" using parts(1) st(6) by (simp add: plans_wf_def)
      then have rows: "ce_subscription_id en = sb_subscription_id sub \<and> ce_user_id en = sb_user_id sub \<and>
          ce_tenant_id en = sb_tenant_id sub \<and> ce_plan_id en = sb_plan_id sub" if "en \<in> set (sg_cloud sg)" for en
        using stage_skills_rows [of "ks_entitlements (bs_skill s)" en] that parts(3) wf(2) row
        by (auto simp: st(11) ents_wf_def skill_keyed_def)
      have new: "map_get (ks_subscriptions (bs_skill s)) (''csub-'' @ uuid e i) = None" for i
        using fresh by (simp add: fresh_skill_ids_def)
      have "subs_wf (bs_skill (commit_payment c s))"
        by (rule subs_wf_set [OF parts(2), of sub]) (use row new sel st(10) in auto)
      moreover have "ents_wf (bs_skill (commit_payment c s))"
        by (rule ents_wf_paid [OF parts(3) _ sel(6), of sub]) (use row rows new sel(4) st(10) in auto)
      ultimately show ?thesis
        using keyed plans_bindings_same(1) [OF _ sel(1)] plans_bindings_same(2) [OF _ sel(2,3)] parts
        by (simp add: skill_wf_def)
    qed
  qed
qed


lemma stage_cloud_refund_done:
  assumes "stage_cloud_refund order at s = Inr sg"
  obtains sub where "getCloudSkillSubscriptionByOrder (or_order_id order) (bs_skill s) = Some sub"
    "sb_user_id sub = or_user_id order" "sg_packs sg = []"
    "sg_subscription sg = Some (sub\<lparr>sb_status := SubRefunded, sb_refunded_at := Some at\<rparr>)"
    "sg_cloud sg = map (\<lambda>en. en\<lparr>ce_status := CsRevoked\<rparr>)
       (filter (\<lambda>en. ce_subscription_id en = sb_subscription_id sub) (map_values (ks_entitlements (bs_skill s))))"
  using assms by (auto simp: stage_cloud_refund_def split: option.splits if_splits)

lemma order_subscription:
  assumes "getCloudSkillSubscriptionByOrder i ks = Some sub" and "subs_wf ks"
  shows "map_get (ks_subscriptions ks) (sb_subscription_id sub) = Some sub" "sb_source_order_id sub = i"
  using assms unfolding subs_wf_def
  by (fastforce simp: getCloudSkillSubscriptionByOrder_def getCloudSkillSubscription_def split: option.splits)+

text \<open>After a refund the rows of the subscription are the revoked ones.\<close>

lemma refunded_rows:
  assumes keyed: "skill_keyed ks" and ok: "map_ok (ks_entitlements ks)"
    and get: "map_get (fold (\<lambda>en. map_set (ce_entitlement_id en) en)
      (map (\<lambda>en. en\<lparr>ce_status := CsRevoked\<rparr>) (filter (\<lambda>en. ce_subscription_id en = sub) (map_values (ks_entitlements ks))))
      (ks_entitlements ks)) i = Some en"
  shows "\<exists>en0. map_get (ks_entitlements ks) i = Some en0 \<and>
    en = (if ce_subscription_id en0 = sub then en0\<lparr>ce_status := CsRevoked\<rparr> else en0)"
  using fold_set_cases [OF get]
proof
  assume "en \<in> set (map (\<lambda>en. en\<lparr>ce_status := CsRevoked\<rparr>)
      (filter (\<lambda>en. ce_subscription_id en = sub) (map_values (ks_entitlements ks)))) \<and> ce_entitlement_id en = i"
  then obtain en0 where found: "en0 \<in> set (filter (\<lambda>en. ce_subscription_id en = sub) (map_values (ks_entitlements ks)))"
    and en: "en = en0\<lparr>ce_status := CsRevoked\<rparr>" and id: "ce_entitlement_id en = i"
    unfolding set_map [of "\<lambda>en. en\<lparr>ce_status := CsRevoked\<rparr>"] by blast
  from found have "en0 \<in> set (map_values (ks_entitlements ks))" "ce_subscription_id en0 = sub"
    unfolding set_filter by blast+
  moreover have "ce_entitlement_id en0 = i" using id by (simp add: en)
  ultimately have en0: "en0 \<in> set (map_values (ks_entitlements ks))" "ce_subscription_id en0 = sub"
    "en = en0\<lparr>ce_status := CsRevoked\<rparr>" "ce_entitlement_id en0 = i" using en by blast+
  obtain j where j: "map_get (ks_entitlements ks) j = Some en0" using map_values_get [OF ok en0(1)] by blast
  with keyed en0(4) have "j = i" unfolding skill_keyed_def by blast
  with j en0(2,3) show ?thesis by (intro exI [of _ en0]) simp
next
  assume old: "map_get (ks_entitlements ks) i = Some en \<and> (\<forall>x\<in>set (map (\<lambda>en. en\<lparr>ce_status := CsRevoked\<rparr>)
      (filter (\<lambda>en. ce_subscription_id en = sub) (map_values (ks_entitlements ks)))). ce_entitlement_id x \<noteq> i)"
  then have "ce_entitlement_id en = i" using keyed by (simp add: skill_keyed_def)
  moreover have "en \<in> set (map_values (ks_entitlements ks))" using old map_get_values by fast
  ultimately have "ce_subscription_id en \<noteq> sub" using old by auto
  with old show ?thesis by auto
qed

lemma commit_refund_skill_wf:
  assumes wf: "skill_wf (bs_skill s)" "skill_keyed (bs_skill s)" and c: "prepare_refund e p s = Inr c"
  shows "skill_wf (bs_skill (commit_refund e rx p c s)) \<and> skill_keyed (bs_skill (commit_refund e rx p c s))"
  using c
proof (cases rule: prepare_refund_done)
  case (1 order user at sg createdAt)
  note sel = commit_refund_skill [of e rx p c s, unfolded 1(6)]
  have parts: "plans_wf (bs_skill s)" "subs_wf (bs_skill s)" "ents_wf (bs_skill s)" "bindings_wf (bs_skill s)"
    using wf by (simp_all add: skill_wf_def)
  have keyed: "skill_keyed (bs_skill (commit_refund e rx p c s))" by (rule keyed_fold [OF wf(2) sel(6)])
  show ?thesis
  proof (cases "or_type order = PlanOrder")
    case True
    with 1(2) have "sg_subscription sg = None \<and> sg_cloud sg = []"
      by (auto simp: stage_refund_def stage_pack_refund_def nothing_staged_def Let_def split: option.splits if_splits)
    then have "bs_skill (commit_refund e rx p c s) = bs_skill s" using 1(6)
      by (simp add: commit_refund_def write_cloud_def write_refunded_subscription_def Let_def)
    with wf show ?thesis by simp
  next
    case False
    with 1(2) have "stage_cloud_refund order at s = Inr sg" by (simp add: stage_refund_def)
    then show ?thesis
    proof (cases rule: stage_cloud_refund_done)
      case st: (1 sub)
      note row = order_subscription [OF st(1) parts(2)]
      have "subs_wf (bs_skill (commit_refund e rx p c s))"
        by (rule subs_wf_set [OF parts(2), of "sub\<lparr>sb_status := SubRefunded, sb_refunded_at := Some at\<rparr>"])
          (use row sel st(4) in auto)
      moreover have "ents_wf (bs_skill (commit_refund e rx p c s))"
        unfolding ents_wf_def
      proof (intro conjI allI impI)
        show "map_ok (ks_entitlements (bs_skill (commit_refund e rx p c s)))"
          using parts(3) by (auto simp: sel(6) ents_wf_def intro: fold_set_ok)
        fix i en
        assume "map_get (ks_entitlements (bs_skill (commit_refund e rx p c s))) i = Some en"
        then obtain en0 where en0: "map_get (ks_entitlements (bs_skill s)) i = Some en0"
          and en: "en = (if ce_subscription_id en0 = sb_subscription_id sub then en0\<lparr>ce_status := CsRevoked\<rparr> else en0)"
          using refunded_rows [OF wf(2)] parts(3) unfolding sel(6) st(5) ents_wf_def by blast
        obtain b0 where "map_get (ks_subscriptions (bs_skill s)) (ce_subscription_id en0) = Some b0"
          "sb_user_id b0 = ce_user_id en0" "sb_tenant_id b0 = ce_tenant_id en0" "sb_plan_id b0 = ce_plan_id en0"
          "ce_status en0 = CsActive \<longrightarrow> sb_status b0 = SubActive"
          using parts(3) en0 unfolding ents_wf_def by blast
        then show "\<exists>b. map_get (ks_subscriptions (bs_skill (commit_refund e rx p c s))) (ce_subscription_id en) = Some b \<and>
            sb_user_id b = ce_user_id en \<and> sb_tenant_id b = ce_tenant_id en \<and> sb_plan_id b = ce_plan_id en \<and>
            (ce_status en = CsActive \<longrightarrow> sb_status b = SubActive)"
          using en row(1) by (cases "ce_subscription_id en0 = sb_subscription_id sub") (auto simp: sel(4) st(4))
      qed
      ultimately show ?thesis
        using keyed plans_bindings_same(1) [OF _ sel(1)] plans_bindings_same(2) [OF _ sel(2,3)] parts
        by (simp add: skill_wf_def)
    qed
  qed
qed


subsection \<open>Executions of the stores together\<close>

lemma same_entitlements:
  "ks_entitlements (fst (createCloudSkillPlan e np s)) = ks_entitlements s"
  "ks_entitlements (fst (updateCloudSkillPlan i pp s)) = ks_entitlements s"
  "ks_entitlements (fst (createCloudSkillSubscription e ns s)) = ks_entitlements s"
  "ks_entitlements (fst (upsertCloudAgentSkillBinding e bq s)) = ks_entitlements s"
  "ks_entitlements (fst (revokeCloudAgentSkillBinding e i s)) = ks_entitlements s"
  by (simp_all add: createCloudSkillPlan_def updateCloudSkillPlan_def createCloudSkillSubscription_def
      upsertCloudAgentSkillBinding_def insert_binding_def revokeCloudAgentSkillBinding_def Let_def split: option.split)

lemma skill_keyed_each:
  "skill_keyed s \<Longrightarrow> ks_entitlements t = map_each f (ks_entitlements s) \<Longrightarrow> (\<And>en. ce_entitlement_id (f en) = ce_entitlement_id en) \<Longrightarrow>
    skill_keyed t"
  by (auto simp: skill_keyed_def)

lemma skill_step_keyed: "skill_step s t \<Longrightarrow> skill_wf s \<Longrightarrow> skill_keyed s \<Longrightarrow> skill_keyed t"
proof (induction rule: skill_step.induct)
  case (grant s e p)
  have ok: "map_ok (ks_entitlements s)" using grant.prems(1) by (simp add: skill_wf_def ents_wf_def)
  then show ?case using grant.prems(2)
    by (auto simp: skill_keyed_def grantCloudSkillEntitlement_def Let_def dest!: map_find_get [OF ok] split: option.splits)
next
  case (status s e i st at)
  then show ?case
  proof (cases "map_get (ks_subscriptions s) i")
    case (Some b)
    then show ?thesis
      using status.prems(2) skill_keyed_each [OF status.prems(2), of _ "\<lambda>en. if ce_subscription_id en = sb_subscription_id b \<and>
          ce_status en = CsActive then en\<lparr>ce_status := CsRevoked\<rparr> else en"]
      by (simp add: updateCloudSkillSubscriptionStatus_def revoke_of_def Let_def) (simp add: skill_keyed_def)
  qed (simp add: updateCloudSkillSubscriptionStatus_def)
next
  case (revoke s i)
  then show ?case by (auto simp: skill_keyed_def revokeCloudSkillEntitlement_def Let_def split: option.split)
qed (simp_all add: skill_keyed_def same_entitlements)

lemma same_packs:
  "ds_entitlements (fst (registerDevice e rd s)) = ds_entitlements s"
  "ds_entitlements (fst (bindDevice i u s)) = ds_entitlements s"
  "ds_entitlements (fst (updateDeviceVersion i u s)) = ds_entitlements s"
  "ds_entitlements (fst (updateDeviceOperations i patch s)) = ds_entitlements s"
  "ds_entitlements (fst (createActivationCode e ca s)) = ds_entitlements s"
  "ds_entitlements (fst (revokeActivationCode a s)) = ds_entitlements s"
  by (simp_all add: registerDevice_def bindDevice_def updateDeviceVersion_def updateDeviceOperations_def update_device_def
      createActivationCode_def revokeActivationCode_def Let_def split: option.split)

definition keyed_packs :: "(string, EntitlementRecord) js_map \<Rightarrow> bool" where
  "keyed_packs m \<longleftrightarrow> map_ok m \<and> (\<forall>i en. map_get m i = Some en \<longrightarrow> en_entitlement_id en = i)"

lemma keyed_packs_set: "keyed_packs m \<Longrightarrow> en_entitlement_id en = i \<Longrightarrow> keyed_packs (map_set i en m)"
  by (auto simp: keyed_packs_def)

lemma keyed_packs_each: "keyed_packs m \<Longrightarrow> (\<And>en. en_entitlement_id (f en) = en_entitlement_id en) \<Longrightarrow> keyed_packs (map_each f m)"
  unfolding keyed_packs_def by (auto simp del: map_keys_each)

lemma keyed_packs_fold: "keyed_packs m \<Longrightarrow> keyed_packs (fold (\<lambda>en. map_set (en_entitlement_id en) en) xs m)"
  by (induction xs arbitrary: m) (auto intro: keyed_packs_set)

lemma keyed_packs_grant: "keyed_packs m \<Longrightarrow> keyed_packs (grant_packs e device code now packs k m)"
  by (induction e device code now packs k m rule: grant_packs.induct)
    (simp_all add: keyed_packs_set pack_entitlement_def)

lemma keyed_packs_revoke: "keyed_packs m \<Longrightarrow> keyed_packs (revoke_previous device m)"
  by (simp add: revoke_previous_def keyed_packs_each split: option.split)

lemma keyed_packs_grantEntitlement:
  assumes "keyed_packs (ds_entitlements s)"
  shows "keyed_packs (ds_entitlements (fst (grantEntitlement e p s)))"
proof (cases "granted_before p (ds_entitlements s)")
  case None
  then show ?thesis using assms by (simp add: grantEntitlement_def Let_def keyed_packs_set)
next
  case (Some row)
  obtain k en where row: "row = (k, en)" by (cases row)
  have "map_get (ds_entitlements s) k = Some en"
    using Some assms map_find_get row by (auto simp: granted_before_def keyed_packs_def split: option.splits)
  then have "en_entitlement_id en = k" using assms by (simp add: keyed_packs_def)
  then show ?thesis using Some assms row by (simp add: grantEntitlement_def Let_def keyed_packs_set)
qed

lemma device_step_packs: "device_step s t \<Longrightarrow> keyed_packs (ds_entitlements s) \<Longrightarrow> keyed_packs (ds_entitlements t)"
proof (induction rule: device_step.induct)
  case (redeem s e rp)
  then show ?case
    by (simp add: redeemActivationCode_def Let_def keyed_packs_grant keyed_packs_revoke split: option.split)
next
  case (revoke s i)
  then show ?case
    by (cases "map_get (ds_entitlements s) i")
      (auto simp: revokeEntitlement_def Let_def keyed_packs_def intro!: keyed_packs_set [unfolded keyed_packs_def])
qed (simp_all add: same_packs keyed_packs_grantEntitlement)

text \<open>
  The steps of the store as a whole: an operation of accounts, products, orders or the wallet, a
  settlement, or an operation of the Cloud Skill or the device store.
\<close>

inductive store_step :: "billing_store \<Rightarrow> billing_store \<Rightarrow> bool" where
  billing: "billing_step s t \<Longrightarrow> bs_skill t = bs_skill s \<Longrightarrow> bs_device t = bs_device s \<Longrightarrow> store_step s t"
| payment: "map_get (bs_settlements s) (''bst-'' @ uuid e 0) = None \<Longrightarrow> fresh_skill_ids e (bs_skill s) \<Longrightarrow>
    store_step s (fst (settleOrderPayment e p s))"
| refund: "map_get (bs_settlements s) (''bst-'' @ uuid e 0) = None \<Longrightarrow> store_step s (fst (settleOrderRefund e rx q s))"
| skill: "skill_step (bs_skill s) ks \<Longrightarrow> store_step s (s\<lparr>bs_skill := ks\<rparr>)"
| device: "device_step (bs_device s) d \<Longrightarrow> store_step s (s\<lparr>bs_device := d\<rparr>)"

definition store_wf :: "billing_store \<Rightarrow> bool" where
  "store_wf s \<longleftrightarrow> billing_wf s \<and> skill_wf (bs_skill s) \<and> skill_keyed (bs_skill s) \<and>
    keyed_packs (ds_entitlements (bs_device s))"

lemma store_wf_empty: "store_wf empty_billing_store"
  using billing_wf_empty skill_wf_empty
  by (simp add: store_wf_def empty_billing_store_def skill_keyed_def empty_skill_store_def
      keyed_packs_def empty_device_store_def)

lemma billing_wf_others: "billing_wf (s\<lparr>bs_skill := ks\<rparr>) = billing_wf s" "billing_wf (s\<lparr>bs_device := d\<rparr>) = billing_wf s"
  by (simp_all add: billing_wf_def settlements_ok_def)

lemma settle_store_wf [inv_intro]:
  assumes "store_wf s"
  shows "fresh_skill_ids e (bs_skill s) \<Longrightarrow> store_wf (fst (settleOrderPayment e p s))"
    and "store_wf (fst (settleOrderRefund e rx q s))"
proof -
  have wf: "billing_wf s" "skill_wf (bs_skill s)" "skill_keyed (bs_skill s)" "keyed_packs (ds_entitlements (bs_device s))"
    using assms by (simp_all add: store_wf_def)
  show "store_wf (fst (settleOrderPayment e p s))" if fresh: "fresh_skill_ids e (bs_skill s)"
    using settle_fst_cases(1) [of e p s]
  proof (elim disjE exE conjE)
    fix c
    assume c: "prepare_payment e p s = Inr c" "fst (settleOrderPayment e p s) = commit_payment c s"
    then show ?thesis
      using commit_payment_skill_wf [OF wf(2,3) fresh c(1)] settleOrderPayment_wf [OF wf(1), of e p] keyed_packs_fold [OF wf(4)]
      by (simp add: store_wf_def commit_packs)
  qed (use assms in simp)
  show "store_wf (fst (settleOrderRefund e rx q s))"
    using settle_fst_cases(2) [of e rx q s]
  proof (elim disjE exE conjE)
    fix c
    assume c: "prepare_refund e q s = Inr c" "fst (settleOrderRefund e rx q s) = commit_refund e rx q c s"
    then show ?thesis
      using commit_refund_skill_wf [OF wf(2,3) c(1), of rx] settleOrderRefund_wf [OF wf(1), of e rx q] keyed_packs_fold [OF wf(4)]
      by (simp add: store_wf_def commit_packs)
  qed (use assms in simp)
qed

lemma store_step_wf: "store_step s t \<Longrightarrow> store_wf s \<Longrightarrow> store_wf t"
proof (induction rule: store_step.induct)
  case (skill s ks)
  then show ?case using skill_step_wf skill_step_keyed by (simp add: store_wf_def billing_wf_others)
next
  case (billing s t)
  then show ?case by (simp add: store_wf_def billing_step_wf)
next
  case (device s d)
  then show ?case using device_step_packs by (simp add: store_wf_def billing_wf_others)
qed (blast intro: settle_store_wf)+

interpretation store_run: step_invariant store_step store_wf
  by unfold_locales (rule store_step_wf)


subsection \<open>Properties\<close>

lemma has_access:
  assumes "queryValue (aq_user_id q) (aq_userId q) = Some u" "queryValue (aq_tenant_id q) (aq_tenantId q) = Some t"
    "queryValue (aq_skill_id q) (aq_skillId q) = Some k" and now: "now = case_option (now_iso e 0) id (aq_now q)"
    and "en \<in> set (map_values (ks_entitlements s))" "access_candidate u t k (allowed_plans q) now en"
    "access_grant u t k now s en = Some g"
  shows "hasCloudSkillAccess e q s"
proof -
  have "en \<in> set (js_sort (\<lambda>l r. localeCompare e (ce_created_at r) (ce_created_at l))
      (filter (access_candidate u t k (allowed_plans q) now) (map_values (ks_entitlements s))))"
    using assms(5,6) by simp
  then have "resolveCloudSkillAccess e q s \<noteq> None"
    unfolding resolve_cases [OF assms(1-3)] first_grant_None now using assms(7) now by fastforce
  then show ?thesis by (simp add: hasCloudSkillAccess_def)
qed

lemma replay_replayed: "billingSettlementReplay op i k h m f s = Inr (Some r) \<Longrightarrow> rs_replayed r"
  by (auto simp: billingSettlementReplay_def billingSettlementResultClone_def Let_def split: if_splits option.splits)

text \<open>The row staged for a Skill of the plan is in the store after the commit.\<close>

lemma staged_row_stored:
  assumes wf: "skill_wf ks" "skill_keyed ks" and fresh: "fresh_skill_ids e ks"
    and plan: "map_get (ks_plans ks) planId = Some plan" "k \<in> set (pl_skill_ids plan)"
    and rows: "rows = fst (stage_skills e order t pl sub ex cr (ks_entitlements ks) (js_sort code_unit_compare (pl_skill_ids plan)) j)"
  obtains en where "en \<in> set (map_values (fold (\<lambda>en. map_set (ce_entitlement_id en) en) rows (ks_entitlements ks)))"
    "ce_skill_id en = k" "ce_subscription_id en = sub" "ce_tenant_id en = t" "ce_user_id en = or_user_id order" "ce_plan_id en = pl"
    "ce_status en = CsActive" "ce_expires_at en = ex"
proof -
  have keyed: "\<And>i en. map_get (ks_entitlements ks) i = Some en \<Longrightarrow> ce_entitlement_id en = i"
    and ok: "map_ok (ks_entitlements ks)" using wf by (simp_all add: skill_keyed_def skill_wf_def ents_wf_def)
  have skills: "distinct (js_sort code_unit_compare (pl_skill_ids plan))" "k \<in> set (js_sort code_unit_compare (pl_skill_ids plan))"
    using wf(1) plan by (auto simp: skill_wf_def plans_wf_def plan_ok_def)
  obtain en where en: "en \<in> set rows" "ce_skill_id en = k"
    using stage_skills_covers [OF ok keyed skills(2)] unfolding rows by blast
  have "distinct (map ce_entitlement_id rows)"
    using stage_skills_distinct [OF ok keyed _ _ skills(1)] fresh unfolding rows by (simp add: fresh_skill_ids_def)
  from map_get_values [OF fold_set_member [OF en(1) this]] show ?thesis
    using stage_skills_rows [OF ok keyed en(1) [unfolded rows]] en(2) by (intro that) blast+
qed

text \<open>
  C2: a paid Cloud Skill order opens what it sells. After the payment of an order for a Cloud Skill plan the
  buyer has access, in the order's tenant, to every Skill the plan lists, at every moment from the
  start of the subscription to its end; the subscription starts when the order was paid and ends 31
  or 366 days later. Ids drawn at random are fresh.
\<close>

theorem payment_opens_access:
  assumes "store_step\<^sup>*\<^sup>* empty_billing_store s" and call: "settleOrderPayment e p s = (s1, Inr r)" and new: "\<not> rs_replayed r"
    and type: "or_type (rs_order r) = CloudSkillPlanOrder" and fresh: "fresh_skill_ids e (bs_skill s)"
    and plan: "or_plan_id (rs_order r) = Some planId" "getCloudSkillPlan planId (bs_skill s) = Some plan" "k \<in> set (pl_skill_ids plan)"
    and q: "queryValue (aq_user_id q) (aq_userId q) = Some (sp_user_id p)"
      "queryValue (aq_tenant_id q) (aq_tenantId q) = or_tenant_id (rs_order r)"
      "queryValue (aq_skill_id q) (aq_skillId q) = Some k"
      "case allowed_plans q of None \<Rightarrow> True | Some ps \<Rightarrow> planId \<in> set ps"
    and now: "now = case_option (now_iso e' 0) id (aq_now q)"
  shows "\<exists>sub. rs_subscription r = Some sub \<and> Some (sb_starts_at sub) = or_paid_at (rs_order r) \<and>
    (\<exists>start. date_parse e (sb_starts_at sub) = Some start \<and>
      sb_expires_at sub = toISOString (start + period_days (sb_period sub) * msPerDay)) \<and>
    (sb_starts_at sub \<le> now \<longrightarrow> now < sb_expires_at sub \<longrightarrow> hasCloudSkillAccess e' q (bs_skill s1))"
  using call
proof (cases rule: settleOrderPayment_cases)
  case (replay r')
  then show ?thesis using replay_replayed new by blast
next
  case (settled c)
  have "store_wf s" by (rule store_run.run_inv [OF assms(1) store_wf_empty])
  then have wf: "skill_wf (bs_skill s)" "skill_keyed (bs_skill s)" by (simp_all add: store_wf_def)
  then have parts: "plans_wf (bs_skill s)" "subs_wf (bs_skill s)" "ents_wf (bs_skill s)" by (simp_all add: skill_wf_def)
  note sel = commit_payment_skill [of c s]
  from settled(2) show ?thesis
  proof (cases rule: prepare_payment_done)
    case (1 order user paidAt sg j createdAt)
    let ?order = "order\<lparr>or_status := OrderPaid, or_pay_method := Some (sp_method p), or_paid_at := Some paidAt\<rparr>"
    have r: "rs_order r = ?order" using settled(4) 1(9) by simp
    have "stage_cloud_order e ?order paidAt createdAt (if snd (wallet_change order (sp_method p)) = None then 1 else 2) s = Inr (sg, j)"
      using 1(2) type unfolding r by (simp add: stage_payment_def)
    then show ?thesis
    proof (cases rule: stage_cloud_order_done)
      case st: (1 planId' tenantId period plan' expiresAt sub j')
      note row = staged_subscription_row [OF st(8) parts(2)]
      have [simp]: "planId' = planId" "plan' = plan" "pl_plan_id plan = planId"
        using st(1,6) plan(1,2) parts(1) unfolding r by (simp_all add: getCloudSkillPlan_def plans_wf_def)
      obtain start where start: "date_parse e paidAt = Some start" "expiresAt = toISOString (start + period_days period * msPerDay)"
        using st(7) by (auto simp: billingPeriodExpiry_def iso_string_def msPerDay_def mult.commute split: option.splits if_splits)
      have period: "sb_period sub = period"
        using st(8) by (auto simp: staged_subscription_def split: option.splits if_splits)
      obtain en where stored: "en \<in> set (map_values (ks_entitlements (bs_skill s1)))" and fields: "ce_skill_id en = k"
        "ce_subscription_id en = sb_subscription_id sub" "ce_tenant_id en = tenantId" "ce_user_id en = or_user_id order"
        "ce_plan_id en = planId" "ce_status en = CsActive" "ce_expires_at en = expiresAt"
        by (rule staged_row_stored [OF wf fresh plan(2) [unfolded getCloudSkillPlan_def] plan(3)], rule st(11) [simplified],
            rule that) (use sel(6) 1(7) settled(3) in simp_all)
      have sub1: "map_get (ks_subscriptions (bs_skill s1)) (sb_subscription_id sub) = Some sub"
        and plan1: "map_get (ks_plans (bs_skill s1)) planId = Some plan"
        using settled(3) sel(1,4) 1(7) st(10) plan(2) by (simp_all add: getCloudSkillPlan_def)
      have user: "or_user_id order = sp_user_id p" by (rule payment_preconditions_done(2) [OF 1(1)])
      have "hasCloudSkillAccess e' q (bs_skill s1)" if "sb_starts_at sub \<le> now" "now < sb_expires_at sub"
      proof (rule has_access [OF q(1) _ q(3) now stored])
        show tenant: "queryValue (aq_tenant_id q) (aq_tenantId q) = Some tenantId" using q(2) st(3) r by simp
        show "access_candidate (sp_user_id p) tenantId k (allowed_plans q) now en"
          using fields that row user q(4) by (simp add: access_candidate_def split: option.splits)
        show "access_grant (sp_user_id p) tenantId k now (bs_skill s1) en = Some \<lparr>ag_entitlement = en, ag_subscription = sub, ag_plan = plan\<rparr>"
          using fields row user sub1 plan1 that plan(3) unfolding access_grant_Some by simp
      qed
      then show ?thesis
        using settled(4) 1(12) st(10) row r start period by (intro exI [of _ sub]) simp
    qed
  qed
qed


lemma refunded_packs:
  assumes keyed: "keyed_packs m"
    and get: "map_get (fold (\<lambda>en. map_set (en_entitlement_id en) en)
      (map (\<lambda>en. en\<lparr>en_status := EntRevoked\<rparr>) (filter (\<lambda>en. en_source_order_id en = Some i) (map_values m))) m) j = Some en"
    and src: "en_source_order_id en = Some i"
  shows "en_status en = EntRevoked"
  using fold_set_cases [OF get]
proof
  assume "map_get m j = Some en \<and> (\<forall>x\<in>set (map (\<lambda>en. en\<lparr>en_status := EntRevoked\<rparr>)
      (filter (\<lambda>en. en_source_order_id en = Some i) (map_values m))). en_entitlement_id x \<noteq> j)"
  moreover from this have "en_entitlement_id en = j" "en \<in> set (map_values m)"
    using keyed map_get_values unfolding keyed_packs_def by fast+
  ultimately show ?thesis using src by auto
qed auto

lemma refund_none_active:
  assumes wf: "skill_wf (bs_skill s)" "skill_keyed (bs_skill s)" and st: "stage_cloud_refund order at s = Inr (pp_staged c)"
  shows "\<exists>sub. getCloudSkillSubscriptionByOrder (or_order_id order) (bs_skill s) = Some sub \<and>
    none_active (sb_subscription_id sub) (bs_skill (commit_refund e rx p c s))"
  using st
proof (cases rule: stage_cloud_refund_done)
  case (1 sub)
  have "ce_status en \<noteq> CsActive" if get: "map_get (ks_entitlements (bs_skill (commit_refund e rx p c s))) j = Some en"
    and sub: "ce_subscription_id en = sb_subscription_id sub" for j en
  proof -
    obtain en0 where "en = (if ce_subscription_id en0 = sb_subscription_id sub then en0\<lparr>ce_status := CsRevoked\<rparr> else en0)"
      using refunded_rows [OF wf(2) _ get [unfolded commit_refund_skill(6) 1(5)]] wf(1) unfolding skill_wf_def ents_wf_def by blast
    then show ?thesis using sub by (cases "ce_subscription_id en0 = sb_subscription_id sub") simp_all
  qed
  then show ?thesis using 1(1) unfolding none_active_def by blast
qed

lemma stage_pack_refund_done:
  "stage_pack_refund order s = Inr sg \<Longrightarrow> sg_packs sg = map (\<lambda>en. en\<lparr>en_status := EntRevoked\<rparr>)
      (filter (\<lambda>en. en_source_order_id en = Some (or_order_id order)) (map_values (ds_entitlements (bs_device s))))"
  by (auto simp: stage_pack_refund_def nothing_staged_def Let_def split: option.splits if_splits)

lemma refund_packs_revoked:
  assumes keyed: "keyed_packs (ds_entitlements (bs_device s))" and st: "stage_pack_refund order s = Inr (pp_staged c)"
    and en: "en \<in> set (listAllEntitlements (bs_device (commit_refund e rx p c s)))" "en_source_order_id en = Some (or_order_id order)"
  shows "en_status en = EntRevoked"
proof -
  note s1 = commit_packs(2) [of e rx p c s, unfolded stage_pack_refund_done [OF st]]
  have "map_ok (ds_entitlements (bs_device (commit_refund e rx p c s)))"
    using keyed keyed_packs_fold unfolding commit_packs(2) keyed_packs_def by blast
  then obtain j where "map_get (ds_entitlements (bs_device (commit_refund e rx p c s))) j = Some en"
    using map_values_get en(1) unfolding listAllEntitlements_def by metis
  then show ?thesis unfolding s1 by (rule refunded_packs [OF keyed _ en(2)])
qed

text \<open>
  C3: a refund closes what the order had opened and pays back what it cost. After the refund
  of a paid order the order is refunded and the buyer's balance is higher by its amount; no access
  to any Skill is resolved through the subscription of the order, and every pack entitlement the
  order had granted is revoked.
\<close>

theorem refund_closes_access:
  assumes "store_step\<^sup>*\<^sup>* empty_billing_store s" and call: "settleOrderRefund e rx p s = (s1, Inr r)" and new: "\<not> rs_replayed r"
  shows "\<exists>order user. getOrder (sr_order_id p) s = Some order \<and> or_status order = OrderPaid \<and>
    getUser (or_user_id order) (bs_account s) = Some user \<and>
    map_option or_status (getOrder (sr_order_id p) s1) = Some OrderRefunded \<and>
    map_option u_balance_fen (getUser (or_user_id order) (bs_account s1)) = Some (u_balance_fen user + or_amount_fen order) \<and>
    (or_type order = CloudSkillPlanOrder \<longrightarrow> (\<exists>sub. getCloudSkillSubscriptionByOrder (sr_order_id p) (bs_skill s) = Some sub \<and>
      (\<forall>x q g. resolveCloudSkillAccess x q (bs_skill s1) = Some g \<longrightarrow>
        sb_subscription_id (ag_subscription g) \<noteq> sb_subscription_id sub))) \<and>
    (or_type order = PlanOrder \<longrightarrow> (\<forall>en \<in> set (listAllEntitlements (bs_device s1)).
      en_source_order_id en = Some (sr_order_id p) \<longrightarrow> en_status en = EntRevoked))"
  using call
proof (cases rule: settleOrderRefund_cases)
  case (replay r')
  then show ?thesis using replay_replayed new by blast
next
  case (settled c)
  have "store_wf s" by (rule store_run.run_inv [OF assms(1) store_wf_empty])
  then have wf: "billing_wf s" "skill_wf (bs_skill s)" "skill_keyed (bs_skill s)" "keyed_packs (ds_entitlements (bs_device s))"
    by (simp_all add: store_wf_def)
  then have acc: "account_wf (bs_account s)" and ord: "orders_ok (bs_orders s)" by (simp_all add: billing_wf_def)
  from settled(2) show ?thesis
  proof (cases rule: prepare_refund_done)
    case (1 order user at sg createdAt)
    note pre = refund_preconditions_done [OF 1(1)]
    have id: "or_order_id order = sr_order_id p" using ord pre(1) by (simp add: orders_ok_def)
    have user: "map_get (as_users (bs_account s)) (or_user_id order) = Some (pp_user c)" using pre(4) 1(3) by simp
    have cloud: "\<exists>sub. getCloudSkillSubscriptionByOrder (sr_order_id p) (bs_skill s) = Some sub \<and>
        none_active (sb_subscription_id sub) (bs_skill s1)" if "or_type order = CloudSkillPlanOrder"
      using refund_none_active [OF wf(2,3), of order at c e rx p] that 1(2,6) settled(3) id by (simp add: stage_refund_def)
    have packs: "en_status en = EntRevoked" if "or_type order = PlanOrder" "en \<in> set (listAllEntitlements (bs_device s1))"
      "en_source_order_id en = Some (sr_order_id p)" for en
      using refund_packs_revoked [OF wf(4), of order c en e rx p] that 1(2,6) settled(3) id by (simp add: stage_refund_def)
    have wf1: "skill_wf (bs_skill s1)" using commit_refund_skill_wf [OF wf(2,3) settled(2)] settled(3) by simp
    have "map_option or_status (getOrder (sr_order_id p) s1) = Some OrderRefunded"
      using settled(3) 1(8) id by (simp add: getOrder_def commit_wallet)
    moreover have "map_option u_balance_fen (getUser (or_user_id order) (bs_account s1)) = Some (u_balance_fen user + or_amount_fen order)"
      using settled(3) 1(3,5) account_user_id [OF acc user] by (simp add: getUser_def commit_wallet set_balance_def)
    ultimately show ?thesis
      using pre(1,3,4) cloud packs none_active_no_access [OF wf1] unfolding getOrder_def getUser_def by blast
  qed
qed


subsection \<open>A subscription\<close>

definition sample_listed :: billing_store where
  "sample_listed = sample_opened\<lparr>bs_skill := fst (createCloudSkillPlan sample_env sample_plan_params empty_skill_store)\<rparr>"

definition sample_plan_order :: create_order_params where
  "sample_plan_order = \<lparr>co_user_id = ''usr-uuid-0'', co_type = CloudSkillPlanOrder, co_product_id = None, co_pack_id = None,
     co_plan_id = Some ''pro'', co_tenant_id = Some ''t'', co_period = Some Monthly, co_amount_fen = 100\<rparr>"

definition sample_bought :: billing_store where
  "sample_bought = fst (createOrder sample_env sample_plan_order sample_listed)"

definition sample_opened_access :: billing_store where
  "sample_opened_access = fst (settleOrderPayment sample_env sample_payment sample_bought)"

definition sample_opened_result :: BillingSettlementResult where
  "sample_opened_result = projr (snd (settleOrderPayment sample_env sample_payment sample_bought))"

lemma iso_expiries:
  "toISOString 1769904000000 = ''2026-02-01T00:00:00.000Z''" "toISOString 1798848000000 = ''2027-01-02T00:00:00.000Z''"
  by (simp_all add: iso_eval numeral_2_eq_2 [symmetric])

lemma sample_bought_run: "store_step\<^sup>*\<^sup>* empty_billing_store sample_bought"
proof -
  have "account_step (bs_account empty_billing_store) sample_accounts"
    unfolding sample_accounts_def empty_billing_store_def by (simp, rule account_step.user) (simp add: empty_account_store_def)
  from billing_step.account [OF this] have "store_step empty_billing_store sample_opened"
    unfolding sample_opened_def by (rule store_step.billing) simp_all
  moreover have "store_step sample_opened sample_listed"
    unfolding sample_listed_def
    by (rule store_step.skill) (simp add: sample_opened_def empty_billing_store_def skill_step.create_plan)
  moreover have "store_step sample_listed sample_bought"
    unfolding sample_bought_def
    by (rule store_step.billing, rule billing_step.order) (simp_all add: sample_plan_order_def createOrder_def Let_def)
  ultimately show ?thesis by (meson converse_rtranclp_into_rtranclp rtranclp.rtrancl_refl)
qed

lemma sample_fresh: "fresh_skill_ids sample_env (bs_skill sample_bought)"
  by (simp add: fresh_skill_ids_def sample_uuid_inj sample_bought_def createOrder_def sample_listed_def sample_plan_created Let_def)
    (simp add: empty_skill_store_def)

lemma sample_bought_eval:
  "sample_bought = empty_billing_store\<lparr>bs_account := sample_accounts,
     bs_skill := \<lparr>ks_plans = [(''pro'', sample_plan)], ks_subscriptions = [], ks_subscriptionsByOrder = [], ks_entitlements = [],
       ks_bindings = [], ks_bindingByOwner = []\<rparr>,
     bs_orders := [(''ord-uuid-0'', \<lparr>or_order_id = ''ord-uuid-0'', or_user_id = ''usr-uuid-0'', or_type = CloudSkillPlanOrder,
       or_product_id = None, or_pack_id = None, or_plan_id = Some ''pro'', or_tenant_id = Some ''t'', or_period = Some Monthly,
       or_amount_fen = 100, or_status = OrderPending, or_pay_method = None, or_created_at = ''2026-01-01T00:00:00.000Z'',
       or_paid_at = None, or_refunded_at = None\<rparr>)]\<rparr>"
  by (simp add: sample_bought_def createOrder_def sample_plan_order_def sample_listed_def sample_opened_def sample_plan_created
      empty_billing_store_def Let_def) (simp add: empty_skill_store_def)

lemma sample_bought_call:
  "settleOrderPayment sample_env sample_payment sample_bought = (sample_opened_access, Inr sample_opened_result) \<and>
   \<not> rs_replayed sample_opened_result \<and> or_type (rs_order sample_opened_result) = CloudSkillPlanOrder \<and>
   or_plan_id (rs_order sample_opened_result) = Some ''pro'' \<and> or_tenant_id (rs_order sample_opened_result) = Some ''t'' \<and>
   or_paid_at (rs_order sample_opened_result) = Some ''2026-01-01T00:00:00.000Z''"
proof -
  have "\<exists>r. snd (settleOrderPayment sample_env sample_payment sample_bought) = Inr r \<and> \<not> rs_replayed r \<and>
      or_type (rs_order r) = CloudSkillPlanOrder \<and> or_plan_id (rs_order r) = Some ''pro'' \<and>
      or_tenant_id (rs_order r) = Some ''t'' \<and> or_paid_at (rs_order r) = Some ''2026-01-01T00:00:00.000Z''"
    by (simp add: settleOrderPayment_def billingSettlementReplay_def prepare_payment_def payment_preconditions_def
        sample_payment_def sample_bought_eval sample_accounts_eval empty_billing_store_def wallet_change_def stage_payment_def stage_cloud_order_def
        staged_subscription_def staged_skill_def getCloudSkillSubscriptionByOrder_def billingPeriodExpiry_def iso_string_def
        valid_time_def period_days_def sample_plan_def js_sort_def sample_date map_find_def Let_def
        sample_user_def createUser_def empty_account_store_def billingSettlementResultClone_def)
  then show ?thesis by (auto simp: sample_opened_access_def sample_opened_result_def prod_eq_iff)
qed

definition sample_skill_query :: CloudSkillAccessQuery where
  "sample_skill_query = sample_query\<lparr>aq_user_id := Some ''usr-uuid-0'', aq_now := Some ''2026-01-15T00:00:00.000Z''\<rparr>"

theorem payment_opens_access_witness: "hasCloudSkillAccess sample_env sample_skill_query (bs_skill sample_opened_access)"
proof -
  have call: "settleOrderPayment sample_env sample_payment sample_bought = (sample_opened_access, Inr sample_opened_result)"
    "\<not> rs_replayed sample_opened_result" "or_type (rs_order sample_opened_result) = CloudSkillPlanOrder"
    "or_plan_id (rs_order sample_opened_result) = Some ''pro''" "or_tenant_id (rs_order sample_opened_result) = Some ''t''"
    "or_paid_at (rs_order sample_opened_result) = Some ''2026-01-01T00:00:00.000Z''" using sample_bought_call by blast+
  have plan: "getCloudSkillPlan ''pro'' (bs_skill sample_bought) = Some sample_plan" "''a.skill.b'' \<in> set (pl_skill_ids sample_plan)"
    by (simp_all add: sample_bought_eval getCloudSkillPlan_def sample_plan_def)
  have query: "queryValue (aq_user_id sample_skill_query) (aq_userId sample_skill_query) = Some (sp_user_id sample_payment)"
    "queryValue (aq_tenant_id sample_skill_query) (aq_tenantId sample_skill_query) = or_tenant_id (rs_order sample_opened_result)"
    "queryValue (aq_skill_id sample_skill_query) (aq_skillId sample_skill_query) = Some ''a.skill.b''"
    "case allowed_plans sample_skill_query of None \<Rightarrow> True | Some ps \<Rightarrow> ''pro'' \<in> set ps"
    "''2026-01-15T00:00:00.000Z'' = case_option (now_iso sample_env 0) id (aq_now sample_skill_query)"
    by (simp_all add: call(5) sample_payment_def sample_skill_query_def sample_query_def queryValue_def allowed_plans_def)
  obtain sub :: CloudSkillSubscriptionRecord and start where sub: "sb_starts_at sub = ''2026-01-01T00:00:00.000Z''"
    "date_parse sample_env (sb_starts_at sub) = Some start" "sb_expires_at sub = toISOString (start + period_days (sb_period sub) * msPerDay)"
    and access: "sb_starts_at sub \<le> ''2026-01-15T00:00:00.000Z'' \<longrightarrow> ''2026-01-15T00:00:00.000Z'' < sb_expires_at sub \<longrightarrow>
      hasCloudSkillAccess sample_env sample_skill_query (bs_skill sample_opened_access)"
    using payment_opens_access [OF sample_bought_run call(1-3) sample_fresh call(4) plan query] unfolding call(6) option.inject
    by blast
  have "sb_expires_at sub \<in> {''2026-02-01T00:00:00.000Z'', ''2027-01-02T00:00:00.000Z''}"
    using sub iso_expiries by (cases "sb_period sub") (simp_all add: sample_date period_days_def msPerDay_def)
  then have "''2026-01-15T00:00:00.000Z'' < sb_expires_at sub" by auto
  with access sub(1) show ?thesis by simp
qed

definition sample_refund :: SettleOrderRefundParams where
  "sample_refund = \<lparr>sr_order_id = ''ord-uuid-0'', sr_actor = ''admin'', sr_idempotency_key = ''key-r'', sr_request_hash = ''v1:hash'',
     sr_provider_reference = None, sr_refunded_at = None\<rparr>"

lemma sample_refund_call:
  "\<exists>r s1. settleOrderRefund sample_env id sample_refund sample_opened_access = (s1, Inr r) \<and> \<not> rs_replayed r"
proof -
  have "\<exists>r. snd (settleOrderRefund sample_env id sample_refund sample_opened_access) = Inr r \<and> \<not> rs_replayed r"
    unfolding sample_opened_access_def
    by (simp add: settleOrderPayment_def billingSettlementReplay_def prepare_payment_def payment_preconditions_def
        sample_payment_def sample_bought_eval sample_accounts_eval empty_billing_store_def wallet_change_def stage_payment_def stage_cloud_order_def
        staged_subscription_def staged_skill_def getCloudSkillSubscriptionByOrder_def billingPeriodExpiry_def iso_string_def
        valid_time_def period_days_def sample_plan_def js_sort_def sample_date map_find_def Let_def
        sample_user_def createUser_def empty_account_store_def billingSettlementResultClone_def
        settleOrderRefund_def prepare_refund_def refund_preconditions_def stage_refund_def stage_cloud_refund_def
        commit_payment_def write_order_def write_packs_def write_cloud_def write_settlement_def write_paid_subscription_def
        payment_settlement_def payment_outbox_def getCloudSkillSubscription_def sample_refund_def order_lookup_def key_lookup_def)
  then show ?thesis by (metis prod.collapse)
qed

lemma sample_opened_run: "store_step\<^sup>*\<^sup>* empty_billing_store sample_opened_access"
proof -
  have "store_step sample_bought sample_opened_access"
    unfolding sample_opened_access_def
    by (rule store_step.payment [OF _ sample_fresh]) (simp add: sample_bought_eval empty_billing_store_def)
  with sample_bought_run show ?thesis by simp
qed

theorem refund_closes_access_witness:
  "\<exists>s1. map_option or_status (getOrder ''ord-uuid-0'' s1) = Some OrderRefunded \<and>
    s1 = fst (settleOrderRefund sample_env id sample_refund sample_opened_access)"
proof -
  obtain r s1 where call: "settleOrderRefund sample_env id sample_refund sample_opened_access = (s1, Inr r)" "\<not> rs_replayed r"
    using sample_refund_call by blast
  from refund_closes_access [OF sample_opened_run call]
  have "map_option or_status (getOrder (sr_order_id sample_refund) s1) = Some OrderRefunded" by blast
  with call show ?thesis by (simp add: sample_refund_def)
qed

end
