(* ===== verification/Billing_Outbox.thy ===== *)
theory Billing_Outbox
  imports Billing_Store
begin

text \<open>
  The transactional outbox of billing events: the lease operations of \<^verbatim>\<open>MemoryStore\<close>
  (\<^verbatim>\<open>apps/longhub-cloud-api/src/memory-store.ts\<close>) and the worker that publishes the events
  (\<^verbatim>\<open>apps/longhub-cloud-api/src/billing-outbox.ts\<close>). The worker awaits the store and the publisher, so
  other callers act on the outbox between its steps; the model takes what they do as an arbitrary
  function of the outbox. The lemmas show that a lease is exclusive, that a delivered event is
  final, that the counts of a run add up under any interference, and that an undisturbed run delivers.
\<close>

type_synonym outbox = "(string, BillingOutboxRecord) js_map"

subsection \<open>Normalised arguments\<close>

definition DEFAULT_BILLING_OUTBOX_LEASE_MS :: int where
  "DEFAULT_BILLING_OUTBOX_LEASE_MS = 30000"

definition MAX_BILLING_OUTBOX_LEASE_MS :: int where
  "MAX_BILLING_OUTBOX_LEASE_MS = 5 * 60000"

text \<open>\<^verbatim>\<open>Number.isSafeInteger(value) && value >= lo && value <= hi\<close>\<close>

definition safe_within :: "int \<Rightarrow> int \<Rightarrow> js_number \<Rightarrow> int option" where
  "safe_within lo hi value = (case safeInteger value of None \<Rightarrow> None | Some i \<Rightarrow> if lo \<le> i \<and> i \<le> hi then Some i else None)"

definition normalizeBillingOutboxLimit :: "js_number option \<Rightarrow> int option" where
  "normalizeBillingOutboxLimit value = (case value of None \<Rightarrow> Some 25 | Some n \<Rightarrow> safe_within 1 100 n)"

definition normalizeBillingOutboxLease :: "js_number option \<Rightarrow> int option" where
  "normalizeBillingOutboxLease value =
    (case value of None \<Rightarrow> Some DEFAULT_BILLING_OUTBOX_LEASE_MS | Some n \<Rightarrow> safe_within 1000 MAX_BILLING_OUTBOX_LEASE_MS n)"

text \<open>\<open>i\<close> is the index of the clock reading the call would take.\<close>

definition parseBillingOutboxTime :: "js_env \<Rightarrow> nat \<Rightarrow> string option \<Rightarrow> int option" where
  "parseBillingOutboxTime e i value = (case value of None \<Rightarrow> Some (clock e i) | Some s \<Rightarrow> date_parse e s)"

definition validBillingOutboxLockToken :: "string \<Rightarrow> bool" where
  "validBillingOutboxLockToken value \<longleftrightarrow>
    starts_with ''bol-'' value \<and> all_within (\<lambda>c. is_hex c \<or> c = CHR ''-'') 36 36 (drop 4 value)"

definition validBillingOutboxErrorCode :: "string \<Rightarrow> bool" where
  "validBillingOutboxErrorCode value = head_tail is_upper (\<lambda>c. is_upper c \<or> is_digit c \<or> c = CHR ''_'') 0 63 value"

subsection \<open>The lease operations of the store\<close>

definition listBillingOutbox :: "js_env \<Rightarrow> outbox \<Rightarrow> BillingOutboxRecord list" where
  "listBillingOutbox e ob = js_sort (\<lambda>l r. localeCompare e (ob_created_at l) (ob_created_at r)) (map_values ob)"

record BillingOutboxClaimParams =
  cl_limit :: "js_number option"
  cl_lease_ms :: "js_number option"
  cl_now :: "string option"

text \<open>\<^verbatim>\<open>Date.parse(s) <= t\<close>; a string that is no date is never at or before a time.\<close>

definition at_or_before :: "js_env \<Rightarrow> string \<Rightarrow> int \<Rightarrow> bool" where
  "at_or_before e s t = (case date_parse e s of None \<Rightarrow> False | Some d \<Rightarrow> d \<le> t)"

definition claimable :: "js_env \<Rightarrow> int \<Rightarrow> BillingOutboxRecord \<Rightarrow> bool" where
  "claimable e now record \<longleftrightarrow> truthy (ob_published_at record) = None \<and> truthy (ob_dead_lettered_at record) = None \<and>
    at_or_before e (ob_available_at record) now \<and>
    (case ob_locked_until record of None \<Rightarrow> True | Some u \<Rightarrow> at_or_before e u now)"

definition claim_order :: "js_env \<Rightarrow> BillingOutboxRecord \<Rightarrow> BillingOutboxRecord \<Rightarrow> int" where
  "claim_order e l r = cmp_then (localeCompare e (ob_available_at l) (ob_available_at r))
    (cmp_then (localeCompare e (ob_created_at l) (ob_created_at r)) (localeCompare e (ob_outbox_id l) (ob_outbox_id r)))"

definition lock_record :: "string \<Rightarrow> string \<Rightarrow> BillingOutboxRecord \<Rightarrow> BillingOutboxRecord" where
  "lock_record lockToken lockedUntil record =
    record\<lparr>ob_attempts := ob_attempts record + 1, ob_lock_token := Some lockToken,
           ob_locked_until := Some lockedUntil, ob_last_error := None\<rparr>"

text \<open>The records are mutated in the map, so each is taken with the key it is held under.\<close>

definition claimBillingOutbox ::
  "js_env \<Rightarrow> BillingOutboxClaimParams \<Rightarrow> outbox \<Rightarrow> outbox \<times> (billing_error + BillingOutboxRecord list)" where
  "claimBillingOutbox e p ob =
    (case (normalizeBillingOutboxLimit (cl_limit p), normalizeBillingOutboxLease (cl_lease_ms p),
           parseBillingOutboxTime e 0 (cl_now p)) of
       (Some limit, Some leaseMs, Some now) \<Rightarrow>
         (case iso_string (now + leaseMs) of
            None \<Rightarrow> (ob, Inl RANGE_ERROR)
          | Some lockedUntil \<Rightarrow>
              let lockToken = ''bol-'' @ uuid e 0;
                  claimed = map (\<lambda>(k, record). (k, lock_record lockToken lockedUntil record))
                    (take (nat limit) (js_sort (\<lambda>l r. claim_order e (snd l) (snd r))
                      (filter (\<lambda>kv. claimable e now (snd kv)) ob)))
              in (fold (\<lambda>(k, record). map_set k record) claimed ob, Inr (map snd claimed)))
     | _ \<Rightarrow> (ob, Inr []))"

text \<open>The record is still leased under the token at the given time, and not delivered.\<close>

definition holds_lease :: "js_env \<Rightarrow> string \<Rightarrow> int \<Rightarrow> BillingOutboxRecord \<Rightarrow> bool" where
  "holds_lease e lockToken t record \<longleftrightarrow>
    ob_lock_token record = Some lockToken \<and> ob_published_at record = None \<and> ob_dead_lettered_at record = None \<and>
    (case ob_locked_until record of None \<Rightarrow> False | Some u \<Rightarrow> \<not> at_or_before e u t)"

definition completeBillingOutbox ::
  "js_env \<Rightarrow> string \<Rightarrow> string \<Rightarrow> string option \<Rightarrow> outbox \<Rightarrow> outbox \<times> bool" where
  "completeBillingOutbox e outboxId lockToken publishedAt ob =
    (case (map_get ob outboxId, parseBillingOutboxTime e 0 publishedAt) of
       (Some record, Some completedAt) \<Rightarrow>
         if validBillingOutboxLockToken lockToken \<and> holds_lease e lockToken completedAt record
         then (map_set outboxId (record\<lparr>ob_published_at := Some (toISOString completedAt), ob_lock_token := None,
                 ob_locked_until := None, ob_last_error := None\<rparr>) ob, True)
         else (ob, False)
     | _ \<Rightarrow> (ob, False))"

record BillingOutboxFailureParams =
  bf_outbox_id :: string
  bf_lock_token :: string
  bf_failed_at :: "string option"
  bf_retry_at :: string
  bf_error_code :: string
  bf_dead_lettered_at :: "string option"

definition failBillingOutbox :: "js_env \<Rightarrow> BillingOutboxFailureParams \<Rightarrow> outbox \<Rightarrow> outbox \<times> bool" where
  "failBillingOutbox e p ob =
    (case (map_get ob (bf_outbox_id p), parseBillingOutboxTime e 0 (bf_failed_at p), date_parse e (bf_retry_at p)) of
       (Some record, Some failedAt, Some retryAt) \<Rightarrow>
         let deadLetteredAt = (case bf_dead_lettered_at p of None \<Rightarrow> None | Some d \<Rightarrow> date_parse e d)
         in if (bf_dead_lettered_at p \<noteq> None \<and> deadLetteredAt = None) \<or>
               \<not> validBillingOutboxLockToken (bf_lock_token p) \<or> \<not> validBillingOutboxErrorCode (bf_error_code p) \<or>
               \<not> holds_lease e (bf_lock_token p) failedAt record
            then (ob, False)
            else (map_set (bf_outbox_id p) (record\<lparr>ob_available_at := toISOString retryAt, ob_lock_token := None,
                    ob_locked_until := None, ob_last_error := Some (bf_error_code p),
                    ob_dead_lettered_at := map_option toISOString deadLetteredAt\<rparr>) ob, True)
     | _ \<Rightarrow> (ob, False))"


subsection \<open>The worker\<close>

record BillingPublishedEvent =
  pe_outbox_id :: string
  pe_event_type :: BillingEventType
  pe_aggregate_id :: string
  pe_settlement_id :: string
  pe_payload :: "(string \<times> js_value) list"
  pe_created_at :: string

record worker_arguments =
  wa_batch_size :: "js_number option"
  wa_lease_ms :: "js_number option"
  wa_max_attempts :: "js_number option"
  wa_retry_base_ms :: "js_number option"
  wa_retry_max_ms :: "js_number option"

record BillingOutboxWorkerOptions =
  wo_batch_size :: int
  wo_lease_ms :: int
  wo_max_attempts :: int
  wo_retry_base_ms :: int
  wo_retry_max_ms :: int

record BillingOutboxRunResult =
  rr_claimed :: nat
  rr_published :: nat
  rr_retried :: nat
  rr_dead_lettered :: nat
  rr_lease_lost :: nat

datatype worker_error = WORKER_TYPE_ERROR | WORKER_RANGE_ERROR

text \<open>\<^verbatim>\<open>value ?? fallback\<close>\<close>

definition or_else :: "'a option \<Rightarrow> 'a \<Rightarrow> 'a" where
  "or_else value fallback = (case value of None \<Rightarrow> fallback | Some v \<Rightarrow> v)"

text \<open>The constructor: the options with their defaults, refused outside their ranges.\<close>

definition BillingOutboxWorker :: "worker_arguments \<Rightarrow> worker_error + BillingOutboxWorkerOptions" where
  "BillingOutboxWorker a =
    (case (safe_within 1 100 (or_else (wa_batch_size a) (IntNum 25)),
           safe_within 1000 (5 * 60000) (or_else (wa_lease_ms a) (IntNum 30000)),
           safe_within 1 100 (or_else (wa_max_attempts a) (IntNum 8)),
           safeInteger (or_else (wa_retry_base_ms a) (IntNum 1000)),
           safeInteger (or_else (wa_retry_max_ms a) (IntNum (5 * 60000)))) of
       (Some batch, Some lease, Some attempts, Some base, Some maximum) \<Rightarrow>
         if base < 100 \<or> maximum < base \<or> maximum > 24 * 60 * 60000 then Inl WORKER_TYPE_ERROR
         else Inr \<lparr>wo_batch_size = batch, wo_lease_ms = lease, wo_max_attempts = attempts,
                wo_retry_base_ms = base, wo_retry_max_ms = maximum\<rparr>
     | _ \<Rightarrow> Inl WORKER_TYPE_ERROR)"

definition publicEvent :: "BillingOutboxRecord \<Rightarrow> BillingPublishedEvent" where
  "publicEvent record =
    \<lparr>pe_outbox_id = ob_outbox_id record, pe_event_type = ob_event_type record, pe_aggregate_id = ob_aggregate_id record,
     pe_settlement_id = ob_settlement_id record, pe_payload = ob_payload record, pe_created_at = ob_created_at record\<rparr>"

definition retryDelay :: "int \<Rightarrow> int \<Rightarrow> int \<Rightarrow> int" where
  "retryDelay attempts baseMs maximumMs =
    (let exponent = max 0 (min 30 (attempts - 1)) in min maximumMs (baseMs * 2 ^ nat exponent))"

text \<open>
  What the worker meets: the readings of its clock (\<open>None\<close> for a value that is no valid \<^verbatim>\<open>Date\<close>),
  whether the publisher accepts the event of its \<open>i\<close>-th attempt, and what other callers did to the
  outbox while that attempt was awaited.
\<close>

record worker_world =
  ww_now :: "nat \<Rightarrow> int option"
  ww_publish :: "nat \<Rightarrow> BillingPublishedEvent \<Rightarrow> bool"
  ww_others :: "nat \<Rightarrow> outbox \<Rightarrow> outbox"

record run_state =
  rn_reading :: nat
  rn_outbox :: outbox
  rn_result :: BillingOutboxRunResult

text \<open>\<^verbatim>\<open>else result.lease_lost += 1\<close>\<close>

definition count_lost :: "BillingOutboxRunResult \<Rightarrow> BillingOutboxRunResult" where
  "count_lost res = res\<lparr>rr_lease_lost := Suc (rr_lease_lost res)\<rparr>"

text \<open>The body of the \<^verbatim>\<open>catch\<close> clause.\<close>

definition fail_record ::
  "js_env \<Rightarrow> BillingOutboxWorkerOptions \<Rightarrow> worker_world \<Rightarrow> BillingOutboxRecord \<Rightarrow> string \<Rightarrow> run_state \<Rightarrow> worker_error + run_state" where
  "fail_record e opts w record lockToken st =
    (case ww_now w (rn_reading st) of
       None \<Rightarrow> Inl WORKER_TYPE_ERROR
     | Some failedAt \<Rightarrow>
         let deadLettered = wo_max_attempts opts \<le> ob_attempts record
         in case iso_string (failedAt + retryDelay (ob_attempts record) (wo_retry_base_ms opts) (wo_retry_max_ms opts)) of
              None \<Rightarrow> Inl WORKER_RANGE_ERROR
            | Some retryAt \<Rightarrow>
                let (ob, failed) = failBillingOutbox e
                      \<lparr>bf_outbox_id = ob_outbox_id record, bf_lock_token = lockToken, bf_failed_at = Some (toISOString failedAt),
                       bf_retry_at = retryAt, bf_error_code = ''PUBLISH_FAILED'',
                       bf_dead_lettered_at = if deadLettered then Some (toISOString failedAt) else None\<rparr> (rn_outbox st);
                    res = rn_result st
                in Inr \<lparr>rn_reading = Suc (rn_reading st), rn_outbox = ob,
                        rn_result = (if \<not> failed then count_lost res
                          else if deadLettered then res\<lparr>rr_dead_lettered := Suc (rr_dead_lettered res)\<rparr>
                          else res\<lparr>rr_retried := Suc (rr_retried res)\<rparr>)\<rparr>)"

text \<open>The body of the loop over the claimed records.\<close>

definition process_record ::
  "js_env \<Rightarrow> BillingOutboxWorkerOptions \<Rightarrow> worker_world \<Rightarrow> BillingOutboxRecord \<Rightarrow> run_state \<Rightarrow> worker_error + run_state" where
  "process_record e opts w record st =
    (case truthy (ob_lock_token record) of
       None \<Rightarrow> Inr (st\<lparr>rn_result := count_lost (rn_result st)\<rparr>)
     | Some lockToken \<Rightarrow>
         let st1 = st\<lparr>rn_outbox := ww_others w (rn_reading st) (rn_outbox st)\<rparr>
         in if ww_publish w (rn_reading st) (publicEvent record)
            then (case ww_now w (rn_reading st) of
                None \<Rightarrow> fail_record e opts w record lockToken (st1\<lparr>rn_reading := Suc (rn_reading st)\<rparr>)
              | Some t \<Rightarrow>
                  let (ob, completed) = completeBillingOutbox e (ob_outbox_id record) lockToken (Some (toISOString t)) (rn_outbox st1);
                      res = rn_result st
                  in Inr \<lparr>rn_reading = Suc (rn_reading st), rn_outbox = ob,
                          rn_result = (if completed then res\<lparr>rr_published := Suc (rr_published res)\<rparr> else count_lost res)\<rparr>)
            else fail_record e opts w record lockToken st1)"

fun process_records ::
  "js_env \<Rightarrow> BillingOutboxWorkerOptions \<Rightarrow> worker_world \<Rightarrow> BillingOutboxRecord list \<Rightarrow> run_state \<Rightarrow> worker_error + run_state" where
  "process_records e opts w [] st = Inr st"
| "process_records e opts w (record # records) st =
    (case process_record e opts w record st of
       Inl x \<Rightarrow> Inl x
     | Inr st' \<Rightarrow> process_records e opts w records st')"

definition runOnce ::
  "js_env \<Rightarrow> BillingOutboxWorkerOptions \<Rightarrow> worker_world \<Rightarrow> outbox \<Rightarrow> worker_error + run_state" where
  "runOnce e opts w ob =
    (case ww_now w 0 of
       None \<Rightarrow> Inl WORKER_TYPE_ERROR
     | Some claimedAt \<Rightarrow>
         (case claimBillingOutbox e \<lparr>cl_limit = Some (IntNum (wo_batch_size opts)),
                 cl_lease_ms = Some (IntNum (wo_lease_ms opts)), cl_now = Some (toISOString claimedAt)\<rparr> ob of
            (ob1, Inl x) \<Rightarrow> Inl WORKER_RANGE_ERROR
          | (ob1, Inr records) \<Rightarrow>
              process_records e opts w records
                \<lparr>rn_reading = 1, rn_outbox = ob1,
                 rn_result = \<lparr>rr_claimed = length records, rr_published = 0, rr_retried = 0, rr_dead_lettered = 0, rr_lease_lost = 0\<rparr>\<rparr>))"

subsection \<open>What a claim returns\<close>

definition outbox_keyed :: "outbox \<Rightarrow> bool" where
  "outbox_keyed ob \<longleftrightarrow> map_ok ob \<and> (\<forall>i record. map_get ob i = Some record \<longrightarrow> ob_outbox_id record = i)"

text \<open>The claimed entries: distinct keys, each a claimable record of the map, now locked.\<close>

definition claimed_entries :: "js_env \<Rightarrow> int \<Rightarrow> int \<Rightarrow> string \<Rightarrow> outbox \<Rightarrow> (string \<times> BillingOutboxRecord) list" where
  "claimed_entries e limit now lockedUntil ob =
    map (\<lambda>(k, record). (k, lock_record (''bol-'' @ uuid e 0) lockedUntil record))
      (take (nat limit) (js_sort (\<lambda>l r. claim_order e (snd l) (snd r)) (filter (\<lambda>kv. claimable e now (snd kv)) ob)))"

lemma claim_done:
  assumes "claimBillingOutbox e p ob = (ob', Inr records)"
  obtains (skip) "ob' = ob" "records = []"
  | (claim) limit leaseMs now where "normalizeBillingOutboxLimit (cl_limit p) = Some limit"
      "normalizeBillingOutboxLease (cl_lease_ms p) = Some leaseMs" "parseBillingOutboxTime e 0 (cl_now p) = Some now"
      "ob' = fold (\<lambda>(k, record). map_set k record) (claimed_entries e limit now (toISOString (now + leaseMs)) ob) ob"
      "records = map snd (claimed_entries e limit now (toISOString (now + leaseMs)) ob)" "valid_time (now + leaseMs)"
  using assms
  by (auto simp: claimBillingOutbox_def claimed_entries_def iso_string_def Let_def split: option.splits if_splits)

lemma claimed_entry:
  assumes "(k, r) \<in> set (claimed_entries e limit now u ob)" and "map_ok ob"
  obtains r0 where "map_get ob k = Some r0" "claimable e now r0" "r = lock_record (''bol-'' @ uuid e 0) u r0"
  using assms by (auto simp: claimed_entries_def dest!: in_set_takeD)

lemma claimed_keys: "map_ok ob \<Longrightarrow> distinct (map fst (claimed_entries e limit now u ob))"
proof -
  assume "map_ok ob"
  then have "distinct (map fst (filter (\<lambda>kv. claimable e now (snd kv)) ob))" by (rule distinct_map_filter)
  then have "distinct (map fst (js_sort (\<lambda>l r. claim_order e (snd l) (snd r)) (filter (\<lambda>kv. claimable e now (snd kv)) ob)))"
    by (metis distinct_map distinct_js_sort set_js_sort)
  then have "distinct (take (nat limit) (map fst (js_sort (\<lambda>l r. claim_order e (snd l) (snd r)) (filter (\<lambda>kv. claimable e now (snd kv)) ob))))"
    by (rule distinct_take)
  then show ?thesis by (simp add: claimed_entries_def take_map case_prod_unfold comp_def)
qed

lemma claimed_id: "outbox_keyed ob \<Longrightarrow> x \<in> set (claimed_entries e limit now u ob) \<Longrightarrow> ob_outbox_id (snd x) = fst x"
proof -
  assume keyed: "outbox_keyed ob" and x: "x \<in> set (claimed_entries e limit now u ob)"
  obtain k r where kr: "x = (k, r)" by (cases x)
  have "map_ok ob" using keyed by (simp add: outbox_keyed_def)
  from claimed_entry [OF x [unfolded kr] this] keyed show ?thesis
    unfolding kr outbox_keyed_def lock_record_def by fastforce
qed

lemma claimed_ids:
  "outbox_keyed ob \<Longrightarrow> map ob_outbox_id (map snd (claimed_entries e limit now u ob)) = map fst (claimed_entries e limit now u ob)"
  unfolding map_map comp_def by (rule map_cong [OF refl]) (rule claimed_id)

lemma fold_entries_get:
  assumes "distinct (map fst xs)"
  shows "map_get (fold (\<lambda>(k, v). map_set k v) xs m) k = (case map_of xs k of None \<Rightarrow> map_get m k | Some v \<Rightarrow> Some v)"
  using assms
proof (induction xs arbitrary: m)
  case (Cons x xs)
  obtain a b where x: "x = (a, b)" by (cases x)
  have "map_of xs a = None" using Cons.prems x by (simp add: map_of_eq_None_iff)
  with Cons x show ?case by (auto split: option.split)
qed simp


lemma claim_get:
  assumes "claimBillingOutbox e p ob = (ob', Inr records)" and "map_ok ob"
  shows "map_get ob' k = map_get ob k \<or> (\<exists>now r0 u. parseBillingOutboxTime e 0 (cl_now p) = Some now \<and>
    map_get ob k = Some r0 \<and> claimable e now r0 \<and> map_get ob' k = Some (lock_record (''bol-'' @ uuid e 0) u r0))"
  using assms(1)
proof (cases rule: claim_done)
  case (claim limit leaseMs now)
  let ?xs = "claimed_entries e limit now (toISOString (now + leaseMs)) ob"
  note get = fold_entries_get [OF claimed_keys [OF assms(2)], of e limit now "toISOString (now + leaseMs)" ob k]
  show ?thesis
  proof (cases "map_of ?xs k")
    case None
    then show ?thesis using get claim(4) by simp
  next
    case (Some r)
    from claimed_entry [OF map_of_SomeD [OF Some] assms(2)]
    show ?thesis using get Some claim(3,4) by (metis option.simps(5))
  qed
qed simp

text \<open>Every record of a claim was claimable, is locked now and is stored as it was returned.\<close>

lemma claim_record:
  assumes "claimBillingOutbox e p ob = (ob', Inr records)" and "outbox_keyed ob" and "r \<in> set records"
  obtains r0 leaseMs now where "map_get ob (ob_outbox_id r) = Some r0" "claimable e now r0"
    "parseBillingOutboxTime e 0 (cl_now p) = Some now" "normalizeBillingOutboxLease (cl_lease_ms p) = Some leaseMs"
    "r = lock_record (''bol-'' @ uuid e 0) (toISOString (now + leaseMs)) r0" "map_get ob' (ob_outbox_id r) = Some r"
  using assms(1)
proof (cases rule: claim_done)
  case skip
  then show ?thesis using assms(3) by simp
next
  case (claim limit leaseMs now)
  let ?xs = "claimed_entries e limit now (toISOString (now + leaseMs)) ob"
  have ok: "map_ok ob" using assms(2) by (simp add: outbox_keyed_def)
  obtain k where k: "(k, r) \<in> set ?xs" using assms(3) claim(5) by auto
  from claimed_entry [OF k ok] obtain r0 where r0: "map_get ob k = Some r0" "claimable e now r0"
    "r = lock_record (''bol-'' @ uuid e 0) (toISOString (now + leaseMs)) r0" by blast
  have id: "ob_outbox_id r = k" using r0(1,3) assms(2) by (simp add: outbox_keyed_def lock_record_def)
  have "map_of ?xs k = Some r" using k claimed_keys [OF ok] by (simp add: map_of_eq_Some_iff)
  then have "map_get ob' k = Some r" using fold_entries_get [OF claimed_keys [OF ok]] claim(4) by simp
  with that r0 claim(2,3) id show ?thesis by blast
qed

lemma claim_keyed: "outbox_keyed ob \<Longrightarrow> claimBillingOutbox e p ob = (ob', x) \<Longrightarrow> outbox_keyed ob'"
proof (cases x)
  case (Inr records)
  assume keyed: "outbox_keyed ob" and call: "claimBillingOutbox e p ob = (ob', x)"
  have "map_ok (fold (\<lambda>(k, record). map_set k record) xs ob)" for xs
    using keyed unfolding outbox_keyed_def by (induction xs arbitrary: ob rule: rev_induct) auto
  then have "map_ok ob'" using call Inr keyed by (auto elim!: claim_done simp: outbox_keyed_def)
  moreover have "ob_outbox_id r = i" if "map_get ob' i = Some r" for i r
    using claim_get [OF call [unfolded Inr], of i] that keyed by (auto simp: outbox_keyed_def lock_record_def)
  ultimately show ?thesis by (simp add: outbox_keyed_def)
qed (auto simp: claimBillingOutbox_def Let_def split: option.splits)

subsection \<open>Executions of the outbox\<close>

text \<open>The callers of the outbox: workers claim, complete and fail; a settlement adds a new event.\<close>

inductive outbox_step :: "outbox \<Rightarrow> outbox \<Rightarrow> bool" where
  claim: "outbox_step ob (fst (claimBillingOutbox e cl ob))"
| complete: "outbox_step ob (fst (completeBillingOutbox e i tok at ob))"
| fail: "outbox_step ob (fst (failBillingOutbox e bf ob))"
| event: "map_get ob (ob_outbox_id r) = None \<Longrightarrow> ob_published_at r = None \<Longrightarrow> ob_dead_lettered_at r = None \<Longrightarrow>
    outbox_step ob (map_set (ob_outbox_id r) r ob)"

definition delivered :: "BillingOutboxRecord \<Rightarrow> bool" where
  "delivered r \<longleftrightarrow> ob_published_at r \<noteq> None \<or> ob_dead_lettered_at r \<noteq> None"

definition outbox_wf :: "outbox \<Rightarrow> bool" where
  "outbox_wf ob \<longleftrightarrow> outbox_keyed ob \<and>
    (\<forall>i r. map_get ob i = Some r \<longrightarrow> ob_published_at r \<noteq> Some [] \<and> ob_dead_lettered_at r \<noteq> Some [])"

lemma toISOString_nonempty [simp]: "toISOString t \<noteq> []"
  by (simp add: toISOString_def)

lemma claimable_open: "outbox_wf ob \<Longrightarrow> map_get ob i = Some r \<Longrightarrow> claimable e now r \<Longrightarrow> \<not> delivered r"
  by (cases "ob_published_at r" rule: truthy.cases; cases "ob_dead_lettered_at r" rule: truthy.cases)
    (auto simp: outbox_wf_def claimable_def delivered_def)

lemma complete_cases:
  "fst (completeBillingOutbox e i tok at ob) = ob \<or> (\<exists>r t. map_get ob i = Some r \<and> holds_lease e tok t r \<and>
    fst (completeBillingOutbox e i tok at ob) = map_set i (r\<lparr>ob_published_at := Some (toISOString t), ob_lock_token := None,
      ob_locked_until := None, ob_last_error := None\<rparr>) ob)"
  by (auto simp: completeBillingOutbox_def split: option.split)

lemma fail_cases:
  "fst (failBillingOutbox e p ob) = ob \<or> (\<exists>r t d a x. map_get ob (bf_outbox_id p) = Some r \<and> holds_lease e (bf_lock_token p) t r \<and>
    d \<noteq> Some [] \<and> fst (failBillingOutbox e p ob) = map_set (bf_outbox_id p) (r\<lparr>ob_available_at := a, ob_lock_token := None,
      ob_locked_until := None, ob_last_error := x, ob_dead_lettered_at := d\<rparr>) ob)"
proof (cases "fst (failBillingOutbox e p ob) = ob")
  case False
  then obtain r failedAt retryAt where *: "map_get ob (bf_outbox_id p) = Some r"
    "parseBillingOutboxTime e 0 (bf_failed_at p) = Some failedAt" "date_parse e (bf_retry_at p) = Some retryAt"
    by (auto simp: failBillingOutbox_def split: option.splits)
  with False have "holds_lease e (bf_lock_token p) failedAt r \<and> fst (failBillingOutbox e p ob) =
      map_set (bf_outbox_id p) (r\<lparr>ob_available_at := toISOString retryAt, ob_lock_token := None, ob_locked_until := None,
        ob_last_error := Some (bf_error_code p), ob_dead_lettered_at := map_option toISOString
          (case bf_dead_lettered_at p of None \<Rightarrow> None | Some d \<Rightarrow> date_parse e d)\<rparr>) ob"
    by (cases "bf_dead_lettered_at p") (auto simp: failBillingOutbox_def Let_def split: if_splits)
  moreover have "map_option toISOString x \<noteq> Some []" for x by (cases x) auto
  ultimately show ?thesis using *(1) by blast
qed simp

lemma holds_lease_open: "holds_lease e tok t r \<Longrightarrow> \<not> delivered r"
  by (simp add: holds_lease_def delivered_def)

lemma outbox_wf_set:
  "outbox_wf ob \<Longrightarrow> ob_outbox_id r = i \<Longrightarrow> ob_published_at r \<noteq> Some [] \<Longrightarrow> ob_dead_lettered_at r \<noteq> Some [] \<Longrightarrow> outbox_wf (map_set i r ob)"
  by (auto simp: outbox_wf_def outbox_keyed_def)

lemma outbox_keyed_id: "outbox_wf ob \<Longrightarrow> map_get ob i = Some r \<Longrightarrow> ob_outbox_id r = i"
  by (simp add: outbox_wf_def outbox_keyed_def)

lemma claim_wf:
  assumes "outbox_wf ob"
  shows "outbox_wf (fst (claimBillingOutbox e p ob))"
proof -
  obtain ob' x where call: "claimBillingOutbox e p ob = (ob', x)" by fastforce
  show ?thesis
  proof (cases x)
    case (Inl err)
    then show ?thesis using assms call by (auto simp: claimBillingOutbox_def Let_def split: option.splits)
  next
    case (Inr records)
    have "outbox_keyed ob'" using claim_keyed [OF _ call] assms by (simp add: outbox_wf_def)
    moreover have "ob_published_at r \<noteq> Some [] \<and> ob_dead_lettered_at r \<noteq> Some []" if "map_get ob' i = Some r" for i r
      using claim_get [OF call [unfolded Inr], of i] that assms by (auto simp: outbox_wf_def outbox_keyed_def lock_record_def)
    ultimately show ?thesis using call by (simp add: outbox_wf_def)
  qed
qed

lemma complete_wf: "outbox_wf ob \<Longrightarrow> outbox_wf (fst (completeBillingOutbox e i tok at ob))"
  using complete_cases [of e i tok at ob]
  by (auto intro!: outbox_wf_set simp: outbox_keyed_id) (auto simp: outbox_wf_def)

lemma fail_wf: "outbox_wf ob \<Longrightarrow> outbox_wf (fst (failBillingOutbox e p ob))"
  using fail_cases [of e p ob]
  by (auto intro!: outbox_wf_set simp: outbox_keyed_id) (auto simp: outbox_wf_def)

lemma outbox_step_wf: "outbox_step ob ob' \<Longrightarrow> outbox_wf ob \<Longrightarrow> outbox_wf ob'"
  by (induction rule: outbox_step.induct) (auto intro: claim_wf complete_wf fail_wf outbox_wf_set)

text \<open>A delivered record stays as it is.\<close>

definition delivered_le :: "outbox \<Rightarrow> outbox \<Rightarrow> bool" where
  "delivered_le ob ob' \<longleftrightarrow> (\<forall>i r. map_get ob i = Some r \<longrightarrow> delivered r \<longrightarrow> map_get ob' i = Some r)"

lemma claim_delivered:
  assumes "outbox_wf ob"
  shows "delivered_le ob (fst (claimBillingOutbox e p ob))"
proof -
  obtain ob' x where call: "claimBillingOutbox e p ob = (ob', x)" by fastforce
  show ?thesis
  proof (cases x)
    case (Inl err)
    then show ?thesis using call by (auto simp: claimBillingOutbox_def delivered_le_def Let_def split: option.splits)
  next
    case (Inr records)
    have "map_ok ob" using assms by (simp add: outbox_wf_def outbox_keyed_def)
    from claim_get [OF call [unfolded Inr] this] claimable_open [OF assms] show ?thesis
      unfolding delivered_le_def call fst_conv by (metis option.inject)
  qed
qed

lemma outbox_step_le: "outbox_step ob ob' \<Longrightarrow> outbox_wf ob \<Longrightarrow> delivered_le ob ob'"
proof (induction rule: outbox_step.induct)
  case (complete ob e i tok at)
  then show ?case using complete_cases [of e i tok at ob] holds_lease_open by (auto simp: delivered_le_def)
next
  case (fail ob e bf)
  then show ?case using fail_cases [of e bf ob] holds_lease_open by (auto simp: delivered_le_def)
qed (auto simp: delivered_le_def intro: claim_delivered [unfolded delivered_le_def, rule_format])

interpretation outbox_run: step_monotone outbox_step outbox_wf delivered_le
  by unfold_locales
    (use outbox_step_wf outbox_step_le in blast, simp add: delivered_le_def, simp add: delivered_le_def, use outbox_step_le in blast)


subsection \<open>Leases\<close>

text \<open>
  What other callers may do before time \<open>u\<close> without the token: claim at an earlier time, complete or
  fail under another token, add an event.
\<close>

inductive foreign_step :: "string \<Rightarrow> int \<Rightarrow> outbox \<Rightarrow> outbox \<Rightarrow> bool" for tok u where
  claim: "parseBillingOutboxTime e 0 (cl_now cl) = Some now \<Longrightarrow> now < u \<Longrightarrow> foreign_step tok u ob (fst (claimBillingOutbox e cl ob))"
| complete: "tok' \<noteq> tok \<Longrightarrow> foreign_step tok u ob (fst (completeBillingOutbox e i tok' at ob))"
| fail: "bf_lock_token bf \<noteq> tok \<Longrightarrow> foreign_step tok u ob (fst (failBillingOutbox e bf ob))"
| event: "map_get ob (ob_outbox_id r) = None \<Longrightarrow> ob_published_at r = None \<Longrightarrow> ob_dead_lettered_at r = None \<Longrightarrow>
    foreign_step tok u ob (map_set (ob_outbox_id r) r ob)"

definition leased :: "string \<Rightarrow> string \<Rightarrow> int \<Rightarrow> BillingOutboxRecord \<Rightarrow> outbox \<Rightarrow> bool" where
  "leased i tok u r ob \<longleftrightarrow> outbox_wf ob \<and> map_get ob i = Some r \<and> ob_lock_token r = Some tok \<and>
    ob_locked_until r = Some (toISOString u) \<and> \<not> delivered r"

lemma leased_not_claimable: "common_era u \<Longrightarrow> now < u \<Longrightarrow> ob_locked_until r = Some (toISOString u) \<Longrightarrow> \<not> claimable e now r"
  by (simp add: claimable_def at_or_before_def date_parse_toISOString)

lemma leased_holds: "common_era u \<Longrightarrow> leased i tok u r ob \<Longrightarrow> holds_lease e tok t r \<longleftrightarrow> t < u"
  by (auto simp: leased_def holds_lease_def delivered_def at_or_before_def date_parse_toISOString)

lemma foreign_claim_leased:
  assumes "common_era u" and lease: "leased i tok u r ob" and "parseBillingOutboxTime e 0 (cl_now p) = Some now" and "now < u"
  shows "leased i tok u r (fst (claimBillingOutbox e p ob))"
proof -
  obtain ob' x where call: "claimBillingOutbox e p ob = (ob', x)" by fastforce
  have wf: "outbox_wf ob" and r: "map_get ob i = Some r" "ob_locked_until r = Some (toISOString u)" using lease by (auto simp: leased_def)
  have "map_get ob' i = Some r"
  proof (cases x)
    case (Inl err)
    then show ?thesis using call r by (auto simp: claimBillingOutbox_def Let_def split: option.splits)
  next
    case (Inr records)
    have ok: "map_ok ob" using wf by (simp add: outbox_wf_def outbox_keyed_def)
    show ?thesis
      using claim_get [OF call [unfolded Inr] ok, of i] leased_not_claimable [OF assms(1,4) r(2)] assms(3) r(1) by auto
  qed
  then show ?thesis using lease claim_wf [OF wf, of e p] call by (simp add: leased_def)
qed

lemma foreign_step_leased:
  "foreign_step tok u ob ob' \<Longrightarrow> common_era u \<Longrightarrow> leased i tok u r ob \<Longrightarrow> leased i tok u r ob'"
proof (induction rule: foreign_step.induct)
  case (claim e cl now ob)
  then show ?case by (blast intro: foreign_claim_leased)
next
  case (complete tok' ob e j at)
  then show ?case
    using complete_cases [of e j tok' at ob] complete_wf [of ob e j tok' at] by (auto simp: leased_def holds_lease_def)
next
  case (fail bf ob e)
  then show ?case
    using fail_cases [of e bf ob] fail_wf [of ob e bf] by (auto simp: leased_def holds_lease_def)
next
  case (event ob x)
  then show ?case using outbox_wf_set [of ob x "ob_outbox_id x"] by (auto simp: leased_def)
qed

interpretation lease_run: step_invariant "foreign_step tok u" "\<lambda>ob. common_era u \<and> leased i tok u r ob"
  by unfold_locales (blast intro: foreign_step_leased)

subsection \<open>Properties\<close>

text \<open>
  C28: a delivered event is final. Once an event of the outbox is published or dead-lettered,
  no sequence of claims, completions, failures and new events changes it, and no claim returns it.
\<close>

theorem delivered_final:
  assumes "outbox_step\<^sup>*\<^sup>* [] ob" and "map_get ob i = Some r" and "delivered r" and "outbox_step\<^sup>*\<^sup>* ob ob'"
  shows "map_get ob' i = Some r \<and>
    (\<forall>e p ob'' rs. claimBillingOutbox e p ob' = (ob'', Inr rs) \<longrightarrow> i \<notin> ob_outbox_id ` set rs)"
proof -
  have wf: "outbox_wf ob" by (rule outbox_run.run_inv [OF assms(1)]) (simp add: outbox_wf_def outbox_keyed_def)
  have wf': "outbox_wf ob'" by (rule outbox_run.run_inv [OF assms(4) wf])
  have r: "map_get ob' i = Some r" using outbox_run.run_le [OF assms(4) wf] assms(2,3) by (simp add: delivered_le_def)
  have "i \<notin> ob_outbox_id ` set rs" if call: "claimBillingOutbox e p ob' = (ob'', Inr rs)" for e p ob'' rs
  proof
    assume "i \<in> ob_outbox_id ` set rs"
    then obtain x where x: "x \<in> set rs" "ob_outbox_id x = i" by blast
    have "outbox_keyed ob'" using wf' by (simp add: outbox_wf_def)
    from claim_record [OF call this x(1)] obtain x0 e now where "map_get ob' i = Some x0" "claimable e now x0" using x(2) by metis
    with claimable_open [OF wf'] r assms(3) show False by auto
  qed
  with r show ?thesis by blast
qed

text \<open>
  C18: a lease is exclusive until it ends. After a claim returned a record, whatever other callers
  do before the end of the lease without its token, the record stays as claimed; no other claim
  before that end returns it, a completion or failure under another token is refused and changes
  nothing, and the holder's completion at any earlier time succeeds and publishes the record.
\<close>

theorem lease_exclusive:
  assumes "outbox_step\<^sup>*\<^sup>* [] ob" and call: "claimBillingOutbox e p ob = (ob1, Inr rs)" and r: "r \<in> set rs"
    and u: "ob_locked_until r = Some (toISOString u)" "common_era u" and tok: "ob_lock_token r = Some tok"
    and others: "(foreign_step tok u)\<^sup>*\<^sup>* ob1 ob2"
  shows "map_get ob2 (ob_outbox_id r) = Some r \<and>
    (\<forall>e p now ob3 rs. parseBillingOutboxTime e 0 (cl_now p) = Some now \<longrightarrow> now < u \<longrightarrow>
      claimBillingOutbox e p ob2 = (ob3, Inr rs) \<longrightarrow> ob_outbox_id r \<notin> ob_outbox_id ` set rs) \<and>
    (\<forall>e tok' at. tok' \<noteq> tok \<longrightarrow> completeBillingOutbox e (ob_outbox_id r) tok' at ob2 = (ob2, False)) \<and>
    (\<forall>e t. validBillingOutboxLockToken tok \<longrightarrow> common_era t \<longrightarrow> t < u \<longrightarrow>
      (\<exists>ob3. completeBillingOutbox e (ob_outbox_id r) tok (Some (toISOString t)) ob2 = (ob3, True) \<and>
        map_option ob_published_at (map_get ob3 (ob_outbox_id r)) = Some (Some (toISOString t))))"
proof -
  have wf: "outbox_wf ob" by (rule outbox_run.run_inv [OF assms(1)]) (simp add: outbox_wf_def outbox_keyed_def)
  then have keyed: "outbox_keyed ob" by (simp add: outbox_wf_def)
  from claim_record [OF call keyed r] obtain r0 now v where r0: "map_get ob (ob_outbox_id r) = Some r0" "claimable e now r0"
    "r = lock_record (''bol-'' @ uuid e 0) v r0" "map_get ob1 (ob_outbox_id r) = Some r" by metis
  have "\<not> delivered r" using claimable_open [OF wf r0(1,2)] r0(3) by (simp add: delivered_def lock_record_def)
  then have "leased (ob_outbox_id r) tok u r ob1" using claim_wf [OF wf, of e p] call r0(4) u(1) tok by (simp add: leased_def)
  then have lease: "leased (ob_outbox_id r) tok u r ob2" using lease_run.run_inv [OF others] u(2) by blast
  then have wf2: "outbox_wf ob2" and r2: "map_get ob2 (ob_outbox_id r) = Some r" by (auto simp: leased_def)
  have "ob_outbox_id r \<notin> ob_outbox_id ` set rs'" if now: "parseBillingOutboxTime e' 0 (cl_now p') = Some now'" "now' < u"
    and call': "claimBillingOutbox e' p' ob2 = (ob3, Inr rs')" for e' p' now' ob3 rs'
  proof
    assume "ob_outbox_id r \<in> ob_outbox_id ` set rs'"
    then obtain x where x: "x \<in> set rs'" "ob_outbox_id x = ob_outbox_id r" by force
    have "outbox_keyed ob2" using wf2 by (simp add: outbox_wf_def)
    from claim_record [OF call' this x(1)] now r2 x(2) leased_not_claimable [OF u(2) now(2) u(1)] show False by (metis option.inject)
  qed
  moreover have "completeBillingOutbox e' (ob_outbox_id r) tok' at ob2 = (ob2, False)" if "tok' \<noteq> tok" for e' tok' at
    using that r2 tok by (auto simp: completeBillingOutbox_def holds_lease_def split: option.split)
  moreover have "\<exists>ob3. completeBillingOutbox e' (ob_outbox_id r) tok (Some (toISOString t)) ob2 = (ob3, True) \<and>
      map_option ob_published_at (map_get ob3 (ob_outbox_id r)) = Some (Some (toISOString t))"
    if "validBillingOutboxLockToken tok" "common_era t" "t < u" for e' t
    using that r2 leased_holds [OF u(2) lease, of e' t]
    by (simp add: completeBillingOutbox_def parseBillingOutboxTime_def date_parse_toISOString)
  ultimately show ?thesis using r2 by blast
qed


text \<open>The attempts a result accounts for.\<close>

definition accounted :: "BillingOutboxRunResult \<Rightarrow> nat" where
  "accounted res = rr_published res + rr_retried res + rr_dead_lettered res + rr_lease_lost res"

lemma fail_record_accounted:
  "fail_record e opts w record tok st = Inr st' \<Longrightarrow>
    accounted (rn_result st') = Suc (accounted (rn_result st)) \<and> rr_claimed (rn_result st') = rr_claimed (rn_result st)"
  by (auto simp: fail_record_def accounted_def count_lost_def Let_def split: option.splits prod.splits)

lemma process_record_accounted:
  assumes "process_record e opts w record st = Inr st'"
  shows "accounted (rn_result st') = Suc (accounted (rn_result st)) \<and> rr_claimed (rn_result st') = rr_claimed (rn_result st)"
proof (cases "truthy (ob_lock_token record)")
  case None
  then show ?thesis using assms by (auto simp: process_record_def accounted_def count_lost_def)
next
  case (Some tok)
  show ?thesis
  proof (cases "ww_publish w (rn_reading st) (publicEvent record)")
    case True
    then show ?thesis using assms Some
      by (cases "ww_now w (rn_reading st)")
        (auto simp: process_record_def accounted_def count_lost_def Let_def dest: fail_record_accounted [unfolded accounted_def] split: prod.splits)
  next
    case False
    then show ?thesis using assms Some by (auto simp: process_record_def Let_def dest: fail_record_accounted)
  qed
qed

lemma process_records_accounted:
  "process_records e opts w records st = Inr st' \<Longrightarrow>
    accounted (rn_result st') = accounted (rn_result st) + length records \<and> rr_claimed (rn_result st') = rr_claimed (rn_result st)"
  by (induction records arbitrary: st) (auto dest: process_record_accounted split: sum.splits)

lemma safe_within_Some: "safe_within lo hi n = Some i \<Longrightarrow> lo \<le> i \<and> i \<le> hi"
  by (auto simp: safe_within_def split: option.splits if_splits)

lemma worker_done:
  assumes "BillingOutboxWorker a = Inr opts"
  obtains n1 n2 n3 where "safe_within 1 100 n1 = Some (wo_batch_size opts)" "safe_within 1000 (5 * 60000) n2 = Some (wo_lease_ms opts)"
    "safe_within 1 100 n3 = Some (wo_max_attempts opts)" "\<not> (wo_retry_base_ms opts < 100 \<or> wo_retry_max_ms opts < wo_retry_base_ms opts \<or>
      wo_retry_max_ms opts > 24 * 60 * 60000)"
  using assms by (auto simp: BillingOutboxWorker_def intro: that split: option.splits if_splits)

lemma worker_options_ok:
  assumes "BillingOutboxWorker a = Inr opts"
  shows "1 \<le> wo_batch_size opts" "wo_batch_size opts \<le> 100" "1000 \<le> wo_lease_ms opts" "wo_lease_ms opts \<le> 300000"
    "1 \<le> wo_max_attempts opts" "100 \<le> wo_retry_base_ms opts" "wo_retry_base_ms opts \<le> wo_retry_max_ms opts"
    "wo_retry_max_ms opts \<le> 86400000"
  by (rule worker_done [OF assms]; auto dest!: safe_within_Some)+

lemma claim_length:
  assumes "claimBillingOutbox e p ob = (ob', Inr records)" and "normalizeBillingOutboxLimit (cl_limit p) = Some limit"
  shows "length records \<le> nat limit"
  using assms(1) by (cases rule: claim_done) (use assms(2) in \<open>auto simp: claimed_entries_def\<close>)

lemma normalize_options:
  assumes "BillingOutboxWorker a = Inr opts"
  shows "normalizeBillingOutboxLimit (Some (IntNum (wo_batch_size opts))) = Some (wo_batch_size opts)"
    "normalizeBillingOutboxLease (Some (IntNum (wo_lease_ms opts))) = Some (wo_lease_ms opts)"
  using worker_options_ok [OF assms]
  by (simp_all add: normalizeBillingOutboxLimit_def normalizeBillingOutboxLease_def safe_within_def maxSafeInteger_def
      MAX_BILLING_OUTBOX_LEASE_MS_def)

text \<open>
  The counts of a run add up. Whatever the publisher, the clock and the other callers do,
  when a run of a worker with checked options returns, every claimed record is counted exactly once as published,
  retried, dead-lettered or lost, and no more records are claimed than the batch allows.
\<close>

theorem run_counts:
  assumes "BillingOutboxWorker a = Inr opts" and "runOnce e opts w ob = Inr st"
  shows "rr_claimed (rn_result st) = rr_published (rn_result st) + rr_retried (rn_result st) +
      rr_dead_lettered (rn_result st) + rr_lease_lost (rn_result st) \<and>
    int (rr_claimed (rn_result st)) \<le> wo_batch_size opts"
proof -
  obtain claimedAt ob1 records where call: "claimBillingOutbox e \<lparr>cl_limit = Some (IntNum (wo_batch_size opts)),
      cl_lease_ms = Some (IntNum (wo_lease_ms opts)), cl_now = Some (toISOString claimedAt)\<rparr> ob = (ob1, Inr records)"
    and rest: "process_records e opts w records \<lparr>rn_reading = 1, rn_outbox = ob1, rn_result = \<lparr>rr_claimed = length records,
      rr_published = 0, rr_retried = 0, rr_dead_lettered = 0, rr_lease_lost = 0\<rparr>\<rparr> = Inr st"
    using assms(2) by (auto simp: runOnce_def split: option.splits prod.splits sum.splits)
  have "length records \<le> nat (wo_batch_size opts)"
    using claim_length [OF call, of "wo_batch_size opts"] normalize_options(1) [OF assms(1)] by simp
  then show ?thesis
    using process_records_accounted [OF rest] worker_options_ok(1) [OF assms(1)] by (simp add: accounted_def)
qed

text \<open>
  the delay before a retry. For checked options it starts at the base, never exceeds the
  maximum, never falls from one attempt to the next, and doubles with every attempt until the maximum is reached.
\<close>

theorem retry_delay_bounds:
  assumes "BillingOutboxWorker a = Inr opts" and "1 \<le> n"
  shows "wo_retry_base_ms opts \<le> retryDelay n (wo_retry_base_ms opts) (wo_retry_max_ms opts) \<and>
    retryDelay n (wo_retry_base_ms opts) (wo_retry_max_ms opts) \<le> wo_retry_max_ms opts \<and>
    retryDelay 1 (wo_retry_base_ms opts) (wo_retry_max_ms opts) = wo_retry_base_ms opts \<and>
    retryDelay (n + 1) (wo_retry_base_ms opts) (wo_retry_max_ms opts) =
      min (wo_retry_max_ms opts) (2 * retryDelay n (wo_retry_base_ms opts) (wo_retry_max_ms opts))"
proof -
  let ?b = "wo_retry_base_ms opts" and ?m = "wo_retry_max_ms opts"
  note ok = worker_options_ok(6-8) [OF assms(1)]
  have base: "?b \<le> ?b * 2 ^ k" for k :: nat using ok(1) by (simp add: mult_le_cancel_left1)
  have cap: "min ?m (?b * 2 ^ 30) = ?m"
  proof -
    have "100 * 2 ^ 30 \<le> ?b * 2 ^ 30" using ok(1) by (rule mult_right_mono) simp
    then show ?thesis using ok(3) by simp
  qed
  have "retryDelay (n + 1) ?b ?m = min ?m (2 * retryDelay n ?b ?m)"
  proof (cases "n \<le> 30")
    case True
    have e: "nat (max 0 (min 30 (n + 1 - 1))) = Suc (nat (max 0 (min 30 (n - 1))))" using True assms(2) by simp
    have "retryDelay (n + 1) ?b ?m = min ?m (2 * (?b * 2 ^ nat (max 0 (min 30 (n - 1)))))"
      unfolding retryDelay_def Let_def e by (simp only: power_Suc mult.left_commute)
    also have "\<dots> = min ?m (2 * retryDelay n ?b ?m)" using ok by (simp add: retryDelay_def Let_def min_def)
    finally show ?thesis .
  next
    case False
    then have "retryDelay k ?b ?m = ?m" if "n \<le> k" for k using that cap by (simp add: retryDelay_def)
    then show ?thesis using ok by (simp add: min_def)
  qed
  moreover have "?b \<le> retryDelay n ?b ?m" "retryDelay n ?b ?m \<le> ?m"
    unfolding retryDelay_def Let_def using base ok(2) by (simp_all only: min.cobounded1 min.bounded_iff simp_thms)
  moreover have "retryDelay 1 ?b ?m = ?b" using ok(2) by (simp add: retryDelay_def)
  ultimately show ?thesis by blast
qed


text \<open>A world in which nobody else acts, every publication succeeds and the clock stays before \<open>u\<close>.\<close>

definition undisturbed :: "worker_world \<Rightarrow> int \<Rightarrow> bool" where
  "undisturbed w u \<longleftrightarrow> (\<forall>i. ww_others w i = id) \<and> (\<forall>i ev. ww_publish w i ev) \<and>
    (\<forall>i. \<exists>t. ww_now w i = Some t \<and> common_era t \<and> t < u)"

lemma process_record_delivers:
  assumes w: "undisturbed w u" and u: "common_era u" and tok: "validBillingOutboxLockToken tok"
    and lease: "leased (ob_outbox_id r) tok u r (rn_outbox st)"
  obtains st' r' where "process_record e opts w r st = Inr st'" "rn_outbox st' = map_set (ob_outbox_id r) r' (rn_outbox st)"
    "ob_published_at r' \<noteq> None" "ob_outbox_id r' = ob_outbox_id r" "ob_published_at r' \<noteq> Some []" "ob_dead_lettered_at r' = None"
    "rr_published (rn_result st') = Suc (rr_published (rn_result st))"
proof -
  obtain t where t: "ww_now w (rn_reading st) = Some t" "common_era t" "t < u" using w unfolding undisturbed_def by blast
  have r: "ob_lock_token r = Some tok" "map_get (rn_outbox st) (ob_outbox_id r) = Some r" "ob_dead_lettered_at r = None"
    using lease by (auto simp: leased_def delivered_def)
  have "tok \<noteq> []" using tok by (auto simp: validBillingOutboxLockToken_def starts_with_def)
  with r t tok leased_holds [OF u lease, of e t] w show ?thesis
    by (intro that [of "\<lparr>rn_reading = Suc (rn_reading st), rn_outbox = map_set (ob_outbox_id r) (r\<lparr>ob_published_at :=
          Some (toISOString t), ob_lock_token := None, ob_locked_until := None, ob_last_error := None\<rparr>) (rn_outbox st),
        rn_result = (rn_result st)\<lparr>rr_published := Suc (rr_published (rn_result st))\<rparr>\<rparr>"
        "r\<lparr>ob_published_at := Some (toISOString t), ob_lock_token := None, ob_locked_until := None, ob_last_error := None\<rparr>"])
      (auto simp: process_record_def completeBillingOutbox_def parseBillingOutboxTime_def date_parse_toISOString undisturbed_def Let_def)
qed

lemma leased_set_other:
  "leased i tok u r ob \<Longrightarrow> j \<noteq> i \<Longrightarrow> ob_outbox_id r' = j \<Longrightarrow> ob_published_at r' \<noteq> Some [] \<Longrightarrow> ob_dead_lettered_at r' = None \<Longrightarrow>
    leased i tok u r (map_set j r' ob)"
  by (auto simp: leased_def intro: outbox_wf_set)

lemma process_records_deliver:
  assumes "undisturbed w u" and "common_era u" and "validBillingOutboxLockToken tok"
    and "distinct (map ob_outbox_id records)"
    and "\<And>r. r \<in> set records \<Longrightarrow> leased (ob_outbox_id r) tok u r (rn_outbox st)"
  shows "\<exists>st'. process_records e opts w records st = Inr st' \<and>
    rr_published (rn_result st') = rr_published (rn_result st) + length records \<and>
    (\<forall>i. i \<notin> ob_outbox_id ` set records \<longrightarrow> map_get (rn_outbox st') i = map_get (rn_outbox st) i) \<and>
    (\<forall>r \<in> set records. \<exists>r'. map_get (rn_outbox st') (ob_outbox_id r) = Some r' \<and> ob_published_at r' \<noteq> None)"
  using assms(4,5)
proof (induction records arbitrary: st)
  case (Cons r records)
  have "leased (ob_outbox_id r) tok u r (rn_outbox st)" using Cons.prems(2) by simp
  then obtain st1 r' where st1: "process_record e opts w r st = Inr st1" "rn_outbox st1 = map_set (ob_outbox_id r) r' (rn_outbox st)"
    "ob_published_at r' \<noteq> None" "ob_outbox_id r' = ob_outbox_id r" "ob_published_at r' \<noteq> Some []" "ob_dead_lettered_at r' = None"
    "rr_published (rn_result st1) = Suc (rr_published (rn_result st))"
    by (rule process_record_delivers [OF assms(1-3)])
  have new: "ob_outbox_id r \<notin> ob_outbox_id ` set records" using Cons.prems(1) by simp
  have "leased (ob_outbox_id x) tok u x (rn_outbox st1)" if "x \<in> set records" for x
    unfolding st1(2) using Cons.prems(2) [of x] that new st1(4-6) by (intro leased_set_other) auto
  with Cons.IH [of st1] Cons.prems(1) obtain st' where st': "process_records e opts w records st1 = Inr st'"
    "rr_published (rn_result st') = rr_published (rn_result st1) + length records"
    "\<forall>i. i \<notin> ob_outbox_id ` set records \<longrightarrow> map_get (rn_outbox st') i = map_get (rn_outbox st1) i"
    "\<forall>r \<in> set records. \<exists>r'. map_get (rn_outbox st') (ob_outbox_id r) = Some r' \<and> ob_published_at r' \<noteq> None" by auto
  have "map_get (rn_outbox st') (ob_outbox_id r) = Some r'" using st'(3) new st1(2) by simp
  with st' st1 show ?case by auto
qed simp

lemma claim_all:
  assumes "claimBillingOutbox e p ob = (ob', Inr records)" and "outbox_keyed ob" and "map_get ob i = Some r0" and "claimable e now r0"
    and "parseBillingOutboxTime e 0 (cl_now p) = Some now" and "normalizeBillingOutboxLimit (cl_limit p) = Some limit"
    and "normalizeBillingOutboxLease (cl_lease_ms p) \<noteq> None" and "valid_time (now + the (normalizeBillingOutboxLease (cl_lease_ms p)))"
    and "length (filter (claimable e now) (map_values ob)) \<le> nat limit"
  shows "i \<in> ob_outbox_id ` set records"
proof -
  obtain leaseMs where lease: "normalizeBillingOutboxLease (cl_lease_ms p) = Some leaseMs" using assms(7) by blast
  have records: "records = map snd (claimed_entries e limit now (toISOString (now + leaseMs)) ob)"
    using assms(1,5,6,8) lease
    by (auto simp: claimBillingOutbox_def claimed_entries_def iso_string_def Let_def)
  have "length (filter (\<lambda>kv. claimable e now (snd kv)) ob) \<le> nat limit" using assms(9) by (simp add: filter_map comp_def)
  then have "set (take (nat limit) (js_sort (\<lambda>l r. claim_order e (snd l) (snd r)) (filter (\<lambda>kv. claimable e now (snd kv)) ob))) =
      set (filter (\<lambda>kv. claimable e now (snd kv)) ob)" by simp
  moreover have "(i, r0) \<in> set (filter (\<lambda>kv. claimable e now (snd kv)) ob)" using map_of_SomeD [OF assms(3)] assms(4) by simp
  ultimately have "(i, lock_record (''bol-'' @ uuid e 0) (toISOString (now + leaseMs)) r0) \<in> set (claimed_entries e limit now (toISOString (now + leaseMs)) ob)"
    unfolding claimed_entries_def set_map by force
  then have "lock_record (''bol-'' @ uuid e 0) (toISOString (now + leaseMs)) r0 \<in> set records" unfolding records by force
  moreover have "ob_outbox_id (lock_record (''bol-'' @ uuid e 0) (toISOString (now + leaseMs)) r0) = i"
    using assms(2,3) by (simp add: outbox_keyed_def lock_record_def)
  ultimately show ?thesis by force
qed


text \<open>
  C34: an undisturbed run delivers. When no other caller interferes, the publisher accepts every
  event and the clock stays within the lease that starts at its first reading, a run of a worker with checked options
  returns, counts every claimed record as published, and every record that was due, if no more of them
  than the batch allows, is published in the store afterwards.
\<close>

theorem run_delivers:
  assumes opts: "BillingOutboxWorker a = Inr opts" and wf: "outbox_step\<^sup>*\<^sup>* [] ob"
    and start: "ww_now w 0 = Some now" "common_era now" "common_era (now + wo_lease_ms opts)" "valid_time (now + wo_lease_ms opts)"
    and w: "undisturbed w (now + wo_lease_ms opts)" and tok: "validBillingOutboxLockToken (''bol-'' @ uuid e 0)"
    and due: "int (length (filter (claimable e now) (map_values ob))) \<le> wo_batch_size opts"
  shows "\<exists>st. runOnce e opts w ob = Inr st \<and> rr_published (rn_result st) = rr_claimed (rn_result st) \<and>
    (\<forall>i r. map_get ob i = Some r \<longrightarrow> claimable e now r \<longrightarrow>
      (\<exists>r'. map_get (rn_outbox st) i = Some r' \<and> ob_published_at r' \<noteq> None))"
proof -
  let ?p = "\<lparr>cl_limit = Some (IntNum (wo_batch_size opts)), cl_lease_ms = Some (IntNum (wo_lease_ms opts)),
    cl_now = Some (toISOString now)\<rparr>"
  have owf: "outbox_wf ob" by (rule outbox_run.run_inv [OF wf]) (simp add: outbox_wf_def outbox_keyed_def)
  then have keyed: "outbox_keyed ob" and ok: "map_ok ob" by (simp_all add: outbox_wf_def outbox_keyed_def)
  note norm = normalize_options [OF opts]
  have parse: "parseBillingOutboxTime e 0 (cl_now ?p) = Some now"
    using start(2) by (simp add: parseBillingOutboxTime_def date_parse_toISOString)
  obtain ob1 records where call: "claimBillingOutbox e ?p ob = (ob1, Inr records)"
    using norm parse start(4) by (auto simp: claimBillingOutbox_def iso_string_def Let_def)
  have leased: "leased (ob_outbox_id r) (''bol-'' @ uuid e 0) (now + wo_lease_ms opts) r ob1" if "r \<in> set records" for r
  proof -
    from claim_record [OF call keyed that] parse norm(2) obtain r0 where r0: "map_get ob (ob_outbox_id r) = Some r0" "claimable e now r0"
      "r = lock_record (''bol-'' @ uuid e 0) (toISOString (now + wo_lease_ms opts)) r0" "map_get ob1 (ob_outbox_id r) = Some r"
      by (metis BillingOutboxClaimParams.select_convs(2) option.inject)
    show ?thesis
      using r0 claimable_open [OF owf r0(1,2)] claim_wf [OF owf, of e ?p] call by (simp add: leased_def lock_record_def delivered_def)
  qed
  have "distinct (map ob_outbox_id records)"
    using call
  proof (cases rule: claim_done)
    case (claim limit leaseMs now')
    have "map ob_outbox_id records = map fst (claimed_entries e limit now' (toISOString (now' + leaseMs)) ob)"
      unfolding claim(5) by (rule claimed_ids [OF keyed])
    then show ?thesis using claimed_keys [OF ok] by simp
  qed simp
  from process_records_deliver [OF w start(3) tok this, of "\<lparr>rn_reading = 1, rn_outbox = ob1, rn_result = \<lparr>rr_claimed = length records,
      rr_published = 0, rr_retried = 0, rr_dead_lettered = 0, rr_lease_lost = 0\<rparr>\<rparr>"] leased
  obtain st where st: "process_records e opts w records \<lparr>rn_reading = 1, rn_outbox = ob1, rn_result = \<lparr>rr_claimed = length records,
      rr_published = 0, rr_retried = 0, rr_dead_lettered = 0, rr_lease_lost = 0\<rparr>\<rparr> = Inr st" "rr_published (rn_result st) = length records"
    "\<forall>r \<in> set records. \<exists>r'. map_get (rn_outbox st) (ob_outbox_id r) = Some r' \<and> ob_published_at r' \<noteq> None"
    unfolding run_state.select_convs BillingOutboxRunResult.select_convs add_0 by blast
  have "i \<in> ob_outbox_id ` set records" if "map_get ob i = Some r" "claimable e now r" for i r
    using claim_all [OF call keyed that parse] norm start(4) due by simp
  moreover have "runOnce e opts w ob = Inr st" using start(1) call st(1) by (simp add: runOnce_def)
  moreover have "rr_claimed (rn_result st) = length records" using process_records_accounted [OF st(1)] by simp
  ultimately show ?thesis using st(2,3) by fastforce
qed

subsection \<open>A run on one event\<close>

definition outbox_env :: js_env where
  "outbox_env = sample_env\<lparr>uuid := \<lambda>_. ''3f2504e0-4f89-41d3-9a0c-0305e82c3301''\<rparr>"

definition sample_event :: BillingOutboxRecord where
  "sample_event = \<lparr>ob_outbox_id = ''bout-1'', ob_event_type = PaymentSettled, ob_aggregate_id = ''ord-1'', ob_settlement_id = ''bst-1'',
     ob_payload = [], ob_attempts = 0, ob_available_at = toISOString 1767225600000, ob_locked_until = None, ob_lock_token = None,
     ob_published_at = None, ob_dead_lettered_at = None, ob_last_error = None, ob_created_at = toISOString 1767225600000\<rparr>"

definition sample_options :: BillingOutboxWorkerOptions where
  "sample_options = \<lparr>wo_batch_size = 25, wo_lease_ms = 30000, wo_max_attempts = 8, wo_retry_base_ms = 1000, wo_retry_max_ms = 300000\<rparr>"

definition sample_world :: worker_world where
  "sample_world = \<lparr>ww_now = \<lambda>_. Some 1767225600000, ww_publish = \<lambda>_ _. True, ww_others = \<lambda>_. id\<rparr>"

lemma sample_options_eval:
  "BillingOutboxWorker \<lparr>wa_batch_size = None, wa_lease_ms = None, wa_max_attempts = None, wa_retry_base_ms = None, wa_retry_max_ms = None\<rparr> =
    Inr sample_options"
  by (simp add: BillingOutboxWorker_def or_else_def safe_within_def maxSafeInteger_def sample_options_def)

lemma sample_now_era: "common_era 1767225600000" "common_era 1767225630000"
  by (rule common_eraI; simp)+

lemma sample_token: "validBillingOutboxLockToken (''bol-'' @ uuid outbox_env 0)"
  by (simp add: outbox_env_def validBillingOutboxLockToken_def starts_with_def all_within_def is_hex_def is_digit_def char_in_def)

lemma sample_event_run: "outbox_step\<^sup>*\<^sup>* [] [(''bout-1'', sample_event)]"
proof -
  have "outbox_step [] (map_set (ob_outbox_id sample_event) sample_event [])"
    by (rule outbox_step.event) (simp_all add: sample_event_def)
  then show ?thesis by (simp add: sample_event_def)
qed

lemma sample_event_claimable: "claimable outbox_env 1767225600000 sample_event"
  using date_parse_toISOString [OF sample_now_era(1), of outbox_env]
  by (simp add: claimable_def sample_event_def at_or_before_def)

theorem run_delivers_witness:
  "\<exists>st. runOnce outbox_env sample_options sample_world [(''bout-1'', sample_event)] = Inr st \<and>
    rr_published (rn_result st) = rr_claimed (rn_result st) \<and>
    (\<exists>r. map_get (rn_outbox st) ''bout-1'' = Some r \<and> ob_published_at r \<noteq> None)"
proof -
  have "\<exists>st. runOnce outbox_env sample_options sample_world [(''bout-1'', sample_event)] = Inr st \<and>
      rr_published (rn_result st) = rr_claimed (rn_result st) \<and>
      (\<forall>i r. map_get [(''bout-1'', sample_event)] i = Some r \<longrightarrow> claimable outbox_env 1767225600000 r \<longrightarrow>
        (\<exists>r'. map_get (rn_outbox st) i = Some r' \<and> ob_published_at r' \<noteq> None))"
    by (rule run_delivers [OF sample_options_eval sample_event_run _ sample_now_era(1) _ _ _ sample_token])
      (use sample_now_era in \<open>simp_all add: sample_world_def sample_options_def valid_time_def undisturbed_def\<close>)
  then show ?thesis using sample_event_claimable by fastforce
qed

theorem run_counts_witness:
  "\<exists>st. runOnce outbox_env sample_options sample_world [] = Inr st \<and> rr_claimed (rn_result st) = 0"
proof -
  have "\<exists>st. runOnce outbox_env sample_options sample_world [] = Inr st \<and> rr_published (rn_result st) = 0 \<and> rr_retried (rn_result st) = 0 \<and>
      rr_dead_lettered (rn_result st) = 0 \<and> rr_lease_lost (rn_result st) = 0"
    using sample_now_era normalize_options [OF sample_options_eval]
    by (simp add: runOnce_def sample_world_def claimBillingOutbox_def parseBillingOutboxTime_def date_parse_toISOString
        iso_string_def valid_time_def sample_options_def Let_def)
  with run_counts [OF sample_options_eval] show ?thesis by fastforce
qed

theorem retry_delay_bounds_witness: "retryDelay 3 1000 300000 \<le> 300000 \<and> 1000 \<le> retryDelay 3 1000 300000"
  using retry_delay_bounds [OF sample_options_eval, of 3] by (simp add: sample_options_def)

definition sample_claim :: BillingOutboxClaimParams where
  "sample_claim = \<lparr>cl_limit = None, cl_lease_ms = None, cl_now = None\<rparr>"

definition sample_locked :: BillingOutboxRecord where
  "sample_locked = lock_record (''bol-'' @ uuid outbox_env 0) (toISOString 1767225630000) sample_event"

definition sample_published :: BillingOutboxRecord where
  "sample_published = sample_locked\<lparr>ob_published_at := Some (toISOString 1767225600000), ob_lock_token := None,
     ob_locked_until := None, ob_last_error := None\<rparr>"

lemma sample_claim_eval:
  "claimBillingOutbox outbox_env sample_claim [(''bout-1'', sample_event)] = ([(''bout-1'', sample_locked)], Inr [sample_locked])"
  using sample_event_claimable
  by (simp add: claimBillingOutbox_def sample_claim_def normalizeBillingOutboxLimit_def normalizeBillingOutboxLease_def
      parseBillingOutboxTime_def DEFAULT_BILLING_OUTBOX_LEASE_MS_def iso_string_def valid_time_def js_sort_def sample_locked_def
      Let_def) (simp add: outbox_env_def sample_env_def)

lemma sample_complete_eval:
  "completeBillingOutbox outbox_env ''bout-1'' (''bol-'' @ uuid outbox_env 0) None [(''bout-1'', sample_locked)] =
    ([(''bout-1'', sample_published)], True)"
proof -
  have "holds_lease outbox_env (''bol-'' @ uuid outbox_env 0) 1767225600000 sample_locked"
    using date_parse_toISOString [OF sample_now_era(2), of outbox_env]
    by (simp add: holds_lease_def sample_locked_def lock_record_def at_or_before_def sample_event_def)
  moreover have "clock outbox_env 0 = 1767225600000" by (simp add: outbox_env_def sample_env_def)
  ultimately show ?thesis using sample_token
    by (simp add: completeBillingOutbox_def parseBillingOutboxTime_def sample_published_def)
qed

theorem delivered_final_witness:
  "delivered sample_published \<and> map_get [(''bout-1'', sample_published)] ''bout-1'' = Some sample_published"
proof -
  have "outbox_step [(''bout-1'', sample_event)] [(''bout-1'', sample_locked)]"
    using outbox_step.claim [of "[(''bout-1'', sample_event)]" outbox_env sample_claim] by (simp add: sample_claim_eval)
  moreover have "outbox_step [(''bout-1'', sample_locked)] [(''bout-1'', sample_published)]"
    using outbox_step.complete [of "[(''bout-1'', sample_locked)]" outbox_env "''bout-1''" "''bol-'' @ uuid outbox_env 0" None]
      sample_complete_eval by simp
  ultimately have run: "outbox_step\<^sup>*\<^sup>* [] [(''bout-1'', sample_published)]" using sample_event_run by simp
  have "map_get [(''bout-1'', sample_published)] ''bout-1'' = Some sample_published"
    using delivered_final [OF run _ _ rtranclp.rtrancl_refl, of "''bout-1''" sample_published]
    by (simp add: delivered_def sample_published_def)
  then show ?thesis by (simp add: delivered_def sample_published_def)
qed

theorem lease_exclusive_witness:
  "completeBillingOutbox outbox_env ''bout-1'' ''bol-stale'' None [(''bout-1'', sample_locked)] = ([(''bout-1'', sample_locked)], False)"
proof -
  have locked: "ob_locked_until sample_locked = Some (toISOString 1767225630000)"
    "ob_lock_token sample_locked = Some (''bol-'' @ uuid outbox_env 0)" "ob_outbox_id sample_locked = ''bout-1''"
    by (simp_all add: sample_locked_def lock_record_def sample_event_def)
  show ?thesis
    using lease_exclusive [OF sample_event_run sample_claim_eval _ locked(1) sample_now_era(2) locked(2) rtranclp.rtrancl_refl]
    by (simp add: locked(3) outbox_env_def)
qed
end
