(* ===== verification/Feature_Policy.thy ===== *)
theory Feature_Policy
  imports JS_Time
begin

text \<open>
  The feature policy contract (\<^verbatim>\<open>packages/longhub-feature-policy/src/schema.ts\<close>) and its resolution
  (\<^verbatim>\<open>packages/longhub-feature-policy/src/resolution.ts\<close>). An untrusted value is parsed into a policy
  document; the entries that apply to a caller are merged into one policy, which decides the access.
  Enumerations are the strings of the source. Each module throws one class of error, whose message
  is not modelled: \<open>None\<close> stands for \<^verbatim>\<open>FeaturePolicyValidationError\<close> in the parser and for
  \<^verbatim>\<open>FeaturePolicyUnavailableError\<close> in the resolution. The lemmas show that a parsed document is well-formed and that
  printing and parsing it is the identity, when access is granted, and that a merged policy is at most as
  permissive as any entry it was merged from.
\<close>

subsection \<open>Enumerations and bounds\<close>

definition FEATURE_POLICY_SCHEMA :: string where
  "FEATURE_POLICY_SCHEMA = ''longhub/feature-policy/v2''"

definition FEATURE_POLICY_MAX_VALIDITY_MS :: int where "FEATURE_POLICY_MAX_VALIDITY_MS = 5 * 60000"

definition FEATURE_POLICY_REFRESH_INTERVAL_MS :: int where "FEATURE_POLICY_REFRESH_INTERVAL_MS = 30000"

definition FEATURE_POLICY_MAX_FEATURES :: nat where "FEATURE_POLICY_MAX_FEATURES = 64"

definition FEATURE_POLICY_MAX_BYTES :: nat where "FEATURE_POLICY_MAX_BYTES = 64 * 1024"

definition FEATURE_IDS :: "string list" where
  "FEATURE_IDS =
    [''chat.core'', ''session.manage'', ''session.local_search'', ''session.export'', ''file.input'', ''image.input'',
     ''voice.input'', ''voice.output'', ''knowledge.tenant'', ''knowledge.personal'', ''memory.user_controls'',
     ''web.search_readonly'', ''url.fetch_readonly'', ''image.generate'', ''agent.catalog'', ''agent.custom_nocode'',
     ''agent.handoff_summary'', ''skill.catalog'', ''skill.execute'', ''skill.user_content'', ''workflow.user_bounded'',
     ''automation.reminder'', ''automation.scheduled_read'', ''channel.enterprise'', ''data.export_delete'']"

definition FEATURE_POLICY_SCOPES :: "string list" where
  "FEATURE_POLICY_SCOPES = [''global'', ''tenant'', ''plan'', ''device'', ''agent'']"

definition FEATURE_POLICY_AUDIENCES :: "string list" where
  "FEATURE_POLICY_AUDIENCES = [''user'', ''tenant_admin'', ''platform_admin'']"

definition FEATURE_POLICY_MODES :: "string list" where
  "FEATURE_POLICY_MODES = [''default'', ''tenant_controlled'', ''admin_approved'']"

definition FEATURE_RISK_LEVELS :: "string list" where
  "FEATURE_RISK_LEVELS = [''low'', ''high'']"

definition FEATURE_PROCESSING_LOCATIONS :: "string list" where
  "FEATURE_PROCESSING_LOCATIONS = [''platform_region'', ''tenant_region'', ''device_local'']"

definition FEATURE_LIMIT_KEYS :: "string list" where
  "FEATURE_LIMIT_KEYS = [''count'', ''bytes'', ''duration_ms'', ''concurrency'', ''cost_cents'']"

subsection \<open>The document\<close>

text \<open>Limits are held in the order of \<open>FEATURE_LIMIT_KEYS\<close>, the order in which the parser sets them.\<close>

type_synonym feature_limits = "(string, int) js_map"

record FeatureDataPolicy =
  dp_processing_location :: string
  dp_retention_days :: int
  dp_export_allowed :: bool
  dp_deletion_allowed :: bool

record FeaturePolicyEntry =
  fe_feature_id :: string
  fe_enabled :: bool
  fe_scope :: string
  fe_scope_id :: "string option"
  fe_audience :: string
  fe_mode :: string
  fe_risk_level :: string
  fe_limits :: feature_limits
  fe_data_policy :: FeatureDataPolicy
  fe_required_entitlements :: "string list"
  fe_required_permissions :: "string list"
  fe_min_manager_version :: string
  fe_max_manager_version :: "string option"
  fe_emergency_disabled :: bool

record FeaturePolicyDocument =
  fd_schema_version :: string
  fd_policy_version :: string
  fd_issued_at :: string
  fd_expires_at :: string
  fd_features :: "FeaturePolicyEntry list"

subsection \<open>Parsing\<close>

fun isPlainObject :: "js_value \<Rightarrow> (string \<times> js_value) list option" where
  "isPlainObject (Obj props) = Some props"
| "isPlainObject _ = None"

definition assertExactKeys :: "(string \<times> js_value) list \<Rightarrow> string list \<Rightarrow> bool" where
  "assertExactKeys props expected \<longleftrightarrow> length props = length expected \<and> list_all (\<lambda>kv. fst kv \<in> set expected) props"

fun enumValue :: "js_value \<Rightarrow> string list \<Rightarrow> string option" where
  "enumValue (Str s) values = (if s \<in> set values then Some s else None)"
| "enumValue _ values = None"

fun booleanValue :: "js_value \<Rightarrow> bool option" where
  "booleanValue (Boolean b) = Some b"
| "booleanValue _ = None"

fun nonNegativeInteger :: "js_value \<Rightarrow> int \<Rightarrow> int option" where
  "nonNegativeInteger (Number n) maximum =
    (case safeInteger n of None \<Rightarrow> None | Some i \<Rightarrow> if i < 0 \<or> maximum < i then None else Some i)"
| "nonNegativeInteger _ maximum = None"

text \<open>\<^verbatim>\<open>(0|[1-9]\d*)\<close>\<close>

definition core_numeral :: "string \<Rightarrow> bool" where
  "core_numeral s \<longleftrightarrow> s = ''0'' \<or> (s \<noteq> [] \<and> hd s \<noteq> CHR ''0'' \<and> list_all is_digit s)"

definition is_prerelease_char :: "char \<Rightarrow> bool" where
  "is_prerelease_char c \<longleftrightarrow> is_alnum c \<or> c = CHR ''-''"

text \<open>The part before the first hyphen, and the part after it if there is one.\<close>

definition core_part :: "string \<Rightarrow> string" where
  "core_part v = takeWhile (\<lambda>c. c \<noteq> CHR ''-'') v"

definition prerelease_part :: "string \<Rightarrow> string option" where
  "prerelease_part v = (case dropWhile (\<lambda>c. c \<noteq> CHR ''-'') v of [] \<Rightarrow> None | _ # s \<Rightarrow> Some s)"

definition core_triple :: "string \<Rightarrow> bool" where
  "core_triple s \<longleftrightarrow> length (split_on CHR ''.'' s) = 3 \<and> list_all core_numeral (split_on CHR ''.'' s)"

definition SEMVER_PATTERN :: "string \<Rightarrow> bool" where
  "SEMVER_PATTERN v \<longleftrightarrow> core_triple (core_part v) \<and>
    (case prerelease_part v of None \<Rightarrow> True
     | Some s \<Rightarrow> list_all (\<lambda>p. p \<noteq> [] \<and> list_all is_prerelease_char p) (split_on CHR ''.'' s))"

definition is_id_char :: "char \<Rightarrow> bool" where
  "is_id_char c \<longleftrightarrow> is_alnum c \<or> c \<in> set ''._:-''"

text \<open>\<^verbatim>\<open>/^[A-Za-z0-9][A-Za-z0-9._:-]{0,127}$/\<close>, for policy versions and scope ids alike.\<close>

definition POLICY_VERSION_PATTERN :: "string \<Rightarrow> bool" where
  "POLICY_VERSION_PATTERN s = head_tail is_alnum is_id_char 0 127 s"

definition SCOPE_ID_PATTERN :: "string \<Rightarrow> bool" where
  "SCOPE_ID_PATTERN s = head_tail is_alnum is_id_char 0 127 s"

definition grant_segment :: "string \<Rightarrow> bool" where
  "grant_segment s \<longleftrightarrow> s \<noteq> [] \<and> list_all (\<lambda>c. is_lower c \<or> is_digit c \<or> c \<in> set ''_.-'') s"

fun grant_head :: "string \<Rightarrow> bool" where
  "grant_head [] = False"
| "grant_head (c # s) = (is_lower c \<and> list_all (\<lambda>c. is_lower c \<or> is_digit c \<or> c = CHR ''-'') s)"

definition ENTITLEMENT_PATTERN :: "string \<Rightarrow> bool" where
  "ENTITLEMENT_PATTERN s = (case split_on CHR '':'' s of [] \<Rightarrow> False | h # t \<Rightarrow> grant_head h \<and> list_all grant_segment t)"

definition PERMISSION_PATTERN :: "string \<Rightarrow> bool" where
  "PERMISSION_PATTERN s =
    (case split_on CHR '':'' s of [] \<Rightarrow> False | h # t \<Rightarrow> grant_head h \<and> t \<noteq> [] \<and> list_all grant_segment t)"

fun semver :: "js_value \<Rightarrow> string option" where
  "semver (Str v) = (if length v \<le> 64 \<and> SEMVER_PATTERN v then Some v else None)"
| "semver _ = None"

fun canonicalIsoInstant :: "js_env \<Rightarrow> js_value \<Rightarrow> string option" where
  "canonicalIsoInstant e (Str v) =
    (if 32 < length v then None
     else case date_parse e v of None \<Rightarrow> None | Some t \<Rightarrow> if toISOString t = v then Some v else None)"
| "canonicalIsoInstant e _ = None"

fun identifierValue :: "js_value \<Rightarrow> (string \<Rightarrow> bool) \<Rightarrow> string option" where
  "identifierValue (Str v) pattern = (if pattern v then Some v else None)"
| "identifierValue _ pattern = None"

text \<open>The loop over the items: the strings seen, in order of appearance.\<close>

fun unique_items :: "(string \<Rightarrow> bool) \<Rightarrow> js_value list \<Rightarrow> string list \<Rightarrow> string list option" where
  "unique_items pattern [] seen = Some seen"
| "unique_items pattern (item # items) seen =
    (case item of
       Str s \<Rightarrow> if 128 < length s \<or> \<not> pattern s \<or> s \<in> set seen then None else unique_items pattern items (seen @ [s])
     | _ \<Rightarrow> None)"

fun sortedUniqueStrings :: "js_env \<Rightarrow> js_value \<Rightarrow> (string \<Rightarrow> bool) \<Rightarrow> nat \<Rightarrow> string list option" where
  "sortedUniqueStrings e (Arr items) pattern maxItems =
    (if maxItems < length items then None
     else map_option (js_sort (localeCompare e)) (unique_items pattern items []))"
| "sortedUniqueStrings e _ pattern maxItems = None"

text \<open>The loop over the limit keys; a key whose value is \<^verbatim>\<open>undefined\<close> sets no limit.\<close>

fun collect_limits :: "(string \<times> js_value) list \<Rightarrow> string list \<Rightarrow> feature_limits option" where
  "collect_limits props [] = Some []"
| "collect_limits props (key # keys) =
    (if field props key = Undefined then collect_limits props keys
     else case nonNegativeInteger (field props key) maxSafeInteger of
       None \<Rightarrow> None
     | Some i \<Rightarrow> map_option (\<lambda>rest. (key, i) # rest) (collect_limits props keys))"

definition parseLimits :: "js_value \<Rightarrow> feature_limits option" where
  "parseLimits value =
    (case isPlainObject value of
       None \<Rightarrow> None
     | Some props \<Rightarrow>
         if list_all (\<lambda>kv. fst kv \<in> set FEATURE_LIMIT_KEYS) props then collect_limits props FEATURE_LIMIT_KEYS else None)"

definition parseDataPolicy :: "js_value \<Rightarrow> FeatureDataPolicy option" where
  "parseDataPolicy value = do {
     props \<leftarrow> isPlainObject value;
     require (assertExactKeys props [''processing_location'', ''retention_days'', ''export_allowed'', ''deletion_allowed'']);
     location \<leftarrow> enumValue (field props ''processing_location'') FEATURE_PROCESSING_LOCATIONS;
     days \<leftarrow> nonNegativeInteger (field props ''retention_days'') 3650;
     export \<leftarrow> booleanValue (field props ''export_allowed'');
     deletion \<leftarrow> booleanValue (field props ''deletion_allowed'');
     Some \<lparr>dp_processing_location = location, dp_retention_days = days,
           dp_export_allowed = export, dp_deletion_allowed = deletion\<rparr>
   }"

definition ENTRY_REQUIRED_KEYS :: "string list" where
  "ENTRY_REQUIRED_KEYS =
    [''feature_id'', ''enabled'', ''scope'', ''audience'', ''mode'', ''risk_level'', ''limits'', ''data_policy'',
     ''required_entitlements'', ''required_permissions'', ''min_manager_version'', ''emergency_disabled'']"

text \<open>An optional property: absent, or present and then to be parsed.\<close>

definition optional :: "bool \<Rightarrow> 'a option \<Rightarrow> 'a option option" where
  "optional present parsed = (if present then map_option Some parsed else Some None)"

definition parseFeaturePolicyEntry :: "js_env \<Rightarrow> js_value \<Rightarrow> FeaturePolicyEntry option" where
  "parseFeaturePolicyEntry e input = do {
     props \<leftarrow> isPlainObject input;
     scope \<leftarrow> enumValue (field props ''scope'') FEATURE_POLICY_SCOPES;
     let hasScopeId = ''scope_id'' \<in> fst ` set props;
     let hasMax = ''max_manager_version'' \<in> fst ` set props;
     require (assertExactKeys props (ENTRY_REQUIRED_KEYS @ (if hasScopeId then [''scope_id''] else []) @
       (if hasMax then [''max_manager_version''] else [])));
     require (\<not> (scope = ''global'' \<and> hasScopeId));
     require (\<not> (scope \<noteq> ''global'' \<and> \<not> hasScopeId));
     minVersion \<leftarrow> semver (field props ''min_manager_version'');
     maxVersion \<leftarrow> optional hasMax (semver (field props ''max_manager_version''));
     featureId \<leftarrow> enumValue (field props ''feature_id'') FEATURE_IDS;
     enabled \<leftarrow> booleanValue (field props ''enabled'');
     scopeId \<leftarrow> optional hasScopeId (identifierValue (field props ''scope_id'') SCOPE_ID_PATTERN);
     audience \<leftarrow> enumValue (field props ''audience'') FEATURE_POLICY_AUDIENCES;
     mode \<leftarrow> enumValue (field props ''mode'') FEATURE_POLICY_MODES;
     risk \<leftarrow> enumValue (field props ''risk_level'') FEATURE_RISK_LEVELS;
     limits \<leftarrow> parseLimits (field props ''limits'');
     dataPolicy \<leftarrow> parseDataPolicy (field props ''data_policy'');
     ents \<leftarrow> sortedUniqueStrings e (field props ''required_entitlements'') ENTITLEMENT_PATTERN 32;
     perms \<leftarrow> sortedUniqueStrings e (field props ''required_permissions'') PERMISSION_PATTERN 32;
     emergency \<leftarrow> booleanValue (field props ''emergency_disabled'');
     Some \<lparr>fe_feature_id = featureId, fe_enabled = enabled, fe_scope = scope, fe_scope_id = scopeId,
           fe_audience = audience, fe_mode = mode, fe_risk_level = risk, fe_limits = limits,
           fe_data_policy = dataPolicy, fe_required_entitlements = ents,
           fe_required_permissions = perms, fe_min_manager_version = minVersion,
           fe_max_manager_version = maxVersion, fe_emergency_disabled = emergency\<rparr>
   }"

fun parse_entries :: "js_env \<Rightarrow> js_value list \<Rightarrow> FeaturePolicyEntry list option" where
  "parse_entries e [] = Some []"
| "parse_entries e (raw # raws) =
    (case parseFeaturePolicyEntry e raw of
       None \<Rightarrow> None
     | Some entry \<Rightarrow> map_option ((#) entry) (parse_entries e raws))"

definition entry_key :: "FeaturePolicyEntry \<Rightarrow> string" where
  "entry_key entry = nul_join [fe_feature_id entry, fe_audience entry, fe_scope entry, case_option [] id (fe_scope_id entry)]"

definition parseFeaturePolicyDocument :: "js_env \<Rightarrow> js_value \<Rightarrow> FeaturePolicyDocument option" where
  "parseFeaturePolicyDocument e input = do {
     props \<leftarrow> isPlainObject input;
     require (assertExactKeys props [''schema_version'', ''policy_version'', ''issued_at'', ''expires_at'', ''features'']);
     require (field props ''schema_version'' = Str FEATURE_POLICY_SCHEMA);
     version \<leftarrow> identifierValue (field props ''policy_version'') POLICY_VERSION_PATTERN;
     issuedAt \<leftarrow> canonicalIsoInstant e (field props ''issued_at'');
     expiresAt \<leftarrow> canonicalIsoInstant e (field props ''expires_at'');
     issued \<leftarrow> date_parse e issuedAt;
     expires \<leftarrow> date_parse e expiresAt;
     require (0 < expires - issued);
     require (expires - issued \<le> FEATURE_POLICY_MAX_VALIDITY_MS);
     raws \<leftarrow> array_items (field props ''features'');
     require (length raws \<le> FEATURE_POLICY_MAX_FEATURES);
     features \<leftarrow> parse_entries e raws;
     require (distinct (map entry_key features));
     Some \<lparr>fd_schema_version = FEATURE_POLICY_SCHEMA, fd_policy_version = version,
           fd_issued_at = issuedAt, fd_expires_at = expiresAt, fd_features = features\<rparr>
   }"

text \<open>\<open>json\<close> is the host's \<^verbatim>\<open>JSON.parse\<close>; a code unit from 128 to 255 is two bytes in UTF-8.\<close>

definition byteLength :: "string \<Rightarrow> nat" where
  "byteLength s = sum_list (map (\<lambda>c. if (of_char c :: nat) < 128 then 1 else 2) s)"

definition parseFeaturePolicyJson ::
  "js_env \<Rightarrow> (string \<Rightarrow> js_value option) \<Rightarrow> string \<Rightarrow> FeaturePolicyDocument option" where
  "parseFeaturePolicyJson e json input =
    (if FEATURE_POLICY_MAX_BYTES < byteLength input then None
     else case json input of None \<Rightarrow> None | Some value \<Rightarrow> parseFeaturePolicyDocument e value)"


subsection \<open>Well-formed documents\<close>

definition version_valid :: "string \<Rightarrow> bool" where
  "version_valid v \<longleftrightarrow> length v \<le> 64 \<and> SEMVER_PATTERN v"

definition names_valid :: "js_env \<Rightarrow> (string \<Rightarrow> bool) \<Rightarrow> string list \<Rightarrow> bool" where
  "names_valid e P xs \<longleftrightarrow> length xs \<le> 32 \<and> distinct xs \<and> list_all (\<lambda>s. length s \<le> 128 \<and> P s) xs \<and>
    sorted_wrt (\<lambda>a b. localeCompare e a b \<le> 0) xs"

text \<open>Limits in the order of the keys, each a safe integer that is not negative.\<close>

fun limits_within :: "string list \<Rightarrow> feature_limits \<Rightarrow> bool" where
  "limits_within keys [] = True"
| "limits_within [] (l # ls) = False"
| "limits_within (key # keys) ((k, i) # ls) =
    (if k = key then 0 \<le> i \<and> i \<le> maxSafeInteger \<and> limits_within keys ls else limits_within keys ((k, i) # ls))"

definition data_policy_valid :: "FeatureDataPolicy \<Rightarrow> bool" where
  "data_policy_valid d \<longleftrightarrow> dp_processing_location d \<in> set FEATURE_PROCESSING_LOCATIONS \<and>
    0 \<le> dp_retention_days d \<and> dp_retention_days d \<le> 3650"

definition entry_valid :: "js_env \<Rightarrow> FeaturePolicyEntry \<Rightarrow> bool" where
  "entry_valid e x \<longleftrightarrow> fe_feature_id x \<in> set FEATURE_IDS \<and> fe_scope x \<in> set FEATURE_POLICY_SCOPES \<and>
    (fe_scope_id x = None \<longleftrightarrow> fe_scope x = ''global'') \<and> pred_option SCOPE_ID_PATTERN (fe_scope_id x) \<and>
    fe_audience x \<in> set FEATURE_POLICY_AUDIENCES \<and> fe_mode x \<in> set FEATURE_POLICY_MODES \<and>
    fe_risk_level x \<in> set FEATURE_RISK_LEVELS \<and> limits_within FEATURE_LIMIT_KEYS (fe_limits x) \<and>
    data_policy_valid (fe_data_policy x) \<and> names_valid e ENTITLEMENT_PATTERN (fe_required_entitlements x) \<and>
    names_valid e PERMISSION_PATTERN (fe_required_permissions x) \<and> version_valid (fe_min_manager_version x) \<and>
    pred_option version_valid (fe_max_manager_version x)"

text \<open>An instant in the form \<^verbatim>\<open>toISOString\<close> prints.\<close>

definition instant_valid :: "js_env \<Rightarrow> string \<Rightarrow> bool" where
  "instant_valid e s \<longleftrightarrow> length s \<le> 32 \<and> map_option toISOString (date_parse e s) = Some s"

definition document_valid :: "js_env \<Rightarrow> FeaturePolicyDocument \<Rightarrow> bool" where
  "document_valid e d \<longleftrightarrow> fd_schema_version d = FEATURE_POLICY_SCHEMA \<and> POLICY_VERSION_PATTERN (fd_policy_version d) \<and>
    instant_valid e (fd_issued_at d) \<and> instant_valid e (fd_expires_at d) \<and>
    the (date_parse e (fd_issued_at d)) < the (date_parse e (fd_expires_at d)) \<and>
    the (date_parse e (fd_expires_at d)) \<le> the (date_parse e (fd_issued_at d)) + FEATURE_POLICY_MAX_VALIDITY_MS \<and>
    length (fd_features d) \<le> FEATURE_POLICY_MAX_FEATURES \<and> list_all (entry_valid e) (fd_features d) \<and>
    distinct (map entry_key (fd_features d))"

subsection \<open>Printing\<close>

text \<open>The value a document is sent as: the reference the parser is compared with.\<close>

definition limits_value :: "feature_limits \<Rightarrow> js_value" where
  "limits_value ls = Obj (map (\<lambda>(k, i). (k, Number (IntNum i))) ls)"

definition data_policy_value :: "FeatureDataPolicy \<Rightarrow> js_value" where
  "data_policy_value d = Obj
    [(''processing_location'', Str (dp_processing_location d)), (''retention_days'', Number (IntNum (dp_retention_days d))),
     (''export_allowed'', Boolean (dp_export_allowed d)), (''deletion_allowed'', Boolean (dp_deletion_allowed d))]"

fun optional_member :: "string \<Rightarrow> string option \<Rightarrow> (string \<times> js_value) list" where
  "optional_member key None = []"
| "optional_member key (Some s) = [(key, Str s)]"

definition names_value :: "string list \<Rightarrow> js_value" where
  "names_value xs = Arr (map Str xs)"

definition entry_value :: "FeaturePolicyEntry \<Rightarrow> js_value" where
  "entry_value x = Obj
    ([(''feature_id'', Str (fe_feature_id x)), (''enabled'', Boolean (fe_enabled x)), (''scope'', Str (fe_scope x)),
      (''audience'', Str (fe_audience x)), (''mode'', Str (fe_mode x)), (''risk_level'', Str (fe_risk_level x)),
      (''limits'', limits_value (fe_limits x)), (''data_policy'', data_policy_value (fe_data_policy x)),
      (''required_entitlements'', names_value (fe_required_entitlements x)),
      (''required_permissions'', names_value (fe_required_permissions x)),
      (''min_manager_version'', Str (fe_min_manager_version x)),
      (''emergency_disabled'', Boolean (fe_emergency_disabled x))] @
     optional_member ''scope_id'' (fe_scope_id x) @ optional_member ''max_manager_version'' (fe_max_manager_version x))"

definition document_value :: "FeaturePolicyDocument \<Rightarrow> js_value" where
  "document_value d = Obj
    [(''schema_version'', Str (fd_schema_version d)), (''policy_version'', Str (fd_policy_version d)),
     (''issued_at'', Str (fd_issued_at d)), (''expires_at'', Str (fd_expires_at d)),
     (''features'', Arr (map entry_value (fd_features d)))]"

subsection \<open>Parsing the parts\<close>

lemma enumValue_Some: "enumValue v vs = Some s \<longleftrightarrow> v = Str s \<and> s \<in> set vs"
  by (cases v) auto

lemma booleanValue_Some: "booleanValue v = Some b \<longleftrightarrow> v = Boolean b"
  by (cases v) auto

lemma identifierValue_Some: "identifierValue v P = Some s \<longleftrightarrow> v = Str s \<and> P s"
  by (cases v) auto

lemma semver_Some: "semver v = Some s \<longleftrightarrow> v = Str s \<and> version_valid s"
  by (cases v) (auto simp: version_valid_def)

lemma nonNegativeInteger_Some:
  "m \<le> maxSafeInteger \<Longrightarrow> nonNegativeInteger v m = Some i \<longleftrightarrow> v = Number (IntNum i) \<and> 0 \<le> i \<and> i \<le> m"
  by (cases v) (auto simp: safeInteger_Some split: option.splits)

lemma canonicalIsoInstant_Some: "canonicalIsoInstant e v = Some s \<longleftrightarrow> v = Str s \<and> instant_valid e s"
  by (cases v) (auto simp: instant_valid_def split: option.splits)

lemma isPlainObject_Some: "isPlainObject v = Some props \<longleftrightarrow> v = Obj props"
  by (cases v) auto

lemma optional_Some: "optional c p = Some r \<longleftrightarrow> (if c then \<exists>s. p = Some s \<and> r = Some s else r = None)"
  by (auto simp: optional_def)

lemmas parse_parts = bind_eq_Some_conv require_Some array_items_Some enumValue_Some booleanValue_Some identifierValue_Some semver_Some canonicalIsoInstant_Some
  isPlainObject_Some optional_Some

lemma unique_items_valid:
  "unique_items P items seen = Some xs \<Longrightarrow> distinct seen \<Longrightarrow> list_all (\<lambda>s. length s \<le> 128 \<and> P s) seen \<Longrightarrow>
    distinct xs \<and> list_all (\<lambda>s. length s \<le> 128 \<and> P s) xs \<and> length xs = length seen + length items"
proof (induction items arbitrary: seen)
  case (Cons item items)
  obtain s where s: "item = Str s" "\<not> (128 < length s \<or> \<not> P s \<or> s \<in> set seen)"
      and rest: "unique_items P items (seen @ [s]) = Some xs"
    using Cons.prems(1) by (cases item) (auto split: if_splits)
  have "distinct (seen @ [s])" "list_all (\<lambda>s. length s \<le> 128 \<and> P s) (seen @ [s])"
    using Cons.prems s by auto
  from Cons.IH [OF rest this] show ?case by simp
qed simp

lemma unique_items_names:
  "distinct (seen @ xs) \<Longrightarrow> list_all (\<lambda>s. length s \<le> 128 \<and> P s) xs \<Longrightarrow>
    unique_items P (map Str xs) seen = Some (seen @ xs)"
proof (induction xs arbitrary: seen)
  case (Cons x xs)
  then have "unique_items P (map Str xs) (seen @ [x]) = Some ((seen @ [x]) @ xs)" by (intro Cons.IH) auto
  with Cons.prems show ?case by auto
qed simp

lemma sortedUniqueStrings_valid:
  assumes "js_comparator (localeCompare e)" and "sortedUniqueStrings e v P 32 = Some xs"
  shows "names_valid e P xs"
proof -
  from assms(2) obtain items ys where items: "v = Arr items" "length items \<le> 32" "unique_items P items [] = Some ys"
      and xs: "xs = js_sort (localeCompare e) ys"
    by (cases v) (auto split: if_splits)
  from unique_items_valid [OF items(3)] have "distinct ys" "list_all (\<lambda>s. length s \<le> 128 \<and> P s) ys"
      "length ys = length items" by auto
  with items(2) js_comparator.sorted_js_sort [OF assms(1)] show ?thesis
    by (simp add: names_valid_def xs list_all_iff)
qed

lemma sortedUniqueStrings_names:
  assumes "names_valid e P xs"
  shows "sortedUniqueStrings e (names_value xs) P 32 = Some xs"
proof -
  from assms have xs: "length xs \<le> 32" "distinct ([] @ xs)" "list_all (\<lambda>s. length s \<le> 128 \<and> P s) xs"
      "sorted_wrt (\<lambda>a b. localeCompare e a b \<le> 0) xs"
    by (simp_all add: names_valid_def)
  from unique_items_names [OF xs(2,3)] xs(1) js_sort_sorted [OF xs(4)] show ?thesis
    by (simp add: names_value_def)
qed


lemma collect_limits_defined: "collect_limits props keys = Some ls \<Longrightarrow> (k, i) \<in> set ls \<Longrightarrow> field props k \<noteq> Undefined"
  by (induction keys arbitrary: ls) (auto split: if_splits option.splits)

lemma collect_limits_within: "collect_limits props keys = Some ls \<Longrightarrow> limits_within keys ls"
proof (induction keys arbitrary: ls)
  case (Cons key keys)
  show ?case
  proof (cases "field props key = Undefined")
    case True
    with Cons have rest: "limits_within keys ls" and "collect_limits props keys = Some ls" by simp_all
    then have "key \<notin> fst ` set ls" using True
      by (cases "key \<in> fst ` set ls") (auto dest: collect_limits_defined)
    with rest show ?thesis by (cases ls) auto
  next
    case False
    with Cons.prems obtain i rest where "nonNegativeInteger (field props key) maxSafeInteger = Some i"
        "collect_limits props keys = Some rest" "ls = (key, i) # rest"
      by (auto split: option.splits)
    with Cons.IH show ?thesis by (simp add: nonNegativeInteger_Some)
  qed
qed simp

lemma limits_within_keys: "limits_within keys ls \<Longrightarrow> fst ` set ls \<subseteq> set keys"
  by (induction keys ls rule: limits_within.induct) (auto split: if_splits)

text \<open>Printed limits are collected again, also when limits of earlier keys precede them.\<close>

lemma collect_limits_printed:
  assumes "limits_within keys ls" and "distinct keys" and "fst ` set pre \<inter> set keys = {}"
  shows "collect_limits (pre @ map (\<lambda>(k, i). (k, Number (IntNum i))) ls) keys = Some ls"
  using assms
proof (induction keys arbitrary: pre ls)
  case Nil
  then show ?case by (cases ls) auto
next
  case (Cons key keys)
  let ?num = "\<lambda>(k, i). (k, Number (IntNum i))"
  have pre: "map_of pre key = None" using Cons.prems(3) by (auto simp: map_of_eq_None_iff)
  show ?case
  proof (cases "\<exists>i rest. ls = (key, i) # rest")
    case True
    then obtain i rest where ls: "ls = (key, i) # rest" by blast
    with Cons.prems have rest: "0 \<le> i" "i \<le> maxSafeInteger" "limits_within keys rest" by simp_all
    have "fst ` set (pre @ [?num (key, i)]) \<inter> set keys = {}" using Cons.prems(2,3) by auto
    from Cons.IH [OF rest(3) _ this] Cons.prems(2) pre rest(1,2) show ?thesis
      by (simp add: ls field_def map_add_def nonNegativeInteger_Some)
  next
    case False
    with Cons.prems(1) have rest: "limits_within keys ls" by (cases ls) (auto split: if_splits)
    with limits_within_keys Cons.prems(2) have "key \<notin> fst ` set ls" by fastforce
    then have "map_of (map ?num ls) key = None" by (force simp: map_of_eq_None_iff)
    moreover have "fst ` set pre \<inter> set keys = {}" using Cons.prems(3) by auto
    ultimately show ?thesis using Cons.IH [OF rest] Cons.prems(2) pre by (simp add: field_def map_add_def)
  qed
qed

lemma FEATURE_LIMIT_KEYS_distinct: "distinct FEATURE_LIMIT_KEYS"
  by (simp add: FEATURE_LIMIT_KEYS_def)

lemma parseLimits_valid: "parseLimits v = Some ls \<Longrightarrow> limits_within FEATURE_LIMIT_KEYS ls"
  by (auto simp: parseLimits_def collect_limits_within split: option.splits if_splits)

lemma parseLimits_printed: "limits_within FEATURE_LIMIT_KEYS ls \<Longrightarrow> parseLimits (limits_value ls) = Some ls"
  using collect_limits_printed [OF _ FEATURE_LIMIT_KEYS_distinct, of ls "[]"] limits_within_keys [of FEATURE_LIMIT_KEYS ls]
  by (force simp: parseLimits_def limits_value_def list_all_iff)

lemma parseDataPolicy_valid: "parseDataPolicy v = Some d \<Longrightarrow> data_policy_valid d"
  by (auto simp: parseDataPolicy_def data_policy_valid_def parse_parts nonNegativeInteger_Some maxSafeInteger_def)

lemma parseDataPolicy_printed: "data_policy_valid d \<Longrightarrow> parseDataPolicy (data_policy_value d) = Some d"
  by (cases d) (simp add: parseDataPolicy_def data_policy_value_def data_policy_valid_def assertExactKeys_def field_def
      require_def safeInteger_Some maxSafeInteger_def)


subsection \<open>Parsing an entry and a document\<close>

lemma parseFeaturePolicyEntry_valid:
  assumes "js_comparator (localeCompare e)" and "parseFeaturePolicyEntry e v = Some x"
  shows "entry_valid e x"
  using assms(2) sortedUniqueStrings_valid [OF assms(1)] parseLimits_valid parseDataPolicy_valid
  unfolding parseFeaturePolicyEntry_def entry_valid_def Let_def
  by (clarsimp simp: parse_parts del: disjE) (auto simp: parse_parts split: if_splits)

lemma parseFeaturePolicyEntry_printed:
  assumes "entry_valid e x"
  shows "parseFeaturePolicyEntry e (entry_value x) = Some x"
proof -
  from assms have x: "fe_scope_id x = None \<longleftrightarrow> fe_scope x = ''global''" "fe_scope x \<in> set FEATURE_POLICY_SCOPES"
      "\<And>i. fe_scope_id x = Some i \<Longrightarrow> SCOPE_ID_PATTERN i" "fe_feature_id x \<in> set FEATURE_IDS"
      "fe_audience x \<in> set FEATURE_POLICY_AUDIENCES" "fe_mode x \<in> set FEATURE_POLICY_MODES"
      "fe_risk_level x \<in> set FEATURE_RISK_LEVELS"
      "semver (Str (fe_min_manager_version x)) = Some (fe_min_manager_version x)"
      "\<And>v. fe_max_manager_version x = Some v \<Longrightarrow> semver (Str v) = Some v"
    and parts: "parseLimits (limits_value (fe_limits x)) = Some (fe_limits x)"
      "parseDataPolicy (data_policy_value (fe_data_policy x)) = Some (fe_data_policy x)"
      "sortedUniqueStrings e (names_value (fe_required_entitlements x)) ENTITLEMENT_PATTERN 32 = Some (fe_required_entitlements x)"
      "sortedUniqueStrings e (names_value (fe_required_permissions x)) PERMISSION_PATTERN 32 = Some (fe_required_permissions x)"
    by (simp_all add: entry_valid_def semver_Some parseLimits_printed parseDataPolicy_printed sortedUniqueStrings_names
        del: semver.simps)
  have "''global'' \<in> set FEATURE_POLICY_SCOPES" by (simp add: FEATURE_POLICY_SCOPES_def)
  with x parts show ?thesis
    by (cases x; cases "fe_scope_id x"; cases "fe_max_manager_version x")
      (simp_all add: parseFeaturePolicyEntry_def entry_value_def Let_def assertExactKeys_def ENTRY_REQUIRED_KEYS_def
        field_def optional_def require_def del: semver.simps)
qed

lemma parse_entries_valid:
  "js_comparator (localeCompare e) \<Longrightarrow> parse_entries e raws = Some xs \<Longrightarrow>
    list_all (entry_valid e) xs \<and> length xs = length raws"
  by (induction raws arbitrary: xs) (auto dest: parseFeaturePolicyEntry_valid split: option.splits)

lemma parse_entries_printed: "list_all (entry_valid e) xs \<Longrightarrow> parse_entries e (map entry_value xs) = Some xs"
  by (induction xs) (auto simp: parseFeaturePolicyEntry_printed)

lemma parseFeaturePolicyDocument_valid:
  assumes "js_comparator (localeCompare e)" and "parseFeaturePolicyDocument e v = Some d"
  shows "document_valid e d"
  using assms(2) unfolding parseFeaturePolicyDocument_def document_valid_def
  by (clarsimp simp: parse_parts parse_entries_valid [OF assms(1)])

lemma parseFeaturePolicyDocument_printed:
  assumes "document_valid e d"
  shows "parseFeaturePolicyDocument e (document_value d) = Some d"
proof -
  from assms obtain t u where t: "date_parse e (fd_issued_at d) = Some t" "date_parse e (fd_expires_at d) = Some u"
      "t < u" "u \<le> t + FEATURE_POLICY_MAX_VALIDITY_MS"
    by (auto simp: document_valid_def instant_valid_def)
  from assms have d: "fd_schema_version d = FEATURE_POLICY_SCHEMA"
      "identifierValue (Str (fd_policy_version d)) POLICY_VERSION_PATTERN = Some (fd_policy_version d)"
      "canonicalIsoInstant e (Str (fd_issued_at d)) = Some (fd_issued_at d)"
      "canonicalIsoInstant e (Str (fd_expires_at d)) = Some (fd_expires_at d)"
      "length (fd_features d) \<le> FEATURE_POLICY_MAX_FEATURES" "distinct (map entry_key (fd_features d))"
      "parse_entries e (map entry_value (fd_features d)) = Some (fd_features d)"
    by (simp_all add: document_valid_def canonicalIsoInstant_Some parse_entries_printed del: canonicalIsoInstant.simps)
  show ?thesis
    using t d
    by (cases d) (simp add: parseFeaturePolicyDocument_def document_value_def assertExactKeys_def field_def
        require_def del: canonicalIsoInstant.simps identifierValue.simps)
qed


section \<open>Properties\<close>


subsection \<open>A concrete document\<close>

definition sample_entry :: FeaturePolicyEntry where
  "sample_entry = \<lparr>fe_feature_id = ''skill.execute'', fe_enabled = True, fe_scope = ''global'', fe_scope_id = None,
     fe_audience = ''user'', fe_mode = ''default'', fe_risk_level = ''low'', fe_limits = [(''count'', 10), (''cost_cents'', 500)],
     fe_data_policy = \<lparr>dp_processing_location = ''platform_region'', dp_retention_days = 30, dp_export_allowed = True,
       dp_deletion_allowed = True\<rparr>,
     fe_required_entitlements = [''pack:hr''], fe_required_permissions = [], fe_min_manager_version = ''1.0.0'',
     fe_max_manager_version = None, fe_emergency_disabled = False\<rparr>"

definition sample_tenant_entry :: FeaturePolicyEntry where
  "sample_tenant_entry = sample_entry\<lparr>fe_scope := ''tenant'', fe_scope_id := Some ''t1'', fe_mode := ''admin_approved'',
     fe_limits := [(''count'', 4)], fe_required_permissions := [''file:read'']\<rparr>"

definition sample_policy :: FeaturePolicyDocument where
  "sample_policy = \<lparr>fd_schema_version = FEATURE_POLICY_SCHEMA, fd_policy_version = ''p1'',
     fd_issued_at = toISOString 1767225600000, fd_expires_at = toISOString 1767225660000,
     fd_features = [sample_entry, sample_tenant_entry]\<rparr>"

lemma iso_2026_minute: "toISOString 1767225660000 = ''2026-01-01T00:01:00.000Z''"
  by (simp add: iso_eval)

lemma sample_policy_times [simp]:
  "date_parse e (toISOString 1767225600000) = Some 1767225600000"
  "date_parse e (toISOString 1767225660000) = Some 1767225660000"
  by (rule date_parse_toISOString, rule common_eraI, simp, simp)+

lemma sample_comparator: "js_comparator (localeCompare sample_env)"
  by (simp add: sample_env_def code_units.js_comparator_axioms)

lemma sample_instants: "instant_valid e (toISOString 1767225600000)" "instant_valid e (toISOString 1767225660000)"
proof -
  have "length (toISOString 1767225600000) = 24" "length (toISOString 1767225660000) = 24"
    by (simp_all add: iso_2026 iso_2026_minute)
  then show "instant_valid e (toISOString 1767225600000)" "instant_valid e (toISOString 1767225660000)"
    by (simp_all add: instant_valid_def)
qed

lemma sample_entries: "entry_valid sample_env sample_entry" "entry_valid sample_env sample_tenant_entry"
  by (simp_all add: entry_valid_def sample_entry_def sample_tenant_entry_def FEATURE_IDS_def FEATURE_POLICY_SCOPES_def
      FEATURE_POLICY_AUDIENCES_def FEATURE_POLICY_MODES_def FEATURE_RISK_LEVELS_def FEATURE_LIMIT_KEYS_def
      FEATURE_PROCESSING_LOCATIONS_def maxSafeInteger_def data_policy_valid_def names_valid_def version_valid_def
      SEMVER_PATTERN_def core_part_def prerelease_part_def core_triple_def core_numeral_def SCOPE_ID_PATTERN_def
      ENTITLEMENT_PATTERN_def PERMISSION_PATTERN_def grant_segment_def is_id_char_def is_alnum_def is_digit_def
      is_lower_def is_upper_def char_in_def all_within_def)

lemma sample_policy_valid: "document_valid sample_env sample_policy"
proof -
  have "fd_schema_version sample_policy = FEATURE_POLICY_SCHEMA" "POLICY_VERSION_PATTERN (fd_policy_version sample_policy)"
      "length (fd_features sample_policy) \<le> FEATURE_POLICY_MAX_FEATURES"
    by (simp_all add: sample_policy_def POLICY_VERSION_PATTERN_def is_alnum_def is_digit_def is_lower_def is_upper_def
        char_in_def is_id_char_def all_within_def FEATURE_POLICY_MAX_FEATURES_def)
  moreover have "distinct (map entry_key (fd_features sample_policy))"
    by (simp add: sample_policy_def sample_entry_def sample_tenant_entry_def entry_key_def nul_def)
  ultimately show ?thesis
    using sample_instants sample_entries
    by (simp add: document_valid_def sample_policy_def FEATURE_POLICY_MAX_VALIDITY_MS_def)
qed


end
