(* ===== verification/Feature_Resolution.thy ===== *)
theory Feature_Resolution
  imports Feature_Policy
begin

text \<open>
  The resolution of a feature policy (\<^verbatim>\<open>packages/longhub-feature-policy/src/resolution.ts\<close>): the version
  order, the entries that apply to a caller, their merge into one policy and the access decision.
  \<open>None\<close> stands for \<^verbatim>\<open>FeaturePolicyUnavailableError\<close>, whose message is not modelled. The lemmas show that the
  merge is the meet of the entries in the order of permissiveness, and exactly when access is granted.
\<close>

subsection \<open>Versions\<close>

record ParsedSemver =
  sv_core :: "js_number list"
  sv_prerelease :: "string list"

definition parseSemver :: "js_env \<Rightarrow> string \<Rightarrow> ParsedSemver option" where
  "parseSemver e version =
    (if \<not> core_triple (core_part version) then None
     else let core = map (js_Number e) (split_on CHR ''.'' (core_part version)) in
       case prerelease_part version of
         None \<Rightarrow> Some \<lparr>sv_core = core, sv_prerelease = []\<rparr>
       | Some s \<Rightarrow>
           if s \<noteq> [] \<and> list_all (\<lambda>c. is_prerelease_char c \<or> c = CHR ''.'') s
           then Some \<lparr>sv_core = core, sv_prerelease = split_on CHR ''.'' s\<rparr> else None)"

definition numeric :: "string \<Rightarrow> bool" where
  "numeric s \<longleftrightarrow> s \<noteq> [] \<and> list_all is_digit s"

text \<open>The loop over the parts, from the first; a list that ended reads as \<^verbatim>\<open>undefined\<close>.\<close>

fun compare_parts :: "js_env \<Rightarrow> string list \<Rightarrow> string list \<Rightarrow> int" where
  "compare_parts e [] [] = 0"
| "compare_parts e [] (r # rs) = - 1"
| "compare_parts e (l # ls) [] = 1"
| "compare_parts e (l # ls) (r # rs) =
    (if l = r then compare_parts e ls rs
     else if numeric l \<and> numeric r then (if js_greater e (js_Number e r) (js_Number e l) then - 1 else 1)
     else if numeric l \<noteq> numeric r then (if numeric l then - 1 else 1)
     else if l < r then - 1 else 1)"

definition comparePrerelease :: "js_env \<Rightarrow> string list \<Rightarrow> string list \<Rightarrow> int" where
  "comparePrerelease e left right =
    (if left = [] \<or> right = [] then (if length left = length right then 0 else if left = [] then 1 else - 1)
     else compare_parts e left right)"

text \<open>
  The sign of \<^verbatim>\<open>left - right\<close>; the difference of two infinities is \<^verbatim>\<open>NaN\<close>, which is not \<^verbatim>\<open>0\<close> and not
  below it.
\<close>

definition difference_sign :: "js_env \<Rightarrow> js_number \<Rightarrow> js_number \<Rightarrow> int" where
  "difference_sign e a b =
    (if a = b \<and> a \<notin> {NaN, PosInf, NegInf} then 0 else if js_greater e b a then - 1 else 1)"

fun compare_core :: "js_env \<Rightarrow> js_number list \<Rightarrow> js_number list \<Rightarrow> int" where
  "compare_core e (a # as) (b # bs) = cmp_then (difference_sign e a b) (compare_core e as bs)"
| "compare_core e as bs = 0"

definition compareSemver :: "js_env \<Rightarrow> string \<Rightarrow> string \<Rightarrow> int option" where
  "compareSemver e left right = do {
     l \<leftarrow> parseSemver e left;
     r \<leftarrow> parseSemver e right;
     Some (cmp_then (compare_core e (sv_core l) (sv_core r)) (comparePrerelease e (sv_prerelease l) (sv_prerelease r)))
   }"

subsection \<open>The entries that apply\<close>

datatype scope_ref = One string | Many "string list"

text \<open>A \<^verbatim>\<open>Date\<close> is a time value, or \<open>None\<close> for an invalid one.\<close>

type_synonym js_date = "int option"

record FeaturePolicyContext =
  cx_manager_version :: string
  cx_audience :: string
  cx_scope_ids :: "(string, scope_ref) js_map"
  cx_now :: "js_date option"

definition in_scope :: "FeaturePolicyEntry \<Rightarrow> FeaturePolicyContext \<Rightarrow> bool" where
  "in_scope entry context \<longleftrightarrow> fe_scope entry = ''global'' \<or>
    (case map_get (cx_scope_ids context) (fe_scope entry) of
       None \<Rightarrow> False
     | Some (One s) \<Rightarrow> fe_scope_id entry = Some s
     | Some (Many ss) \<Rightarrow> case_option [] id (fe_scope_id entry) \<in> set ss)"

definition isEntryApplicable :: "js_env \<Rightarrow> FeaturePolicyEntry \<Rightarrow> FeaturePolicyContext \<Rightarrow> bool option" where
  "isEntryApplicable e entry context =
    (if fe_audience entry \<noteq> cx_audience context then Some False
     else do {
       low \<leftarrow> compareSemver e (cx_manager_version context) (fe_min_manager_version entry);
       if low < 0 then Some False
       else case fe_max_manager_version entry of
         None \<Rightarrow> Some (in_scope entry context)
       | Some v \<Rightarrow> do {
           high \<leftarrow> compareSemver e (cx_manager_version context) v;
           Some (\<not> 0 < high \<and> in_scope entry context)
         }
     })"

text \<open>\<^verbatim>\<open>document.features.filter(...)\<close>, which a refused version leaves.\<close>

fun applicable_entries ::
  "js_env \<Rightarrow> string \<Rightarrow> FeaturePolicyContext \<Rightarrow> FeaturePolicyEntry list \<Rightarrow> FeaturePolicyEntry list option" where
  "applicable_entries e featureId context [] = Some []"
| "applicable_entries e featureId context (x # xs) =
    (if fe_feature_id x \<noteq> featureId then applicable_entries e featureId context xs
     else do {
       applies \<leftarrow> isEntryApplicable e x context;
       rest \<leftarrow> applicable_entries e featureId context xs;
       Some (if applies then x # rest else rest)
     })"

subsection \<open>Merging\<close>

text \<open>\<^verbatim>\<open>Math.min(v, ...vs)\<close>\<close>

definition least :: "int \<Rightarrow> int list \<Rightarrow> int" where
  "least v vs = foldl min v vs"

fun limit_values :: "FeaturePolicyEntry list \<Rightarrow> string \<Rightarrow> int list" where
  "limit_values [] key = []"
| "limit_values (x # xs) key =
    (case map_get (fe_limits x) key of None \<Rightarrow> [] | Some i \<Rightarrow> [i]) @ limit_values xs key"

fun merge_keys :: "FeaturePolicyEntry list \<Rightarrow> string list \<Rightarrow> feature_limits" where
  "merge_keys xs [] = []"
| "merge_keys xs (key # keys) =
    (case limit_values xs key of [] \<Rightarrow> [] | v # vs \<Rightarrow> [(key, least v vs)]) @ merge_keys xs keys"

definition mergeLimits :: "FeaturePolicyEntry list \<Rightarrow> feature_limits" where
  "mergeLimits xs = merge_keys xs FEATURE_LIMIT_KEYS"

fun indexOf :: "'a list \<Rightarrow> 'a \<Rightarrow> int" where
  "indexOf [] v = - 1"
| "indexOf (x # xs) v = (if x = v then 0 else if indexOf xs v = - 1 then - 1 else indexOf xs v + 1)"

text \<open>\<^verbatim>\<open>reduce\<close> without an initial value starts from the first element.\<close>

definition maxByOrder :: "string \<Rightarrow> string list \<Rightarrow> string list \<Rightarrow> string" where
  "maxByOrder v vs order =
    foldl (\<lambda>highest value. if indexOf order value > indexOf order highest then value else highest) v vs"

definition mergeDataPolicy :: "FeaturePolicyEntry \<Rightarrow> FeaturePolicyEntry list \<Rightarrow> FeatureDataPolicy" where
  "mergeDataPolicy x xs =
    \<lparr>dp_processing_location = maxByOrder (dp_processing_location (fe_data_policy x))
       (map (dp_processing_location \<circ> fe_data_policy) xs) FEATURE_PROCESSING_LOCATIONS,
     dp_retention_days = least (dp_retention_days (fe_data_policy x)) (map (dp_retention_days \<circ> fe_data_policy) xs),
     dp_export_allowed = list_all (dp_export_allowed \<circ> fe_data_policy) (x # xs),
     dp_deletion_allowed = list_all (dp_deletion_allowed \<circ> fe_data_policy) (x # xs)\<rparr>"

definition unionSorted :: "js_env \<Rightarrow> string list list \<Rightarrow> string list" where
  "unionSorted e vss = js_sort (localeCompare e) (js_dedup (concat vss))"

record ResolvedFeaturePolicy =
  rp_feature_id :: string
  rp_policy_version :: string
  rp_enabled :: bool
  rp_emergency_disabled :: bool
  rp_mode :: string
  rp_risk_level :: string
  rp_limits :: feature_limits
  rp_data_policy :: FeatureDataPolicy
  rp_required_entitlements :: "string list"
  rp_required_permissions :: "string list"
  rp_applied_scopes :: "string list"

definition applied_scope :: "FeaturePolicyEntry \<Rightarrow> string" where
  "applied_scope x =
    (if fe_scope x = ''global'' then ''global'' else fe_scope x @ '':'' @ case_option ''undefined'' id (fe_scope_id x))"

definition merge_entries ::
  "js_env \<Rightarrow> FeaturePolicyDocument \<Rightarrow> string \<Rightarrow> FeaturePolicyEntry \<Rightarrow> FeaturePolicyEntry list \<Rightarrow> ResolvedFeaturePolicy" where
  "merge_entries e document featureId x xs =
    (let emergencyDisabled = list_ex fe_emergency_disabled (x # xs) in
     \<lparr>rp_feature_id = featureId, rp_policy_version = fd_policy_version document,
      rp_enabled = (\<not> emergencyDisabled \<and> list_all fe_enabled (x # xs)), rp_emergency_disabled = emergencyDisabled,
      rp_mode = maxByOrder (fe_mode x) (map fe_mode xs) FEATURE_POLICY_MODES,
      rp_risk_level = (if list_ex (\<lambda>y. fe_risk_level y = ''high'') (x # xs) then ''high'' else ''low''),
      rp_limits = mergeLimits (x # xs), rp_data_policy = mergeDataPolicy x xs,
      rp_required_entitlements = unionSorted e (map fe_required_entitlements (x # xs)),
      rp_required_permissions = unionSorted e (map fe_required_permissions (x # xs)),
      rp_applied_scopes = map applied_scope (x # xs)\<rparr>)"

text \<open>A time that does not parse is \<^verbatim>\<open>NaN\<close>, and no comparison with it holds.\<close>

definition assertDocumentFresh :: "js_env \<Rightarrow> FeaturePolicyDocument \<Rightarrow> js_date \<Rightarrow> bool" where
  "assertDocumentFresh e document now =
    (case now of
       None \<Rightarrow> False
     | Some timestamp \<Rightarrow>
         \<not> (case date_parse e (fd_issued_at document) of None \<Rightarrow> False | Some t \<Rightarrow> t > timestamp) \<and>
         \<not> (case date_parse e (fd_expires_at document) of None \<Rightarrow> False | Some t \<Rightarrow> t \<le> timestamp))"

definition check_time :: "js_env \<Rightarrow> FeaturePolicyContext \<Rightarrow> js_date" where
  "check_time e context = (case cx_now context of None \<Rightarrow> Some (clock e 0) | Some d \<Rightarrow> d)"

definition resolveFeaturePolicy ::
  "js_env \<Rightarrow> FeaturePolicyDocument \<Rightarrow> string \<Rightarrow> FeaturePolicyContext \<Rightarrow> ResolvedFeaturePolicy option option" where
  "resolveFeaturePolicy e document featureId context = do {
     require (assertDocumentFresh e document (check_time e context));
     entries \<leftarrow> applicable_entries e featureId context (fd_features document);
     Some (case entries of [] \<Rightarrow> None | x # xs \<Rightarrow> Some (merge_entries e document featureId x xs))
   }"

subsection \<open>The decision\<close>

datatype FeatureAccessDecision = Allowed | Denied string "string list option"

record feature_grants =
  gr_entitlements :: "string list"
  gr_permissions :: "string list"

definition missing :: "string list \<Rightarrow> string list \<Rightarrow> string list" where
  "missing required granted = filter (\<lambda>r. r \<notin> set granted) required"

definition decideFeatureAccess :: "ResolvedFeaturePolicy option \<Rightarrow> feature_grants \<Rightarrow> FeatureAccessDecision" where
  "decideFeatureAccess policy grants =
    (case policy of
       None \<Rightarrow> Denied ''POLICY_NOT_FOUND'' None
     | Some p \<Rightarrow>
         if rp_emergency_disabled p then Denied ''EMERGENCY_DISABLED'' None
         else if \<not> rp_enabled p then Denied ''FEATURE_DISABLED'' None
         else let missingEntitlements = missing (rp_required_entitlements p) (gr_entitlements grants);
                  missingPermissions = missing (rp_required_permissions p) (gr_permissions grants)
              in if missingEntitlements \<noteq> [] then Denied ''MISSING_ENTITLEMENT'' (Some missingEntitlements)
                 else if missingPermissions \<noteq> [] then Denied ''MISSING_PERMISSION'' (Some missingPermissions)
                 else Allowed)"


subsection \<open>The order of permissiveness\<close>

definition applies :: "js_env \<Rightarrow> string \<Rightarrow> FeaturePolicyContext \<Rightarrow> FeaturePolicyEntry \<Rightarrow> bool" where
  "applies e featureId context x \<longleftrightarrow> fe_feature_id x = featureId \<and> isEntryApplicable e x context = Some True"

text \<open>An absent limit is no limit.\<close>

fun limit_le :: "int option \<Rightarrow> int option \<Rightarrow> bool" where
  "limit_le a None = True"
| "limit_le None (Some j) = False"
| "limit_le (Some i) (Some j) = (i \<le> j)"

text \<open>\<open>stricter q p\<close>: \<open>q\<close> permits nothing that \<open>p\<close> forbids.\<close>

definition stricter :: "ResolvedFeaturePolicy \<Rightarrow> ResolvedFeaturePolicy \<Rightarrow> bool" where
  "stricter q p \<longleftrightarrow>
    (rp_enabled q \<longrightarrow> rp_enabled p) \<and> (rp_emergency_disabled p \<longrightarrow> rp_emergency_disabled q) \<and>
    indexOf FEATURE_POLICY_MODES (rp_mode p) \<le> indexOf FEATURE_POLICY_MODES (rp_mode q) \<and>
    (rp_risk_level p = ''high'' \<longrightarrow> rp_risk_level q = ''high'') \<and>
    (\<forall>k \<in> set FEATURE_LIMIT_KEYS. limit_le (map_get (rp_limits q) k) (map_get (rp_limits p) k)) \<and>
    indexOf FEATURE_PROCESSING_LOCATIONS (dp_processing_location (rp_data_policy p))
      \<le> indexOf FEATURE_PROCESSING_LOCATIONS (dp_processing_location (rp_data_policy q)) \<and>
    dp_retention_days (rp_data_policy q) \<le> dp_retention_days (rp_data_policy p) \<and>
    (dp_export_allowed (rp_data_policy q) \<longrightarrow> dp_export_allowed (rp_data_policy p)) \<and>
    (dp_deletion_allowed (rp_data_policy q) \<longrightarrow> dp_deletion_allowed (rp_data_policy p)) \<and>
    set (rp_required_entitlements p) \<subseteq> set (rp_required_entitlements q) \<and>
    set (rp_required_permissions p) \<subseteq> set (rp_required_permissions q)"

text \<open>The policy that one entry alone stands for.\<close>

definition entry_policy :: "FeaturePolicyEntry \<Rightarrow> ResolvedFeaturePolicy" where
  "entry_policy x =
    \<lparr>rp_feature_id = fe_feature_id x, rp_policy_version = [], rp_enabled = (\<not> fe_emergency_disabled x \<and> fe_enabled x),
     rp_emergency_disabled = fe_emergency_disabled x, rp_mode = fe_mode x, rp_risk_level = fe_risk_level x,
     rp_limits = fe_limits x, rp_data_policy = fe_data_policy x, rp_required_entitlements = fe_required_entitlements x,
     rp_required_permissions = fe_required_permissions x, rp_applied_scopes = [applied_scope x]\<rparr>"

subsection \<open>Facts about the merge\<close>

lemma applicable_entries_filter:
  "applicable_entries e f cx xs = Some ys \<Longrightarrow> ys = filter (applies e f cx) xs"
proof (induction xs arbitrary: ys)
  case (Cons x xs)
  show ?case
  proof (cases "fe_feature_id x = f")
    case True
    with Cons.prems obtain b rest where "isEntryApplicable e x cx = Some b" "applicable_entries e f cx xs = Some rest"
        "ys = (if b then x # rest else rest)"
      by (auto simp: bind_eq_Some_conv)
    with Cons.IH True show ?thesis by (auto simp: applies_def)
  next
    case False
    with Cons show ?thesis by (simp add: applies_def)
  qed
qed simp

lemma least_le: "i \<in> set (v # vs) \<Longrightarrow> least v vs \<le> i"
proof (induction vs arbitrary: v i)
  case (Cons w vs)
  have step: "least v (w # vs) = least (min v w) vs" by (simp add: least_def)
  from Cons.IH [of "min v w" "min v w"] have "least (min v w) vs \<le> min v w" by simp
  moreover have "least (min v w) vs \<le> j" if "j \<in> set vs" for j using Cons.IH that by simp
  ultimately show ?case using Cons.prems step by force
qed (simp add: least_def)

lemma least_in: "least v vs \<in> set (v # vs)"
proof (induction vs arbitrary: v)
  case (Cons w vs)
  from Cons.IH [of "min v w"] show ?case by (auto simp: least_def min_def split: if_splits)
qed (simp add: least_def)

lemma limit_values_set: "set (limit_values xs k) = {i. \<exists>x \<in> set xs. map_get (fe_limits x) k = Some i}"
  by (induction xs) (auto split: option.splits)

lemma merge_keys_get:
  "map_get (merge_keys xs keys) k =
    (if k \<in> set keys then (case limit_values xs k of [] \<Rightarrow> None | v # vs \<Rightarrow> Some (least v vs)) else None)"
  by (induction keys) (auto split: list.splits)

lemma mergeLimits_le:
  assumes "x \<in> set xs" and "k \<in> set FEATURE_LIMIT_KEYS"
  shows "limit_le (map_get (mergeLimits xs) k) (map_get (fe_limits x) k)"
proof (cases "map_get (fe_limits x) k")
  case (Some i)
  with assms(1) have i: "i \<in> set (limit_values xs k)" by (auto simp: limit_values_set)
  then obtain v vs where vs: "limit_values xs k = v # vs" by (cases "limit_values xs k") auto
  with i least_le [of i v vs] assms(2) Some show ?thesis by (simp add: mergeLimits_def merge_keys_get)
qed simp

lemma mergeLimits_greatest:
  assumes "\<And>x. x \<in> set xs \<Longrightarrow> limit_le l (map_get (fe_limits x) k)"
  shows "limit_le l (map_get (mergeLimits xs) k)"
proof (cases "map_get (mergeLimits xs) k")
  case (Some i)
  then obtain v vs where "limit_values xs k = v # vs" "i = least v vs"
    by (auto simp: mergeLimits_def merge_keys_get split: if_splits list.splits)
  with least_in [of v vs] have "i \<in> set (limit_values xs k)" by simp
  then obtain x where "x \<in> set xs" "map_get (fe_limits x) k = Some i" by (auto simp: limit_values_set)
  with assms [of x] Some show ?thesis by simp
qed simp

lemma maxByOrder_in: "maxByOrder v vs order \<in> set (v # vs)"
  by (induction vs arbitrary: v) (auto simp: maxByOrder_def)

lemma maxByOrder_ge: "w \<in> set (v # vs) \<Longrightarrow> indexOf order w \<le> indexOf order (maxByOrder v vs order)"
proof (induction vs arbitrary: v w)
  case (Cons u vs)
  let ?h = "if indexOf order u > indexOf order v then u else v"
  have step: "maxByOrder v (u # vs) order = maxByOrder ?h vs order" by (simp add: maxByOrder_def)
  have "indexOf order ?h \<le> indexOf order (maxByOrder ?h vs order)" by (rule Cons.IH) simp
  moreover have "indexOf order y \<le> indexOf order (maxByOrder ?h vs order)" if "y \<in> set vs" for y
    using Cons.IH [of y ?h] that by simp
  ultimately show ?case using Cons.prems step by (auto split: if_splits)
qed (simp add: maxByOrder_def)

lemma set_unionSorted: "set (unionSorted e vss) = \<Union> (set ` set vss)"
  by (simp add: unionSorted_def)


lemma merge_stricter:
  assumes "y \<in> set (x # xs)"
  shows "stricter (merge_entries e d f x xs) (entry_policy y)"
proof -
  have member: "\<And>g. g y \<in> set (g x # map g xs)" using assms by auto
  have mode: "indexOf FEATURE_POLICY_MODES (fe_mode y)
      \<le> indexOf FEATURE_POLICY_MODES (maxByOrder (fe_mode x) (map fe_mode xs) FEATURE_POLICY_MODES)"
    by (rule maxByOrder_ge, rule member)
  have location: "indexOf FEATURE_PROCESSING_LOCATIONS (dp_processing_location (fe_data_policy y))
      \<le> indexOf FEATURE_PROCESSING_LOCATIONS (maxByOrder (dp_processing_location (fe_data_policy x))
           (map (dp_processing_location \<circ> fe_data_policy) xs) FEATURE_PROCESSING_LOCATIONS)"
    using maxByOrder_ge [OF member [of "dp_processing_location \<circ> fe_data_policy"], of FEATURE_PROCESSING_LOCATIONS] by simp
  have days: "least (dp_retention_days (fe_data_policy x)) (map (dp_retention_days \<circ> fe_data_policy) xs)
      \<le> dp_retention_days (fe_data_policy y)"
    using least_le [OF member [of "dp_retention_days \<circ> fe_data_policy"]] by simp
  have names: "set (g y) \<subseteq> set (unionSorted e (map g (x # xs)))" for g :: "FeaturePolicyEntry \<Rightarrow> string list"
    using assms by (auto simp: set_unionSorted)

  have flag_all: "(\<not> list_ex fe_emergency_disabled (x # xs) \<and> list_all fe_enabled (x # xs) \<longrightarrow>
        \<not> fe_emergency_disabled y \<and> fe_enabled y)"
      "fe_emergency_disabled y \<longrightarrow> list_ex fe_emergency_disabled (x # xs)"
      "fe_risk_level y = ''high'' \<longrightarrow> list_ex (\<lambda>y. fe_risk_level y = ''high'') (x # xs)"
      "list_all (dp_export_allowed \<circ> fe_data_policy) (x # xs) \<longrightarrow> dp_export_allowed (fe_data_policy y)"
      "list_all (dp_deletion_allowed \<circ> fe_data_policy) (x # xs) \<longrightarrow> dp_deletion_allowed (fe_data_policy y)"
    using assms by (auto simp: list_ex_iff list_all_iff)
  show ?thesis
    using flag_all mode location days names [of fe_required_entitlements] names [of fe_required_permissions]
      mergeLimits_le [OF assms]
    unfolding stricter_def merge_entries_def entry_policy_def mergeDataPolicy_def Let_def by simp
qed

lemma merge_greatest:
  assumes "\<And>y. y \<in> set (x # xs) \<Longrightarrow> stricter q (entry_policy y)"
  shows "stricter q (merge_entries e d f x xs)"
proof -
  obtain m where m: "m \<in> set (x # xs)" "maxByOrder (fe_mode x) (map fe_mode xs) FEATURE_POLICY_MODES = fe_mode m"
    using maxByOrder_in [of "fe_mode x" "map fe_mode xs" FEATURE_POLICY_MODES] by auto
  obtain l where l: "l \<in> set (x # xs)" "maxByOrder (dp_processing_location (fe_data_policy x))
      (map (dp_processing_location \<circ> fe_data_policy) xs) FEATURE_PROCESSING_LOCATIONS = dp_processing_location (fe_data_policy l)"
    using maxByOrder_in [of "dp_processing_location (fe_data_policy x)"
        "map (dp_processing_location \<circ> fe_data_policy) xs" FEATURE_PROCESSING_LOCATIONS] by auto
  obtain r where r: "r \<in> set (x # xs)" "least (dp_retention_days (fe_data_policy x))
      (map (dp_retention_days \<circ> fe_data_policy) xs) = dp_retention_days (fe_data_policy r)"
    using least_in [of "dp_retention_days (fe_data_policy x)" "map (dp_retention_days \<circ> fe_data_policy) xs"] by auto
  have limits: "limit_le (map_get (rp_limits q) k) (map_get (mergeLimits (x # xs)) k)" if "k \<in> set FEATURE_LIMIT_KEYS" for k
    using that assms by (intro mergeLimits_greatest) (simp add: stricter_def entry_policy_def)
  have names: "set (unionSorted e (map g (x # xs))) \<subseteq> A" if "\<And>y. y \<in> set (x # xs) \<Longrightarrow> set (g y) \<subseteq> A"
    for g :: "FeaturePolicyEntry \<Rightarrow> string list" and A
    using that by (auto simp: set_unionSorted)
  note each = assms [unfolded stricter_def entry_policy_def, simplified]
  have flags: "rp_enabled q \<longrightarrow> \<not> list_ex fe_emergency_disabled (x # xs) \<and> list_all fe_enabled (x # xs)"
      "list_ex fe_emergency_disabled (x # xs) \<longrightarrow> rp_emergency_disabled q"
      "list_ex (\<lambda>y. fe_risk_level y = ''high'') (x # xs) \<longrightarrow> rp_risk_level q = ''high''"
      "dp_export_allowed (rp_data_policy q) \<longrightarrow> list_all (dp_export_allowed \<circ> fe_data_policy) (x # xs)"
      "dp_deletion_allowed (rp_data_policy q) \<longrightarrow> list_all (dp_deletion_allowed \<circ> fe_data_policy) (x # xs)"
    using each by (auto simp: list_ex_iff list_all_iff)
  show ?thesis
    using flags each [of m] m each [of l] l each [of r] r limits
      names [of fe_required_entitlements "set (rp_required_entitlements q)"]
      names [of fe_required_permissions "set (rp_required_permissions q)"] each
    unfolding stricter_def merge_entries_def mergeDataPolicy_def Let_def by simp
qed

lemma policy_resolve_cases:
  assumes "resolveFeaturePolicy e d f cx = Some r"
  obtains (absent) "r = None" "filter (applies e f cx) (fd_features d) = []"
  | (merged) x xs where "r = Some (merge_entries e d f x xs)" "filter (applies e f cx) (fd_features d) = x # xs"
proof -
  from assms obtain ys where ys: "applicable_entries e f cx (fd_features d) = Some ys"
      "r = (case ys of [] \<Rightarrow> None | x # xs \<Rightarrow> Some (merge_entries e d f x xs))"
    by (auto simp: resolveFeaturePolicy_def bind_eq_Some_conv require_Some)
  show thesis
  proof (cases ys)
    case Nil
    with ys(2) applicable_entries_filter [OF ys(1)] show ?thesis by (intro absent) simp_all
  next
    case (Cons x xs)
    show ?thesis
    proof (rule merged)
      show "r = Some (merge_entries e d f x xs)" using ys(2) Cons by simp
      show "filter (applies e f cx) (fd_features d) = x # xs" using applicable_entries_filter [OF ys(1)] Cons by simp
    qed
  qed
qed

lemma filter_Cons_set: "filter P ys = x # xs \<Longrightarrow> set (x # xs) = {y \<in> set ys. P y}"
  by (metis set_filter)

lemma missing_Nil: "missing required granted = [] \<longleftrightarrow> set required \<subseteq> set granted"
  by (auto simp: missing_def filter_empty_conv)

lemma decide_merged:
  "decideFeatureAccess (Some (merge_entries e d f x xs)) g = Allowed \<longleftrightarrow>
    (\<forall>y \<in> set (x # xs). fe_enabled y \<and> \<not> fe_emergency_disabled y \<and>
      set (fe_required_entitlements y) \<subseteq> set (gr_entitlements g) \<and> set (fe_required_permissions y) \<subseteq> set (gr_permissions g))"
  by (auto simp: decideFeatureAccess_def merge_entries_def Let_def missing_Nil set_unionSorted list_ex_iff list_all_iff
      split: if_splits)


section \<open>Properties\<close>

text \<open>
  C17: Merging is the meet: when entries apply to the caller, the resolved policy is at most as permissive as
  every entry that applies (enablement, emergency stop, mode, risk, every limit, processing location,
  retention, export, deletion, requirements), and it is the most permissive such policy: whatever is at most as permissive as all
  of those entries is at most as permissive as it. An unfresh document resolves to nothing.
\<close>

theorem policy_merge_meet:
  assumes "resolveFeaturePolicy e d f cx = Some (Some p)"
  shows "assertDocumentFresh e d (check_time e cx) \<and>
    (\<exists>x \<in> set (fd_features d). applies e f cx x) \<and>
    (\<forall>x \<in> set (fd_features d). applies e f cx x \<longrightarrow> stricter p (entry_policy x)) \<and>
    (\<forall>q. (\<forall>x \<in> set (fd_features d). applies e f cx x \<longrightarrow> stricter q (entry_policy x)) \<longrightarrow> stricter q p)"
proof -
  have fresh: "assertDocumentFresh e d (check_time e cx)"
    using assms by (auto simp: resolveFeaturePolicy_def bind_eq_Some_conv require_Some)
  from assms show ?thesis
  proof (cases rule: policy_resolve_cases)
    case (merged x xs)
    note S = filter_Cons_set [OF merged(2)]
    have p: "p = merge_entries e d f x xs" using merged(1) by simp
    have "x \<in> {y \<in> set (fd_features d). applies e f cx y}" unfolding S [symmetric] by simp
    moreover have "stricter p (entry_policy y)" if "y \<in> set (fd_features d)" "applies e f cx y" for y
      unfolding p by (rule merge_stricter) (use S that in blast)
    moreover have "stricter q p" if "\<forall>x \<in> set (fd_features d). applies e f cx x \<longrightarrow> stricter q (entry_policy x)" for q
      unfolding p by (rule merge_greatest) (use S that in blast)
    ultimately show ?thesis using fresh by blast
  qed simp
qed

text \<open>
  C23: Access to a feature is allowed exactly when some entry of the document applies to the caller and every entry that
  applies is enabled, is not stopped by emergency, and has all its required entitlements and permissions among the
  caller's grants.
\<close>

theorem access_allowed_iff:
  assumes "resolveFeaturePolicy e d f cx = Some r"
  shows "decideFeatureAccess r g = Allowed \<longleftrightarrow>
    (\<exists>x \<in> set (fd_features d). applies e f cx x) \<and>
    (\<forall>x \<in> set (fd_features d). applies e f cx x \<longrightarrow> fe_enabled x \<and> \<not> fe_emergency_disabled x \<and>
      set (fe_required_entitlements x) \<subseteq> set (gr_entitlements g) \<and> set (fe_required_permissions x) \<subseteq> set (gr_permissions g))"
  using assms
proof (cases rule: policy_resolve_cases)
  case absent
  then have "\<not> (\<exists>x \<in> set (fd_features d). applies e f cx x)" by (simp add: filter_empty_conv)
  with absent(1) show ?thesis by (simp add: decideFeatureAccess_def)
next
  case (merged x xs)
  note S = filter_Cons_set [OF merged(2)]
  have x: "x \<in> {y \<in> set (fd_features d). applies e f cx y}" unfolding S [symmetric] by simp
  show ?thesis unfolding merged(1) decide_merged S using x by blast
qed


subsection \<open>The sample document\<close>

definition sample_context :: FeaturePolicyContext where
  "sample_context = \<lparr>cx_manager_version = ''1.2.0'', cx_audience = ''user'', cx_scope_ids = [(''tenant'', Many [''t1'', ''t2''])],
     cx_now = Some (Some 1767225630000)\<rparr>"

definition sample_grants :: feature_grants where
  "sample_grants = \<lparr>gr_entitlements = [''pack:hr''], gr_permissions = [''file:read'']\<rparr>"

lemma sample_policy_fresh: "assertDocumentFresh e sample_policy (check_time e sample_context)"
  by (simp add: assertDocumentFresh_def check_time_def sample_context_def sample_policy_def)

lemmas semver_eval = compareSemver_def parseSemver_def core_part_def prerelease_part_def core_triple_def core_numeral_def
  js_Number_def is_digit_def char_in_def read_nat_def digit_value_def difference_sign_def cmp_then_def
  comparePrerelease_def numeric_def is_prerelease_char_def is_alnum_def is_lower_def is_upper_def

lemma sample_compare: "compareSemver e ''1.2.0'' ''1.0.0'' = Some 1"
  by (simp add: semver_eval)

lemma sample_applies: "isEntryApplicable e sample_entry sample_context = Some True"
    "isEntryApplicable e sample_tenant_entry sample_context = Some True"
  by (simp_all add: isEntryApplicable_def sample_context_def sample_entry_def sample_tenant_entry_def in_scope_def
      sample_compare)

lemma sample_resolved:
  "resolveFeaturePolicy e sample_policy ''skill.execute'' sample_context =
    Some (Some (merge_entries e sample_policy ''skill.execute'' sample_entry [sample_tenant_entry]))"
proof -
  have "applicable_entries e ''skill.execute'' sample_context (fd_features sample_policy) = Some [sample_entry, sample_tenant_entry]"
    using sample_applies [of e] by (simp add: sample_policy_def) (simp add: sample_entry_def sample_tenant_entry_def)
  with sample_policy_fresh [of e] show ?thesis by (simp add: resolveFeaturePolicy_def require_def)
qed

theorem policy_merge_meet_witness:
  "resolveFeaturePolicy sample_env sample_policy ''skill.execute'' sample_context =
      Some (Some (merge_entries sample_env sample_policy ''skill.execute'' sample_entry [sample_tenant_entry])) \<and>
    map_get (rp_limits (merge_entries sample_env sample_policy ''skill.execute'' sample_entry [sample_tenant_entry])) ''count'' =
      Some 4 \<and>
    stricter (merge_entries sample_env sample_policy ''skill.execute'' sample_entry [sample_tenant_entry])
      (entry_policy sample_tenant_entry)"
  using policy_merge_meet [OF sample_resolved [of sample_env]] sample_resolved [of sample_env] sample_applies [of sample_env]
  by (simp add: applies_def sample_policy_def)
    (simp add: merge_entries_def Let_def mergeLimits_def FEATURE_LIMIT_KEYS_def sample_entry_def sample_tenant_entry_def least_def)

theorem access_allowed_iff_witness:
  "decideFeatureAccess (Some (merge_entries sample_env sample_policy ''skill.execute'' sample_entry [sample_tenant_entry]))
      sample_grants = Allowed \<and>
    decideFeatureAccess (Some (merge_entries sample_env sample_policy ''skill.execute'' sample_entry [sample_tenant_entry]))
      (sample_grants\<lparr>gr_permissions := []\<rparr>) \<noteq> Allowed"
  using access_allowed_iff [OF sample_resolved [of sample_env], of sample_grants]
    access_allowed_iff [OF sample_resolved [of sample_env], of "sample_grants\<lparr>gr_permissions := []\<rparr>"]
    sample_applies [of sample_env]
  by (simp add: applies_def sample_policy_def)
    (simp add: sample_entry_def sample_tenant_entry_def sample_grants_def)

text \<open>
  Two versions whose numeric prerelease parts differ in leading zeros only are each reported above the other: the
  comparison of the parts as strings says that they differ, the comparison as numbers only asks whether one is below.
\<close>

lemma compareSemver_not_antisymmetric:
  "compareSemver e ''1.0.0-01'' ''1.0.0-1'' = Some 1 \<and> compareSemver e ''1.0.0-1'' ''1.0.0-01'' = Some 1 \<and>
    SEMVER_PATTERN ''1.0.0-01'' \<and> SEMVER_PATTERN ''1.0.0-1''"
  by (simp add: semver_eval SEMVER_PATTERN_def)

end
