(* ===== verification/Workflow_Engine.thy ===== *)
theory Workflow_Engine
  imports Feature_Policy
begin

text \<open>
  Bounded workflows: the parser (\<^verbatim>\<open>packages/longhub-pack-schema/src/workflow-dsl.ts\<close>) and the engine
  (\<^verbatim>\<open>packages/longhub-core/src/workflow-engine.ts\<close>). The engine's dependencies, the abort signal and the
  clock are parameters that answer from a world of their own; a rejected promise answers \<open>None\<close>. An execution
  is one call of \<open>execute_workflow\<close>; it keeps the map of completed sub-steps for the next one. Two executions of one
  engine that overlap in time are not modelled. The lemmas show the shape of parsed workflows, the bounds of every execution, the checks
  before every Skill call, and that no completed call is made again.
\<close>

subsection \<open>The language\<close>

text \<open>A literal is a string, a number, a boolean or null, as a value.\<close>

datatype WorkflowStep =
    SkillStep string string "(string \<times> js_value) list"
  | ConfirmStep string string string
  | BranchStep string string js_value "WorkflowStep list" "WorkflowStep list"
  | LoopStep string nat "WorkflowStep list"

record BoundedWorkflow =
  wf_schemaVersion :: string
  wf_workflowId :: string
  wf_name :: string
  wf_steps :: "WorkflowStep list"

subsection \<open>Parsing\<close>

definition exactKeys :: "(string \<times> js_value) list \<Rightarrow> string list \<Rightarrow> bool" where
  "exactKeys props keys \<longleftrightarrow>
    joined_keys (map fst props) = joined_keys keys"

fun literal :: "js_value \<Rightarrow> bool" where
  "literal Null = True"
| "literal (Str s) = True"
| "literal (Number n) = True"
| "literal (Boolean b) = True"
| "literal v = False"

definition workflow_id_ok :: "string \<Rightarrow> bool" where
  "workflow_id_ok s \<longleftrightarrow> starts_with ''user.workflow.'' (map ascii_lower s) \<and> length s = 50 \<and>
    list_all (\<lambda>c. is_hex c \<or> c = CHR ''-'') (map ascii_lower (drop 14 s))"

definition is_name_char :: "char \<Rightarrow> bool" where
  "is_name_char c \<longleftrightarrow> is_alnum c \<or> c \<in> set ''._-''"

text \<open>\<^verbatim>\<open>/^[A-Za-z0-9._-]{1,64}$/\<close>\<close>

definition step_name_ok :: "string \<Rightarrow> bool" where
  "step_name_ok s \<longleftrightarrow> 1 \<le> length s \<and> length s \<le> 64 \<and> list_all is_name_char s"

definition is_skill_char :: "char \<Rightarrow> bool" where
  "is_skill_char c \<longleftrightarrow> is_lower c \<or> is_digit c \<or> c \<in> set ''._-''"

definition skill_id_ok :: "string \<Rightarrow> bool" where
  "skill_id_ok s \<longleftrightarrow> head_tail (\<lambda>c. is_lower c \<or> is_digit c) is_skill_char 2 159 s \<and> \<not> starts_with ''user.workflow.'' s"

text \<open>A text of at most \<open>limit\<close> code units that is not blank.\<close>

definition bounded_text :: "js_value \<Rightarrow> nat \<Rightarrow> string option" where
  "bounded_text v limit = do {
     s \<leftarrow> string_value v;
     require (js_trim s \<noteq> [] \<and> length s \<le> limit);
     Some s
   }"

definition parse_skill_step :: "(string \<times> js_value) list \<Rightarrow> string \<Rightarrow> WorkflowStep option" where
  "parse_skill_step step sid = do {
     require (exactKeys step [''id'', ''kind'', ''skillId'', ''input'']);
     skillId \<leftarrow> string_value (field step ''skillId'');
     require (skill_id_ok skillId);
     payload \<leftarrow> object_members (field step ''input'');
     require (length payload \<le> 32 \<and> list_all (\<lambda>kv. literal (snd kv)) payload);
     Some (SkillStep sid skillId payload)
   }"

definition parse_confirm_step :: "(string \<times> js_value) list \<Rightarrow> string \<Rightarrow> WorkflowStep option" where
  "parse_confirm_step step sid = do {
     require (exactKeys step [''id'', ''kind'', ''title'', ''summary'']);
     title \<leftarrow> bounded_text (field step ''title'') 80;
     summary \<leftarrow> bounded_text (field step ''summary'') 500;
     Some (ConfirmStep sid title summary)
   }"

text \<open>The members of a branch and of a loop, before their steps are visited.\<close>

definition branch_members :: "(string \<times> js_value) list \<Rightarrow> (string \<times> js_value \<times> js_value list \<times> js_value list) option" where
  "branch_members step = do {
     require (exactKeys step [''id'', ''kind'', ''inputKey'', ''equals'', ''then'', ''else'']);
     inputKey \<leftarrow> string_value (field step ''inputKey'');
     require (step_name_ok inputKey \<and> literal (field step ''equals''));
     thens \<leftarrow> array_items (field step ''then'');
     elses \<leftarrow> array_items (field step ''else'');
     Some (inputKey, field step ''equals'', thens, elses)
   }"

definition loop_members :: "(string \<times> js_value) list \<Rightarrow> (nat \<times> js_value list) option" where
  "loop_members step = do {
     require (exactKeys step [''id'', ''kind'', ''iterations'', ''steps'']);
     n \<leftarrow> number_value (field step ''iterations'');
     iterations \<leftarrow> safeInteger n;
     require (1 \<le> iterations \<and> iterations \<le> 5);
     steps \<leftarrow> array_items (field step ''steps'');
     require (steps \<noteq> []);
     Some (nat iterations, steps)
   }"

text \<open>What \<^verbatim>\<open>visit\<close> shares between its calls: the number of steps seen and their ids.\<close>

record visited =
  vs_total :: nat
  vs_ids :: "string list"

definition step_header :: "js_value \<Rightarrow> visited \<Rightarrow> ((string \<times> js_value) list \<times> string \<times> visited) option" where
  "step_header value st = do {
     require (vs_total st < 20);
     step \<leftarrow> object_members value;
     sid \<leftarrow> string_value (field step ''id'');
     require (step_name_ok sid \<and> sid \<notin> set (vs_ids st));
     Some (step, sid, \<lparr>vs_total = vs_total st + 1, vs_ids = sid # vs_ids st\<rparr>)
   }"

text \<open>
  \<open>visit\<close> is \<^verbatim>\<open>visit(steps, depth)\<close>, whose depth is checked before the first step and stays the same
  for the others; \<open>visit_step\<close> is the body of its loop after the id is entered.
\<close>

function visit :: "js_value list \<Rightarrow> nat \<Rightarrow> visited \<Rightarrow> (WorkflowStep list \<times> visited) option"
  and visit_step :: "(string \<times> js_value) list \<Rightarrow> string \<Rightarrow> nat \<Rightarrow> visited \<Rightarrow> (WorkflowStep \<times> visited) option" where
  "visit values depth st =
    (if 3 < depth then None
     else case values of
       [] \<Rightarrow> Some ([], st)
     | value # values \<Rightarrow> do {
         (step, sid, st1) \<leftarrow> step_header value st;
         (parsed, st2) \<leftarrow> visit_step step sid depth st1;
         (rest, st3) \<leftarrow> visit values depth st2;
         Some (parsed # rest, st3)
       })"
| "visit_step step sid depth st =
    (if field step ''kind'' = Str ''skill'' then map_option (\<lambda>s. (s, st)) (parse_skill_step step sid)
     else if field step ''kind'' = Str ''confirm'' then map_option (\<lambda>s. (s, st)) (parse_confirm_step step sid)
     else if field step ''kind'' = Str ''branch'' then do {
       (inputKey, equals, thens, elses) \<leftarrow> branch_members step;
       (thenSteps, st1) \<leftarrow> visit thens (depth + 1) st;
       (elseSteps, st2) \<leftarrow> visit elses (depth + 1) st1;
       Some (BranchStep sid inputKey equals thenSteps elseSteps, st2)
     }
     else if field step ''kind'' = Str ''loop'' then do {
       (iterations, steps) \<leftarrow> loop_members step;
       (loopSteps, st1) \<leftarrow> visit steps (depth + 1) st;
       Some (LoopStep sid iterations loopSteps, st1)
     }
     else None)"
  by pat_completeness auto
termination
  by (relation "measures
      [\<lambda>x. case x of Inl (values, depth, st) \<Rightarrow> 4 - depth | Inr (step, sid, depth, st) \<Rightarrow> max 1 (4 - depth),
       \<lambda>x. case x of Inl (values, depth, st) \<Rightarrow> Suc (length values) | Inr _ \<Rightarrow> 0]") auto

definition parseBoundedWorkflow :: "js_value \<Rightarrow> BoundedWorkflow option" where
  "parseBoundedWorkflow input = do {
     raw \<leftarrow> object_members input;
     require (exactKeys raw [''schemaVersion'', ''workflowId'', ''name'', ''steps'']);
     require (field raw ''schemaVersion'' = Str ''longhub/workflow/v1'');
     workflowId \<leftarrow> string_value (field raw ''workflowId'');
     require (workflow_id_ok workflowId);
     name \<leftarrow> bounded_text (field raw ''name'') 80;
     values \<leftarrow> array_items (field raw ''steps'');
     require (values \<noteq> []);
     (steps, st) \<leftarrow> visit values 1 \<lparr>vs_total = 0, vs_ids = []\<rparr>;
     Some \<lparr>wf_schemaVersion = ''longhub/workflow/v1'', wf_workflowId = workflowId, wf_name = name, wf_steps = steps\<rparr>
   }"


subsection \<open>The engine's dependencies\<close>

datatype side_effect = No_effect | Local_recoverable | External_write

record WorkflowSkillDescriptor =
  sd_sideEffect :: side_effect
  sd_requiresConfirmation :: bool

record WorkflowStepResult =
  sr_output :: js_value
  sr_costMicros :: js_number

text \<open>The texts the engine shows: a step's own, or its fixed wording for a Skill.\<close>

datatype confirm_text = Given string | Execute_skill string | Recoverable_change | Read_only

record confirm_request =
  cq_runId :: string
  cq_stepId :: string
  cq_agentId :: string
  cq_title :: confirm_text
  cq_summary :: confirm_text

record execute_request =
  xq_runId :: string
  xq_stepId :: string
  xq_agentId :: string
  xq_skillId :: string
  xq_payload :: "(string \<times> js_value) list"
  xq_idempotencyKey :: string

record 'w WorkflowEngineDependencies =
  describeSkill :: "'w \<Rightarrow> string \<Rightarrow> 'w \<times> WorkflowSkillDescriptor option"
  requestConfirmation :: "'w \<Rightarrow> confirm_request \<Rightarrow> 'w \<times> bool option"
  authorizeAndExecute :: "'w \<Rightarrow> execute_request \<Rightarrow> 'w \<times> WorkflowStepResult option"
  dateNow :: "'w \<Rightarrow> 'w \<times> int"
  isAborted :: "'w \<Rightarrow> bool"

record WorkflowExecutionContext =
  wx_runId :: string
  wx_agentId :: string
  wx_input :: "(string \<times> js_value) list"
  wx_maxCostMicros :: js_number
  wx_maxDurationMs :: js_number

record WorkflowExecutionResult =
  wr_runId :: string
  wr_outputs :: "(string, js_value) js_map"
  wr_costMicros :: int
  wr_executedSteps :: nat

datatype workflow_error =
    WORKFLOW_INVALID
  | WORKFLOW_CONTEXT_INVALID
  | WORKFLOW_CANCELLED
  | WORKFLOW_TIMEOUT
  | WORKFLOW_STEP_BUDGET_EXCEEDED
  | WORKFLOW_CONFIRMATION_DENIED
  | WORKFLOW_EXTERNAL_WRITE_FORBIDDEN
  | WORKFLOW_COST_INVALID
  | WORKFLOW_COST_BUDGET_EXCEEDED
  | DEPENDENCY_FAILED

subsection \<open>One execution\<close>

text \<open>
  The completed sub-steps by idempotency key: the output and the cost, which was checked before it
  was stored. They belong to the engine; the other fields to one execution.
\<close>

type_synonym completed_steps = "(string, js_value \<times> int) js_map"

record 'w run =
  rs_world :: 'w
  rs_completed :: completed_steps
  rs_costMicros :: int
  rs_executedSteps :: nat
  rs_outputs :: "(string, js_value) js_map"

text \<open>A stage of an execution either ends with an error or goes on; what it did until then stays done.\<close>

type_synonym 'w stage = "'w run \<times> (workflow_error + unit)"

definition and_then :: "'w stage \<Rightarrow> ('w run \<Rightarrow> 'w stage) \<Rightarrow> 'w stage" where
  "and_then r k = (case r of (st, Inl err) \<Rightarrow> (st, Inl err) | (st, Inr _) \<Rightarrow> k st)"

lemma and_then_simps [simp]: "and_then (st, Inl err) k = (st, Inl err)" "and_then (st, Inr u) k = k st"
  by (simp_all add: and_then_def)

text \<open>What every stage of one execution reads.\<close>

record 'w frame =
  fr_deps :: "'w WorkflowEngineDependencies"
  fr_context :: WorkflowExecutionContext
  fr_maxCost :: int
  fr_maxDuration :: int
  fr_startedAt :: int

definition check :: "'w frame \<Rightarrow> 'w run \<Rightarrow> 'w stage" where
  "check fr st =
    (if isAborted (fr_deps fr) (rs_world st) then (st, Inl WORKFLOW_CANCELLED)
     else let (w, t) = dateNow (fr_deps fr) (rs_world st); st1 = st\<lparr>rs_world := w\<rparr> in
       if fr_maxDuration fr < t - fr_startedAt fr then (st1, Inl WORKFLOW_TIMEOUT)
       else if 20 \<le> rs_executedSteps st1 then (st1, Inl WORKFLOW_STEP_BUDGET_EXCEEDED)
       else (st1, Inr ()))"

definition begin_step :: "'w frame \<Rightarrow> 'w run \<Rightarrow> 'w stage" where
  "begin_step fr st = and_then (check fr st) (\<lambda>st. (st\<lparr>rs_executedSteps := rs_executedSteps st + 1\<rparr>, Inr ()))"

definition confirm :: "'w frame \<Rightarrow> string \<Rightarrow> confirm_text \<Rightarrow> confirm_text \<Rightarrow> 'w run \<Rightarrow> 'w stage" where
  "confirm fr stepPath title summary st =
    (let (w, answer) = requestConfirmation (fr_deps fr) (rs_world st)
       \<lparr>cq_runId = wx_runId (fr_context fr), cq_stepId = stepPath, cq_agentId = wx_agentId (fr_context fr),
        cq_title = title, cq_summary = summary\<rparr>
     in (st\<lparr>rs_world := w\<rparr>,
         case answer of
           None \<Rightarrow> Inl DEPENDENCY_FAILED
         | Some approved \<Rightarrow> if approved then Inr () else Inl WORKFLOW_CONFIRMATION_DENIED))"

definition execution_request :: "'w frame \<Rightarrow> string \<Rightarrow> string \<Rightarrow> (string \<times> js_value) list \<Rightarrow> execute_request" where
  "execution_request fr stepPath skillId payload =
    \<lparr>xq_runId = wx_runId (fr_context fr), xq_stepId = stepPath, xq_agentId = wx_agentId (fr_context fr),
     xq_skillId = skillId, xq_payload = payload, xq_idempotencyKey = wx_runId (fr_context fr) @ '':'' @ stepPath\<rparr>"

definition call_skill :: "'w frame \<Rightarrow> execute_request \<Rightarrow> 'w run \<Rightarrow> 'w run \<times> (workflow_error + js_value \<times> int)" where
  "call_skill fr req st =
    (case map_get (rs_completed st) (xq_idempotencyKey req) of
       Some result \<Rightarrow> (st, Inr result)
     | None \<Rightarrow>
         let (w, answer) = authorizeAndExecute (fr_deps fr) (rs_world st) req; st1 = st\<lparr>rs_world := w\<rparr> in
         (case answer of
           None \<Rightarrow> (st1, Inl DEPENDENCY_FAILED)
         | Some result \<Rightarrow>
             (case natural (sr_costMicros result) of
               None \<Rightarrow> (st1, Inl WORKFLOW_COST_INVALID)
             | Some cost \<Rightarrow>
                 (st1\<lparr>rs_completed := map_set (xq_idempotencyKey req) (sr_output result, cost) (rs_completed st1)\<rparr>,
                  Inr (sr_output result, cost)))))"

text \<open>Writing \<^verbatim>\<open>__proto__\<close> of a plain object sets no property of its own.\<close>

definition set_own :: "string \<Rightarrow> 'v \<Rightarrow> (string, 'v) js_map \<Rightarrow> (string, 'v) js_map" where
  "set_own key v m = (if key = ''__proto__'' then m else map_set key v m)"

definition account_result :: "'w frame \<Rightarrow> string \<Rightarrow> js_value \<times> int \<Rightarrow> 'w run \<Rightarrow> 'w stage" where
  "account_result fr sid result st =
    (if fr_maxCost fr < rs_costMicros st + snd result then (st, Inl WORKFLOW_COST_BUDGET_EXCEEDED)
     else (st\<lparr>rs_costMicros := rs_costMicros st + snd result, rs_outputs := set_own sid (fst result) (rs_outputs st)\<rparr>, Inr ()))"

definition run_skill :: "'w frame \<Rightarrow> string \<Rightarrow> string \<Rightarrow> string \<Rightarrow> (string \<times> js_value) list \<Rightarrow> 'w run \<Rightarrow> 'w stage" where
  "run_skill fr stepPath sid skillId payload st =
    (let (w, answer) = describeSkill (fr_deps fr) (rs_world st) skillId; st1 = st\<lparr>rs_world := w\<rparr> in
     case answer of
       None \<Rightarrow> (st1, Inl DEPENDENCY_FAILED)
     | Some descriptor \<Rightarrow>
         if sd_sideEffect descriptor = External_write then (st1, Inl WORKFLOW_EXTERNAL_WRITE_FORBIDDEN)
         else and_then
           (if sd_requiresConfirmation descriptor
            then confirm fr stepPath (Execute_skill skillId)
              (if sd_sideEffect descriptor = Local_recoverable then Recoverable_change else Read_only) st1
            else (st1, Inr ()))
           (\<lambda>st2. case call_skill fr (execution_request fr stepPath skillId payload) st2 of
              (st3, Inl err) \<Rightarrow> (st3, Inl err)
            | (st3, Inr result) \<Rightarrow> account_result fr sid result st3))"

text \<open>\<^verbatim>\<open>===\<close> of a value with a literal.\<close>

definition strict_equal :: "js_value \<Rightarrow> js_value \<Rightarrow> bool" where
  "strict_equal v w \<longleftrightarrow> v = w \<and> v \<noteq> Number NaN"

fun step_id :: "WorkflowStep \<Rightarrow> string" where
  "step_id (SkillStep sid _ _) = sid"
| "step_id (ConfirmStep sid _ _) = sid"
| "step_id (BranchStep sid _ _ _ _) = sid"
| "step_id (LoopStep sid _ _) = sid"

text \<open>
  \<open>run_steps\<close> is \<^verbatim>\<open>runSteps\<close> from the step at \<open>index\<close>, \<open>run_step\<close> the body of its
  loop and \<open>run_loop\<close> the iterations of a loop step from \<open>iteration\<close>, \<open>left\<close> of them to go.
\<close>

function run_steps :: "'w frame \<Rightarrow> string \<Rightarrow> nat \<Rightarrow> WorkflowStep list \<Rightarrow> 'w run \<Rightarrow> 'w stage"
  and run_step :: "'w frame \<Rightarrow> string \<Rightarrow> WorkflowStep \<Rightarrow> 'w run \<Rightarrow> 'w stage"
  and run_loop :: "'w frame \<Rightarrow> string \<Rightarrow> nat \<Rightarrow> nat \<Rightarrow> WorkflowStep list \<Rightarrow> 'w run \<Rightarrow> 'w stage" where
  "run_steps fr path index [] st = (st, Inr ())"
| "run_steps fr path index (step # steps) st =
    and_then (begin_step fr st) (\<lambda>st.
      and_then (run_step fr (path @ ''.'' @ show_nat index @ ''.'' @ step_id step) step st)
        (run_steps fr path (Suc index) steps))"
| "run_step fr stepPath (ConfirmStep sid title summary) st = confirm fr stepPath (Given title) (Given summary) st"
| "run_step fr stepPath (SkillStep sid skillId payload) st = run_skill fr stepPath sid skillId payload st"
| "run_step fr stepPath (BranchStep sid inputKey equals thens elses) st =
    (if strict_equal (field (wx_input (fr_context fr)) inputKey) equals
     then run_steps fr (stepPath @ ''.branch'') 0 thens st
     else run_steps fr (stepPath @ ''.branch'') 0 elses st)"
| "run_step fr stepPath (LoopStep sid iterations steps) st = run_loop fr stepPath 0 iterations steps st"
| "run_loop fr stepPath iteration 0 steps st = (st, Inr ())"
| "run_loop fr stepPath iteration (Suc left) steps st =
    and_then (run_steps fr (stepPath @ ''.loop-'' @ show_nat iteration) 0 steps st)
      (run_loop fr stepPath (Suc iteration) left steps)"
  by pat_completeness auto
termination
  by (relation "measures
      [\<lambda>x. case x of Inl (fr, path, index, steps, st) \<Rightarrow> 2 * size_list size steps
         | Inr (Inl (fr, path, step, st)) \<Rightarrow> 2 * size step
         | Inr (Inr (fr, path, i, n, steps, st)) \<Rightarrow> 2 * size_list size steps + 1,
       \<lambda>x. case x of Inr (Inr (fr, path, i, n, steps, st)) \<Rightarrow> n | _ \<Rightarrow> 0]") auto

definition run_id_ok :: "string \<Rightarrow> bool" where
  "run_id_ok s \<longleftrightarrow> 1 \<le> length s \<and> length s \<le> 160 \<and> list_all (\<lambda>c. is_alnum c \<or> c \<in> set ''._:-'') s"

text \<open>The validated context: the maximal cost and duration as integers.\<close>

definition context_bounds :: "WorkflowExecutionContext \<Rightarrow> (int \<times> int) option" where
  "context_bounds cx = do {
     require (run_id_ok (wx_runId cx) \<and> run_id_ok (wx_agentId cx));
     maxCost \<leftarrow> natural (wx_maxCostMicros cx);
     maxDuration \<leftarrow> safeInteger (wx_maxDurationMs cx);
     require (100 \<le> maxDuration \<and> maxDuration \<le> 10 * 60000);
     Some (maxCost, maxDuration)
   }"

definition execute_workflow ::
  "'w WorkflowEngineDependencies \<Rightarrow> js_value \<Rightarrow> WorkflowExecutionContext \<Rightarrow> 'w \<times> completed_steps \<Rightarrow>
    ('w \<times> completed_steps) \<times> (workflow_error + WorkflowExecutionResult)" where
  "execute_workflow deps workflowInput cx engine =
    (case parseBoundedWorkflow workflowInput of
       None \<Rightarrow> (engine, Inl WORKFLOW_INVALID)
     | Some workflow \<Rightarrow>
         (case context_bounds cx of
           None \<Rightarrow> (engine, Inl WORKFLOW_CONTEXT_INVALID)
         | Some (maxCost, maxDuration) \<Rightarrow>
             let (w, startedAt) = dateNow deps (fst engine);
                 fr = \<lparr>fr_deps = deps, fr_context = cx, fr_maxCost = maxCost, fr_maxDuration = maxDuration,
                       fr_startedAt = startedAt\<rparr>;
                 (st, r) = run_steps fr (wf_workflowId workflow) 0 (wf_steps workflow)
                   \<lparr>rs_world = w, rs_completed = snd engine, rs_costMicros = 0, rs_executedSteps = 0, rs_outputs = []\<rparr>
             in ((rs_world st, rs_completed st),
                 case r of
                   Inl err \<Rightarrow> Inl err
                 | Inr _ \<Rightarrow> Inr \<lparr>wr_runId = wx_runId cx, wr_outputs = rs_outputs st, wr_costMicros = rs_costMicros st,
                     wr_executedSteps = rs_executedSteps st\<rparr>)))"

text \<open>\<open>newWorkflowRunId\<close> draws a random id.\<close>

definition newWorkflowRunId :: "js_env \<Rightarrow> string" where
  "newWorkflowRunId e = ''workflow-run-'' @ uuid e 0"


declare visit.simps [simp del] visit_step.simps [simp del]

subsection \<open>The shape of a parsed workflow\<close>

text \<open>The ids of a step and of the steps inside it, in the order in which they are visited.\<close>

fun step_ids :: "WorkflowStep \<Rightarrow> string list" where
  "step_ids (SkillStep i _ _) = [i]"
| "step_ids (ConfirmStep i _ _) = [i]"
| "step_ids (BranchStep i _ _ thens elses) = i # concat (map step_ids thens) @ concat (map step_ids elses)"
| "step_ids (LoopStep i _ steps) = i # concat (map step_ids steps)"

abbreviation all_ids :: "WorkflowStep list \<Rightarrow> string list" where
  "all_ids steps \<equiv> concat (map step_ids steps)"

text \<open>A well-formed step that may hold \<open>n\<close> more levels of steps.\<close>

fun step_valid :: "nat \<Rightarrow> WorkflowStep \<Rightarrow> bool" where
  "step_valid n (SkillStep i skillId payload) =
    (skill_id_ok skillId \<and> length payload \<le> 32 \<and> list_all (\<lambda>kv. literal (snd kv)) payload)"
| "step_valid n (ConfirmStep i title summary) =
    (js_trim title \<noteq> [] \<and> length title \<le> 80 \<and> js_trim summary \<noteq> [] \<and> length summary \<le> 500)"
| "step_valid n (BranchStep i inputKey equals thens elses) =
    (0 < n \<and> step_name_ok inputKey \<and> literal equals \<and>
     list_all (step_valid (n - 1)) thens \<and> list_all (step_valid (n - 1)) elses)"
| "step_valid n (LoopStep i iterations steps) =
    (0 < n \<and> 1 \<le> iterations \<and> iterations \<le> 5 \<and> steps \<noteq> [] \<and> list_all (step_valid (n - 1)) steps)"

definition workflow_valid :: "BoundedWorkflow \<Rightarrow> bool" where
  "workflow_valid flow \<longleftrightarrow> workflow_id_ok (wf_workflowId flow) \<and> js_trim (wf_name flow) \<noteq> [] \<and> length (wf_name flow) \<le> 80 \<and>
    wf_steps flow \<noteq> [] \<and> list_all (step_valid 2) (wf_steps flow) \<and> length (all_ids (wf_steps flow)) \<le> 20 \<and>
    distinct (all_ids (wf_steps flow)) \<and> list_all step_name_ok (all_ids (wf_steps flow))"

lemmas workflow_parts = bind_eq_Some_conv require_Some string_value_Some number_value_Some object_members_Some array_items_Some
  safeInteger_Some

text \<open>Ids were entered: they and what was there are pairwise different, well-formed and at most 20, if they were so before.\<close>

definition entered :: "visited \<Rightarrow> string list \<Rightarrow> visited \<Rightarrow> bool" where
  "entered st ids st' \<longleftrightarrow> vs_ids st' = rev ids @ vs_ids st \<and> vs_total st' = vs_total st + length ids \<and>
    (vs_total st \<le> 20 \<longrightarrow> vs_total st' \<le> 20) \<and> (distinct (vs_ids st) \<longrightarrow> distinct (vs_ids st')) \<and>
    (list_all step_name_ok (vs_ids st) \<longrightarrow> list_all step_name_ok (vs_ids st'))"

lemma entered_refl [simp]: "entered st [] st"
  by (simp add: entered_def)

lemma entered_trans:
  assumes "entered st ids st1" and "entered st1 ids' st2"
  shows "entered st (ids @ ids') st2"
proof -
  have "vs_ids st2 = rev (ids @ ids') @ vs_ids st" "vs_total st2 = vs_total st + length (ids @ ids')"
    using assms by (simp_all add: entered_def)
  moreover have "vs_total st \<le> 20 \<longrightarrow> vs_total st2 \<le> 20" "distinct (vs_ids st) \<longrightarrow> distinct (vs_ids st2)"
      "list_all step_name_ok (vs_ids st) \<longrightarrow> list_all step_name_ok (vs_ids st2)"
    using assms unfolding entered_def by blast+
  ultimately show ?thesis unfolding entered_def by blast
qed

lemma entered_from_empty:
  "entered \<lparr>vs_total = 0, vs_ids = []\<rparr> ids st \<Longrightarrow> length ids \<le> 20 \<and> distinct ids \<and> list_all step_name_ok ids"
  by (auto simp: entered_def list_all_iff)

definition visit_done :: "nat \<Rightarrow> visited \<Rightarrow> WorkflowStep list \<Rightarrow> visited \<Rightarrow> bool" where
  "visit_done depth st steps st' \<longleftrightarrow>
    depth \<le> 3 \<and> list_all (step_valid (3 - depth)) steps \<and> entered st (all_ids steps) st'"

definition step_done :: "nat \<Rightarrow> string \<Rightarrow> visited \<Rightarrow> WorkflowStep \<Rightarrow> visited \<Rightarrow> bool" where
  "step_done depth i st s st' \<longleftrightarrow>
    step_valid (3 - depth) s \<and> (\<exists>inner. step_ids s = i # inner \<and> entered st inner st')"

lemma step_header_Some: "step_header value st = Some (step, i, st1) \<Longrightarrow> entered st [i] st1"
  by (auto simp: step_header_def workflow_parts entered_def)

lemma parse_skill_step_Some:
  "parse_skill_step step i = Some s \<Longrightarrow> step_valid n s \<and> step_ids s = [i]"
  by (auto simp: parse_skill_step_def workflow_parts)

lemma parse_confirm_step_Some:
  "parse_confirm_step step i = Some s \<Longrightarrow> step_valid n s \<and> step_ids s = [i]"
  by (auto simp: parse_confirm_step_def bounded_text_def workflow_parts)

lemma branch_members_Some:
  "branch_members step = Some (inputKey, equals, thens, elses) \<Longrightarrow> step_name_ok inputKey \<and> literal equals"
  by (auto simp: branch_members_def workflow_parts)

lemma loop_members_Some:
  "loop_members step = Some (n, steps) \<Longrightarrow> 1 \<le> n \<and> n \<le> 5 \<and> steps \<noteq> []"
  by (auto simp: loop_members_def workflow_parts)

lemma visit_done_Cons:
  assumes "step_header value st = Some (step, i, st1)" and "depth \<le> 3" and "step_done depth i st1 s st2"
    and "visit_done depth st2 rest st3"
  shows "visit_done depth st (s # rest) st3"
proof -
  from assms(3) obtain inner where inner: "step_ids s = i # inner" "entered st1 inner st2" "step_valid (3 - depth) s"
    by (auto simp: step_done_def)
  have "entered st (([i] @ inner) @ all_ids rest) st3"
    using entered_trans [OF entered_trans [OF step_header_Some [OF assms(1)] inner(2)]] assms(4)
    by (simp add: visit_done_def)
  with inner assms(2,4) show ?thesis by (simp add: visit_done_def)
qed

lemma visit_done_branch:
  assumes "branch_members step = Some (inputKey, equals, thens, elses)"
    and "visit_done (depth + 1) st ts st1" and "visit_done (depth + 1) st1 es st2"
  shows "step_done depth i st (BranchStep i inputKey equals ts es) st2"
proof -
  have "entered st (all_ids ts @ all_ids es) st2"
    using assms(2,3) unfolding visit_done_def by (blast intro: entered_trans)
  then show ?thesis
    using assms(2,3) branch_members_Some [OF assms(1)] by (simp add: visit_done_def step_done_def)
qed

lemma visit_done_loop:
  assumes "loop_members step = Some (n, vals)" and "visit_done (depth + 1) st ss st1" and "length ss = length vals"
  shows "step_done depth i st (LoopStep i n ss) st1"
  using assms(2,3) loop_members_Some [OF assms(1)] by (auto simp: visit_done_def step_done_def)

lemma visit_sound:
  "visit vals depth st = Some (steps, st') \<Longrightarrow> visit_done depth st steps st' \<and> length steps = length vals"
  "visit_step step i depth st = Some (s, st') \<Longrightarrow> step_done depth i st s st'"
proof (induction vals depth st and step i depth st arbitrary: steps st' and s st' rule: visit_visit_step.induct)
  case (1 vals depth st)
  have depth: "\<not> 3 < depth" using "1.prems" by (subst (asm) visit.simps) (simp split: if_splits)
  show ?case
  proof (cases vals)
    case Nil
    with "1.prems" depth show ?thesis by (subst (asm) visit.simps) (simp add: visit_done_def)
  next
    case (Cons v vs)
    from "1.prems" depth Cons obtain step i st1 s st2 rest where header: "step_header v st = Some (step, i, st1)"
        and step: "visit_step step i depth st1 = Some (s, st2)" and rest: "visit vs depth st2 = Some (rest, st')"
        and steps: "steps = s # rest"
      using visit.simps [of vals] by (auto simp: bind_eq_Some_conv)
    from "1.IH"(1) [OF depth Cons header refl refl step] "1.IH"(2) [OF depth Cons header refl refl step refl rest]
    show ?thesis using visit_done_Cons [OF header] depth by (simp add: steps Cons)
  qed
next
  case (2 step i depth st)
  consider (skill) "field step ''kind'' = Str ''skill''" | (confirm) "field step ''kind'' = Str ''confirm''"
    | (branch) "field step ''kind'' = Str ''branch''" | (loop) "field step ''kind'' = Str ''loop''"
    using "2.prems" visit_step.simps [of step i depth st] by (auto split: if_splits)
  then show ?case
  proof cases
    case skill
    with "2.prems" have "parse_skill_step step i = Some s" "st' = st" by (auto simp: visit_step.simps [of step i depth st])
    with parse_skill_step_Some show ?thesis by (simp add: step_done_def)
  next
    case confirm
    with "2.prems" have "parse_confirm_step step i = Some s" "st' = st" by (auto simp: visit_step.simps [of step i depth st])
    with parse_confirm_step_Some show ?thesis by (simp add: step_done_def)
  next
    case branch
    with "2.prems" visit_step.simps [of step i depth st] obtain key eq thens elses ts st1 es
      where members: "branch_members step = Some (key, eq, thens, elses)"
        and ts: "visit thens (depth + 1) st = Some (ts, st1)" and es: "visit elses (depth + 1) st1 = Some (es, st')"
        and s: "s = BranchStep i key eq ts es"
      by (auto simp: bind_eq_Some_conv)
    have kind: "field step ''kind'' \<noteq> Str ''skill''" "field step ''kind'' \<noteq> Str ''confirm''" using branch by simp_all
    from "2.IH"(1) [OF kind branch members refl refl refl ts]
      "2.IH"(2) [OF kind branch members refl refl refl ts refl es]
    show ?thesis using visit_done_branch [OF members, of depth st ts st1 es st'] by (simp add: s)
  next
    case loop
    with "2.prems" visit_step.simps [of step i depth st] obtain n vs ss
      where members: "loop_members step = Some (n, vs)" and ss: "visit vs (depth + 1) st = Some (ss, st')"
        and s: "s = LoopStep i n ss"
      by (auto simp: bind_eq_Some_conv)
    have kind: "field step ''kind'' \<noteq> Str ''skill''" "field step ''kind'' \<noteq> Str ''confirm''" "field step ''kind'' \<noteq> Str ''branch''"
      using loop by simp_all
    from "2.IH"(3) [OF kind loop members refl ss]
    show ?thesis using visit_done_loop [OF members] by (simp add: s)
  qed
qed

lemma parseBoundedWorkflow_valid:
  assumes "parseBoundedWorkflow input = Some flow"
  shows "workflow_valid flow"
proof -
  from assms obtain vals st where flow: "workflow_id_ok (wf_workflowId flow)" "js_trim (wf_name flow) \<noteq> []"
      "length (wf_name flow) \<le> 80" "vals \<noteq> []"
      and steps: "visit vals 1 \<lparr>vs_total = 0, vs_ids = []\<rparr> = Some (wf_steps flow, st)"
    by (auto simp: parseBoundedWorkflow_def bounded_text_def workflow_parts)
  from visit_sound(1) [OF steps]
  have steps: "list_all (step_valid 2) (wf_steps flow)" "length (wf_steps flow) = length vals"
      "entered \<lparr>vs_total = 0, vs_ids = []\<rparr> (all_ids (wf_steps flow)) st"
    by (simp_all add: visit_done_def numeral_2_eq_2)
  from entered_from_empty [OF steps(3)] flow steps(1,2) show ?thesis by (auto simp: workflow_valid_def)
qed


subsection \<open>Invariants of an execution\<close>

text \<open>
  What holds between the steps of an execution (\<open>I\<close>) and what holds when a step has begun (\<open>K\<close>): if the
  begin of a step and the calls of a step keep it, every execution keeps it.
\<close>

locale workflow_invariant =
  fixes I K :: "'w frame \<Rightarrow> 'w run \<Rightarrow> bool"
  assumes weaken: "K fr st \<Longrightarrow> I fr st"
    and begin_ok: "I fr st \<Longrightarrow> begin_step fr st = (st', Inr ()) \<Longrightarrow> K fr st'"
    and begin_refused: "I fr st \<Longrightarrow> begin_step fr st = (st', Inl err) \<Longrightarrow> I fr st'"
    and confirm_keeps: "K fr st \<Longrightarrow> I fr (fst (confirm fr p title summary st))"
    and skill_keeps: "K fr st \<Longrightarrow> I fr (fst (run_skill fr p i k x st))"
begin

lemma and_then_keeps: "I fr (fst r) \<Longrightarrow> (\<And>st. I fr st \<Longrightarrow> I fr (fst (k st))) \<Longrightarrow> I fr (fst (and_then r k))"
  by (cases r; cases "snd r") auto

lemma run_keeps:
  shows "I fr st \<Longrightarrow> I fr (fst (run_steps fr path index steps st))"
    and "K fr st \<Longrightarrow> I fr (fst (run_step fr path step st))"
    and "I fr st \<Longrightarrow> I fr (fst (run_loop fr path iteration left steps st))"
proof (induction fr path index steps st and fr path step st and fr path iteration left steps st
    rule: run_steps_run_step_run_loop.induct)
  case (2 fr path index step steps st)
  obtain st1 r where b: "begin_step fr st = (st1, r)" by fastforce
  show ?case
  proof (cases r)
    case (Inl err)
    with begin_refused [OF "2.prems", of st1 err] b show ?thesis by simp
  next
    case (Inr u)
    with b begin_ok [OF "2.prems", of st1] have "K fr st1" by simp
    with "2.IH" have "I fr (fst (and_then (run_step fr (path @ ''.'' @ show_nat index @ ''.'' @ step_id step) step st1)
        (run_steps fr path (Suc index) steps)))"
      by (intro and_then_keeps) auto
    with b Inr show ?thesis by simp
  qed
next
  case (8 fr stepPath iteration left steps st)
  then show ?case by (auto intro!: and_then_keeps)
qed (auto intro: weaken confirm_keeps skill_keeps)

end

subsection \<open>The calls of an execution\<close>

text \<open>The dependencies with a record of the calls made to them and of their answers, oldest first.\<close>

datatype dependency_call =
    Described string "WorkflowSkillDescriptor option"
  | Confirmed confirm_request "bool option"
  | Executed execute_request "WorkflowStepResult option"

type_synonym 'w traced = "'w \<times> dependency_call list"

definition trace_deps :: "'w WorkflowEngineDependencies \<Rightarrow> 'w traced WorkflowEngineDependencies" where
  "trace_deps deps =
    \<lparr>describeSkill = (\<lambda>(w, tr) k. let (w', a) = describeSkill deps w k in ((w', tr @ [Described k a]), a)),
     requestConfirmation = (\<lambda>(w, tr) q. let (w', a) = requestConfirmation deps w q in ((w', tr @ [Confirmed q a]), a)),
     authorizeAndExecute = (\<lambda>(w, tr) q. let (w', a) = authorizeAndExecute deps w q in ((w', tr @ [Executed q a]), a)),
     dateNow = (\<lambda>(w, tr). let (w', t) = dateNow deps w in ((w', tr), t)),
     isAborted = (\<lambda>(w, tr). isAborted deps w)\<rparr>"

definition traced_frame :: "'w traced frame \<Rightarrow> bool" where
  "traced_frame fr \<longleftrightarrow> (\<exists>deps. fr_deps fr = trace_deps deps)"

abbreviation calls :: "'w traced run \<Rightarrow> dependency_call list" where
  "calls st \<equiv> snd (rs_world st)"

fun is_execution :: "dependency_call \<Rightarrow> bool" where
  "is_execution (Executed q a) = True"
| "is_execution c = False"

text \<open>An execution whose result the engine stores: it returned, with a usable cost.\<close>

fun completes :: "dependency_call \<Rightarrow> bool" where
  "completes (Executed q (Some r)) = (natural (sr_costMicros r) \<noteq> None)"
| "completes c = False"

lemma check_traced:
  assumes "traced_frame fr" and "check fr st = (st', r)"
  shows "calls st' = calls st \<and> rs_completed st' = rs_completed st \<and> rs_costMicros st' = rs_costMicros st \<and>
    rs_executedSteps st' = rs_executedSteps st \<and> (r = Inr () \<longrightarrow> rs_executedSteps st < 20)"
proof -
  from assms(1) obtain deps where deps: "fr_deps fr = trace_deps deps" by (auto simp: traced_frame_def)
  obtain w tr where st: "rs_world st = (w, tr)" by fastforce
  obtain w' t where now: "dateNow deps w = (w', t)" by fastforce
  from assms(2) st show ?thesis
    by (cases st) (auto simp: check_def deps trace_deps_def now Let_def split: if_splits)
qed

lemma begin_traced:
  assumes "traced_frame fr" and "begin_step fr st = (st', r)"
  shows "calls st' = calls st \<and> rs_completed st' = rs_completed st \<and> rs_costMicros st' = rs_costMicros st \<and>
    (case r of Inl _ \<Rightarrow> rs_executedSteps st' = rs_executedSteps st
     | Inr _ \<Rightarrow> rs_executedSteps st < 20 \<and> rs_executedSteps st' = Suc (rs_executedSteps st))"
proof -
  obtain st1 r1 where c: "check fr st = (st1, r1)" by fastforce
  from check_traced [OF assms(1) c] assms(2) show ?thesis
    by (cases r1) (auto simp: begin_step_def c)
qed

lemma confirm_traced:
  assumes "traced_frame fr" and "confirm fr p title summary st = (st', r)"
  shows "\<exists>a. calls st' = calls st @ [Confirmed \<lparr>cq_runId = wx_runId (fr_context fr), cq_stepId = p,
      cq_agentId = wx_agentId (fr_context fr), cq_title = title, cq_summary = summary\<rparr> a] \<and>
    (r = Inr () \<longrightarrow> a = Some True) \<and> rs_completed st' = rs_completed st \<and> rs_costMicros st' = rs_costMicros st \<and>
    rs_executedSteps st' = rs_executedSteps st"
proof -
  from assms(1) obtain deps where deps: "fr_deps fr = trace_deps deps" by (auto simp: traced_frame_def)
  obtain w tr where st: "rs_world st = (w, tr)" by fastforce
  obtain w' a where a: "requestConfirmation deps w \<lparr>cq_runId = wx_runId (fr_context fr), cq_stepId = p,
      cq_agentId = wx_agentId (fr_context fr), cq_title = title, cq_summary = summary\<rparr> = (w', a)" by fastforce
  from assms(2) st show ?thesis
    by (cases st) (auto simp: confirm_def deps trace_deps_def a Let_def split: option.splits if_splits)
qed


text \<open>The calls that clear a Skill call: a description without external writes, and the user's consent where it asks for one.\<close>

definition cleared_by :: "execute_request \<Rightarrow> dependency_call list \<Rightarrow> bool" where
  "cleared_by req cs \<longleftrightarrow> xq_idempotencyKey req = xq_runId req @ '':'' @ xq_stepId req \<and> (\<exists>d. sd_sideEffect d \<noteq> External_write \<and>
    (if sd_requiresConfirmation d
     then \<exists>title summary. cs = [Described (xq_skillId req) (Some d), Confirmed \<lparr>cq_runId = xq_runId req,
       cq_stepId = xq_stepId req, cq_agentId = xq_agentId req, cq_title = title, cq_summary = summary\<rparr> (Some True)]
     else cs = [Described (xq_skillId req) (Some d)]))"

lemma cleared_by_calls: "cleared_by req cs \<Longrightarrow> length cs \<le> 2 \<and> \<not> list_ex is_execution cs"
  by (auto simp: cleared_by_def split: if_splits)

lemma call_skill_traced:
  assumes "traced_frame fr" and "call_skill fr req st = (st', r)"
  obtains (stored) result where "map_get (rs_completed st) (xq_idempotencyKey req) = Some result" "st' = st" "r = Inr result"
  | (called) a where "map_get (rs_completed st) (xq_idempotencyKey req) = None" "calls st' = calls st @ [Executed req a]"
      "if completes (Executed req a) then \<exists>result. rs_completed st' = map_set (xq_idempotencyKey req) result (rs_completed st)
       else rs_completed st' = rs_completed st"
      "rs_costMicros st' = rs_costMicros st" "rs_executedSteps st' = rs_executedSteps st"
proof -
  from assms(1) obtain deps where deps: "fr_deps fr = trace_deps deps" by (auto simp: traced_frame_def)
  obtain w tr where st: "rs_world st = (w, tr)" by fastforce
  obtain w' a where a: "authorizeAndExecute deps w req = (w', a)" by fastforce
  show thesis
  proof (cases "map_get (rs_completed st) (xq_idempotencyKey req)")
    case (Some result)
    then have "st' = st" "r = Inr result" using assms(2) by (simp_all add: call_skill_def)
    with Some show thesis by (rule stored)
  next
    case None
    let ?st1 = "st\<lparr>rs_world := (w', tr @ [Executed req a])\<rparr>"
    have r: "(st', r) = (case a of None \<Rightarrow> (?st1, Inl DEPENDENCY_FAILED)
      | Some result \<Rightarrow> (case natural (sr_costMicros result) of None \<Rightarrow> (?st1, Inl WORKFLOW_COST_INVALID)
        | Some cost \<Rightarrow> (?st1\<lparr>rs_completed := map_set (xq_idempotencyKey req) (sr_output result, cost) (rs_completed ?st1)\<rparr>,
            Inr (sr_output result, cost))))"
      using assms(2) None by (simp add: call_skill_def deps trace_deps_def st a Let_def)
    show thesis
    proof (rule called [OF None])
      show "calls st' = calls st @ [Executed req a]" "rs_costMicros st' = rs_costMicros st"
          "rs_executedSteps st' = rs_executedSteps st"
        using r by (auto simp: st split: option.splits)
      show "if completes (Executed req a) then \<exists>result. rs_completed st' = map_set (xq_idempotencyKey req) result (rs_completed st)
          else rs_completed st' = rs_completed st"
        using r by (cases a) (auto split: option.splits)
    qed
  qed
qed

text \<open>What a Skill step adds to the calls: calls that clear an execution, and the execution they clear.\<close>

definition skill_done :: "'w traced frame \<Rightarrow> 'w traced run \<Rightarrow> dependency_call list \<Rightarrow> 'w traced run \<Rightarrow> bool" where
  "skill_done fr st cs st' \<longleftrightarrow> calls st' = calls st @ cs \<and> rs_executedSteps st' = rs_executedSteps st \<and>
    (rs_costMicros st \<le> fr_maxCost fr \<longrightarrow> rs_costMicros st' \<le> fr_maxCost fr) \<and>
    (if list_ex is_execution cs
     then \<exists>pre req a. cs = pre @ [Executed req a] \<and> cleared_by req pre \<and>
       map_get (rs_completed st) (xq_idempotencyKey req) = None \<and>
       (if completes (Executed req a)
        then \<exists>result. rs_completed st' = map_set (xq_idempotencyKey req) result (rs_completed st)
        else rs_completed st' = rs_completed st)
     else length cs \<le> 2 \<and> rs_completed st' = rs_completed st)"

text \<open>The same cost, steps and completed sub-steps, after more calls.\<close>

definition only_calls :: "'w traced run \<Rightarrow> dependency_call list \<Rightarrow> 'w traced run \<Rightarrow> bool" where
  "only_calls st cs st' \<longleftrightarrow> calls st' = calls st @ cs \<and> rs_executedSteps st' = rs_executedSteps st \<and>
    rs_costMicros st' = rs_costMicros st \<and> rs_completed st' = rs_completed st"

lemma only_calls_done: "only_calls st cs st' \<Longrightarrow> length cs \<le> 2 \<Longrightarrow> \<not> list_ex is_execution cs \<Longrightarrow> skill_done fr st cs st'"
  by (simp add: only_calls_def skill_done_def)

lemma account_traced:
  "calls (fst (account_result fr i result st)) = calls st \<and> rs_completed (fst (account_result fr i result st)) = rs_completed st \<and>
    rs_executedSteps (fst (account_result fr i result st)) = rs_executedSteps st \<and>
    (rs_costMicros st \<le> fr_maxCost fr \<longrightarrow> rs_costMicros (fst (account_result fr i result st)) \<le> fr_maxCost fr)"
  by (simp add: account_result_def)

lemma cleared_call_done:
  assumes "traced_frame fr" and "only_calls st pre st2" and "cleared_by req pre"
  shows "\<exists>cs. skill_done fr st cs (fst (case call_skill fr req st2 of (st3, Inl err) \<Rightarrow> (st3, Inl err)
      | (st3, Inr result) \<Rightarrow> account_result fr i result st3))" (is "\<exists>cs. skill_done fr st cs (fst ?r)")
proof -
  obtain st3 r where c: "call_skill fr req st2 = (st3, r)" by fastforce
  have out: "calls (fst ?r) = calls st3" "rs_completed (fst ?r) = rs_completed st3"
      "rs_executedSteps (fst ?r) = rs_executedSteps st3"
      "rs_costMicros st3 \<le> fr_maxCost fr \<longrightarrow> rs_costMicros (fst ?r) \<le> fr_maxCost fr"
    by (cases r; simp add: c account_traced)+
  from assms(1) c show ?thesis
  proof (cases rule: call_skill_traced)
    case stored
    with out assms(2) cleared_by_calls [OF assms(3)] have "skill_done fr st pre (fst ?r)"
      by (simp add: skill_done_def only_calls_def)
    then show ?thesis ..
  next
    case (called a)
    have stored: "rs_completed st2 = rs_completed st" using assms(2) by (simp add: only_calls_def)
    have "\<exists>pre' req' a'. pre @ [Executed req a] = pre' @ [Executed req' a'] \<and> cleared_by req' pre' \<and>
       map_get (rs_completed st) (xq_idempotencyKey req') = None \<and>
       (if completes (Executed req' a')
        then \<exists>result. rs_completed (fst ?r) = map_set (xq_idempotencyKey req') result (rs_completed st)
        else rs_completed (fst ?r) = rs_completed st)"
      using called(1,3) assms(3) unfolding out(2) stored by blast
    moreover have "list_ex is_execution (pre @ [Executed req a])" by simp
    moreover have "calls (fst ?r) = calls st @ pre @ [Executed req a]" "rs_executedSteps (fst ?r) = rs_executedSteps st"
        "rs_costMicros st \<le> fr_maxCost fr \<longrightarrow> rs_costMicros (fst ?r) \<le> fr_maxCost fr"
      using called(2,4,5) out assms(2) by (simp_all add: only_calls_def)
    ultimately have "skill_done fr st (pre @ [Executed req a]) (fst ?r)" unfolding skill_done_def by (simp del: split_paired_Ex)
    then show ?thesis ..
  qed
qed

lemma run_skill_traced:
  assumes "traced_frame fr"
  shows "\<exists>cs. skill_done fr st cs (fst (run_skill fr p i k x st))"
proof -
  define req where "req = execution_request fr p k x"
  from assms obtain deps where deps: "fr_deps fr = trace_deps deps" by (auto simp: traced_frame_def)
  obtain w tr where st: "rs_world st = (w, tr)" by fastforce
  obtain w' d where "describeSkill deps w k = (w', d)" by fastforce
  then have call: "describeSkill (fr_deps fr) (rs_world st) k = ((w', tr @ [Described k d]), d)"
    by (simp add: deps trace_deps_def st)
  define st1 where "st1 = st\<lparr>rs_world := (w', tr @ [Described k d])\<rparr>"
  have st1: "only_calls st [Described k d] st1" by (simp add: st1_def st only_calls_def)
  have run: "run_skill fr p i k x st = (case d of None \<Rightarrow> (st1, Inl DEPENDENCY_FAILED)
    | Some ds \<Rightarrow> if sd_sideEffect ds = External_write then (st1, Inl WORKFLOW_EXTERNAL_WRITE_FORBIDDEN)
        else and_then (if sd_requiresConfirmation ds
            then confirm fr p (Execute_skill k)
              (if sd_sideEffect ds = Local_recoverable then Recoverable_change else Read_only) st1
            else (st1, Inr ()))
          (\<lambda>st2. case call_skill fr req st2 of (st3, Inl err) \<Rightarrow> (st3, Inl err)
            | (st3, Inr result) \<Rightarrow> account_result fr i result st3))"
    by (cases d) (simp_all add: run_skill_def call Let_def st1_def req_def)
  show ?thesis
  proof (cases "\<exists>ds. d = Some ds \<and> sd_sideEffect ds \<noteq> External_write")
    case False
    then have "fst (run_skill fr p i k x st) = st1" by (auto simp: run split: option.splits)
    with only_calls_done [OF st1] show ?thesis by auto
  next
    case True
    then obtain ds where ds: "d = Some ds" "sd_sideEffect ds \<noteq> External_write" by blast
    show ?thesis
    proof (cases "sd_requiresConfirmation ds")
      case False
      with ds have "cleared_by req [Described k d]" by (auto simp: cleared_by_def req_def execution_request_def)
      from cleared_call_done [OF assms st1 this] ds False show ?thesis by (simp add: run)
    next
      case True
      define summary where "summary = (if sd_sideEffect ds = Local_recoverable then Recoverable_change else Read_only)"
      obtain st2 r where c: "confirm fr p (Execute_skill k) summary st1 = (st2, r)" by fastforce
      from confirm_traced [OF assms c] st1 obtain q a where q: "only_calls st [Described k d, Confirmed q a] st2"
          "q = \<lparr>cq_runId = wx_runId (fr_context fr), cq_stepId = p, cq_agentId = wx_agentId (fr_context fr),
             cq_title = Execute_skill k, cq_summary = summary\<rparr>" "r = Inr () \<longrightarrow> a = Some True"
        by (auto simp: only_calls_def)
      show ?thesis
      proof (cases r)
        case (Inl err)
        with ds True c have "fst (run_skill fr p i k x st) = st2" by (simp add: run summary_def)
        with only_calls_done [OF q(1)] show ?thesis by auto
      next
        case (Inr u)
        with ds True q have "cleared_by req [Described k d, Confirmed q a]"
          by (auto simp: cleared_by_def req_def execution_request_def)
        from cleared_call_done [OF assms q(1) this] ds True c Inr show ?thesis by (simp add: run summary_def)
      qed
    qed
  qed
qed


subsection \<open>Three invariants\<close>

abbreviation executions :: "dependency_call list \<Rightarrow> nat" where
  "executions cs \<equiv> length (filter is_execution cs)"

lemma skill_done_size: "skill_done fr st cs st' \<Longrightarrow> length cs \<le> 3 \<and> executions cs \<le> 1"
proof -
  assume d: "skill_done fr st cs st'"
  show ?thesis
  proof (cases "list_ex is_execution cs")
    case True
    with d obtain pre req a where "cs = pre @ [Executed req a]" "cleared_by req pre"
      unfolding skill_done_def by auto
    with cleared_by_calls [of req pre] show ?thesis by (auto simp: list_ex_iff filter_empty_conv)
  next
    case False
    with d show ?thesis by (auto simp: skill_done_def list_ex_iff filter_empty_conv)
  qed
qed

text \<open>At most one execution and three calls for each step begun, at most 20 steps, and the cost within its bound.\<close>

definition within_bounds :: "'w traced frame \<Rightarrow> 'w traced run \<Rightarrow> bool" where
  "within_bounds fr st \<longleftrightarrow> traced_frame fr \<and> executions (calls st) \<le> rs_executedSteps st \<and>
    length (calls st) \<le> 3 * rs_executedSteps st \<and> rs_executedSteps st \<le> 20 \<and> rs_costMicros st \<le> fr_maxCost fr"

definition step_in_bounds :: "'w traced frame \<Rightarrow> 'w traced run \<Rightarrow> bool" where
  "step_in_bounds fr st \<longleftrightarrow> traced_frame fr \<and> executions (calls st) + 1 \<le> rs_executedSteps st \<and>
    length (calls st) + 3 \<le> 3 * rs_executedSteps st \<and> rs_executedSteps st \<le> 20 \<and> rs_costMicros st \<le> fr_maxCost fr"

interpretation bounded: workflow_invariant within_bounds step_in_bounds
proof
  fix fr :: "'w traced frame" and st st' err and p title summary i k x
  show "step_in_bounds fr st \<Longrightarrow> within_bounds fr st" by (simp add: step_in_bounds_def within_bounds_def)
  show "within_bounds fr st \<Longrightarrow> begin_step fr st = (st', Inr ()) \<Longrightarrow> step_in_bounds fr st'"
    using begin_traced [of fr st st' "Inr ()"] by (simp add: step_in_bounds_def within_bounds_def)
  show "within_bounds fr st \<Longrightarrow> begin_step fr st = (st', Inl err) \<Longrightarrow> within_bounds fr st'"
    using begin_traced [of fr st st' "Inl err"] by (simp add: step_in_bounds_def within_bounds_def)
  show "step_in_bounds fr st \<Longrightarrow> within_bounds fr (fst (confirm fr p title summary st))"
    using confirm_traced [of fr p title summary st "fst (confirm fr p title summary st)" "snd (confirm fr p title summary st)"]
    by (auto simp: step_in_bounds_def within_bounds_def)
  assume k: "step_in_bounds fr st"
  then have "traced_frame fr" by (simp add: step_in_bounds_def)
  from run_skill_traced [OF this] obtain cs where cs: "skill_done fr st cs (fst (run_skill fr p i k x st))" by blast
  from skill_done_size [OF cs] cs k show "within_bounds fr (fst (run_skill fr p i k x st))"
    by (auto simp: skill_done_def step_in_bounds_def within_bounds_def)
qed

text \<open>Every execution comes right after the calls that clear it.\<close>

definition all_cleared :: "dependency_call list \<Rightarrow> bool" where
  "all_cleared tr \<longleftrightarrow>
    (\<forall>pre req a post. tr = pre @ Executed req a # post \<longrightarrow> (\<exists>earlier cs. pre = earlier @ cs \<and> cleared_by req cs))"

lemma all_cleared_snoc:
  "all_cleared (tr @ [c]) \<longleftrightarrow> all_cleared tr \<and>
    (\<forall>req a. c = Executed req a \<longrightarrow> (\<exists>earlier cs. tr = earlier @ cs \<and> cleared_by req cs))"
  (is "?l \<longleftrightarrow> ?r")
proof
  assume l: ?l
  have "all_cleared tr" using l unfolding all_cleared_def by (metis append.assoc append_Cons)
  moreover have "\<exists>earlier cs. tr = earlier @ cs \<and> cleared_by req cs" if "c = Executed req a" for req a
    using l that unfolding all_cleared_def by blast
  ultimately show ?r by blast
next
  assume r: ?r
  show ?l unfolding all_cleared_def
  proof (intro allI impI)
    fix pre req a post
    assume tr: "tr @ [c] = pre @ Executed req a # post"
    show "\<exists>earlier cs. pre = earlier @ cs \<and> cleared_by req cs"
    proof (cases post rule: rev_cases)
      case Nil
      with tr r show ?thesis by simp
    next
      case (snoc ys y)
      with tr have "tr = pre @ Executed req a # ys" by simp
      with r show ?thesis unfolding all_cleared_def by blast
    qed
  qed
qed

lemma all_cleared_Nil [simp]: "all_cleared []"
  by (simp add: all_cleared_def)

lemma all_cleared_other: "all_cleared tr \<Longrightarrow> \<not> list_ex is_execution cs \<Longrightarrow> all_cleared (tr @ cs)"
proof (induction cs rule: rev_induct)
  case (snoc c cs)
  then have "all_cleared ((tr @ cs) @ [c])" by (subst all_cleared_snoc) auto
  then show ?case by simp
qed simp

lemma all_cleared_one:
  assumes "all_cleared tr" and "cleared_by req cs"
  shows "all_cleared (tr @ cs @ [Executed req a])"
proof -
  have "all_cleared (tr @ cs)" by (rule all_cleared_other) (use assms cleared_by_calls in auto)
  with assms(2) have "all_cleared ((tr @ cs) @ [Executed req a])" by (subst all_cleared_snoc) blast
  then show ?thesis by simp
qed

definition only_cleared :: "'w traced frame \<Rightarrow> 'w traced run \<Rightarrow> bool" where
  "only_cleared fr st \<longleftrightarrow> traced_frame fr \<and> all_cleared (calls st)"

lemma skill_done_cleared: "skill_done fr st cs st' \<Longrightarrow> all_cleared (calls st) \<Longrightarrow> all_cleared (calls st')"
proof -
  assume d: "skill_done fr st cs st'" and ok: "all_cleared (calls st)"
  show ?thesis
  proof (cases "list_ex is_execution cs")
    case True
    with d obtain pre req a where "cs = pre @ [Executed req a]" "cleared_by req pre" unfolding skill_done_def by auto
    with d all_cleared_one [OF ok] show ?thesis by (simp add: skill_done_def)
  next
    case False
    with d all_cleared_other [OF ok] show ?thesis by (simp add: skill_done_def)
  qed
qed

interpretation cleared: workflow_invariant only_cleared only_cleared
proof
  fix fr :: "'w traced frame" and st st' err and p title summary i k x
  show "only_cleared fr st \<Longrightarrow> only_cleared fr st" .
  show "only_cleared fr st \<Longrightarrow> begin_step fr st = (st', Inr ()) \<Longrightarrow> only_cleared fr st'"
    using begin_traced [of fr st st' "Inr ()"] by (simp add: only_cleared_def)
  show "only_cleared fr st \<Longrightarrow> begin_step fr st = (st', Inl err) \<Longrightarrow> only_cleared fr st'"
    using begin_traced [of fr st st' "Inl err"] by (simp add: only_cleared_def)
  show "only_cleared fr st \<Longrightarrow> only_cleared fr (fst (confirm fr p title summary st))"
    using confirm_traced [of fr p title summary st "fst (confirm fr p title summary st)" "snd (confirm fr p title summary st)"]
    by (auto simp: only_cleared_def all_cleared_snoc)
  show "only_cleared fr st \<Longrightarrow> only_cleared fr (fst (run_skill fr p i k x st))"
    using run_skill_traced [of fr st p i k x] skill_done_cleared [of fr st] by (auto simp: only_cleared_def)
qed

text \<open>The executions that complete have different keys, under which the engine holds their results.\<close>

fun call_key :: "dependency_call \<Rightarrow> string" where
  "call_key (Executed q a) = xq_idempotencyKey q"
| "call_key c = []"

abbreviation completed_keys :: "dependency_call list \<Rightarrow> string list" where
  "completed_keys cs \<equiv> map call_key (filter completes cs)"

definition once_each :: "dependency_call list \<Rightarrow> completed_steps \<Rightarrow> bool" where
  "once_each tr stored \<longleftrightarrow> distinct (completed_keys tr) \<and> (\<forall>key \<in> set (completed_keys tr). map_get stored key \<noteq> None)"


lemma completes_is_execution: "completes c \<Longrightarrow> is_execution c"
  by (cases c rule: completes.cases) auto

lemma no_completion: "\<not> list_ex is_execution cs \<Longrightarrow> filter completes cs = []"
  using completes_is_execution by (fastforce simp: list_ex_iff filter_empty_conv)

lemma skill_done_once:
  assumes "skill_done fr st cs st'" and "once_each (calls st) (rs_completed st)"
  shows "once_each (calls st') (rs_completed st')"
proof (cases "list_ex is_execution cs")
  case True
  with assms(1) obtain pre req a where cs: "cs = pre @ [Executed req a]" "cleared_by req pre"
      and fresh: "map_get (rs_completed st) (xq_idempotencyKey req) = None"
      and stored: "if completes (Executed req a)
        then \<exists>result. rs_completed st' = map_set (xq_idempotencyKey req) result (rs_completed st)
        else rs_completed st' = rs_completed st"
    unfolding skill_done_def by auto
  have calls: "calls st' = calls st @ cs" using assms(1) by (simp add: skill_done_def)
  have pre: "filter completes pre = []" using cleared_by_calls [OF cs(2)] no_completion by blast
  show ?thesis
  proof (cases "completes (Executed req a)")
    case completed: True
    then obtain result where "rs_completed st' = map_set (xq_idempotencyKey req) result (rs_completed st)"
      using stored by auto
    moreover have "xq_idempotencyKey req \<notin> set (completed_keys (calls st))"
      using assms(2) fresh unfolding once_each_def by blast
    ultimately show ?thesis using assms(2) pre completed by (auto simp: once_each_def calls cs)
  next
    case False
    with stored assms(2) pre show ?thesis by (auto simp: once_each_def calls cs)
  qed
next
  case False
  with assms no_completion [OF False] show ?thesis by (simp add: skill_done_def once_each_def)
qed

definition stored_once :: "'w traced frame \<Rightarrow> 'w traced run \<Rightarrow> bool" where
  "stored_once fr st \<longleftrightarrow> traced_frame fr \<and> once_each (calls st) (rs_completed st)"

interpretation once: workflow_invariant stored_once stored_once
proof
  fix fr :: "'w traced frame" and st st' err and p title summary i k x
  show "stored_once fr st \<Longrightarrow> stored_once fr st" .
  show "stored_once fr st \<Longrightarrow> begin_step fr st = (st', Inr ()) \<Longrightarrow> stored_once fr st'"
    using begin_traced [of fr st st' "Inr ()"] by (simp add: stored_once_def)
  show "stored_once fr st \<Longrightarrow> begin_step fr st = (st', Inl err) \<Longrightarrow> stored_once fr st'"
    using begin_traced [of fr st st' "Inl err"] by (simp add: stored_once_def)
  show "stored_once fr st \<Longrightarrow> stored_once fr (fst (confirm fr p title summary st))"
    using confirm_traced [of fr p title summary st "fst (confirm fr p title summary st)" "snd (confirm fr p title summary st)"]
    by (auto simp: stored_once_def once_each_def)
  show "stored_once fr st \<Longrightarrow> stored_once fr (fst (run_skill fr p i k x st))"
    using run_skill_traced [of fr st p i k x] skill_done_once [of fr st] by (auto simp: stored_once_def)
qed

subsection \<open>Whole executions\<close>

text \<open>An execution over recorded dependencies is refused before any call, or runs the steps of the parsed workflow.\<close>

lemma execute_traced:
  assumes "execute_workflow (trace_deps deps) input cx ((w, tr), stored) = (engine', r)"
  obtains (refused) err where "engine' = ((w, tr), stored)" "r = Inl err"
  | (ran) flow fr st st' outcome where "parseBoundedWorkflow input = Some flow" "traced_frame fr" "0 \<le> fr_maxCost fr"
      "wx_maxCostMicros cx = IntNum (fr_maxCost fr)"
      "calls st = tr" "rs_completed st = stored" "rs_executedSteps st = 0" "rs_costMicros st = 0"
      "run_steps fr (wf_workflowId flow) 0 (wf_steps flow) st = (st', outcome)"
      "rs_world st' = fst engine'" "rs_completed st' = snd engine'"
      "r = (case outcome of Inl err \<Rightarrow> Inl err
         | Inr _ \<Rightarrow> Inr \<lparr>wr_runId = wx_runId cx, wr_outputs = rs_outputs st', wr_costMicros = rs_costMicros st',
             wr_executedSteps = rs_executedSteps st'\<rparr>)"
proof (cases "parseBoundedWorkflow input")
  case None
  with assms have "engine' = ((w, tr), stored)" "r = Inl WORKFLOW_INVALID" by (simp_all add: execute_workflow_def)
  then show thesis by (rule refused)
next
  case flow: (Some flow)
  show thesis
  proof (cases "context_bounds cx")
    case None
    with flow assms have "engine' = ((w, tr), stored)" "r = Inl WORKFLOW_CONTEXT_INVALID"
      by (simp_all add: execute_workflow_def)
    then show thesis by (rule refused)
  next
    case (Some b)
    obtain maxCost maxDuration where b: "b = (maxCost, maxDuration)" by fastforce
    with Some have cost: "wx_maxCostMicros cx = IntNum maxCost" "0 \<le> maxCost"
      by (auto simp: context_bounds_def bind_eq_Some_conv natural_Some)
    obtain w' startedAt where now: "dateNow deps w = (w', startedAt)" by fastforce
    define fr where "fr = \<lparr>fr_deps = trace_deps deps, fr_context = cx, fr_maxCost = maxCost, fr_maxDuration = maxDuration,
      fr_startedAt = startedAt\<rparr>"
    define st where "st = \<lparr>rs_world = (w', tr), rs_completed = stored, rs_costMicros = 0, rs_executedSteps = 0, rs_outputs = []\<rparr>"
    obtain st' outcome where run: "run_steps fr (wf_workflowId flow) 0 (wf_steps flow) st = (st', outcome)" by fastforce
    have clock: "dateNow (trace_deps deps) (w, tr) = ((w', tr), startedAt)" by (simp add: trace_deps_def now)
    note all = assms [unfolded execute_workflow_def, simplified flow Some b option.case prod.case fst_conv snd_conv clock Let_def,
        folded fr_def st_def, simplified run prod.case]
    show thesis
    proof (rule ran [OF flow _ _ _ _ _ _ _ run])
      show "traced_frame fr" by (auto simp: traced_frame_def fr_def)
      show "0 \<le> fr_maxCost fr" "wx_maxCostMicros cx = IntNum (fr_maxCost fr)" using cost by (simp_all add: fr_def)
      show "calls st = tr" "rs_completed st = stored" "rs_executedSteps st = 0" "rs_costMicros st = 0"
        by (simp_all add: st_def)
      show "rs_world st' = fst engine'" "rs_completed st' = snd engine'" using all by auto
      show "r = (case outcome of Inl err \<Rightarrow> Inl err
         | Inr _ \<Rightarrow> Inr \<lparr>wr_runId = wx_runId cx, wr_outputs = rs_outputs st', wr_costMicros = rs_costMicros st',
             wr_executedSteps = rs_executedSteps st'\<rparr>)"
        using all by simp
    qed
  qed
qed


section \<open>Properties\<close>

text \<open>
  C14: Every execution of a workflow ends within its bounds, whatever the workflow, the dependencies, the clock and the abort
  signal do: at most 20 Skill calls and 60 calls of any kind are made, and an execution that returns has begun
  at most 20 steps and accounts for no more than the maximal cost.
\<close>

theorem workflow_bounded:
  assumes "execute_workflow (trace_deps deps) input cx ((w, []), stored) = (((w', tr), stored'), r)"
  shows "executions tr \<le> 20 \<and> length tr \<le> 60 \<and>
    (\<forall>result. r = Inr result \<longrightarrow> wr_executedSteps result \<le> 20 \<and>
      (\<exists>maxCost. wx_maxCostMicros cx = IntNum maxCost \<and> wr_costMicros result \<le> maxCost))"
  using assms
proof (cases rule: execute_traced)
  case (ran flow fr st st' outcome)
  have "within_bounds fr st" using ran by (simp add: within_bounds_def)
  from bounded.run_keeps(1) [OF this, of "wf_workflowId flow" 0 "wf_steps flow"] have "within_bounds fr st'"
    by (simp add: ran(9))
  with ran(4,10,12) show ?thesis by (auto simp: within_bounds_def split: sum.splits)
qed simp

text \<open>
  C19: No Skill is called uncleared: in every execution, right before each Skill call the engine asked for the Skill's description and got
  one without external writes, and where the description asks for confirmation the user consented to this
  step of this run; the call carries the idempotency key made of the run and the step.
\<close>

theorem workflow_cleared:
  assumes "execute_workflow (trace_deps deps) input cx ((w, []), stored) = (((w', tr), stored'), r)"
    and "tr = pre @ Executed req a # post"
  shows "\<exists>earlier cs. pre = earlier @ cs \<and> cleared_by req cs"
  using assms(1)
proof (cases rule: execute_traced)
  case (ran flow fr st st' outcome)
  have "only_cleared fr st" using ran by (simp add: only_cleared_def)
  from cleared.run_keeps(1) [OF this, of "wf_workflowId flow" 0 "wf_steps flow"] have "only_cleared fr st'"
    by (simp add: ran(9))
  with ran(10) have "all_cleared tr" by (simp add: only_cleared_def)
  with assms(2) show ?thesis unfolding all_cleared_def by blast
qed (use assms(2) in simp)

text \<open>Executions of one engine, one after the other, each with the outcome it may have.\<close>

fun run_many :: "'w WorkflowEngineDependencies \<Rightarrow> (js_value \<times> WorkflowExecutionContext) list \<Rightarrow>
    'w \<times> completed_steps \<Rightarrow> 'w \<times> completed_steps" where
  "run_many deps [] engine = engine"
| "run_many deps ((input, cx) # rest) engine = run_many deps rest (fst (execute_workflow deps input cx engine))"

lemma execute_once:
  assumes "execute_workflow (trace_deps deps) input cx ((w, tr), stored) = (((w', tr'), stored'), r)" and "once_each tr stored"
  shows "once_each tr' stored'"
  using assms(1)
proof (cases rule: execute_traced)
  case (ran flow fr st st' outcome)
  have "stored_once fr st" using ran assms(2) by (simp add: stored_once_def)
  from once.run_keeps(1) [OF this, of "wf_workflowId flow" 0 "wf_steps flow"] have "stored_once fr st'"
    by (simp add: ran(9))
  with ran(10,11) show ?thesis by (simp add: stored_once_def)
qed (use assms(2) in simp)

lemma run_many_once:
  "once_each (snd (fst engine)) (snd engine) \<Longrightarrow>
    once_each (snd (fst (run_many (trace_deps deps) runs engine))) (snd (run_many (trace_deps deps) runs engine))"
proof (induction runs arbitrary: engine)
  case (Cons run runs)
  obtain input cx where run: "run = (input, cx)" by fastforce
  obtain w tr stored where engine: "engine = ((w, tr), stored)" by (metis surj_pair)
  obtain w' tr' stored' r where e: "execute_workflow (trace_deps deps) input cx ((w, tr), stored) = (((w', tr'), stored'), r)"
    by (metis surj_pair)
  from execute_once [OF e] Cons.prems have "once_each tr' stored'" by (simp add: engine)
  with Cons.IH [of "((w', tr'), stored')"] show ?case by (simp add: run engine e)
qed simp

text \<open>
  A completed Skill call is never made again: over any number of executions of one engine, failed and cancelled ones
  among them, with the same or other run ids, no two calls that returned a usable result carry the same
  idempotency key, and the engine still holds the result of each.
\<close>

theorem workflow_once:
  assumes "run_many (trace_deps deps) runs ((w, []), []) = ((w', tr), stored)"
  shows "distinct (completed_keys tr) \<and> (\<forall>key \<in> set (completed_keys tr). map_get stored key \<noteq> None)"
  using run_many_once [of "((w, []), [])" deps runs] assms by (simp add: once_each_def)

subsection \<open>A sample workflow\<close>

text \<open>A loop of two iterations around a Skill, then a confirmation.\<close>

definition sample_flow_id :: string where
  "sample_flow_id = ''user.workflow.00000000-0000-4000-8000-000000000000''"

definition sample_flow :: js_value where
  "sample_flow = Obj
    [(''schemaVersion'', Str ''longhub/workflow/v1''), (''workflowId'', Str sample_flow_id), (''name'', Str ''w''),
     (''steps'', Arr
       [Obj [(''id'', Str ''l''), (''kind'', Str ''loop''), (''iterations'', Number (IntNum 2)), (''steps'', Arr
          [Obj [(''id'', Str ''s''), (''kind'', Str ''skill''), (''skillId'', Str ''hr.read''), (''input'', Obj [])]])],
        Obj [(''id'', Str ''c''), (''kind'', Str ''confirm''), (''title'', Str ''t''), (''summary'', Str ''m'')]])]"

definition sample_deps :: "unit WorkflowEngineDependencies" where
  "sample_deps = \<lparr>describeSkill = (\<lambda>w k. (w, Some \<lparr>sd_sideEffect = Local_recoverable, sd_requiresConfirmation = True\<rparr>)),
     requestConfirmation = (\<lambda>w q. (w, Some True)),
     authorizeAndExecute = (\<lambda>w q. (w, Some \<lparr>sr_output = Null, sr_costMicros = IntNum 5\<rparr>)),
     dateNow = (\<lambda>w. (w, 0)), isAborted = (\<lambda>w. False)\<rparr>"

definition sample_run_context :: WorkflowExecutionContext where
  "sample_run_context = \<lparr>wx_runId = ''r'', wx_agentId = ''a'', wx_input = [], wx_maxCostMicros = IntNum 10,
     wx_maxDurationMs = IntNum 1000\<rparr>"


lemma sample_flow_id_ok: "workflow_id_ok sample_flow_id"
  by (simp add: workflow_id_ok_def sample_flow_id_def starts_with_def ascii_lower_def is_upper_def char_in_def is_hex_def
      is_digit_def)

lemma sample_parse:
  "parseBoundedWorkflow sample_flow = Some \<lparr>wf_schemaVersion = ''longhub/workflow/v1'', wf_workflowId = sample_flow_id,
    wf_name = ''w'', wf_steps = [LoopStep ''l'' 2 [SkillStep ''s'' ''hr.read'' []], ConfirmStep ''c'' ''t'' ''m'']\<rparr>"
proof -
  have "visit [Obj [(''id'', Str ''l''), (''kind'', Str ''loop''), (''iterations'', Number (IntNum 2)), (''steps'', Arr
          [Obj [(''id'', Str ''s''), (''kind'', Str ''skill''), (''skillId'', Str ''hr.read''), (''input'', Obj [])]])],
        Obj [(''id'', Str ''c''), (''kind'', Str ''confirm''), (''title'', Str ''t''), (''summary'', Str ''m'')]]
      1 \<lparr>vs_total = 0, vs_ids = []\<rparr> =
    Some ([LoopStep ''l'' 2 [SkillStep ''s'' ''hr.read'' []], ConfirmStep ''c'' ''t'' ''m''],
      \<lparr>vs_total = 3, vs_ids = [''c'', ''s'', ''l'']\<rparr>)"
    by (simp add: visit.simps visit_step.simps step_header_def field_def require_def step_name_ok_def is_name_char_def
        is_alnum_def is_lower_def is_upper_def is_digit_def char_in_def loop_members_def parse_skill_step_def
        parse_confirm_step_def bounded_text_def exactKeys_def joined_keys_def js_sort_def code_unit_compare_def skill_id_ok_def
        is_skill_char_def all_within_def starts_with_def js_trim_def is_space_def maxSafeInteger_def)
  then show ?thesis
    using sample_flow_id_ok
    by (simp add: parseBoundedWorkflow_def sample_flow_def field_def require_def exactKeys_def joined_keys_def js_sort_def
        code_unit_compare_def bounded_text_def js_trim_def is_space_def)
qed

definition sample_calls :: "dependency_call list" where
  "sample_calls = concat (map (\<lambda>n.
      let p = sample_flow_id @ ''.0.l.loop-'' @ show_nat n @ ''.0.s'' in
      [Described ''hr.read'' (Some \<lparr>sd_sideEffect = Local_recoverable, sd_requiresConfirmation = True\<rparr>),
       Confirmed \<lparr>cq_runId = ''r'', cq_stepId = p, cq_agentId = ''a'', cq_title = Execute_skill ''hr.read'',
         cq_summary = Recoverable_change\<rparr> (Some True),
       Executed \<lparr>xq_runId = ''r'', xq_stepId = p, xq_agentId = ''a'', xq_skillId = ''hr.read'', xq_payload = [],
         xq_idempotencyKey = ''r:'' @ p\<rparr> (Some \<lparr>sr_output = Null, sr_costMicros = IntNum 5\<rparr>)]) [0, 1]) @
    [Confirmed \<lparr>cq_runId = ''r'', cq_stepId = sample_flow_id @ ''.1.c'', cq_agentId = ''a'', cq_title = Given ''t'',
       cq_summary = Given ''m''\<rparr> (Some True)]"

definition sample_stored :: completed_steps where
  "sample_stored = map (\<lambda>n. (''r:'' @ sample_flow_id @ ''.0.l.loop-'' @ show_nat n @ ''.0.s'', (Null, 5))) [0, 1]"

lemmas workflow_eval = execute_workflow_def sample_parse context_bounds_def sample_run_context_def require_def run_id_ok_def
  is_alnum_def is_lower_def is_upper_def is_digit_def char_in_def natural_def maxSafeInteger_def trace_deps_def
  sample_deps_def begin_step_def check_def run_skill_def confirm_def call_skill_def execution_request_def
  account_result_def set_own_def sample_calls_def sample_stored_def numeral_2_eq_2 show_nat.simps digit_chars Let_def

lemma sample_execution:
  "execute_workflow (trace_deps sample_deps) sample_flow sample_run_context (((), []), []) =
    ((((), sample_calls), sample_stored),
     Inr \<lparr>wr_runId = ''r'', wr_outputs = [(''s'', Null)], wr_costMicros = 10, wr_executedSteps = 4\<rparr>)"
  by (simp add: workflow_eval)

text \<open>The same run again: the descriptions and confirmations are asked for again, the Skill is not called.\<close>

lemma sample_again:
  "execute_workflow (trace_deps sample_deps) sample_flow sample_run_context (((), sample_calls), sample_stored) =
    ((((), sample_calls @ filter (Not \<circ> is_execution) sample_calls), sample_stored),
     Inr \<lparr>wr_runId = ''r'', wr_outputs = [(''s'', Null)], wr_costMicros = 10, wr_executedSteps = 4\<rparr>)"
  by (simp add: workflow_eval)

theorem workflow_bounded_witness:
  "executions sample_calls = 2 \<and> executions sample_calls \<le> 20 \<and> length sample_calls \<le> 60"
  using workflow_bounded [OF sample_execution] by (simp add: sample_calls_def Let_def)

definition sample_request :: execute_request where
  "sample_request = \<lparr>xq_runId = ''r'', xq_stepId = sample_flow_id @ ''.0.l.loop-0.0.s'', xq_agentId = ''a'',
     xq_skillId = ''hr.read'', xq_payload = [], xq_idempotencyKey = ''r:'' @ sample_flow_id @ ''.0.l.loop-0.0.s''\<rparr>"

theorem workflow_cleared_witness:
  "sample_calls = take 2 sample_calls @ Executed sample_request (Some \<lparr>sr_output = Null, sr_costMicros = IntNum 5\<rparr>) #
      drop 3 sample_calls \<and>
    (\<exists>earlier cs. take 2 sample_calls = earlier @ cs \<and> cleared_by sample_request cs)"
proof -
  have split: "sample_calls = take 2 sample_calls @
      Executed sample_request (Some \<lparr>sr_output = Null, sr_costMicros = IntNum 5\<rparr>) # drop 3 sample_calls"
    by (simp add: sample_calls_def sample_request_def Let_def show_nat.simps digit_chars)
  with workflow_cleared [OF sample_execution split] show ?thesis by blast
qed

theorem workflow_once_witness:
  "run_many (trace_deps sample_deps) [(sample_flow, sample_run_context), (sample_flow, sample_run_context)] (((), []), []) =
      (((), sample_calls @ filter (Not \<circ> is_execution) sample_calls), sample_stored) \<and>
    length (completed_keys (sample_calls @ filter (Not \<circ> is_execution) sample_calls)) = 2 \<and>
    distinct (completed_keys (sample_calls @ filter (Not \<circ> is_execution) sample_calls))"
proof -
  have run: "run_many (trace_deps sample_deps) [(sample_flow, sample_run_context), (sample_flow, sample_run_context)]
      (((), []), []) = (((), sample_calls @ filter (Not \<circ> is_execution) sample_calls), sample_stored)"
    by (simp add: sample_execution sample_again)
  have "length (completed_keys (sample_calls @ filter (Not \<circ> is_execution) sample_calls)) = 2"
    by (simp add: sample_calls_def Let_def natural_def maxSafeInteger_def)
  with run workflow_once [OF run] show ?thesis by blast
qed

end
