(* ===== verification/Canonical_Json.thy ===== *)
theory Canonical_Json
  imports Task_Fingerprint JS_Time
begin

text \<open>
  The canonical JSON text of a value (\<^verbatim>\<open>canonicalJson\<close> of
  \<^verbatim>\<open>packages/longhub-core/src/authorization.ts\<close>), over which digests are taken. \<open>None\<close> is the thrown
  error. The lemmas show that the text determines the value, up to the order of the members of an object and
  members that are \<^verbatim>\<open>undefined\<close>.
\<close>

subsection \<open>The text\<close>

definition show_int :: "int \<Rightarrow> string" where
  "show_int i = (if i < 0 then CHR ''-'' # show_nat (nat (- i)) else show_nat (nat i))"

text \<open>\<^verbatim>\<open>JSON.stringify\<close> of a finite number; a fraction is carried by its text.\<close>

fun number_json :: "js_number \<Rightarrow> string option" where
  "number_json (IntNum i) = Some (show_int i)"
| "number_json (FracNum s) = Some s"
| "number_json _ = None"

fun comma_join :: "string list \<Rightarrow> string" where
  "comma_join [] = []"
| "comma_join [s] = s"
| "comma_join (s # t # ss) = s @ CHR '','' # comma_join (t # ss)"

definition by_key :: "js_env \<Rightarrow> string \<times> 'a \<Rightarrow> string \<times> 'a \<Rightarrow> int" where
  "by_key e a b = localeCompare e (fst a) (fst b)"

definition member_text :: "string \<times> string \<Rightarrow> string" where
  "member_text kt = json_string (fst kt) @ CHR '':'' # snd kt"

fun canonicalJson :: "js_env \<Rightarrow> js_value \<Rightarrow> string option"
  and canonical_items :: "js_env \<Rightarrow> js_value list \<Rightarrow> string list option"
  and canonical_members :: "js_env \<Rightarrow> (string \<times> js_value) list \<Rightarrow> (string \<times> string) list option" where
  "canonicalJson e Null = Some ''null''"
| "canonicalJson e (Str s) = Some (json_string s)"
| "canonicalJson e (Boolean b) = Some (if b then ''true'' else ''false'')"
| "canonicalJson e (Number n) = number_json n"
| "canonicalJson e (Arr vs) = map_option (\<lambda>ts. CHR ''['' # comma_join ts @ '']'') (canonical_items e vs)"
| "canonicalJson e (Obj ms) =
    map_option (\<lambda>ts. CHR ''{'' # comma_join (map member_text (js_sort (by_key e) ts)) @ ''}'') (canonical_members e ms)"
| "canonicalJson e Undefined = None"
| "canonical_items e [] = Some []"
| "canonical_items e (v # vs) =
    (case canonicalJson e v of None \<Rightarrow> None | Some t \<Rightarrow> map_option ((#) t) (canonical_items e vs))"
| "canonical_members e [] = Some []"
| "canonical_members e ((k, v) # ms) =
    (if v = Undefined then canonical_members e ms
     else (case canonicalJson e v of None \<Rightarrow> None | Some t \<Rightarrow> map_option ((#) (k, t)) (canonical_members e ms)))"

text \<open>\<^verbatim>\<open>JSON.stringify\<close>: undefined members vanish, other undefined or non-finite values are \<^verbatim>\<open>null\<close>.\<close>

fun stringify :: "js_value \<Rightarrow> string option" and stringify_items :: "js_value list \<Rightarrow> string list"
  and stringify_members :: "(string \<times> js_value) list \<Rightarrow> string list" where
  "stringify Undefined = None"
| "stringify Null = Some ''null''"
| "stringify (Boolean b) = Some (if b then ''true'' else ''false'')"
| "stringify (Number n) = Some (case number_json n of None \<Rightarrow> ''null'' | Some t \<Rightarrow> t)"
| "stringify (Str s) = Some (json_string s)"
| "stringify (Arr vs) = Some (CHR ''['' # comma_join (stringify_items vs) @ '']'')"
| "stringify (Obj ms) = Some (CHR ''{'' # comma_join (stringify_members ms) @ ''}'')"
| "stringify_items [] = []"
| "stringify_items (v # vs) = (case stringify v of None \<Rightarrow> ''null'' | Some t \<Rightarrow> t) # stringify_items vs"
| "stringify_members [] = []"
| "stringify_members ((k, v) # ms) =
    (case stringify v of None \<Rightarrow> stringify_members ms | Some t \<Rightarrow> member_text (k, t) # stringify_members ms)"

subsection \<open>The value the text stands for\<close>

text \<open>Members in the order of the keys, without those that are \<^verbatim>\<open>undefined\<close>.\<close>

fun canon :: "js_env \<Rightarrow> js_value \<Rightarrow> js_value"
  and canon_list :: "js_env \<Rightarrow> js_value list \<Rightarrow> js_value list"
  and canon_members :: "js_env \<Rightarrow> (string \<times> js_value) list \<Rightarrow> (string \<times> js_value) list" where
  "canon e (Arr vs) = Arr (canon_list e vs)"
| "canon e (Obj ms) = Obj (js_sort (by_key e) (canon_members e ms))"
| "canon e v = v"
| "canon_list e [] = []"
| "canon_list e (v # vs) = canon e v # canon_list e vs"
| "canon_members e [] = []"
| "canon_members e ((k, v) # ms) =
    (if v = Undefined then canon_members e ms else (k, canon e v) # canon_members e ms)"

text \<open>A fraction is written with a point or an exponent, so that it is not mistaken for an integer.\<close>

definition is_number_char :: "char \<Rightarrow> bool" where
  "is_number_char c \<longleftrightarrow> is_digit c \<or> c \<in> set ''.e+-''"

fun number_ok :: "js_number \<Rightarrow> bool" where
  "number_ok (FracNum s) = (list_all is_number_char s \<and> (CHR ''.'' \<in> set s \<or> CHR ''e'' \<in> set s))"
| "number_ok n = True"

fun json_ok :: "js_value \<Rightarrow> bool" where
  "json_ok (Number n) = number_ok n"
| "json_ok (Arr vs) = list_all json_ok vs"
| "json_ok (Obj ms) = list_all (\<lambda>kv. json_ok (snd kv)) ms"
| "json_ok v = True"

subsection \<open>Numbers\<close>

lemma show_int_chars: "list_all (\<lambda>c. is_digit c \<or> c = CHR ''-'') (show_int i)"
  using show_nat_digits [of "nat i"] show_nat_digits [of "nat (- i)"] by (auto simp: show_int_def list_all_iff)

lemma digit_facts [simp]: "\<not> is_digit CHR ''-''" "\<not> is_digit CHR ''.''" "\<not> is_digit CHR ''e''" "\<not> is_digit CHR '',''"
    "\<not> is_digit CHR '']''" "\<not> is_digit CHR ''}''"
  by (simp_all add: is_digit_def char_in_def)

lemma show_int_inj: "show_int i = show_int j \<longleftrightarrow> i = j"
proof
  assume eq: "show_int i = show_int j"
  have head: "show_nat n \<noteq> CHR ''-'' # s" for n s
    using show_nat_digits [of n] by auto
  from eq show "i = j"
    using head head [THEN not_sym] by (cases "i < 0"; cases "j < 0") (auto simp: show_int_def nat_eq_iff)
qed simp

lemma number_json_chars: "number_json n = Some s \<Longrightarrow> number_ok n \<Longrightarrow> list_all is_number_char s \<and> s \<noteq> []"
proof (cases n)
  case (IntNum i)
  moreover assume "number_json n = Some s"
  ultimately show ?thesis
    using show_int_chars [of i] by (auto simp: list_all_iff is_number_char_def show_int_def split: if_splits)
qed (auto simp: list_all_iff)

lemma number_json_inj:
  assumes "number_json m = Some s" "number_json n = Some s" "number_ok m" "number_ok n"
  shows "m = n"
proof -
  have int: "CHR ''.'' \<notin> set (show_int i) \<and> CHR ''e'' \<notin> set (show_int i)" for i
    using show_int_chars [of i] by (auto simp: list_all_iff)
  from assms show ?thesis
    using int by (cases m; cases n) (auto simp: show_int_inj)
qed

subsection \<open>The text determines the value\<close>

text \<open>What may follow the text of a value inside another.\<close>

fun delimited :: "string \<Rightarrow> bool" where
  "delimited [] = True"
| "delimited (c # s) = (c \<in> set '',]}'')"

lemma delimited_span:
  assumes "list_all is_number_char s" "list_all is_number_char t" "s @ x = t @ y" "delimited x" "delimited y"
  shows "s = t \<and> x = y"
proof -
  have stop: "\<not> is_number_char c" if "c \<in> set '',]}''" for c
    using that by (auto simp: is_number_char_def is_digit_def char_in_def)
  have "takeWhile is_number_char (s @ x) = s" if "list_all is_number_char s" "delimited x" for s x
    using that stop by (cases x) (auto simp: takeWhile_append list_all_iff)
  with assms have "s = t" by metis
  with assms(3) show ?thesis by simp
qed


text \<open>Texts joined by commas and closed by a bracket, for elements whose text can be told from what follows it.\<close>

definition separable :: "('a \<Rightarrow> string) \<Rightarrow> ('a \<Rightarrow> 'b) \<Rightarrow> 'a \<Rightarrow> 'a \<Rightarrow> bool" where
  "separable f g a b \<longleftrightarrow> (\<forall>x y. delimited x \<longrightarrow> delimited y \<longrightarrow> f a @ x = f b @ y \<longrightarrow> g a = g b \<and> x = y)"

lemma comma_join_Cons: "comma_join (s # ss) = s @ concat (map ((#) CHR '','') ss)"
  by (induction ss arbitrary: s) simp_all

lemma delimited_tail: "c \<in> set '']}'' \<Longrightarrow> delimited (concat (map ((#) CHR '','') ss) @ c # x)"
  by (cases ss) auto

lemma joined_tail:
  assumes "concat (map ((#) CHR '','') (map f as)) @ c # x = concat (map ((#) CHR '','') (map f bs)) @ c # y"
    and "c \<in> set '']}''" and "\<And>a b. a \<in> set as \<Longrightarrow> b \<in> set bs \<Longrightarrow> separable f g a b"
  shows "map g as = map g bs \<and> x = y"
  using assms
proof (induction as arbitrary: bs)
  case Nil
  then show ?case by (cases bs) auto
next
  case (Cons a as)
  from Cons.prems(1,2) obtain b bs' where bs: "bs = b # bs'" by (cases bs) auto
  let ?x = "concat (map ((#) CHR '','') (map f as)) @ c # x" and ?y = "concat (map ((#) CHR '','') (map f bs')) @ c # y"
  have "f a @ ?x = f b @ ?y" using Cons.prems(1) by (simp add: bs)
  moreover have "separable f g a b" using Cons.prems(3) by (simp add: bs)
  ultimately have "g a = g b" "?x = ?y"
    using delimited_tail [OF Cons.prems(2)] unfolding separable_def by blast+
  moreover have "map g as = map g bs' \<and> x = y"
    using Cons.prems(2,3) by (intro Cons.IH [OF \<open>?x = ?y\<close>]) (simp_all add: bs)
  ultimately show ?case by (simp add: bs)
qed

lemma joined_inj:
  assumes "comma_join (map f as) @ c # x = comma_join (map f bs) @ c # y" and "c \<in> set '']}''"
    and "\<And>a b. a \<in> set as \<Longrightarrow> b \<in> set bs \<Longrightarrow> separable f g a b"
    and "\<And>a. a \<in> set as \<union> set bs \<Longrightarrow> \<exists>d s. f a = d # s \<and> d \<notin> set '',]}''"
  shows "map g as = map g bs \<and> x = y"
proof (cases as)
  case Nil
  with assms(1,2,4) show ?thesis by (cases bs) (fastforce simp: comma_join_Cons)+
next
  case (Cons a as')
  obtain b bs' where bs: "bs = b # bs'"
    using assms(1,2,4) Cons by (cases bs) (fastforce simp: comma_join_Cons)+
  let ?x = "concat (map ((#) CHR '','') (map f as')) @ c # x" and ?y = "concat (map ((#) CHR '','') (map f bs')) @ c # y"
  have "f a @ ?x = f b @ ?y" using assms(1) by (simp add: Cons bs comma_join_Cons)
  moreover have "separable f g a b" using assms(3) by (simp add: Cons bs)
  ultimately have "g a = g b" "?x = ?y"
    using delimited_tail [OF assms(2)] unfolding separable_def by blast+
  moreover have "map g as' = map g bs' \<and> x = y"
    using assms(2,3) by (intro joined_tail [OF \<open>?x = ?y\<close>]) (simp_all add: Cons bs)
  ultimately show ?thesis by (simp add: Cons bs)
qed

text \<open>Items and members as maps over the values.\<close>

abbreviation text_of :: "js_env \<Rightarrow> js_value \<Rightarrow> string" where
  "text_of e v \<equiv> the (canonicalJson e v)"

definition defined_members :: "(string \<times> js_value) list \<Rightarrow> (string \<times> js_value) list" where
  "defined_members ms = filter (\<lambda>kv. snd kv \<noteq> Undefined) ms"

lemma canonical_items_map:
  "canonical_items e vs = Some ts \<Longrightarrow> ts = map (text_of e) vs \<and> (\<forall>v \<in> set vs. canonicalJson e v \<noteq> None)"
  by (induction vs arbitrary: ts) (auto split: option.splits)

lemma canonical_members_map:
  "canonical_members e ms = Some ts \<Longrightarrow> ts = map (map_prod id (text_of e)) (defined_members ms) \<and>
    (\<forall>kv \<in> set (defined_members ms). canonicalJson e (snd kv) \<noteq> None)"
  by (induction ms arbitrary: ts) (auto simp: defined_members_def split: option.splits if_splits)

lemma canon_list_map: "canon_list e vs = map (canon e) vs"
  by (induction vs) simp_all

lemma canon_members_map: "canon_members e ms = map (map_prod id (canon e)) (defined_members ms)"
  by (induction ms) (auto simp: defined_members_def)

lemma js_sort_members: "js_sort (by_key e) (map (map_prod id h) ms) = map (map_prod id h) (js_sort (by_key e) ms)"
proof -
  have insert: "js_insert (by_key e) (map_prod id h m) (map (map_prod id h) ms) =
      map (map_prod id h) (js_insert (by_key e) m ms)" for m ms
    by (induction ms) (auto simp: by_key_def)
  show ?thesis by (induction ms) (simp_all add: js_sort_def insert [unfolded id_def] id_def)
qed

lemma text_head:
  assumes "canonicalJson e v = Some t" and "json_ok v"
  shows "\<exists>c s. t = c # s \<and> c \<notin> set '',]}''"
proof (cases v)
  case (Number n)
  with assms number_json_chars [of n t] obtain c s where "t = c # s" "is_number_char c"
    by (cases t) auto
  then show ?thesis by (auto simp: is_number_char_def is_digit_def char_in_def)
qed (use assms in \<open>auto simp: json_string_def split: if_splits\<close>)

definition determines :: "js_env \<Rightarrow> js_value \<Rightarrow> bool" where
  "determines e v \<longleftrightarrow> (\<forall>w. canonicalJson e v \<noteq> None \<longrightarrow> canonicalJson e w \<noteq> None \<longrightarrow> json_ok v \<longrightarrow> json_ok w \<longrightarrow>
    (\<forall>x y. delimited x \<longrightarrow> delimited y \<longrightarrow> text_of e v @ x = text_of e w @ y \<longrightarrow> canon e v = canon e w \<and> x = y))"


lemma determines_list:
  assumes "\<And>v. v \<in> set vs \<Longrightarrow> determines e v" and "\<And>v. v \<in> set vs \<union> set ws \<Longrightarrow> canonicalJson e v \<noteq> None \<and> json_ok v"
    and "comma_join (map (text_of e) vs) @ CHR '']'' # x = comma_join (map (text_of e) ws) @ CHR '']'' # y"
  shows "map (canon e) vs = map (canon e) ws \<and> x = y"
proof (rule joined_inj [OF assms(3)])
  show "separable (text_of e) (canon e) v w" if "v \<in> set vs" "w \<in> set ws" for v w
    using assms(1) [OF that(1)] assms(2) [of v] assms(2) [of w] that unfolding determines_def separable_def by blast
  show "\<exists>d s. text_of e v = d # s \<and> d \<notin> set '',]}''" if "v \<in> set vs \<union> set ws" for v
    using assms(2) [OF that] text_head [of e v "text_of e v"] by auto
qed simp

lemma determines_members:
  assumes "\<And>kv. kv \<in> set ms \<Longrightarrow> determines e (snd kv)"
    and "\<And>kv. kv \<in> set ms \<union> set ns \<Longrightarrow> canonicalJson e (snd kv) \<noteq> None \<and> json_ok (snd kv)"
    and "comma_join (map (member_text \<circ> map_prod id (text_of e)) ms) @ CHR ''}'' # x =
      comma_join (map (member_text \<circ> map_prod id (text_of e)) ns) @ CHR ''}'' # y"
  shows "map (map_prod id (canon e)) ms = map (map_prod id (canon e)) ns \<and> x = y"
proof (rule joined_inj [OF assms(3)])
  show "separable (member_text \<circ> map_prod id (text_of e)) (map_prod id (canon e)) m n" if "m \<in> set ms" "n \<in> set ns" for m n
    unfolding separable_def
  proof (intro allI impI)
    fix x y
    assume d: "delimited x" "delimited y"
      and eq: "(member_text \<circ> map_prod id (text_of e)) m @ x = (member_text \<circ> map_prod id (text_of e)) n @ y"
    have "json_element (Some (fst m)) @ (CHR '':'' # text_of e (snd m) @ x) =
        json_element (Some (fst n)) @ (CHR '':'' # text_of e (snd n) @ y)"
      using eq by (simp add: member_text_def)
    from json_element_inj [OF this] have "fst m = fst n" "text_of e (snd m) @ x = text_of e (snd n) @ y" by auto
    moreover have "canon e (snd m) = canon e (snd n) \<and> x = y"
      using assms(1) [OF that(1)] assms(2) [of m] assms(2) [of n] that d \<open>text_of e (snd m) @ x = text_of e (snd n) @ y\<close>
      unfolding determines_def by blast
    ultimately show "map_prod id (canon e) m = map_prod id (canon e) n \<and> x = y" by (simp add: prod_eq_iff)
  qed
  show "\<exists>d s. (member_text \<circ> map_prod id (text_of e)) m = d # s \<and> d \<notin> set '',]}''" for m
    by (simp add: member_text_def json_string_def)
qed simp

lemma Obj_text:
  assumes "canonicalJson e (Obj ms) \<noteq> None"
  shows "text_of e (Obj ms) = CHR ''{'' # comma_join (map (member_text \<circ> map_prod id (text_of e))
      (js_sort (by_key e) (defined_members ms))) @ ''}''"
    and "\<forall>kv \<in> set (defined_members ms). canonicalJson e (snd kv) \<noteq> None"
proof -
  from assms obtain ts where ts: "canonical_members e ms = Some ts" by (cases "canonical_members e ms") auto
  from canonical_members_map [OF ts] ts show "text_of e (Obj ms) = CHR ''{'' # comma_join
      (map (member_text \<circ> map_prod id (text_of e)) (js_sort (by_key e) (defined_members ms))) @ ''}''"
    by (simp add: js_sort_members)
  from canonical_members_map [OF ts] show "\<forall>kv \<in> set (defined_members ms). canonicalJson e (snd kv) \<noteq> None" by simp
qed

lemma Arr_text:
  assumes "canonicalJson e (Arr vs) \<noteq> None"
  shows "text_of e (Arr vs) = CHR ''['' # comma_join (map (text_of e) vs) @ '']''"
    and "\<forall>v \<in> set vs. canonicalJson e v \<noteq> None"
proof -
  from assms obtain ts where ts: "canonical_items e vs = Some ts" by (cases "canonical_items e vs") auto
  from canonical_items_map [OF ts] ts show "text_of e (Arr vs) = CHR ''['' # comma_join (map (text_of e) vs) @ '']''"
    by simp
  from canonical_items_map [OF ts] show "\<forall>v \<in> set vs. canonicalJson e v \<noteq> None" by simp
qed

text \<open>The first character tells what kind of value a text stands for.\<close>

fun first_char :: "js_value \<Rightarrow> char" where
  "first_char Null = CHR ''n''"
| "first_char (Boolean b) = (if b then CHR ''t'' else CHR ''f'')"
| "first_char (Str s) = CHR 0x22"
| "first_char (Number n) = CHR ''0''"
| "first_char (Arr vs) = CHR ''[''"
| "first_char (Obj ms) = CHR ''{''"
| "first_char Undefined = CHR ''u''"

definition char_kind :: "char \<Rightarrow> char" where
  "char_kind c = (if is_number_char c then CHR ''0'' else c)"

lemma text_first_char:
  assumes "canonicalJson e v = Some t" and "json_ok v"
  shows "t \<noteq> [] \<and> char_kind (hd t) = first_char v"
proof (cases v)
  case (Number n)
  with assms number_json_chars [of n t] show ?thesis by (cases t) (auto simp: char_kind_def)
qed (use assms in \<open>auto simp: json_string_def char_kind_def is_number_char_def is_digit_def char_in_def split: if_splits\<close>)

lemma same_first_char:
  assumes "canonicalJson e v \<noteq> None" "canonicalJson e w \<noteq> None" "json_ok v" "json_ok w" "text_of e v @ x = text_of e w @ y"
  shows "first_char v = first_char w"
proof -
  from assms(1,2) obtain s t where st: "canonicalJson e v = Some s" "canonicalJson e w = Some t" by auto
  with assms(5) have "s @ x = t @ y" by simp
  with text_first_char [OF st(1) assms(3)] text_first_char [OF st(2) assms(4)] show ?thesis by (metis hd_append2)
qed

lemma canonical_determines: "determines e v"
proof (induction v)
  case Undefined
  show ?case by (simp add: determines_def)
next
  case Null
  show ?case unfolding determines_def
  proof (intro allI impI)
    fix w x y
    assume a: "canonicalJson e Null \<noteq> None" "canonicalJson e w \<noteq> None" "json_ok Null" "json_ok w"
      "text_of e Null @ x = text_of e w @ y"
    from same_first_char [OF a] have "w = Null" by (cases w) (auto split: if_splits)
    with a show "canon e Null = canon e w \<and> x = y" by simp
  qed
next
  case (Boolean b)
  show ?case unfolding determines_def
  proof (intro allI impI)
    fix w x y
    assume a: "canonicalJson e (Boolean b) \<noteq> None" "canonicalJson e w \<noteq> None" "json_ok (Boolean b)" "json_ok w"
      "text_of e (Boolean b) @ x = text_of e w @ y"
    from same_first_char [OF a] have "w = Boolean b" by (cases w) (auto split: if_splits)
    with a show "canon e (Boolean b) = canon e w \<and> x = y" by simp
  qed
next
  case (Number n)
  show ?case unfolding determines_def
  proof (intro allI impI)
    fix w x y
    assume a: "canonicalJson e (Number n) \<noteq> None" "canonicalJson e w \<noteq> None" "json_ok (Number n)" "json_ok w"
      "delimited x" "delimited y" "text_of e (Number n) @ x = text_of e w @ y"
    from same_first_char [OF a(1-4,7)] obtain m where w: "w = Number m" by (cases w) (auto split: if_splits)
    from a w obtain s t where s: "number_json n = Some s" "number_json m = Some t" by auto
    from delimited_span [of s t x y] number_json_chars [OF s(1)] number_json_chars [OF s(2)] a w s
    have "s = t" "x = y" by auto
    with number_json_inj [of n s m] s a(3,4) w show "canon e (Number n) = canon e w \<and> x = y" by simp
  qed
next
  case (Str s)
  show ?case unfolding determines_def
  proof (intro allI impI)
    fix w x y
    assume a: "canonicalJson e (Str s) \<noteq> None" "canonicalJson e w \<noteq> None" "json_ok (Str s)" "json_ok w"
      "text_of e (Str s) @ x = text_of e w @ y"
    from same_first_char [OF a] obtain t where "w = Str t" by (cases w) (auto split: if_splits)
    with a(5) json_element_inj [of "Some s" x "Some t" y] show "canon e (Str s) = canon e w \<and> x = y" by simp
  qed
next
  case (Arr vs)
  show ?case unfolding determines_def
  proof (intro allI impI)
    fix w x y
    assume a: "canonicalJson e (Arr vs) \<noteq> None" "canonicalJson e w \<noteq> None" "json_ok (Arr vs)" "json_ok w"
      "text_of e (Arr vs) @ x = text_of e w @ y"
    from same_first_char [OF a] obtain ws where w: "w = Arr ws" by (cases w) (auto split: if_splits)
    note V = Arr_text [OF a(1)] and W = Arr_text [OF a(2) [unfolded w]]
    have "comma_join (map (text_of e) vs) @ CHR '']'' # x = comma_join (map (text_of e) ws) @ CHR '']'' # y"
      using a(5) unfolding w V(1) W(1) by simp
    then have "map (canon e) vs = map (canon e) ws \<and> x = y"
      using Arr.IH V(2) W(2) a(3,4) by (intro determines_list) (auto simp: w list_all_iff)
    then show "canon e (Arr vs) = canon e w \<and> x = y" by (simp add: w canon_list_map)
  qed
next
  case (Obj ms)
  show ?case unfolding determines_def
  proof (intro allI impI)
    fix w x y
    assume a: "canonicalJson e (Obj ms) \<noteq> None" "canonicalJson e w \<noteq> None" "json_ok (Obj ms)" "json_ok w"
      "text_of e (Obj ms) @ x = text_of e w @ y"
    from same_first_char [OF a] obtain ns where w: "w = Obj ns" by (cases w) (auto split: if_splits)
    note V = Obj_text [OF a(1)] and W = Obj_text [OF a(2) [unfolded w]]
    have "comma_join (map (member_text \<circ> map_prod id (text_of e)) (js_sort (by_key e) (defined_members ms))) @ CHR ''}'' # x =
        comma_join (map (member_text \<circ> map_prod id (text_of e)) (js_sort (by_key e) (defined_members ns))) @ CHR ''}'' # y"
      using a(5) unfolding w V(1) W(1) by simp
    moreover have "determines e (snd kv)" if "kv \<in> set (defined_members ms)" for kv
    proof -
      have "kv \<in> set ms" using that by (simp add: defined_members_def)
      with Obj.IH [of kv "snd kv"] show ?thesis by (cases kv) simp
    qed
    moreover have "canonicalJson e (snd kv) \<noteq> None \<and> json_ok (snd kv)"
      if "kv \<in> set (defined_members ms) \<union> set (defined_members ns)" for kv
    proof
      show "canonicalJson e (snd kv) \<noteq> None" using that V(2) W(2) by blast
      show "json_ok (snd kv)" using that a(3,4) by (auto simp: w list_all_iff defined_members_def)
    qed
    ultimately have "map (map_prod id (canon e)) (js_sort (by_key e) (defined_members ms)) =
        map (map_prod id (canon e)) (js_sort (by_key e) (defined_members ns)) \<and> x = y"
      by (intro determines_members) auto
    then show "canon e (Obj ms) = canon e w \<and> x = y" by (simp add: w canon_members_map js_sort_members)
  qed
qed

text \<open>Two values have the same text exactly when they are the same up to order and undefined members.\<close>

lemma canonicalJson_inj:
  assumes "canonicalJson e v = Some s" "canonicalJson e w = Some s" "json_ok v" "json_ok w"
  shows "canon e v = canon e w"
  using canonical_determines [of e v] assms unfolding determines_def by (metis delimited.simps(1) option.distinct(1) option.sel)

end
