(* ===== verification/Bridge_Authorization.thy ===== *)
theory Bridge_Authorization
  imports Canonical_Json
begin

text \<open>
  The authorisation primitives of the tool bridge (\<^verbatim>\<open>packages/longhub-core/src/authorization.ts\<close>) and the
  check of the policies that reach it (\<^verbatim>\<open>parseBridgePolicy\<close> of
  \<^verbatim>\<open>apps/longhub-desktop/src/core-process.ts\<close>). \<open>None\<close> is a thrown error. Two texts of the source lie
  outside the modelled code units; they are the record \<open>bridge_texts\<close>, an argument of the display. The lemmas show
  which permissions a call gets, that a confirmation is bound to one call and one input, and the
  bounds of a budget.
\<close>

subsection \<open>Grants\<close>

record CoreBudget =
  cb_maxTokens :: js_number
  cb_maxCostCents :: js_number
  cb_maxDurationMs :: js_number

record BridgeConfirmationDescriptor =
  bd_action :: string
  bd_object :: string
  bd_recipientField :: "string option"
  bd_dataFields :: "(string \<times> string) list"
  bd_estimatedCostCents :: js_number

record BridgeSkillGrant =
  bg_skillId :: string
  bg_packId :: string
  bg_packVersion :: string
  bg_profileVersion :: string
  bg_requiredPermissions :: "string list"
  bg_profilePermissions :: "string list"
  bg_packPermissions :: "string list"
  bg_tenantPermissions :: "string list"
  bg_devicePermissions :: "string list"
  bg_budget :: CoreBudget
  bg_confirmation :: "BridgeConfirmationDescriptor option"

type_synonym BridgeExecutionPolicy = "(string, BridgeSkillGrant list) js_map"

record BridgeEntitlementStatus =
  es_active :: bool
  es_expiresAt :: "string option"

definition READ_ONLY_ACTIONS :: "string list" where
  "READ_ONLY_ACTIONS = [''read'', ''list'', ''get'', ''query'', ''search'']"

definition permissionRequiresConfirmation :: "string \<Rightarrow> bool" where
  "permissionRequiresConfirmation permission \<longleftrightarrow> last (split_on CHR '':'' permission) \<notin> set READ_ONLY_ACTIONS"

definition intersectBridgePermissions :: "js_env \<Rightarrow> BridgeSkillGrant \<Rightarrow> string list" where
  "intersectBridgePermissions e grant =
    js_sort (localeCompare e)
      (filter (\<lambda>p. p \<in> set (bg_profilePermissions grant) \<and> p \<in> set (bg_packPermissions grant) \<and>
          p \<in> set (bg_tenantPermissions grant) \<and> p \<in> set (bg_devicePermissions grant))
        (js_dedup (bg_requiredPermissions grant)))"

subsection \<open>Budgets\<close>

text \<open>\<^verbatim>\<open>Math.min\<close> of two numbers\<close>

definition math_min :: "js_env \<Rightarrow> js_number \<Rightarrow> js_number \<Rightarrow> js_number" where
  "math_min e a b = (if a = NaN \<or> b = NaN then NaN else if js_greater e a b then b else a)"

fun positive_safe :: "js_number \<Rightarrow> bool" where
  "positive_safe (IntNum i) = (0 < i \<and> i \<le> maxSafeInteger)"
| "positive_safe n = False"

definition clampBudget :: "js_env \<Rightarrow> CoreBudget option \<Rightarrow> CoreBudget \<Rightarrow> CoreBudget option" where
  "clampBudget e requested ceiling =
    (let source = (case requested of None \<Rightarrow> ceiling | Some b \<Rightarrow> b) in
     if positive_safe (cb_maxTokens source) \<and> positive_safe (cb_maxCostCents source) \<and> positive_safe (cb_maxDurationMs source)
     then Some \<lparr>cb_maxTokens = math_min e (cb_maxTokens source) (cb_maxTokens ceiling),
                cb_maxCostCents = math_min e (cb_maxCostCents source) (cb_maxCostCents ceiling),
                cb_maxDurationMs = math_min e (cb_maxDurationMs source) (cb_maxDurationMs ceiling)\<rparr>
     else None)"

subsection \<open>The display of a confirmation\<close>

record bridge_texts =
  bt_currentDevice :: string
  bt_colon :: string

record BridgeConfirmationDisplay =
  cd_action :: string
  cd_object :: string
  cd_recipient :: string
  cd_dataScope :: "string list"
  cd_estimatedCostCents :: int

definition is_control :: "char \<Rightarrow> bool" where
  "is_control c \<longleftrightarrow> (of_char c :: nat) < 32 \<or> (of_char c :: nat) = 127"

text \<open>\<^verbatim>\<open>String(value)\<close> of the types that can be shown.\<close>

fun shown :: "js_value \<Rightarrow> string option" where
  "shown (Str s) = Some s"
| "shown (Number n) = number_json n"
| "shown (Boolean b) = Some (if b then ''true'' else ''false'')"
| "shown _ = None"

definition displayText :: "js_value \<Rightarrow> string option" where
  "displayText value = do {
     s \<leftarrow> shown value;
     require (js_trim s \<noteq> [] \<and> length (js_trim s) \<le> 256 \<and> \<not> list_ex is_control (js_trim s));
     Some (js_trim s)
   }"

fun data_scope :: "bridge_texts \<Rightarrow> (string \<times> js_value) list \<Rightarrow> (string \<times> string) list \<Rightarrow> string list option" where
  "data_scope texts input [] = Some []"
| "data_scope texts input ((label, key) # others) = do {
     l \<leftarrow> displayText (Str label);
     v \<leftarrow> displayText (field input key);
     rest \<leftarrow> data_scope texts input others;
     Some ((l @ bt_colon texts @ v) # rest)
   }"

definition buildBridgeConfirmationDisplay ::
  "bridge_texts \<Rightarrow> BridgeConfirmationDescriptor \<Rightarrow> js_value \<Rightarrow> BridgeConfirmationDisplay option" where
  "buildBridgeConfirmationDisplay texts descriptor input = do {
     members \<leftarrow> object_members input;
     action \<leftarrow> displayText (Str (bd_action descriptor));
     object \<leftarrow> displayText (Str (bd_object descriptor));
     cost \<leftarrow> natural (bd_estimatedCostCents descriptor);
     require (cost \<le> 100000000 \<and> 1 \<le> length (bd_dataFields descriptor) \<and> length (bd_dataFields descriptor) \<le> 16);
     recipient \<leftarrow> (case truthy (bd_recipientField descriptor) of
       None \<Rightarrow> Some (bt_currentDevice texts) | Some key \<Rightarrow> displayText (field members key));
     scope \<leftarrow> data_scope texts members (bd_dataFields descriptor);
     Some \<lparr>cd_action = action, cd_object = object, cd_recipient = recipient, cd_dataScope = scope,
           cd_estimatedCostCents = cost\<rparr>
   }"

subsection \<open>Confirmations\<close>

text \<open>What a confirmation is bound to; a request adds an id and an expiry, a record the status.\<close>

record BridgeBinding =
  bb_skillId :: string
  bb_agentId :: string
  bb_profileVersion :: string
  bb_sessionId :: string
  bb_toolCallId :: string
  bb_permissions :: "string list"
  bb_payloadDigest :: string
  bb_display :: BridgeConfirmationDisplay

record BridgeConfirmationRequest =
  cf_confirmationId :: string
  cf_binding :: BridgeBinding
  cf_expiresAt :: string

datatype confirmation_status = Pending | Approved | Denied | Consumed

record BridgeConfirmationRecord = BridgeConfirmationRequest +
  cf_status :: confirmation_status

definition bridgePayloadDigest :: "js_env \<Rightarrow> string \<Rightarrow> js_value \<Rightarrow> string option" where
  "bridgePayloadDigest e skillId input =
    map_option (sha256 e) (canonicalJson e (Obj [(''skillId'', Str skillId), (''input'', input)]))"

definition display_value :: "BridgeConfirmationDisplay \<Rightarrow> js_value" where
  "display_value d = Obj
    [(''action'', Str (cd_action d)), (''object'', Str (cd_object d)), (''recipient'', Str (cd_recipient d)),
     (''dataScope'', Arr (map Str (cd_dataScope d))), (''estimatedCostCents'', Number (IntNum (cd_estimatedCostCents d)))]"

definition binding_value :: "BridgeBinding \<Rightarrow> js_value" where
  "binding_value b = Obj
    [(''agentId'', Str (bb_agentId b)), (''skillId'', Str (bb_skillId b)), (''profileVersion'', Str (bb_profileVersion b)),
     (''sessionId'', Str (bb_sessionId b)), (''toolCallId'', Str (bb_toolCallId b)),
     (''permissions'', Arr (map Str (js_sort code_unit_compare (bb_permissions b)))),
     (''payloadDigest'', Str (bb_payloadDigest b)), (''display'', display_value (bb_display b))]"

definition bridgeConfirmationBinding :: "js_env \<Rightarrow> BridgeBinding \<Rightarrow> string" where
  "bridgeConfirmationBinding e b = sha256 e (the (canonicalJson e (binding_value b)))"

definition createBridgeConfirmationRequest :: "js_env \<Rightarrow> BridgeBinding \<Rightarrow> int \<Rightarrow> int \<Rightarrow> BridgeConfirmationRecord option" where
  "createBridgeConfirmationRequest e binding nowMs ttlMs =
    map_option (\<lambda>expiresAt. \<lparr>cf_confirmationId = ''confirm-'' @ uuid e 0, cf_binding = binding, cf_expiresAt = expiresAt,
        cf_status = Pending\<rparr>)
      (iso_string (nowMs + ttlMs))"

subsection \<open>Parsing a confirmation request\<close>

definition exactObject :: "js_value \<Rightarrow> string list \<Rightarrow> (string \<times> js_value) list option" where
  "exactObject value keys = do {
     members \<leftarrow> object_members value;
     require (joined_keys (map fst members) = joined_keys keys);
     Some members
   }"

definition boundedText :: "js_value \<Rightarrow> nat \<Rightarrow> string option" where
  "boundedText value limit = do {
     s \<leftarrow> string_value value;
     require (1 \<le> length s \<and> length s \<le> limit \<and> js_trim s = s \<and> \<not> list_ex is_control s);
     Some s
   }"

definition is_hex_any :: "char \<Rightarrow> bool" where
  "is_hex_any c \<longleftrightarrow> is_hex c \<or> char_in CHR ''A'' CHR ''F'' c"

text \<open>The pattern of a confirmation id, which ignores the case of letters.\<close>

definition confirmation_id_ok :: "string \<Rightarrow> bool" where
  "confirmation_id_ok s \<longleftrightarrow>
    (case split_on CHR ''-'' s of
       [p, a, b, c, d, x] \<Rightarrow>
         map ascii_lower p = ''confirm'' \<and> length a = 8 \<and> length b = 4 \<and> length c = 4 \<and> length d = 4 \<and> length x = 12 \<and>
         list_all is_hex_any (a @ b @ c @ d @ x) \<and> char_in CHR ''1'' CHR ''8'' (hd c) \<and> hd d \<in> set ''89abAB''
     | _ \<Rightarrow> False)"

definition permission_ok :: "string \<Rightarrow> bool" where
  "permission_ok s \<longleftrightarrow>
    (case split_on CHR '':'' s of
       h # t \<Rightarrow> h \<noteq> [] \<and> is_lower (hd h) \<and> list_all (\<lambda>c. is_lower c \<or> is_digit c \<or> c = CHR ''-'') (tl h) \<and> t \<noteq> [] \<and>
         list_all (\<lambda>g. g \<noteq> [] \<and> list_all (\<lambda>c. is_lower c \<or> is_digit c \<or> c \<in> set ''_.-'') g) t
     | [] \<Rightarrow> False)"

text \<open>An array of strings, each accepted by \<open>P\<close>.\<close>

fun string_items :: "(string \<Rightarrow> bool) \<Rightarrow> js_value list \<Rightarrow> string list option" where
  "string_items P [] = Some []"
| "string_items P (v # vs) = (case v of Str s \<Rightarrow> if P s then map_option ((#) s) (string_items P vs) else None | _ \<Rightarrow> None)"

definition parse_display :: "js_value \<Rightarrow> BridgeConfirmationDisplay option" where
  "parse_display value = do {
     display \<leftarrow> exactObject value [''action'', ''object'', ''recipient'', ''dataScope'', ''estimatedCostCents''];
     items \<leftarrow> array_items (field display ''dataScope'');
     require (1 \<le> length items \<and> length items \<le> 16);
     scope \<leftarrow> string_items (\<lambda>s. length s \<le> 512 \<and> \<not> list_ex is_control s) items;
     n \<leftarrow> number_value (field display ''estimatedCostCents'');
     cost \<leftarrow> natural n;
     require (cost \<le> 100000000);
     action \<leftarrow> boundedText (field display ''action'') 256;
     object \<leftarrow> boundedText (field display ''object'') 256;
     recipient \<leftarrow> boundedText (field display ''recipient'') 256;
     Some \<lparr>cd_action = action, cd_object = object, cd_recipient = recipient, cd_dataScope = scope,
           cd_estimatedCostCents = cost\<rparr>
   }"

definition parseBridgeConfirmationRequest :: "js_env \<Rightarrow> js_value \<Rightarrow> BridgeConfirmationRequest option" where
  "parseBridgeConfirmationRequest e input = do {
     record \<leftarrow> exactObject input [''confirmationId'', ''skillId'', ''agentId'', ''profileVersion'', ''sessionId'',
       ''toolCallId'', ''permissions'', ''payloadDigest'', ''display'', ''expiresAt''];
     display \<leftarrow> parse_display (field record ''display'');
     confirmationId \<leftarrow> string_value (field record ''confirmationId'');
     require (confirmation_id_ok confirmationId);
     payloadDigest \<leftarrow> string_value (field record ''payloadDigest'');
     require (is_digest payloadDigest);
     items \<leftarrow> array_items (field record ''permissions'');
     require (1 \<le> length items \<and> length items \<le> 32);
     permissions \<leftarrow> string_items permission_ok items;
     require (distinct permissions);
     expiresAt \<leftarrow> string_value (field record ''expiresAt'');
     parsed \<leftarrow> date_parse e expiresAt;
     require (toISOString parsed = expiresAt);
     skillId \<leftarrow> boundedText (field record ''skillId'') 128;
     agentId \<leftarrow> boundedText (field record ''agentId'') 128;
     profileVersion \<leftarrow> boundedText (field record ''profileVersion'') 64;
     sessionId \<leftarrow> boundedText (field record ''sessionId'') 128;
     toolCallId \<leftarrow> boundedText (field record ''toolCallId'') 128;
     Some \<lparr>cf_confirmationId = confirmationId,
           cf_binding = \<lparr>bb_skillId = skillId, bb_agentId = agentId, bb_profileVersion = profileVersion,
             bb_sessionId = sessionId, bb_toolCallId = toolCallId, bb_permissions = permissions,
             bb_payloadDigest = payloadDigest, bb_display = display\<rparr>,
           cf_expiresAt = expiresAt\<rparr>
   }"

subsection \<open>The policies that reach the core\<close>

text \<open>\<^verbatim>\<open>isBudget\<close>\<close>

definition parse_budget :: "js_value \<Rightarrow> CoreBudget option" where
  "parse_budget value = do {
     budget \<leftarrow> exactObject value [''maxTokens'', ''maxCostCents'', ''maxDurationMs''];
     tokens \<leftarrow> number_value (field budget ''maxTokens'');
     cost \<leftarrow> number_value (field budget ''maxCostCents'');
     duration \<leftarrow> number_value (field budget ''maxDurationMs'');
     require (positive_safe tokens \<and> positive_safe cost \<and> positive_safe duration);
     Some \<lparr>cb_maxTokens = tokens, cb_maxCostCents = cost, cb_maxDurationMs = duration\<rparr>
   }"

definition nonempty_string :: "js_value \<Rightarrow> string option" where
  "nonempty_string value = do { s \<leftarrow> string_value value; require (s \<noteq> []); Some s }"

definition string_array :: "js_value \<Rightarrow> string list option" where
  "string_array value = do { items \<leftarrow> array_items value; string_items (\<lambda>_. True) items }"

definition GRANT_KEYS :: "string list" where
  "GRANT_KEYS = [''budget'', ''devicePermissions'', ''packId'', ''packPermissions'', ''packVersion'', ''profilePermissions'',
     ''profileVersion'', ''requiredPermissions'', ''skillId'', ''tenantPermissions'']"

definition parse_grant :: "js_value \<Rightarrow> BridgeSkillGrant option" where
  "parse_grant value = do {
     item \<leftarrow> exactObject value GRANT_KEYS;
     skillId \<leftarrow> nonempty_string (field item ''skillId'');
     packId \<leftarrow> nonempty_string (field item ''packId'');
     packVersion \<leftarrow> nonempty_string (field item ''packVersion'');
     profileVersion \<leftarrow> nonempty_string (field item ''profileVersion'');
     required \<leftarrow> string_array (field item ''requiredPermissions'');
     profile \<leftarrow> string_array (field item ''profilePermissions'');
     pack \<leftarrow> string_array (field item ''packPermissions'');
     tenant \<leftarrow> string_array (field item ''tenantPermissions'');
     device \<leftarrow> string_array (field item ''devicePermissions'');
     budget \<leftarrow> parse_budget (field item ''budget'');
     Some \<lparr>bg_skillId = skillId, bg_packId = packId, bg_packVersion = packVersion, bg_profileVersion = profileVersion,
           bg_requiredPermissions = required, bg_profilePermissions = profile, bg_packPermissions = pack,
           bg_tenantPermissions = tenant, bg_devicePermissions = device, bg_budget = budget, bg_confirmation = None\<rparr>
   }"

fun parse_grants :: "js_value list \<Rightarrow> BridgeSkillGrant list option" where
  "parse_grants [] = Some []"
| "parse_grants (v # vs) = do { g \<leftarrow> parse_grant v; gs \<leftarrow> parse_grants vs; Some (g # gs) }"

fun parse_agents :: "(string \<times> js_value) list \<Rightarrow> BridgeExecutionPolicy option" where
  "parse_agents [] = Some []"
| "parse_agents ((agentId, grants) # rest) = do {
     require (agentId \<noteq> []);
     items \<leftarrow> array_items grants;
     gs \<leftarrow> parse_grants items;
     agents \<leftarrow> parse_agents rest;
     Some ((agentId, gs) # agents)
   }"

definition parseBridgePolicy :: "js_value \<Rightarrow> BridgeExecutionPolicy option" where
  "parseBridgePolicy parsed = do { agents \<leftarrow> object_members parsed; parse_agents agents }"


subsection \<open>Permissions and budgets of a call\<close>

lemma set_intersect:
  "set (intersectBridgePermissions e grant) =
    {p \<in> set (bg_requiredPermissions grant). p \<in> set (bg_profilePermissions grant) \<and> p \<in> set (bg_packPermissions grant) \<and>
      p \<in> set (bg_tenantPermissions grant) \<and> p \<in> set (bg_devicePermissions grant)}"
  by (auto simp: intersectBridgePermissions_def)

lemma filter_all_length: "length (filter P xs) = length xs \<Longrightarrow> filter P xs = xs"
proof (induction xs)
  case (Cons x xs)
  have "length (filter P xs) \<noteq> Suc (length xs)" using length_filter_le [of P xs] by linarith
  with Cons show ?case by (cases "P x") auto
qed simp

lemma intersect_complete:
  assumes "length (intersectBridgePermissions e grant) = length (js_dedup (bg_requiredPermissions grant))"
  shows "set (intersectBridgePermissions e grant) = set (bg_requiredPermissions grant)"
proof -
  let ?P = "\<lambda>p. p \<in> set (bg_profilePermissions grant) \<and> p \<in> set (bg_packPermissions grant) \<and>
    p \<in> set (bg_tenantPermissions grant) \<and> p \<in> set (bg_devicePermissions grant)"
  have "length (filter ?P (js_dedup (bg_requiredPermissions grant))) = length (js_dedup (bg_requiredPermissions grant))"
    using assms by (simp add: intersectBridgePermissions_def)
  then have "filter ?P (js_dedup (bg_requiredPermissions grant)) = js_dedup (bg_requiredPermissions grant)"
    by (rule filter_all_length)
  then show ?thesis by (simp add: intersectBridgePermissions_def)
qed

text \<open>\<open>below b c\<close>: every bound of \<open>b\<close> is positive and at most that of \<open>c\<close>.\<close>

fun at_most :: "js_number \<Rightarrow> js_number \<Rightarrow> bool" where
  "at_most (IntNum a) (IntNum b) = (0 < a \<and> a \<le> b)"
| "at_most a b = False"

definition below :: "CoreBudget \<Rightarrow> CoreBudget \<Rightarrow> bool" where
  "below b c \<longleftrightarrow> at_most (cb_maxTokens b) (cb_maxTokens c) \<and> at_most (cb_maxCostCents b) (cb_maxCostCents c) \<and>
    at_most (cb_maxDurationMs b) (cb_maxDurationMs c)"

definition budget_ok :: "CoreBudget \<Rightarrow> bool" where
  "budget_ok b \<longleftrightarrow> positive_safe (cb_maxTokens b) \<and> positive_safe (cb_maxCostCents b) \<and> positive_safe (cb_maxDurationMs b)"

lemma math_min_at_most:
  "positive_safe a \<Longrightarrow> positive_safe b \<Longrightarrow> at_most (math_min e a b) a \<and> at_most (math_min e a b) b"
  by (cases a; cases b) (auto simp: math_min_def)

lemma clampBudget_below:
  assumes "clampBudget e requested ceiling = Some b" and "budget_ok ceiling"
  shows "below b ceiling \<and> (\<forall>r. requested = Some r \<longrightarrow> below b r)"
proof -
  define source where "source = (case requested of None \<Rightarrow> ceiling | Some r \<Rightarrow> r)"
  have "budget_ok source" and b: "b = \<lparr>cb_maxTokens = math_min e (cb_maxTokens source) (cb_maxTokens ceiling),
      cb_maxCostCents = math_min e (cb_maxCostCents source) (cb_maxCostCents ceiling),
      cb_maxDurationMs = math_min e (cb_maxDurationMs source) (cb_maxDurationMs ceiling)\<rparr>"
    using assms(1) by (simp_all add: clampBudget_def Let_def source_def [symmetric] budget_ok_def split: if_splits)
  with assms(2) have "below b source \<and> below b ceiling" by (simp add: below_def budget_ok_def math_min_at_most)
  then show ?thesis by (auto simp: source_def)
qed

lemma clampBudget_refused: "clampBudget e (Some b) ceiling = None \<longleftrightarrow> \<not> budget_ok b"
  by (simp add: clampBudget_def Let_def budget_ok_def)

subsection \<open>What a digest determines\<close>

lemma canonical_items_strings: "canonical_items e (map Str ss) = Some (map json_string ss)"
  by (induction ss) simp_all

lemma binding_text: "canonicalJson e (binding_value b) \<noteq> None"
  by (simp add: binding_value_def display_value_def canonical_items_strings)

lemma json_ok_strings: "list_all json_ok (map Str ss)"
  by (simp add: list_all_iff)

lemma binding_json_ok: "json_ok (binding_value b)"
  by (simp add: binding_value_def display_value_def json_ok_strings)

lemma canon_strings: "canon_list e (map Str ss) = map Str ss"
  by (induction ss) simp_all

text \<open>Members in another order are the same members.\<close>

lemma canon_Obj_set:
  assumes "canon e (Obj ms) = canon e (Obj ns)"
  shows "set (canon_members e ms) = set (canon_members e ns)"
proof -
  from assms have "js_sort (by_key e) (canon_members e ms) = js_sort (by_key e) (canon_members e ns)" by simp
  then have "set (js_sort (by_key e) (canon_members e ms)) = set (js_sort (by_key e) (canon_members e ns))" by (rule arg_cong)
  then show ?thesis by simp
qed

lemma js_sort_same_multiset: "js_sort cmp xs = js_sort cmp ys \<Longrightarrow> mset xs = mset ys"
  by (metis mset_js_sort)

lemma map_Str_inj: "map Str xs = map Str ys \<longleftrightarrow> xs = ys"
  by (simp add: inj_map_eq_map inj_def)

lemma display_value_inj:
  assumes "canon e (display_value a) = canon e (display_value b)"
  shows "a = b"
proof -
  have members: "\<And>kv. kv \<in> set (canon_members e
      [(''action'', Str (cd_action a)), (''object'', Str (cd_object a)), (''recipient'', Str (cd_recipient a)),
       (''dataScope'', Arr (map Str (cd_dataScope a))), (''estimatedCostCents'', Number (IntNum (cd_estimatedCostCents a)))]) \<Longrightarrow>
    kv \<in> set (canon_members e
      [(''action'', Str (cd_action b)), (''object'', Str (cd_object b)), (''recipient'', Str (cd_recipient b)),
       (''dataScope'', Arr (map Str (cd_dataScope b))), (''estimatedCostCents'', Number (IntNum (cd_estimatedCostCents b)))])"
    using canon_Obj_set [OF assms [unfolded display_value_def]] by blast
  have "cd_action a = cd_action b" "cd_object a = cd_object b" "cd_recipient a = cd_recipient b"
      "cd_dataScope a = cd_dataScope b" "cd_estimatedCostCents a = cd_estimatedCostCents b"
    using members [of "(''action'', Str (cd_action a))"] members [of "(''object'', Str (cd_object a))"]
      members [of "(''recipient'', Str (cd_recipient a))"] members [of "(''dataScope'', Arr (map Str (cd_dataScope a)))"]
      members [of "(''estimatedCostCents'', Number (IntNum (cd_estimatedCostCents a)))"]
    by (simp_all add: canon_strings map_Str_inj)
  then show ?thesis by simp
qed

text \<open>The same binding up to the order of the permissions.\<close>

definition same_binding :: "BridgeBinding \<Rightarrow> BridgeBinding \<Rightarrow> bool" where
  "same_binding a b \<longleftrightarrow> mset (bb_permissions a) = mset (bb_permissions b) \<and> a\<lparr>bb_permissions := []\<rparr> = b\<lparr>bb_permissions := []\<rparr>"

lemma binding_value_inj:
  assumes "canon e (binding_value a) = canon e (binding_value b)"
  shows "same_binding a b"
proof -
  let ?ms = "\<lambda>b. canon_members e
    [(''agentId'', Str (bb_agentId b)), (''skillId'', Str (bb_skillId b)), (''profileVersion'', Str (bb_profileVersion b)),
     (''sessionId'', Str (bb_sessionId b)), (''toolCallId'', Str (bb_toolCallId b)),
     (''permissions'', Arr (map Str (js_sort code_unit_compare (bb_permissions b)))),
     (''payloadDigest'', Str (bb_payloadDigest b)), (''display'', display_value (bb_display b))]"
  have members: "\<And>kv. kv \<in> set (?ms a) \<Longrightarrow> kv \<in> set (?ms b)"
    using canon_Obj_set [OF assms [unfolded binding_value_def]] by blast
  have "bb_agentId a = bb_agentId b" "bb_skillId a = bb_skillId b" "bb_profileVersion a = bb_profileVersion b"
      "bb_sessionId a = bb_sessionId b" "bb_toolCallId a = bb_toolCallId b" "bb_payloadDigest a = bb_payloadDigest b"
      "js_sort code_unit_compare (bb_permissions a) = js_sort code_unit_compare (bb_permissions b)"
      "canon e (display_value (bb_display a)) = canon e (display_value (bb_display b))"
    using members [of "(''agentId'', Str (bb_agentId a))"] members [of "(''skillId'', Str (bb_skillId a))"]
      members [of "(''profileVersion'', Str (bb_profileVersion a))"] members [of "(''sessionId'', Str (bb_sessionId a))"]
      members [of "(''toolCallId'', Str (bb_toolCallId a))"] members [of "(''payloadDigest'', Str (bb_payloadDigest a))"]
      members [of "(''permissions'', Arr (map Str (js_sort code_unit_compare (bb_permissions a))))"]
      members [of "(''display'', canon e (display_value (bb_display a)))"]
    by (simp_all add: canon_strings map_Str_inj display_value_def del: canon.simps(2))
  with display_value_inj js_sort_same_multiset show ?thesis by (auto simp: same_binding_def)
qed


lemma same_binding_digest: "same_binding a b \<Longrightarrow> bridgeConfirmationBinding e a = bridgeConfirmationBinding e b"
proof -
  assume same: "same_binding a b"
  then have "bb_skillId a = bb_skillId b" "bb_agentId a = bb_agentId b" "bb_profileVersion a = bb_profileVersion b"
      "bb_sessionId a = bb_sessionId b" "bb_toolCallId a = bb_toolCallId b" "bb_payloadDigest a = bb_payloadDigest b"
      "bb_display a = bb_display b"
    by (cases a; cases b; simp add: same_binding_def)+
  moreover have "js_sort code_unit_compare (bb_permissions a) = js_sort code_unit_compare (bb_permissions b)"
    using same by (intro sort_code_units) (simp add: same_binding_def)
  ultimately show ?thesis by (simp add: bridgeConfirmationBinding_def binding_value_def)
qed

lemma digest_same_binding:
  assumes "inj (sha256 e)" and "bridgeConfirmationBinding e a = bridgeConfirmationBinding e b"
  shows "same_binding a b"
proof -
  have "the (canonicalJson e (binding_value a)) = the (canonicalJson e (binding_value b))"
    using assms(2) injD [OF assms(1)] unfolding bridgeConfirmationBinding_def by blast
  then obtain s where "canonicalJson e (binding_value a) = Some s" "canonicalJson e (binding_value b) = Some s"
    using binding_text [of e a] binding_text [of e b] by (metis option.collapse)
  then show ?thesis using canonicalJson_inj binding_json_ok binding_value_inj by blast
qed

lemma payload_digest_inj:
  assumes "inj (sha256 e)" "bridgePayloadDigest e k i = Some d" "bridgePayloadDigest e k' i' = Some d" "json_ok i" "json_ok i'"
  shows "k' = k \<and> canon e i' = canon e i"
proof -
  let ?v = "\<lambda>k i. Obj [(''skillId'', Str k), (''input'', i)]"
  from assms(2) obtain s where s: "canonicalJson e (?v k i) = Some s" "sha256 e s = d"
    by (auto simp only: bridgePayloadDigest_def map_option_eq_Some)
  from assms(3) obtain t where t: "canonicalJson e (?v k' i') = Some t" "sha256 e t = d"
    by (auto simp only: bridgePayloadDigest_def map_option_eq_Some)
  have "s = t" using s(2) t(2) injD [OF assms(1)] by blast
  with s(1) t(1) have "canonicalJson e (?v k i) = Some s" "canonicalJson e (?v k' i') = Some s" by blast+
  then have "canon e (?v k i) = canon e (?v k' i')"
    using assms(4,5) by (intro canonicalJson_inj) auto
  note members = canon_Obj_set [OF this]
  have "(''skillId'', Str k) \<in> set (canon_members e [(''skillId'', Str k'), (''input'', i')])"
    unfolding members [symmetric] by simp
  then have k: "k' = k" by (simp split: if_splits)
  have "(''input'', canon e i) \<in> set (canon_members e [(''skillId'', Str k'), (''input'', i')])" if "i \<noteq> Undefined"
    unfolding members [symmetric] using that by simp
  then have i: "i \<noteq> Undefined \<Longrightarrow> canon e i' = canon e i" by (simp split: if_splits)
  have "(''input'', canon e i') \<in> set (canon_members e [(''skillId'', Str k), (''input'', i)])" if "i' \<noteq> Undefined"
    unfolding members using that by simp
  then have "i' \<noteq> Undefined \<Longrightarrow> i \<noteq> Undefined" by (simp split: if_splits)
  with k i show ?thesis by (cases "i = Undefined"; cases "i' = Undefined") auto
qed

section \<open>Properties\<close>

text \<open>
  C35: A confirmation is bound to one call and one input. If the digest does not collide, two bindings have the same digest
  exactly when they agree on agent, Skill, profile version, session, tool call, payload digest and the
  text shown to the user, and on the permissions up to their order; and two payloads have the same digest only if they are the same Skill's
  and the same input, up to the order of object members and undefined members.
\<close>

theorem confirmation_binding_exact:
  assumes "inj (sha256 e)" and "bridgePayloadDigest e k i = Some d" and "json_ok i"
  shows "(bridgeConfirmationBinding e a = bridgeConfirmationBinding e b \<longleftrightarrow> same_binding a b) \<and>
    (\<forall>k' i'. json_ok i' \<longrightarrow> bridgePayloadDigest e k' i' = Some d \<longrightarrow> k' = k \<and> canon e i' = canon e i)"
  using same_binding_digest digest_same_binding [OF assms(1)] payload_digest_inj [OF assms(1,2)] assms(3) by blast

text \<open>
  A policy that passes the check of the core process carries no confirmation descriptor: the member \<^verbatim>\<open>confirmation\<close>
  is not among the keys the check allows.
\<close>

lemma parsed_policy_unconfirmed:
  assumes "parseBridgePolicy v = Some policy" and "map_get policy agentId = Some grants" and "grant \<in> set grants"
  shows "bg_confirmation grant = None"
proof -
  have grant: "bg_confirmation g = None" if "parse_grant v = Some g" for v g
    using that by (auto simp: parse_grant_def bind_eq_Some_conv)
  have grants: "list_all (\<lambda>g. bg_confirmation g = None) gs" if "parse_grants vs = Some gs" for vs gs
    using that grant by (induction vs arbitrary: gs) (auto simp: bind_eq_Some_conv)
  have "list_all (\<lambda>a. list_all (\<lambda>g. bg_confirmation g = None) (snd a)) policy" if "parse_agents vs = Some policy" for vs policy
    using that grants by (induction vs arbitrary: policy) (auto simp: bind_eq_Some_conv)
  with assms show ?thesis
    by (auto simp: parseBridgePolicy_def bind_eq_Some_conv list_all_iff dest!: map_of_SomeD)
qed


subsection \<open>A sample grant\<close>

definition sample_display :: BridgeConfirmationDisplay where
  "sample_display = \<lparr>cd_action = ''offer'', cd_object = ''letter'', cd_recipient = ''Ann'', cd_dataScope = [''role: dev''],
     cd_estimatedCostCents = 0\<rparr>"

definition sample_binding :: BridgeBinding where
  "sample_binding = \<lparr>bb_skillId = ''offer'', bb_agentId = ''hr'', bb_profileVersion = ''1'', bb_sessionId = ''s1'',
     bb_toolCallId = ''c1'', bb_permissions = [''hr:write''], bb_payloadDigest = ''d'', bb_display = sample_display\<rparr>"

lemma sample_sha256_inj: "inj (sha256 sample_env)"
  by (simp add: sample_env_def inj_def)

theorem confirmation_binding_exact_witness:
  "bridgePayloadDigest sample_env ''offer'' Null \<noteq> None \<and>
    bridgePayloadDigest sample_env ''offer'' (Boolean True) \<noteq> bridgePayloadDigest sample_env ''offer'' Null \<and>
    bridgeConfirmationBinding sample_env (sample_binding\<lparr>bb_agentId := ''it''\<rparr>) \<noteq>
      bridgeConfirmationBinding sample_env sample_binding"
proof -
  obtain d where d: "bridgePayloadDigest sample_env ''offer'' Null = Some d"
    by (simp add: bridgePayloadDigest_def)
  have ok: "json_ok Null" by simp
  note exact = confirmation_binding_exact [OF sample_sha256_inj d ok, of "sample_binding\<lparr>bb_agentId := ''it''\<rparr>" sample_binding]
  have "\<not> same_binding (sample_binding\<lparr>bb_agentId := ''it''\<rparr>) sample_binding"
    by (simp add: same_binding_def sample_binding_def)
  moreover have "bridgePayloadDigest sample_env ''offer'' (Boolean True) \<noteq> Some d"
  proof
    assume "bridgePayloadDigest sample_env ''offer'' (Boolean True) = Some d"
    moreover have "json_ok (Boolean True)" by simp
    ultimately have "canon sample_env (Boolean True) = canon sample_env Null" using exact by blast
    then show False by simp
  qed
  ultimately show ?thesis using exact d by simp
qed

end
