(* ===== verification/Core_Runtime.thy ===== *)
theory Core_Runtime
  imports Bridge_Authorization
begin

text \<open>
  The core runtime (\<^verbatim>\<open>packages/longhub-core/src/runtime.ts\<close>): tasks and the tool bridge. An asynchronous method is
  one definition up to the point where it waits and one from there: \<open>submitTask\<close> and \<open>finish_run\<close> around the
  executor, \<open>begin_bridge\<close> and \<open>finish_bridge\<close> around the entitlement verifier; whatever happens in between is other
  steps. The answers of the executor and of the verifier are arguments. What the callbacks and the executor are handed
  is kept in the state: \<open>co_events\<close>, \<open>co_requests\<close>, \<open>co_calls\<close>. The lemmas show that a Skill with write permissions runs only on the user's
  consent to exactly this call, each consent once, and with which permissions and budget a Skill runs.
\<close>

subsection \<open>Tasks\<close>

datatype CoreTaskStatus = Task_pending | Task_running | Task_succeeded | Task_failed | Task_cancelled | Task_timed_out

record CoreTaskRecord =
  ct_taskId :: string
  ct_kind :: string
  ct_status :: CoreTaskStatus
  ct_input :: js_value
  ct_output :: "js_value option"
  ct_error :: "string option"
  ct_createdAt :: string
  ct_updatedAt :: string

record CoreTaskEvent =
  cv_event_id :: string
  cv_task_id :: string
  cv_type :: string
  cv_ts :: string
  cv_error :: "string option"

record executor_call =
  xc_skillId :: string
  xc_input :: js_value
  xc_permissions :: "string list"
  xc_budget :: CoreBudget

record CoreRuntimeOptions =
  op_defaultBudget :: "CoreBudget option"
  op_verifier :: bool
  op_texts :: bridge_texts

record core =
  co_tasks :: "(string, CoreTaskRecord) js_map"
  co_idempotency :: "(string, string) js_map"
  co_eventSeq :: nat
  co_taskSeq :: nat
  co_confirmations :: "(string, BridgeConfirmationRecord) js_map"
  co_bindings :: "(string, string) js_map"
  co_policy :: BridgeExecutionPolicy
  co_events :: "CoreTaskEvent list"
  co_requests :: "BridgeConfirmationRequest list"
  co_calls :: "executor_call list"

datatype core_error =
    BRIDGE_FORBIDDEN
  | BRIDGE_CONFIRMATION_REQUIRED BridgeConfirmationRequest
  | CORE_FAILURE

definition DEFAULT_BUDGET :: CoreBudget where
  "DEFAULT_BUDGET = \<lparr>cb_maxTokens = IntNum 100000, cb_maxCostCents = IntNum 100, cb_maxDurationMs = IntNum 60000\<rparr>"

definition budget_ceiling :: "CoreRuntimeOptions \<Rightarrow> CoreBudget" where
  "budget_ceiling opts = (case op_defaultBudget opts of None \<Rightarrow> DEFAULT_BUDGET | Some b \<Rightarrow> b)"

definition new_core :: "BridgeExecutionPolicy option \<Rightarrow> core" where
  "new_core policy =
    \<lparr>co_tasks = [], co_idempotency = [], co_eventSeq = 0, co_taskSeq = 0, co_confirmations = [], co_bindings = [],
     co_policy = (case policy of None \<Rightarrow> [] | Some p \<Rightarrow> p), co_events = [], co_requests = [], co_calls = []\<rparr>"

definition emit :: "string \<Rightarrow> string \<Rightarrow> string option \<Rightarrow> string \<Rightarrow> core \<Rightarrow> core" where
  "emit taskId type err ts s =
    s\<lparr>co_eventSeq := co_eventSeq s + 1,
      co_events := co_events s @ [\<lparr>cv_event_id = show_nat (co_eventSeq s + 1), cv_task_id = taskId, cv_type = type,
        cv_ts = ts, cv_error = err\<rparr>]\<rparr>"

fun status_event :: "CoreTaskStatus \<Rightarrow> string" where
  "status_event Task_pending = ''task.pending''"
| "status_event Task_running = ''task.started''"
| "status_event Task_succeeded = ''task.succeeded''"
| "status_event Task_failed = ''task.failed''"
| "status_event Task_cancelled = ''task.cancelled''"
| "status_event Task_timed_out = ''task.timed_out''"

text \<open>\<open>i\<close> is the number of clock readings the call has made before.\<close>

definition transition :: "js_env \<Rightarrow> nat \<Rightarrow> CoreTaskRecord \<Rightarrow> CoreTaskStatus \<Rightarrow> core \<Rightarrow> core" where
  "transition e i task status s =
    emit (ct_taskId task) (status_event status) (ct_error task) (now_iso e (i + 1))
      (s\<lparr>co_tasks := map_set (ct_taskId task) (task\<lparr>ct_status := status, ct_updatedAt := now_iso e i\<rparr>) (co_tasks s)\<rparr>)"

record submit_params =
  sp_idempotencyKey :: string
  sp_skillId :: string
  sp_input :: js_value
  sp_budget :: "CoreBudget option"

definition mustGet :: "string \<Rightarrow> core \<Rightarrow> core_error + CoreTaskRecord" where
  "mustGet taskId s = (case map_get (co_tasks s) taskId of None \<Rightarrow> Inl CORE_FAILURE | Some t \<Rightarrow> Inr t)"

text \<open>
  \<open>run\<close> up to the wait for the executor. A budget that is refused rejects the promise of \<^verbatim>\<open>run\<close>, which
  nobody awaits: the task stays as it is.
\<close>

definition start_run :: "js_env \<Rightarrow> CoreRuntimeOptions \<Rightarrow> nat \<Rightarrow> CoreTaskRecord \<Rightarrow> submit_params \<Rightarrow> core \<Rightarrow> core" where
  "start_run e opts i task p s =
    (let s1 = transition e i task Task_running s in
     case clampBudget e (sp_budget p) (budget_ceiling opts) of
       None \<Rightarrow> s1
     | Some budget \<Rightarrow> s1\<lparr>co_calls := co_calls s1 @
         [\<lparr>xc_skillId = sp_skillId p, xc_input = sp_input p, xc_permissions = [], xc_budget = budget\<rparr>]\<rparr>)"

definition submitTask :: "js_env \<Rightarrow> CoreRuntimeOptions \<Rightarrow> submit_params \<Rightarrow> core \<Rightarrow> core \<times> (core_error + CoreTaskRecord)" where
  "submitTask e opts p s =
    (case map_get (co_idempotency s) (sp_idempotencyKey p) of
       Some existingId \<Rightarrow> (s, mustGet existingId s)
     | None \<Rightarrow>
         let task = \<lparr>ct_taskId = ''task-'' @ show_nat (co_taskSeq s + 1), ct_kind = ''skill.execute'', ct_status = Task_pending,
                      ct_input = sp_input p, ct_output = None, ct_error = None, ct_createdAt = now_iso e 0,
                      ct_updatedAt = now_iso e 0\<rparr>;
             s1 = s\<lparr>co_taskSeq := co_taskSeq s + 1, co_tasks := map_set (ct_taskId task) task (co_tasks s),
                    co_idempotency := map_set (sp_idempotencyKey p) (ct_taskId task) (co_idempotency s)\<rparr>;
             s2 = start_run e opts 2 task p (emit (ct_taskId task) ''task.accepted'' None (now_iso e 1) s1)
         in (s2, mustGet (ct_taskId task) s2))"

text \<open>\<open>run\<close> after the executor answered: the output, or the message of the error.\<close>

definition finish_run :: "js_env \<Rightarrow> string \<Rightarrow> string + js_value \<Rightarrow> core \<Rightarrow> core" where
  "finish_run e taskId answer s =
    (case map_get (co_tasks s) taskId of
       None \<Rightarrow> s
     | Some task \<Rightarrow>
         if ct_status task = Task_cancelled then s
         else (case answer of
             Inr out \<Rightarrow> transition e 0 (task\<lparr>ct_output := Some out\<rparr>) Task_succeeded s
           | Inl message \<Rightarrow> transition e 0 (task\<lparr>ct_error := Some message\<rparr>) Task_failed s))"

definition getTask :: "string \<Rightarrow> core \<Rightarrow> CoreTaskRecord option" where
  "getTask taskId s = map_get (co_tasks s) taskId"

definition cancelTask :: "js_env \<Rightarrow> string \<Rightarrow> core \<Rightarrow> core \<times> (core_error + CoreTaskRecord)" where
  "cancelTask e taskId s =
    (case mustGet taskId s of
       Inl err \<Rightarrow> (s, Inl err)
     | Inr task \<Rightarrow>
         let s1 = (if ct_status task = Task_pending \<or> ct_status task = Task_running
                   then transition e 0 task Task_cancelled s else s)
         in (s1, mustGet taskId s1))"

subsection \<open>The tool bridge\<close>

text \<open>The answer is the agents of the policy in the order of their names.\<close>

definition replaceBridgePolicy :: "BridgeExecutionPolicy \<Rightarrow> core \<Rightarrow> core \<times> string list" where
  "replaceBridgePolicy policy s =
    (s\<lparr>co_policy := policy, co_confirmations := [], co_bindings := []\<rparr>, js_sort code_unit_compare (map_keys policy))"

record BridgeToolContext =
  bc_agentId :: string
  bc_sessionKey :: string
  bc_sessionId :: string
  bc_toolCallId :: string

record bridge_params =
  bp_skillId :: string
  bp_input :: js_value
  bp_context :: BridgeToolContext

text \<open>
  A policy is a plain object: an agent id it does not hold, but its prototype does, reads as a value without \<^verbatim>\<open>find\<close>,
  whose call throws.
\<close>

definition OBJECT_PROTOTYPE :: "string list" where
  "OBJECT_PROTOTYPE = [''constructor'', ''hasOwnProperty'', ''isPrototypeOf'', ''propertyIsEnumerable'', ''toLocaleString'',
     ''toString'', ''valueOf'', ''__proto__'', ''__defineGetter__'', ''__defineSetter__'', ''__lookupGetter__'',
     ''__lookupSetter__'']"

definition begin_bridge :: "CoreRuntimeOptions \<Rightarrow> bridge_params \<Rightarrow> core \<Rightarrow> core_error + BridgeSkillGrant" where
  "begin_bridge opts p s =
    (let c = bp_context p in
     if bc_agentId c = [] \<or> bc_sessionKey c = [] \<or> bc_sessionId c = [] \<or> bc_toolCallId c = [] then Inl BRIDGE_FORBIDDEN
     else case map_get (co_policy s) (bc_agentId c) of
       None \<Rightarrow> Inl (if bc_agentId c \<in> set OBJECT_PROTOTYPE then CORE_FAILURE else BRIDGE_FORBIDDEN)
     | Some grants \<Rightarrow>
         (case List.find (\<lambda>g. bg_skillId g = bp_skillId p) grants of
            None \<Rightarrow> Inl BRIDGE_FORBIDDEN
          | Some grant \<Rightarrow> if op_verifier opts then Inr grant else Inl BRIDGE_FORBIDDEN))"

text \<open>A \<^verbatim>\<open>Date.parse\<close> that is not a number makes every comparison false.\<close>

definition expires_after :: "js_env \<Rightarrow> string \<Rightarrow> int \<Rightarrow> bool" where
  "expires_after e expiresAt now = (case date_parse e expiresAt of None \<Rightarrow> False | Some t \<Rightarrow> now < t)"

definition expired_at :: "js_env \<Rightarrow> string \<Rightarrow> int \<Rightarrow> bool" where
  "expired_at e expiresAt now = (case date_parse e expiresAt of None \<Rightarrow> False | Some t \<Rightarrow> t \<le> now)"

definition entitlement_ok :: "js_env \<Rightarrow> BridgeEntitlementStatus \<Rightarrow> int \<Rightarrow> bool" where
  "entitlement_ok e status now \<longleftrightarrow> es_active status \<and>
    (case es_expiresAt status of None \<Rightarrow> False | Some x \<Rightarrow> expires_after e x now)"

definition drop_confirmation :: "js_env \<Rightarrow> BridgeConfirmationRecord \<Rightarrow> core \<Rightarrow> core" where
  "drop_confirmation e r s =
    s\<lparr>co_confirmations := map_delete (cf_confirmationId r) (co_confirmations s),
      co_bindings := map_delete (bridgeConfirmationBinding e (cf_binding r)) (co_bindings s)\<rparr>"

definition pruneConfirmations :: "js_env \<Rightarrow> int \<Rightarrow> core \<Rightarrow> core" where
  "pruneConfirmations e now s =
    fold (drop_confirmation e)
      (filter (\<lambda>r. \<not> (cf_status r \<noteq> Consumed \<and> expires_after e (cf_expiresAt r) now)) (map_values (co_confirmations s))) s"

definition plain_request :: "BridgeConfirmationRecord \<Rightarrow> BridgeConfirmationRequest" where
  "plain_request r = \<lparr>cf_confirmationId = cf_confirmationId r, cf_binding = cf_binding r, cf_expiresAt = cf_expiresAt r\<rparr>"

text \<open>The confirmation of a binding that is still valid; an expired one is removed.\<close>

definition current_confirmation :: "js_env \<Rightarrow> BridgeBinding \<Rightarrow> int \<Rightarrow> core \<Rightarrow> core \<times> BridgeConfirmationRecord option" where
  "current_confirmation e b now s =
    (let digest = bridgeConfirmationBinding e b in
     case truthy (map_get (co_bindings s) digest) of
       None \<Rightarrow> (s, None)
     | Some existingId \<Rightarrow>
         (case map_get (co_confirmations s) existingId of
            None \<Rightarrow> (s, None)
          | Some r \<Rightarrow>
              if expired_at e (cf_expiresAt r) now
              then (s\<lparr>co_confirmations := map_delete (cf_confirmationId r) (co_confirmations s),
                      co_bindings := map_delete digest (co_bindings s)\<rparr>, None)
              else (s, Some r)))"

definition CONFIRMATION_TTL_MS :: int where "CONFIRMATION_TTL_MS = 5 * 60000"

text \<open>The confirmation to ask for: the current one, or a new one that the user is shown.\<close>

definition obtain_confirmation :: "js_env \<Rightarrow> BridgeBinding \<Rightarrow> int \<Rightarrow> core \<Rightarrow> core \<times> BridgeConfirmationRecord option" where
  "obtain_confirmation e b now s =
    (case current_confirmation e b now s of
       (s1, Some r) \<Rightarrow> (s1, Some r)
     | (s1, None) \<Rightarrow>
         (case createBridgeConfirmationRequest e b now CONFIRMATION_TTL_MS of
            None \<Rightarrow> (s1, None)
          | Some r \<Rightarrow>
              (s1\<lparr>co_confirmations := map_set (cf_confirmationId r) r (co_confirmations s1),
                  co_bindings := map_set (bridgeConfirmationBinding e b) (cf_confirmationId r) (co_bindings s1),
                  co_requests := co_requests s1 @ [plain_request r]\<rparr>, Some r)))"

definition consume_confirmation :: "js_env \<Rightarrow> BridgeBinding \<Rightarrow> int \<Rightarrow> core \<Rightarrow> core \<times> (core_error + string)" where
  "consume_confirmation e b now s =
    (case obtain_confirmation e b now s of
       (s1, None) \<Rightarrow> (s1, Inl CORE_FAILURE)
     | (s1, Some r) \<Rightarrow>
         if cf_status r = Denied then (s1, Inl BRIDGE_FORBIDDEN)
         else if cf_status r \<noteq> Approved then (s1, Inl (BRIDGE_CONFIRMATION_REQUIRED (plain_request r)))
         else (s1\<lparr>co_bindings := map_delete (bridgeConfirmationBinding e b) (co_bindings s1),
                  co_confirmations := map_delete (cf_confirmationId r) (co_confirmations s1)\<rparr>,
               Inr (cf_confirmationId r)))"

definition sensitive_permissions :: "js_env \<Rightarrow> BridgeSkillGrant \<Rightarrow> string list" where
  "sensitive_permissions e grant = filter permissionRequiresConfirmation (intersectBridgePermissions e grant)"

definition call_binding ::
  "js_env \<Rightarrow> bridge_params \<Rightarrow> BridgeSkillGrant \<Rightarrow> string \<Rightarrow> BridgeConfirmationDisplay \<Rightarrow> BridgeBinding" where
  "call_binding e p grant digest display =
    \<lparr>bb_skillId = bp_skillId p, bb_agentId = bc_agentId (bp_context p), bb_profileVersion = bg_profileVersion grant,
     bb_sessionId = bc_sessionId (bp_context p), bb_toolCallId = bc_toolCallId (bp_context p),
     bb_permissions = sensitive_permissions e grant, bb_payloadDigest = digest, bb_display = display\<rparr>"

text \<open>The consent to a call with sensitive permissions: the confirmation it used up, with what that was bound to.\<close>

definition require_consent ::
  "js_env \<Rightarrow> CoreRuntimeOptions \<Rightarrow> bridge_params \<Rightarrow> BridgeSkillGrant \<Rightarrow> int \<Rightarrow> core \<Rightarrow>
    core \<times> (core_error + string \<times> BridgeBinding)" where
  "require_consent e opts p grant now s =
    (let s1 = pruneConfirmations e now s in
     case bg_confirmation grant of
       None \<Rightarrow> (s1, Inl BRIDGE_FORBIDDEN)
     | Some descriptor \<Rightarrow>
         (case buildBridgeConfirmationDisplay (op_texts opts) descriptor (bp_input p) of
            None \<Rightarrow> (s1, Inl BRIDGE_FORBIDDEN)
          | Some display \<Rightarrow>
              (case bridgePayloadDigest e (bp_skillId p) (bp_input p) of
                 None \<Rightarrow> (s1, Inl CORE_FAILURE)
               | Some digest \<Rightarrow>
                   (case consume_confirmation e (call_binding e p grant digest display) now s1 of
                      (s2, Inl err) \<Rightarrow> (s2, Inl err)
                    | (s2, Inr i) \<Rightarrow> (s2, Inr (i, call_binding e p grant digest display))))))"

text \<open>
  The rest of \<open>executeBridgeSkill\<close> once the verifier answered (\<open>None\<close> for a rejection), up to the call of the
  executor, whose answer is the result. The result here is the call and the consent it used, if it needed one.
\<close>

type_synonym bridge_result = "core_error + executor_call \<times> (string \<times> BridgeBinding) option"

definition bridge_call ::
  "js_env \<Rightarrow> CoreRuntimeOptions \<Rightarrow> bridge_params \<Rightarrow> BridgeSkillGrant \<Rightarrow> (string \<times> BridgeBinding) option \<Rightarrow>
    core \<Rightarrow> core \<times> bridge_result" where
  "bridge_call e opts p grant consent s =
    (case clampBudget e (Some (bg_budget grant)) (budget_ceiling opts) of
       None \<Rightarrow> (s, Inl CORE_FAILURE)
     | Some budget \<Rightarrow>
         let call = \<lparr>xc_skillId = bp_skillId p, xc_input = bp_input p,
                     xc_permissions = intersectBridgePermissions e grant, xc_budget = budget\<rparr>
         in (s\<lparr>co_calls := co_calls s @ [call]\<rparr>, Inr (call, consent)))"

definition finish_bridge ::
  "js_env \<Rightarrow> CoreRuntimeOptions \<Rightarrow> bridge_params \<Rightarrow> BridgeSkillGrant \<Rightarrow> BridgeEntitlementStatus option \<Rightarrow>
    core \<Rightarrow> core \<times> bridge_result" where
  "finish_bridge e opts p grant answer s =
    (case answer of
       None \<Rightarrow> (s, Inl BRIDGE_FORBIDDEN)
     | Some status \<Rightarrow>
         if \<not> entitlement_ok e status (clock e 0) then (s, Inl BRIDGE_FORBIDDEN)
         else if length (intersectBridgePermissions e grant) \<noteq> length (js_dedup (bg_requiredPermissions grant))
         then (s, Inl BRIDGE_FORBIDDEN)
         else if sensitive_permissions e grant = [] then bridge_call e opts p grant None s
         else (case require_consent e opts p grant (clock e 0) s of
             (s1, Inl err) \<Rightarrow> (s1, Inl err)
           | (s1, Inr consent) \<Rightarrow> bridge_call e opts p grant (Some consent) s1))"

definition respondBridgeConfirmation :: "js_env \<Rightarrow> string \<Rightarrow> bool \<Rightarrow> core \<Rightarrow> core \<times> (core_error + BridgeConfirmationRecord)" where
  "respondBridgeConfirmation e confirmationId approved s =
    (case map_get (co_confirmations s) confirmationId of
       None \<Rightarrow> (s, Inl BRIDGE_FORBIDDEN)
     | Some r \<Rightarrow>
         if cf_status r \<noteq> Pending \<or> expired_at e (cf_expiresAt r) (clock e 0) then (s, Inl BRIDGE_FORBIDDEN)
         else let r' = r\<lparr>cf_status := if approved then Approved else Denied\<rparr>
           in (s\<lparr>co_confirmations := map_set confirmationId r' (co_confirmations s)\<rparr>, Inr r'))"


subsection \<open>What the operations leave alone\<close>

definition confirmation_state :: "core \<Rightarrow> (string, BridgeConfirmationRecord) js_map \<times> (string, string) js_map \<times>
    BridgeConfirmationRequest list" where
  "confirmation_state s = (co_confirmations s, co_bindings s, co_requests s)"

lemma transition_confirmations [simp]:
  "co_confirmations (transition e i t st s) = co_confirmations s" "co_bindings (transition e i t st s) = co_bindings s"
  "co_requests (transition e i t st s) = co_requests s"
  by (simp_all add: transition_def emit_def)

lemma emit_confirmations [simp]:
  "co_confirmations (emit i t err ts s) = co_confirmations s" "co_bindings (emit i t err ts s) = co_bindings s"
  "co_requests (emit i t err ts s) = co_requests s"
  by (simp_all add: emit_def)

lemma start_run_confirmations [simp]:
  "co_confirmations (start_run e opts i t p s) = co_confirmations s" "co_bindings (start_run e opts i t p s) = co_bindings s"
  "co_requests (start_run e opts i t p s) = co_requests s"
  by (simp_all add: start_run_def Let_def split: option.split)

lemma task_operations_confirmations:
  "confirmation_state (fst (submitTask e opts sp s)) = confirmation_state s"
  "confirmation_state (finish_run e i answer s) = confirmation_state s"
  "confirmation_state (fst (cancelTask e i s)) = confirmation_state s"
  by (auto simp: confirmation_state_def submitTask_def finish_run_def cancelTask_def Let_def split: option.split sum.split)

subsection \<open>The step system\<close>

datatype bridge_event =
    Consented string BridgeBinding
  | Policy_replaced
  | Ran bridge_params executor_call "(string \<times> BridgeBinding) option"

text \<open>The core, the calls waiting for the verifier with the grant they found, and the events so far, the latest first.\<close>

record bridge_run =
  br_core :: core
  br_waiting :: "(bridge_params \<times> BridgeSkillGrant) list"
  br_log :: "bridge_event list"

definition issued :: "core \<Rightarrow> string set" where
  "issued s = set (map cf_confirmationId (co_requests s))"

definition ran_event :: "bridge_params \<Rightarrow> bridge_result \<Rightarrow> bridge_event list" where
  "ran_event p result = (case result of Inl _ \<Rightarrow> [] | Inr (call, consent) \<Rightarrow> [Ran p call consent])"

definition respond_event :: "core_error + BridgeConfirmationRecord \<Rightarrow> bridge_event list" where
  "respond_event answer = (case answer of
     Inr r \<Rightarrow> if cf_status r = Approved then [Consented (cf_confirmationId r) (cf_binding r)] else [] | Inl _ \<Rightarrow> [])"

inductive bridge_step :: "js_env \<Rightarrow> CoreRuntimeOptions \<Rightarrow> bridge_run \<Rightarrow> bridge_run \<Rightarrow> bool" for h opts where
  submit: "bridge_step h opts r (r\<lparr>br_core := fst (submitTask (at_time h c u) opts sp (br_core r))\<rparr>)"
| run_end: "bridge_step h opts r (r\<lparr>br_core := finish_run (at_time h c u) i answer (br_core r)\<rparr>)"
| cancel: "bridge_step h opts r (r\<lparr>br_core := fst (cancelTask (at_time h c u) i (br_core r))\<rparr>)"
| replace: "bridge_step h opts r
    (r\<lparr>br_core := fst (replaceBridgePolicy policy (br_core r)), br_log := Policy_replaced # br_log r\<rparr>)"
| enter: "begin_bridge opts p (br_core r) = Inr grant \<Longrightarrow>
    bridge_step h opts r (r\<lparr>br_waiting := (p, grant) # br_waiting r\<rparr>)"
| leave: "(p, grant) \<in> set (br_waiting r) \<Longrightarrow> ''confirm-'' @ u 0 \<notin> issued (br_core r) \<Longrightarrow>
    finish_bridge (at_time h c u) opts p grant answer (br_core r) = (s, result) \<Longrightarrow>
    bridge_step h opts r
      (r\<lparr>br_core := s, br_waiting := remove1 (p, grant) (br_waiting r), br_log := ran_event p result @ br_log r\<rparr>)"
| respond: "respondBridgeConfirmation (at_time h c u) i approved (br_core r) = (s, answer) \<Longrightarrow>
    bridge_step h opts r (r\<lparr>br_core := s, br_log := respond_event answer @ br_log r\<rparr>)"

subsection \<open>The host at another time\<close>

lemma by_key_at_time [simp]: "by_key (at_time h c u) = by_key h"
  by (simp add: by_key_def fun_eq_iff)

lemma canonicalJson_at_time [simp]: "canonicalJson (at_time h c u) v = canonicalJson h v"
  and canonical_items_at_time: "canonical_items (at_time h c u) vs = canonical_items h vs"
  and canonical_members_at_time: "canonical_members (at_time h c u) ms = canonical_members h ms"
proof (induction h v and h vs and h ms rule: canonicalJson_canonical_items_canonical_members.induct)
  case (9 e v vs)
  then show ?case by (simp split: option.split)
next
  case (11 e k v ms)
  then show ?case by (simp split: option.split)
qed simp_all

lemma digests_at_time [simp]:
  "bridgeConfirmationBinding (at_time h c u) b = bridgeConfirmationBinding h b"
  "bridgePayloadDigest (at_time h c u) k i = bridgePayloadDigest h k i"
  by (simp_all add: bridgeConfirmationBinding_def bridgePayloadDigest_def del: canonicalJson.simps)

lemma intersect_at_time [simp]:
  "intersectBridgePermissions (at_time h c u) grant = intersectBridgePermissions h grant"
  by (simp add: intersectBridgePermissions_def)


subsection \<open>The invariant of the confirmations\<close>

fun consented :: "bridge_event list \<Rightarrow> string \<Rightarrow> BridgeBinding \<Rightarrow> bool" where
  "consented [] i b = False"
| "consented (ev # L) i b = (ev = Consented i b \<or> ev \<noteq> Policy_replaced \<and> consented L i b)"

fun used_ids :: "bridge_event list \<Rightarrow> string set" where
  "used_ids [] = {}"
| "used_ids (Ran p call (Some (i, b)) # L) = insert i (used_ids L)"
| "used_ids (ev # L) = used_ids L"

text \<open>A consent with the binding \<open>b\<close> is one to this call.\<close>

definition covers :: "js_env \<Rightarrow> bridge_params \<Rightarrow> executor_call \<Rightarrow> BridgeBinding \<Rightarrow> bool" where
  "covers h p call b \<longleftrightarrow>
    bb_skillId b = xc_skillId call \<and> bb_agentId b = bc_agentId (bp_context p) \<and>
    bb_sessionId b = bc_sessionId (bp_context p) \<and> bb_toolCallId b = bc_toolCallId (bp_context p) \<and>
    bb_permissions b = filter permissionRequiresConfirmation (xc_permissions call) \<and>
    bridgePayloadDigest h (xc_skillId call) (xc_input call) = Some (bb_payloadDigest b)"

definition ran_ok :: "js_env \<Rightarrow> bridge_event list \<Rightarrow> bridge_params \<Rightarrow> executor_call \<Rightarrow> (string \<times> BridgeBinding) option \<Rightarrow> bool" where
  "ran_ok h L p call consent \<longleftrightarrow> xc_skillId call = bp_skillId p \<and> xc_input call = bp_input p \<and>
    (case consent of
       None \<Rightarrow> filter permissionRequiresConfirmation (xc_permissions call) = []
     | Some (i, b) \<Rightarrow> covers h p call b \<and> i \<notin> used_ids L \<and>
         (\<exists>b'. consented L i b' \<and> bridgeConfirmationBinding h b' = bridgeConfirmationBinding h b))"

fun log_ok :: "js_env \<Rightarrow> bridge_event list \<Rightarrow> bool" where
  "log_ok h [] = True"
| "log_ok h (Ran p call consent # L) = (ran_ok h L p call consent \<and> log_ok h L)"
| "log_ok h (ev # L) = log_ok h L"

definition confirmations_ok :: "js_env \<Rightarrow> bridge_event list \<Rightarrow> core \<Rightarrow> bool" where
  "confirmations_ok h L s \<longleftrightarrow>
    (\<forall>i c. map_get (co_confirmations s) i = Some c \<longrightarrow>
      cf_confirmationId c = i \<and> i \<in> issued s \<and> (cf_status c = Approved \<longrightarrow> consented L i (cf_binding c))) \<and>
    (\<forall>d i. map_get (co_bindings s) d = Some i \<longrightarrow>
      i \<in> issued s \<and> (\<forall>c. map_get (co_confirmations s) i = Some c \<longrightarrow> d = bridgeConfirmationBinding h (cf_binding c))) \<and>
    (\<forall>i \<in> used_ids L. i \<in> issued s \<and> map_get (co_confirmations s) i = None)"

definition bridge_inv :: "js_env \<Rightarrow> bridge_run \<Rightarrow> bool" where
  "bridge_inv h r \<longleftrightarrow> confirmations_ok h (br_log r) (br_core r) \<and> log_ok h (br_log r)"

lemma confirmations_okD:
  assumes "confirmations_ok h L s"
  shows "map_get (co_confirmations s) i = Some c \<Longrightarrow>
      cf_confirmationId c = i \<and> i \<in> issued s \<and> (cf_status c = Approved \<longrightarrow> consented L i (cf_binding c))"
    and "map_get (co_bindings s) d = Some i \<Longrightarrow>
      i \<in> issued s \<and> (\<forall>c. map_get (co_confirmations s) i = Some c \<longrightarrow> d = bridgeConfirmationBinding h (cf_binding c))"
    and "i \<in> used_ids L \<Longrightarrow> i \<in> issued s \<and> map_get (co_confirmations s) i = None"
  using assms unfolding confirmations_ok_def by blast+

text \<open>Confirmations and index entries may go away at any time.\<close>

definition shrunk :: "core \<Rightarrow> core \<Rightarrow> bool" where
  "shrunk s t \<longleftrightarrow> map_of (co_confirmations t) \<subseteq>\<^sub>m map_of (co_confirmations s) \<and>
    map_of (co_bindings t) \<subseteq>\<^sub>m map_of (co_bindings s) \<and> co_requests t = co_requests s"

lemma shrunk_refl [simp]: "shrunk s s"
  by (simp add: shrunk_def)

lemma shrunk_trans: "shrunk s t \<Longrightarrow> shrunk t u \<Longrightarrow> shrunk s u"
  unfolding shrunk_def by (metis map_le_trans)

lemma map_of_subset: "map_of n \<subseteq>\<^sub>m map_of m \<Longrightarrow> map_get n k = Some v \<Longrightarrow> map_get m k = Some v"
  by (metis domI map_le_def)

lemma delete_subset: "map_of (map_delete k m) \<subseteq>\<^sub>m map_of m"
  by (auto simp: map_le_def)

lemma shrunk_ok: "shrunk s t \<Longrightarrow> confirmations_ok h L s \<Longrightarrow> confirmations_ok h L t"
proof -
  assume shrunk: "shrunk s t" and ok: "confirmations_ok h L s"
  have confs: "map_get (co_confirmations s) i = Some c" if "map_get (co_confirmations t) i = Some c" for i c
    using shrunk that map_of_subset unfolding shrunk_def by metis
  have binds: "map_get (co_bindings s) d = Some i" if "map_get (co_bindings t) d = Some i" for d i
    using shrunk that map_of_subset unfolding shrunk_def by metis
  have same: "issued t = issued s" using shrunk by (simp add: shrunk_def issued_def)
  show ?thesis
    unfolding confirmations_ok_def same
  proof (intro conjI allI ballI impI)
    fix i assume "i \<in> used_ids L"
    then show "i \<in> issued s" and "map_get (co_confirmations t) i = None"
      using confirmations_okD(3) [OF ok] confs by (blast, metis option.exhaust option.distinct(1))
  qed (use confirmations_okD(1,2) [OF ok] confs binds in blast)+
qed

lemma shrunk_drop: "shrunk s (drop_confirmation e r s)"
  by (simp add: shrunk_def drop_confirmation_def delete_subset)

lemma shrunk_fold: "shrunk s (fold (drop_confirmation e) rs s)"
proof (induction rs arbitrary: s)
  case (Cons r rs)
  show ?case using shrunk_trans [OF shrunk_drop Cons] by simp
qed simp

lemma shrunk_prune: "shrunk s (pruneConfirmations e now s)"
  unfolding pruneConfirmations_def by (rule shrunk_fold)

lemma shrunk_current: "shrunk s (fst (current_confirmation e b now s))"
  by (auto simp: current_confirmation_def Let_def shrunk_def delete_subset split: option.split)

lemma current_confirmation_Some:
  assumes "current_confirmation e b now s = (s1, Some r)"
  obtains i where "s1 = s" and "map_get (co_bindings s) (bridgeConfirmationBinding e b) = Some i" and "map_get (co_confirmations s) i = Some r"
  using assms by (auto simp: current_confirmation_def Let_def split: option.splits if_splits)

lemma add_confirmation_ok:
  assumes ok: "confirmations_ok h L s" and fresh: "cf_confirmationId r \<notin> issued s" and pending: "cf_status r = Pending"
    and t: "t = s\<lparr>co_confirmations := map_set (cf_confirmationId r) r (co_confirmations s),
      co_bindings := map_set (bridgeConfirmationBinding h (cf_binding r)) (cf_confirmationId r) (co_bindings s),
      co_requests := co_requests s @ [plain_request r]\<rparr>"
  shows "confirmations_ok h L t"
proof -
  have confs: "map_get (co_confirmations t) i = (if i = cf_confirmationId r then Some r else map_get (co_confirmations s) i)" for i
    by (simp add: t)
  have binds: "map_get (co_bindings t) d =
      (if d = bridgeConfirmationBinding h (cf_binding r) then Some (cf_confirmationId r) else map_get (co_bindings s) d)" for d
    by (simp add: t)
  have issued: "issued t = insert (cf_confirmationId r) (issued s)"
    by (simp add: issued_def t plain_request_def)
  note old = confirmations_okD [OF ok]
  show ?thesis
    unfolding confirmations_ok_def confs binds issued
  proof (intro conjI allI ballI impI)
    fix i assume "i \<in> used_ids L"
    with old(3) fresh show "i \<in> insert (cf_confirmationId r) (issued s)"
      and "(if i = cf_confirmationId r then Some r else map_get (co_confirmations s) i) = None" by auto
  next
    fix d i c assume "(if d = bridgeConfirmationBinding h (cf_binding r) then Some (cf_confirmationId r) else map_get (co_bindings s) d) = Some i"
      and "(if i = cf_confirmationId r then Some r else map_get (co_confirmations s) i) = Some c"
    then show "d = bridgeConfirmationBinding h (cf_binding c)"
      using old(2) [of d i] fresh by (auto split: if_splits)
  qed (use old(1,2) pending in \<open>auto split: if_splits\<close>)
qed

lemma obtain_confirmation_ok:
  assumes ok: "confirmations_ok h L s" and fresh: "''confirm-'' @ u 0 \<notin> issued s"
    and run: "obtain_confirmation (at_time h c u) b now s = (s1, found)"
  shows "confirmations_ok h L s1 \<and> (\<forall>r. found = Some r \<longrightarrow>
    map_get (co_confirmations s1) (cf_confirmationId r) = Some r \<and>
    bridgeConfirmationBinding h (cf_binding r) = bridgeConfirmationBinding h b)"
proof -
  let ?e = "at_time h c u"
  obtain s2 cur where cur: "current_confirmation ?e b now s = (s2, cur)" by (metis prod.exhaust)
  have s2: "shrunk s s2" using shrunk_current [of s ?e b now] cur by simp
  then have ok2: "confirmations_ok h L s2" using shrunk_ok ok by blast
  have fresh2: "''confirm-'' @ u 0 \<notin> issued s2" using s2 fresh by (simp add: shrunk_def issued_def)
  show ?thesis
  proof (cases cur)
    case (Some r)
    with cur run have "found = Some r" "s1 = s2" by (simp_all add: obtain_confirmation_def)
    moreover obtain i where "s2 = s" "map_get (co_bindings s) (bridgeConfirmationBinding h b) = Some i"
        "map_get (co_confirmations s) i = Some r"
      using current_confirmation_Some [of ?e b now s s2 r] cur Some by auto
    ultimately show ?thesis using ok confirmations_okD(1,2) [OF ok] by (metis option.sel)
  next
    case None
    show ?thesis
    proof (cases "createBridgeConfirmationRequest ?e b now CONFIRMATION_TTL_MS")
      case new: None
      with cur None run ok2 show ?thesis by (simp add: obtain_confirmation_def)
    next
      case new: (Some r)
      then have r: "cf_confirmationId r = ''confirm-'' @ u 0" "cf_binding r = b" "cf_status r = Pending"
        by (auto simp: createBridgeConfirmationRequest_def)
      from cur None run new have s1: "s1 = s2\<lparr>co_confirmations := map_set (cf_confirmationId r) r (co_confirmations s2),
          co_bindings := map_set (bridgeConfirmationBinding h (cf_binding r)) (cf_confirmationId r) (co_bindings s2),
          co_requests := co_requests s2 @ [plain_request r]\<rparr>" and found: "found = Some r"
        by (simp_all add: obtain_confirmation_def r(2))
      have "confirmations_ok h L s1"
        using ok2 _ r(3) s1 by (rule add_confirmation_ok) (use fresh2 r(1) in simp)
      with found r(2) show ?thesis by (simp add: s1)
    qed
  qed
qed

text \<open>A confirmation that is used up was consented to, for this binding, and is gone.\<close>

lemma consume_confirmation_ok:
  assumes ok: "confirmations_ok h L s" and fresh: "''confirm-'' @ u 0 \<notin> issued s"
    and run: "consume_confirmation (at_time h c u) b now s = (s1, answer)"
  shows "confirmations_ok h L s1 \<and> (\<forall>i. answer = Inr i \<longrightarrow>
    i \<in> issued s1 \<and> i \<notin> used_ids L \<and> map_get (co_confirmations s1) i = None \<and>
    (\<exists>b'. consented L i b' \<and> bridgeConfirmationBinding h b' = bridgeConfirmationBinding h b))"
proof -
  let ?e = "at_time h c u"
  obtain s2 found where obt: "obtain_confirmation ?e b now s = (s2, found)" by (metis prod.exhaust)
  note got = obtain_confirmation_ok [OF ok fresh obt]
  show ?thesis
  proof (cases "\<exists>r. found = Some r \<and> cf_status r = Approved")
    case False
    with obt run got show ?thesis by (auto simp: consume_confirmation_def split: option.splits if_splits)
  next
    case True
    then obtain r where r: "found = Some r" "cf_status r = Approved" by blast
    with obt run have s1: "s1 = s2\<lparr>co_bindings := map_delete (bridgeConfirmationBinding h b) (co_bindings s2),
        co_confirmations := map_delete (cf_confirmationId r) (co_confirmations s2)\<rparr>" and answer: "answer = Inr (cf_confirmationId r)"
      by (auto simp: consume_confirmation_def)
    have "shrunk s2 s1" by (simp add: s1 shrunk_def delete_subset)
    then have ok1: "confirmations_ok h L s1" using got shrunk_ok by blast
    have ok2: "confirmations_ok h L s2" and r2: "map_get (co_confirmations s2) (cf_confirmationId r) = Some r"
        "bridgeConfirmationBinding h (cf_binding r) = bridgeConfirmationBinding h b"
      using got r(1) by auto
    have "cf_confirmationId r \<in> issued s2" "consented L (cf_confirmationId r) (cf_binding r)"
      using confirmations_okD(1) [OF ok2 r2(1)] r(2) by auto
    moreover have "cf_confirmationId r \<notin> used_ids L" using confirmations_okD(3) [OF ok2] r2(1) by (metis option.distinct(1))
    moreover have "issued s1 = issued s2" by (simp add: s1 issued_def)
    ultimately show ?thesis using ok1 answer r2(2) by (auto simp: s1)
  qed
qed


lemma require_consent_ok:
  assumes ok: "confirmations_ok h L s" and fresh: "''confirm-'' @ u 0 \<notin> issued s"
    and run: "require_consent (at_time h c u) opts p grant now s = (s1, answer)"
  shows "confirmations_ok h L s1 \<and> (\<forall>i b. answer = Inr (i, b) \<longrightarrow>
    i \<in> issued s1 \<and> i \<notin> used_ids L \<and> map_get (co_confirmations s1) i = None \<and>
    (\<exists>b'. consented L i b' \<and> bridgeConfirmationBinding h b' = bridgeConfirmationBinding h b) \<and>
    (\<exists>digest display. bridgePayloadDigest h (bp_skillId p) (bp_input p) = Some digest \<and>
      b = call_binding h p grant digest display))"
proof -
  let ?e = "at_time h c u"
  let ?s = "pruneConfirmations ?e now s"
  have shrunk: "shrunk s ?s" by (rule shrunk_prune)
  have ok': "confirmations_ok h L ?s" using shrunk_ok [OF shrunk ok] .
  have fresh': "''confirm-'' @ u 0 \<notin> issued ?s" using shrunk fresh by (simp add: shrunk_def issued_def)
  have binding: "call_binding ?e p grant digest display = call_binding h p grant digest display" for digest display
    by (simp add: call_binding_def sensitive_permissions_def)
  show ?thesis
  proof (cases "\<exists>descriptor display digest. bg_confirmation grant = Some descriptor \<and>
      buildBridgeConfirmationDisplay (op_texts opts) descriptor (bp_input p) = Some display \<and>
      bridgePayloadDigest h (bp_skillId p) (bp_input p) = Some digest")
    case False
    with run ok' show ?thesis by (auto simp: require_consent_def Let_def split: option.splits)
  next
    case True
    then obtain descriptor display digest where d: "bg_confirmation grant = Some descriptor"
        "buildBridgeConfirmationDisplay (op_texts opts) descriptor (bp_input p) = Some display"
        "bridgePayloadDigest h (bp_skillId p) (bp_input p) = Some digest" by blast
    obtain s2 taken where take: "consume_confirmation ?e (call_binding h p grant digest display) now ?s = (s2, taken)"
      by (metis prod.exhaust)
    from run d take have "s1 = s2" and "answer = map_sum id (\<lambda>i. (i, call_binding h p grant digest display)) taken"
      by (auto simp: require_consent_def Let_def binding split: sum.splits)
    with consume_confirmation_ok [OF ok' fresh' take] d(3) show ?thesis by (cases taken) auto
  qed
qed

lemma bridge_call_result:
  assumes "bridge_call e opts p grant consent s = (s1, Inr (call, consent'))"
  shows "consent' = consent \<and> xc_skillId call = bp_skillId p \<and> xc_input call = bp_input p \<and>
    xc_permissions call = intersectBridgePermissions e grant \<and>
    clampBudget e (Some (bg_budget grant)) (budget_ceiling opts) = Some (xc_budget call) \<and>
    s1 = s\<lparr>co_calls := co_calls s @ [call]\<rparr>"
  using assms by (auto simp: bridge_call_def Let_def split: option.splits)

lemma bridge_call_confirmations:
  "bridge_call e opts p grant consent s = (s1, result) \<Longrightarrow> shrunk s s1 \<and> shrunk s1 s"
  by (auto simp: bridge_call_def Let_def shrunk_def split: option.splits)

lemma log_unused: "ran_event p (Inl err) = []" "ran_event p (Inr (call, consent)) = [Ran p call consent]"
  by (simp_all add: ran_event_def)

text \<open>A run that needs no consent, one that is refused, or one that used up a consent to it.\<close>

lemma finish_bridge_cases:
  assumes "finish_bridge e opts p grant answer s = (s1, result)"
  obtains (refused) err where "s1 = s" "result = Inl err"
    | (plain) "sensitive_permissions e grant = []" "bridge_call e opts p grant None s = (s1, result)"
    | (unconfirmed) err where "require_consent e opts p grant (clock e 0) s = (s1, Inl err)" "result = Inl err"
    | (confirmed) s2 i b where "sensitive_permissions e grant \<noteq> []"
        "require_consent e opts p grant (clock e 0) s = (s2, Inr (i, b))"
        "bridge_call e opts p grant (Some (i, b)) s2 = (s1, result)"
  using assms by (auto simp: finish_bridge_def split: option.splits if_splits prod.splits sum.splits)

lemma finish_bridge_ok:
  assumes ok: "confirmations_ok h L s" and fresh: "''confirm-'' @ u 0 \<notin> issued s"
    and run: "finish_bridge (at_time h c u) opts p grant answer s = (s1, result)" and "log_ok h L"
  shows "confirmations_ok h (ran_event p result @ L) s1 \<and> log_ok h (ran_event p result @ L)"
  using run
proof (cases rule: finish_bridge_cases)
  case plain
  show ?thesis
  proof (cases result)
    case (Inl err)
    with bridge_call_confirmations [OF plain(2)] ok assms(4) show ?thesis by (auto simp: log_unused intro: shrunk_ok)
  next
    case (Inr ran)
    then obtain call consent where ran: "result = Inr (call, consent)" by (cases ran) auto
    note call = bridge_call_result [OF plain(2) [unfolded ran]]
    have ok1: "confirmations_ok h L s1" using bridge_call_confirmations [OF plain(2)] ok shrunk_ok by blast
    then have "confirmations_ok h (Ran p call None # L) s1" by (simp add: confirmations_ok_def)
    moreover have "ran_ok h L p call None"
      using call plain(1) by (simp add: ran_ok_def sensitive_permissions_def)
    ultimately show ?thesis using call assms(4) by (simp add: ran log_unused)
  qed
next
  case (unconfirmed err)
  with require_consent_ok [OF ok fresh unconfirmed(1)] assms(4) show ?thesis by (simp add: log_unused)
next
  case (confirmed s2 i b)
  note got = require_consent_ok [OF ok fresh confirmed(2)]
  then have ok1: "confirmations_ok h L s1" using bridge_call_confirmations [OF confirmed(3)] shrunk_ok by blast
  show ?thesis
  proof (cases result)
    case (Inl err)
    with ok1 assms(4) show ?thesis by (simp add: log_unused)
  next
    case (Inr ran)
    then obtain call consent where ran: "result = Inr (call, consent)" by (cases ran) auto
    note call = bridge_call_result [OF confirmed(3) [unfolded ran]]
    have gone: "i \<in> issued s1" "map_get (co_confirmations s1) i = None" using got call by (auto simp: issued_def)
    have "confirmations_ok h (Ran p call (Some (i, b)) # L) s1"
      using ok1 gone by (auto simp: confirmations_ok_def)
    moreover have "ran_ok h L p call (Some (i, b))"
      using got call by (auto simp: ran_ok_def covers_def call_binding_def sensitive_permissions_def)
    ultimately show ?thesis using call assms(4) by (simp add: ran log_unused)
  qed
qed (use ok assms(4) in \<open>simp add: log_unused\<close>)


lemma respond_ok:
  assumes ok: "confirmations_ok h L s"
    and run: "respondBridgeConfirmation e i approved s = (s1, answer)"
  shows "confirmations_ok h (respond_event answer @ L) s1"
proof (cases answer)
  case (Inl err)
  with run have "s1 = s" by (auto simp: respondBridgeConfirmation_def Let_def split: option.splits if_splits)
  with ok Inl show ?thesis by (simp add: respond_event_def)
next
  case (Inr r')
  with run obtain r where r: "map_get (co_confirmations s) i = Some r" "r' = r\<lparr>cf_status := if approved then Approved else Denied\<rparr>"
      and s1: "s1 = s\<lparr>co_confirmations := map_set i r' (co_confirmations s)\<rparr>"
    by (auto simp: respondBridgeConfirmation_def Let_def split: option.splits if_splits)
  have confs: "map_get (co_confirmations s1) j = (if j = i then Some r' else map_get (co_confirmations s) j)" for j
    by (simp add: s1)
  have same: "issued s1 = issued s" "co_bindings s1 = co_bindings s" by (simp_all add: s1 issued_def)
  have grown: "consented (respond_event answer @ L) j b" if "consented L j b" for j b
    using that Inr by (auto simp: respond_event_def)
  have used: "used_ids (respond_event answer @ L) = used_ids L" using Inr by (simp add: respond_event_def)
  have now: "cf_status r' = Approved \<Longrightarrow> consented (respond_event answer @ L) (cf_confirmationId r') (cf_binding r')"
    using Inr by (simp add: respond_event_def)
  note old = confirmations_okD [OF ok]
  have kept: "cf_confirmationId r' = i" "cf_binding r' = cf_binding r" using old(1) [OF r(1)] r(2) by auto
  show ?thesis
    unfolding confirmations_ok_def confs same used
  proof (intro conjI allI ballI impI)
    fix j assume "j \<in> used_ids L"
    with old(3) r(1) show "j \<in> issued s" and "(if j = i then Some r' else map_get (co_confirmations s) j) = None" by auto
  next
    fix d j c assume "map_get (co_bindings s) d = Some j"
      and "(if j = i then Some r' else map_get (co_confirmations s) j) = Some c"
    then show "d = bridgeConfirmationBinding h (cf_binding c)"
      using old(2) [of d j] r(1) kept by (auto split: if_splits)
  qed (use old(1,2) r(1) kept now grown in \<open>auto split: if_splits\<close>)
qed

lemma replace_ok: "confirmations_ok h L s \<Longrightarrow> confirmations_ok h (Policy_replaced # L) (fst (replaceBridgePolicy policy s))"
  by (simp add: confirmations_ok_def replaceBridgePolicy_def issued_def)

lemma confirmations_ok_same:
  "confirmation_state t = confirmation_state s \<Longrightarrow> confirmations_ok h L t = confirmations_ok h L s"
  by (simp add: confirmations_ok_def confirmation_state_def issued_def)

interpretation bridge_safe: step_invariant "bridge_step h opts" "bridge_inv h" for h opts
proof unfold_locales
  fix r t assume "bridge_step h opts r t" and inv: "bridge_inv h r"
  then show "bridge_inv h t"
  proof cases
    case (leave p grant u c answer s result)
    with inv finish_bridge_ok [of h "br_log r" "br_core r" u c opts p grant answer s result]
    show ?thesis by (simp add: bridge_inv_def)
  next
    case (respond c u i approved s answer)
    with inv respond_ok [of h "br_log r" "br_core r" _ i approved s answer] show ?thesis
      by (auto simp: bridge_inv_def respond_event_def split: sum.split)
  next
    case (submit c u sp)
    with inv show ?thesis by (simp add: bridge_inv_def confirmations_ok_same [OF task_operations_confirmations(1)])
  next
    case (run_end c u i answer)
    with inv show ?thesis by (simp add: bridge_inv_def confirmations_ok_same [OF task_operations_confirmations(2)])
  next
    case (cancel c u i)
    with inv show ?thesis by (simp add: bridge_inv_def confirmations_ok_same [OF task_operations_confirmations(3)])
  qed (use inv in \<open>simp_all add: bridge_inv_def replace_ok\<close>)
qed

text \<open>The start: no task, no confirmation, no call under way.\<close>

definition bridge_start :: "BridgeExecutionPolicy option \<Rightarrow> bridge_run" where
  "bridge_start policy = \<lparr>br_core = new_core policy, br_waiting = [], br_log = []\<rparr>"

lemma bridge_start_inv: "bridge_inv h (bridge_start policy)"
  by (simp add: bridge_inv_def bridge_start_def confirmations_ok_def new_core_def)

lemma log_ok_split: "log_ok h (later @ L) \<Longrightarrow> log_ok h L"
  by (induction h later rule: log_ok.induct) auto

lemma used_ids_append: "used_ids (later @ L) = used_ids later \<union> used_ids L"
  by (induction later rule: used_ids.induct) auto

lemma used_once: "log_ok h (later @ L) \<Longrightarrow> i \<in> used_ids L \<Longrightarrow> i \<notin> used_ids later"
  by (induction later rule: used_ids.induct) (auto simp: ran_ok_def used_ids_append)

lemma consented_split: "consented L i b \<Longrightarrow> \<exists>mid rest. L = mid @ Consented i b # rest \<and> Policy_replaced \<notin> set mid"
proof (induction L)
  case (Cons ev L)
  show ?case
  proof (cases "ev = Consented i b")
    case True
    then have "ev # L = [] @ Consented i b # L \<and> Policy_replaced \<notin> set []" by simp
    then show ?thesis by blast
  next
    case False
    with Cons obtain mid rest where "L = mid @ Consented i b # rest" "Policy_replaced \<notin> set mid" "ev \<noteq> Policy_replaced" by auto
    then have "ev # L = (ev # mid) @ Consented i b # rest \<and> Policy_replaced \<notin> set (ev # mid)" by auto
    then show ?thesis by blast
  qed
qed simp

lemma ran_consent:
  assumes "bridge_inv h r" and "inj (sha256 h)" and log: "br_log r = later @ Ran p call consent # earlier"
    and "filter permissionRequiresConfirmation (xc_permissions call) \<noteq> []"
  shows "\<exists>i b b' mid rest. consent = Some (i, b) \<and> covers h p call b \<and> earlier = mid @ Consented i b' # rest \<and>
    Policy_replaced \<notin> set mid \<and> same_binding b' b \<and> i \<notin> used_ids (later @ earlier)"
proof -
  have ok: "log_ok h (later @ Ran p call consent # earlier)" using assms(1) log by (simp add: bridge_inv_def)
  then have "ran_ok h earlier p call consent" using log_ok_split by (metis log_ok.simps(2))
  with assms(4) obtain i b b' where c: "consent = Some (i, b)" "covers h p call b" "i \<notin> used_ids earlier" "consented earlier i b'"
      "bridgeConfirmationBinding h b' = bridgeConfirmationBinding h b"
    by (auto simp: ran_ok_def split: option.splits)
  moreover have "i \<notin> used_ids later" using used_once [OF ok] c(1) by simp
  moreover have "same_binding b' b" using digest_same_binding [OF assms(2) c(5)] .
  ultimately show ?thesis using consented_split [OF c(4)] by (auto simp: used_ids_append)
qed


subsection \<open>A call that reaches the executor\<close>

lemma fold_drop_calls: "co_calls (fold (drop_confirmation e) rs s) = co_calls s"
  by (induction rs arbitrary: s) (simp_all add: drop_confirmation_def)

lemma consume_calls: "co_calls (fst (consume_confirmation e b now s)) = co_calls s"
  by (auto simp: consume_confirmation_def obtain_confirmation_def current_confirmation_def Let_def
      split: option.splits prod.splits if_splits)

lemma consent_calls:
  assumes "require_consent e opts p grant now s = (s1, Inr c)"
  shows "co_calls s1 = co_calls s"
proof -
  obtain b i where "consume_confirmation e b now (pruneConfirmations e now s) = (s1, Inr i)"
    using assms by (auto simp: require_consent_def Let_def split: option.splits prod.splits sum.splits)
  then show ?thesis using consume_calls [of e b now "pruneConfirmations e now s"] by (simp add: pruneConfirmations_def fold_drop_calls)
qed

lemma finish_bridge_reached:
  assumes "finish_bridge e opts p grant answer s = (s1, Inr (call, consent))"
  obtains mid where "bridge_call e opts p grant consent mid = (s1, Inr (call, consent))" "co_calls mid = co_calls s"
    "consent = None \<longleftrightarrow> sensitive_permissions e grant = []"
  using assms
proof (cases rule: finish_bridge_cases)
  case plain
  then have "consent = None" using bridge_call_result by blast
  with plain show ?thesis by (intro that [of s]) simp_all
next
  case (confirmed s2 i b)
  then have "consent = Some (i, b)" using bridge_call_result by blast
  with confirmed consent_calls [OF confirmed(2)] show ?thesis by (intro that [of s2]) simp_all
qed simp_all

lemma finish_bridge_guards:
  assumes "finish_bridge e opts p grant answer s = (s1, Inr (call, consent))"
  shows "\<exists>status x t. answer = Some status \<and> es_active status \<and> es_expiresAt status = Some x \<and> date_parse e x = Some t \<and>
      clock e 0 < t"
    and "length (intersectBridgePermissions e grant) = length (js_dedup (bg_requiredPermissions grant))"
proof -
  from assms obtain status where "answer = Some status" "entitlement_ok e status (clock e 0)"
      "length (intersectBridgePermissions e grant) = length (js_dedup (bg_requiredPermissions grant))"
    by (auto simp: finish_bridge_def split: option.splits if_splits)
  then show "\<exists>status x t. answer = Some status \<and> es_active status \<and> es_expiresAt status = Some x \<and> date_parse e x = Some t \<and>
      clock e 0 < t"
    and "length (intersectBridgePermissions e grant) = length (js_dedup (bg_requiredPermissions grant))"
    by (auto simp: entitlement_ok_def expires_after_def split: option.splits)
qed

section \<open>Properties\<close>

text \<open>
  C5: In every execution of the core, whatever happens between the steps of a call, a Skill with a permission that
  needs confirmation runs only if the user consented before to exactly this call (the same agent, session, tool call, Skill, input,
  permissions and display), the policy was not replaced since, and no other run used that consent.
\<close>

theorem bridge_consent:
  assumes "inj (sha256 h)" and "(bridge_step h opts)\<^sup>*\<^sup>* (bridge_start policy) r"
    and "br_log r = later @ Ran p call consent # earlier"
    and "filter permissionRequiresConfirmation (xc_permissions call) \<noteq> []"
  shows "\<exists>i b b' mid rest. consent = Some (i, b) \<and> covers h p call b \<and> earlier = mid @ Consented i b' # rest \<and>
    Policy_replaced \<notin> set mid \<and> same_binding b' b \<and> i \<notin> used_ids (later @ earlier)"
  using ran_consent [OF bridge_safe.run_inv [OF assms(2) bridge_start_inv] assms(1,3,4)] .

text \<open>
  C25: A bridge call that reaches the executor has an entitlement that is active and not expired, exactly the required
  permissions, each of them granted by profile, Pack, tenant and device, and a budget within the
  grant's and the core's; it uses a confirmation exactly when one of its permissions needs it; and the executor is called once.
\<close>

theorem bridge_permissions:
  assumes "budget_ok (budget_ceiling opts)"
    and "finish_bridge e opts p grant answer s = (s', Inr (call, consent))"
  shows "(\<exists>status x t. answer = Some status \<and> es_active status \<and> es_expiresAt status = Some x \<and> date_parse e x = Some t \<and>
      clock e 0 < t) \<and>
    set (xc_permissions call) = set (bg_requiredPermissions grant) \<and>
    set (xc_permissions call) \<subseteq> set (bg_profilePermissions grant) \<inter> set (bg_packPermissions grant) \<inter>
      set (bg_tenantPermissions grant) \<inter> set (bg_devicePermissions grant) \<and>
    below (xc_budget call) (bg_budget grant) \<and> below (xc_budget call) (budget_ceiling opts) \<and>
    (consent = None \<longleftrightarrow> filter permissionRequiresConfirmation (xc_permissions call) = []) \<and>
    co_calls s' = co_calls s @ [call]"
proof -
  obtain mid where call: "bridge_call e opts p grant consent mid = (s', Inr (call, consent))" and calls: "co_calls mid = co_calls s"
      and confirmed: "consent = None \<longleftrightarrow> sensitive_permissions e grant = []"
    using assms(2) by (rule finish_bridge_reached)
  note result = bridge_call_result [OF call]
  have permissions: "set (xc_permissions call) = set (bg_requiredPermissions grant)"
    using result intersect_complete [OF finish_bridge_guards(2) [OF assms(2)]] by simp
  have sources: "set (xc_permissions call) \<subseteq> set (bg_profilePermissions grant) \<inter> set (bg_packPermissions grant) \<inter>
      set (bg_tenantPermissions grant) \<inter> set (bg_devicePermissions grant)"
    using result set_intersect [of e grant] by auto
  have budget: "below (xc_budget call) (bg_budget grant)" "below (xc_budget call) (budget_ceiling opts)"
    using result clampBudget_below [OF _ assms(1)] by blast+
  have "consent = None \<longleftrightarrow> filter permissionRequiresConfirmation (xc_permissions call) = []"
    using confirmed result by (simp add: sensitive_permissions_def)
  moreover have "co_calls s' = co_calls s @ [call]" using result calls by simp
  ultimately show ?thesis using finish_bridge_guards(1) [OF assms(2)] permissions sources budget by blast
qed


subsection \<open>Calls under way and refused budgets\<close>

text \<open>
  A call that waits for the verifier keeps the grant it found: a policy that replaces it in the meantime, even an empty
  one, does not stop it.
\<close>

lemma waiting_call_outlives_policy:
  assumes "sensitive_permissions e grant = []"
  shows "snd (finish_bridge e opts p grant answer (fst (replaceBridgePolicy policy s))) = snd (finish_bridge e opts p grant answer s)"
  using assms by (simp add: finish_bridge_def bridge_call_def Let_def split: option.split)

text \<open>A task whose budget is refused is answered as running, and nothing will ever end it but a cancellation.\<close>

lemma refused_budget_stays_running:
  assumes "map_get (co_idempotency s) (sp_idempotencyKey sp) = None" and "sp_budget sp = Some b" and "\<not> budget_ok b"
    and "submitTask e opts sp s = (s', Inr task)"
  shows "ct_status task = Task_running \<and> co_calls s' = co_calls s"
proof -
  have refused: "clampBudget e (Some b) (budget_ceiling opts) = None" using assms(3) clampBudget_refused by blast
  show ?thesis
    using assms(1,2,4) by (auto simp: submitTask_def start_run_def Let_def refused mustGet_def transition_def emit_def)
qed

text \<open>With a policy that passes the check of the core process no call with a sensitive permission is ever made.\<close>

lemma parsed_policy_never_confirms:
  assumes "parseBridgePolicy v = Some policy" and "map_get policy agentId = Some grants" and "grant \<in> set grants"
    and "sensitive_permissions e grant \<noteq> []"
  shows "\<exists>err. snd (finish_bridge e opts p grant answer s) = Inl err"
  using parsed_policy_unconfirmed [OF assms(1-3)] assms(4)
  by (auto simp: finish_bridge_def require_consent_def Let_def split: option.split)

subsection \<open>A call with consent\<close>

definition sample_grant :: BridgeSkillGrant where
  "sample_grant = \<lparr>bg_skillId = ''offer'', bg_packId = ''hr'', bg_packVersion = ''1.0.0'', bg_profileVersion = ''1'',
     bg_requiredPermissions = [''hr:write''], bg_profilePermissions = [''hr:write''], bg_packPermissions = [''hr:write''],
     bg_tenantPermissions = [''hr:write''], bg_devicePermissions = [''hr:write'', ''hr:read''], bg_budget = DEFAULT_BUDGET,
     bg_confirmation = Some \<lparr>bd_action = ''offer'', bd_object = ''letter'', bd_recipientField = None,
       bd_dataFields = [(''role'', ''role'')], bd_estimatedCostCents = IntNum 0\<rparr>\<rparr>"

definition sample_call :: bridge_params where
  "sample_call = \<lparr>bp_skillId = ''offer'', bp_input = Obj [(''role'', Str ''dev'')],
     bp_context = \<lparr>bc_agentId = ''hr'', bc_sessionKey = ''k'', bc_sessionId = ''s'', bc_toolCallId = ''t''\<rparr>\<rparr>"

definition sample_options :: CoreRuntimeOptions where
  "sample_options = \<lparr>op_defaultBudget = None, op_verifier = True, op_texts = \<lparr>bt_currentDevice = ''device'', bt_colon = '': ''\<rparr>\<rparr>"

definition sample_status :: BridgeEntitlementStatus where
  "sample_status = \<lparr>es_active = True, es_expiresAt = Some (toISOString 600000)\<rparr>"

definition sample_consent :: "string \<Rightarrow> BridgeBinding" where
  "sample_consent digest = call_binding sample_env sample_call sample_grant digest
     \<lparr>cd_action = ''offer'', cd_object = ''letter'', cd_recipient = ''device'', cd_dataScope = [''role: dev''], cd_estimatedCostCents = 0\<rparr>"

definition sample_executor_call :: executor_call where
  "sample_executor_call = \<lparr>xc_skillId = ''offer'', xc_input = Obj [(''role'', Str ''dev'')], xc_permissions = [''hr:write''],
     xc_budget = DEFAULT_BUDGET\<rparr>"

lemma sample_permissions: "intersectBridgePermissions e sample_grant = [''hr:write'']"
    "sensitive_permissions e sample_grant = [''hr:write'']"
  by (simp_all add: intersectBridgePermissions_def sensitive_permissions_def sample_grant_def js_dedup_def js_sort_def
      permissionRequiresConfirmation_def READ_ONLY_ACTIONS_def)

lemma sample_display_built:
  "buildBridgeConfirmationDisplay (op_texts sample_options) (the (bg_confirmation sample_grant)) (bp_input sample_call) =
    Some \<lparr>cd_action = ''offer'', cd_object = ''letter'', cd_recipient = ''device'', cd_dataScope = [''role: dev''], cd_estimatedCostCents = 0\<rparr>"
  by (simp add: buildBridgeConfirmationDisplay_def sample_options_def sample_grant_def sample_call_def displayText_def require_def
      js_trim_def is_space_def is_control_def natural_def maxSafeInteger_def field_def)

lemma sample_entitlement: "entitlement_ok e sample_status 0"
  using date_parse_toISOString [of 600000 e] common_eraI [of 600000]
  by (simp add: entitlement_ok_def sample_status_def expires_after_def)

lemma sample_default_budget: "budget_ok (budget_ceiling sample_options)"
  by (simp add: budget_ok_def budget_ceiling_def sample_options_def DEFAULT_BUDGET_def maxSafeInteger_def)


definition sample_time :: "string \<Rightarrow> js_env" where
  "sample_time i = at_time sample_env (\<lambda>_. 0) (\<lambda>_. i)"

definition sample_record :: "string \<Rightarrow> BridgeConfirmationRecord" where
  "sample_record digest = \<lparr>cf_confirmationId = ''confirm-1'', cf_binding = sample_consent digest,
     cf_expiresAt = toISOString 300000, cf_status = Pending\<rparr>"

definition sample_asked :: "string \<Rightarrow> core" where
  "sample_asked digest = (new_core (Some [(''hr'', [sample_grant])]))
     \<lparr>co_confirmations := [(''confirm-1'', sample_record digest)],
      co_bindings := [(bridgeConfirmationBinding sample_env (sample_consent digest), ''confirm-1'')],
      co_requests := [plain_request (sample_record digest)]\<rparr>"

definition sample_answered :: "string \<Rightarrow> core" where
  "sample_answered digest = (sample_asked digest)\<lparr>co_confirmations := [(''confirm-1'', (sample_record digest)\<lparr>cf_status := Approved\<rparr>)]\<rparr>"

lemma sample_expiry: "\<not> expired_at e (toISOString 300000) 0" "expires_after e (toISOString 300000) 0"
  using date_parse_toISOString [of 300000 e] common_eraI [of 300000] by (simp_all add: expired_at_def expires_after_def)

lemma sample_time_fields: "clock (sample_time i) 0 = 0" "uuid (sample_time i) 0 = i"
    "bridgeConfirmationBinding (sample_time i) b = bridgeConfirmationBinding sample_env b"
    "bridgePayloadDigest (sample_time i) k v = bridgePayloadDigest sample_env k v"
  by (simp_all add: sample_time_def)

lemma sample_request: "iso_string CONFIRMATION_TTL_MS = Some (toISOString 300000)"
  by (simp add: iso_string_def CONFIRMATION_TTL_MS_def valid_time_def)

lemma sample_call_binding:
  "call_binding (sample_time i) sample_call sample_grant digest
     \<lparr>cd_action = ''offer'', cd_object = ''letter'', cd_recipient = ''device'', cd_dataScope = [''role: dev''], cd_estimatedCostCents = 0\<rparr> =
    sample_consent digest"
  by (simp add: sample_consent_def call_binding_def sample_permissions)

lemma sample_consume:
  "consume_confirmation (sample_time ''1'') (sample_consent digest) 0 (new_core (Some [(''hr'', [sample_grant])])) =
    (sample_asked digest, Inl (BRIDGE_CONFIRMATION_REQUIRED (plain_request (sample_record digest))))"
  "consume_confirmation (sample_time ''2'') (sample_consent digest) 0 (sample_answered digest) =
    ((sample_asked digest)\<lparr>co_confirmations := [], co_bindings := []\<rparr>, Inr ''confirm-1'')"
  by (simp_all add: consume_confirmation_def obtain_confirmation_def current_confirmation_def Let_def sample_time_fields
      createBridgeConfirmationRequest_def sample_request sample_asked_def sample_answered_def sample_record_def new_core_def
      sample_expiry plain_request_def del: show_nat.simps)

lemma sample_prune:
  "pruneConfirmations (sample_time i) 0 (new_core policy) = new_core policy"
  "pruneConfirmations (sample_time i) 0 (sample_answered digest) = sample_answered digest"
  by (simp_all add: pruneConfirmations_def new_core_def sample_answered_def sample_record_def sample_expiry)

lemma sample_finish:
  assumes "bridgePayloadDigest sample_env ''offer'' (Obj [(''role'', Str ''dev'')]) = Some digest"
  shows "finish_bridge (sample_time ''1'') sample_options sample_call sample_grant (Some sample_status)
      (new_core (Some [(''hr'', [sample_grant])])) =
    (sample_asked digest, Inl (BRIDGE_CONFIRMATION_REQUIRED (plain_request (sample_record digest))))"
    and "finish_bridge (sample_time ''2'') sample_options sample_call sample_grant (Some sample_status) (sample_answered digest) =
    ((sample_asked digest)\<lparr>co_confirmations := [], co_bindings := [], co_calls := [sample_executor_call]\<rparr>,
     Inr (sample_executor_call, Some (''confirm-1'', sample_consent digest)))"
proof -
  have input: "bp_input sample_call = Obj [(''role'', Str ''dev'')]" "bp_skillId sample_call = ''offer''"
    by (simp_all add: sample_call_def)
  obtain descriptor where d: "bg_confirmation sample_grant = Some descriptor" by (simp add: sample_grant_def)
  have shown: "buildBridgeConfirmationDisplay (op_texts sample_options) descriptor (Obj [(''role'', Str ''dev'')]) =
      Some \<lparr>cd_action = ''offer'', cd_object = ''letter'', cd_recipient = ''device'', cd_dataScope = [''role: dev''], cd_estimatedCostCents = 0\<rparr>"
    using sample_display_built d input by simp
  have enough: "length (js_dedup (bg_requiredPermissions sample_grant)) = 1" by (simp add: sample_grant_def js_dedup_def)
  have budget: "clampBudget e (Some (bg_budget sample_grant)) (budget_ceiling sample_options) = Some DEFAULT_BUDGET" for e
    by (simp add: clampBudget_def sample_grant_def sample_options_def budget_ceiling_def DEFAULT_BUDGET_def maxSafeInteger_def math_min_def)
  note facts = sample_time_fields sample_entitlement sample_permissions sample_prune d input shown assms enough budget
    sample_call_binding sample_consume
  show "finish_bridge (sample_time ''1'') sample_options sample_call sample_grant (Some sample_status)
      (new_core (Some [(''hr'', [sample_grant])])) =
    (sample_asked digest, Inl (BRIDGE_CONFIRMATION_REQUIRED (plain_request (sample_record digest))))"
    by (simp add: finish_bridge_def require_consent_def Let_def facts)
  show "finish_bridge (sample_time ''2'') sample_options sample_call sample_grant (Some sample_status) (sample_answered digest) =
    ((sample_asked digest)\<lparr>co_confirmations := [], co_bindings := [], co_calls := [sample_executor_call]\<rparr>,
     Inr (sample_executor_call, Some (''confirm-1'', sample_consent digest)))"
    by (simp add: finish_bridge_def require_consent_def bridge_call_def Let_def facts)
      (simp add: sample_executor_call_def sample_asked_def new_core_def)
qed


lemma sample_enter:
  "map_get (co_policy (br_core r)) ''hr'' = Some [sample_grant] \<Longrightarrow>
    bridge_step sample_env sample_options r (r\<lparr>br_waiting := (sample_call, sample_grant) # br_waiting r\<rparr>)"
  by (rule bridge_step.enter) (simp add: begin_bridge_def sample_call_def sample_options_def sample_grant_def)

lemma sample_bridge_run:
  assumes digest: "bridgePayloadDigest sample_env ''offer'' (Obj [(''role'', Str ''dev'')]) = Some digest"
  obtains r where "(bridge_step sample_env sample_options)\<^sup>*\<^sup>* (bridge_start (Some [(''hr'', [sample_grant])])) r"
    and "br_log r = [] @ Ran sample_call sample_executor_call (Some (''confirm-1'', sample_consent digest)) #
      [Consented ''confirm-1'' (sample_consent digest)]"
proof -
  let ?w = "(sample_call, sample_grant)"
  define asked where "asked = \<lparr>br_core = sample_asked digest, br_waiting = [], br_log = []\<rparr>"
  define answered where "answered = \<lparr>br_core = sample_answered digest, br_waiting = [],
    br_log = [Consented ''confirm-1'' (sample_consent digest)]\<rparr>"
  define ended where "ended = \<lparr>br_core = (sample_asked digest)\<lparr>co_confirmations := [], co_bindings := [],
      co_calls := [sample_executor_call]\<rparr>, br_waiting = [],
    br_log = [Ran sample_call sample_executor_call (Some (''confirm-1'', sample_consent digest)),
      Consented ''confirm-1'' (sample_consent digest)]\<rparr>"
  note finish = sample_finish [OF digest, unfolded sample_time_def]

  have "bridge_step sample_env sample_options (bridge_start (Some [(''hr'', [sample_grant])]))
      ((bridge_start (Some [(''hr'', [sample_grant])]))\<lparr>br_waiting := [?w]\<rparr>)"
    using sample_enter [of "bridge_start (Some [(''hr'', [sample_grant])])"] by (simp add: bridge_start_def new_core_def)
  moreover have "bridge_step sample_env sample_options ((bridge_start (Some [(''hr'', [sample_grant])]))\<lparr>br_waiting := [?w]\<rparr>) asked"
    using bridge_step.leave [of sample_call sample_grant "(bridge_start (Some [(''hr'', [sample_grant])]))\<lparr>br_waiting := [?w]\<rparr>"
        "\<lambda>_. ''1''" sample_env "\<lambda>_. 0" sample_options "Some sample_status"] finish(1)
    by (simp add: bridge_start_def issued_def new_core_def log_unused asked_def)
  moreover have "bridge_step sample_env sample_options asked answered"
  proof -
    have "respondBridgeConfirmation (at_time sample_env (\<lambda>_. 0) (\<lambda>_. [])) ''confirm-1'' True (br_core asked) =
        (sample_answered digest, Inr ((sample_record digest)\<lparr>cf_status := Approved\<rparr>))"
      by (simp add: respondBridgeConfirmation_def Let_def asked_def sample_asked_def sample_answered_def sample_record_def sample_expiry)
    from bridge_step.respond [OF this, of sample_options] show ?thesis
      by (simp add: asked_def answered_def respond_event_def sample_record_def)
  qed
  moreover have "bridge_step sample_env sample_options answered (answered\<lparr>br_waiting := [?w]\<rparr>)"
    using sample_enter [of answered] by (simp add: answered_def sample_answered_def sample_asked_def new_core_def)
  moreover have "bridge_step sample_env sample_options (answered\<lparr>br_waiting := [?w]\<rparr>)
     ended"
    using bridge_step.leave [of sample_call sample_grant "answered\<lparr>br_waiting := [?w]\<rparr>"
        "\<lambda>_. ''2''" sample_env "\<lambda>_. 0" sample_options "Some sample_status"] finish(2)
    by (simp add: answered_def ended_def issued_def sample_answered_def sample_asked_def plain_request_def sample_record_def log_unused)
  ultimately have "(bridge_step sample_env sample_options)\<^sup>*\<^sup>* (bridge_start (Some [(''hr'', [sample_grant])])) ended"
    by (meson rtranclp.rtrancl_into_rtrancl rtranclp.rtrancl_refl)
  then show thesis by (rule that) (simp add: ended_def)
qed

theorem bridge_consent_witness:
  "\<exists>digest. bridgePayloadDigest sample_env ''offer'' (Obj [(''role'', Str ''dev'')]) = Some digest \<and>
    covers sample_env sample_call sample_executor_call (sample_consent digest)"
proof -
  obtain digest where digest: "bridgePayloadDigest sample_env ''offer'' (Obj [(''role'', Str ''dev'')]) = Some digest"
    by (simp add: bridgePayloadDigest_def)
  obtain r where r: "(bridge_step sample_env sample_options)\<^sup>*\<^sup>* (bridge_start (Some [(''hr'', [sample_grant])])) r"
    "br_log r = [] @ Ran sample_call sample_executor_call (Some (''confirm-1'', sample_consent digest)) #
      [Consented ''confirm-1'' (sample_consent digest)]" by (rule sample_bridge_run [OF digest])
  have "filter permissionRequiresConfirmation (xc_permissions sample_executor_call) \<noteq> []"
    by (simp add: sample_executor_call_def permissionRequiresConfirmation_def READ_ONLY_ACTIONS_def)
  from bridge_consent [OF sample_sha256_inj r this] digest show ?thesis by auto
qed

theorem bridge_permissions_witness:
  "\<exists>digest. bridgePayloadDigest sample_env ''offer'' (Obj [(''role'', Str ''dev'')]) = Some digest \<and>
    co_calls (fst (finish_bridge (sample_time ''2'') sample_options sample_call sample_grant (Some sample_status)
      (sample_answered digest))) = [sample_executor_call] \<and>
    below (xc_budget sample_executor_call) (bg_budget sample_grant)"
proof -
  obtain digest where digest: "bridgePayloadDigest sample_env ''offer'' (Obj [(''role'', Str ''dev'')]) = Some digest"
    by (simp add: bridgePayloadDigest_def)
  note facts = bridge_permissions [OF sample_default_budget sample_finish(2) [OF digest]]
  have "co_calls (sample_answered digest) = []" by (simp add: sample_answered_def sample_asked_def new_core_def)
  with facts digest show ?thesis by (simp add: sample_finish(2) [OF digest])
qed

end
