(* ===== verification/Skill_Registry.thy ===== *)
theory Skill_Registry
  imports JS_Time Task_Fingerprint
begin

text \<open>
  The Skill registry of the desktop (\<^verbatim>\<open>apps/longhub-desktop/src/skill-registry.ts\<close>), which keeps the installed Skills and
  their bindings in a JSON file with a backup, and the checks of
  \<^verbatim>\<open>packages/longhub-pack-schema/src/skill-package.ts\<close> that are its own code: the ownership of Skill ids and the refinement of
  the schema. What the schema library accepts is the parameter \<open>schema\<close>, which answers with the parsed manifest; manifests are the
  values it returns. A file holds the value its text stands for, or nothing if the text is not JSON. Every method is a
  plan on the state in memory, then \<open>commit\<close>, which leaves the disk in one state after the other; a crash or a failed
  write stops it in any of them. The lemmas show the relationships every state keeps and that
  no crash loses more than the operation under way.
\<close>

subsection \<open>Manifests\<close>

fun at_path :: "js_value \<Rightarrow> string list \<Rightarrow> js_value" where
  "at_path v [] = v"
| "at_path (Obj members) (k # ks) = at_path (field members k) ks"
| "at_path _ (k # ks) = Undefined"

fun text_of_value :: "js_value \<Rightarrow> string" where
  "text_of_value (Str s) = s"
| "text_of_value _ = []"

fun texts_of_value :: "js_value \<Rightarrow> string list" where
  "texts_of_value (Arr vs) = map text_of_value vs"
| "texts_of_value _ = []"

abbreviation text_at :: "js_value \<Rightarrow> string list \<Rightarrow> string" where
  "text_at m path \<equiv> text_of_value (at_path m path)"

definition skill_id_of :: "js_value \<Rightarrow> string" where "skill_id_of m = text_at m [''skill'', ''id'']"
definition version_of :: "js_value \<Rightarrow> string" where "version_of m = text_at m [''skill'', ''version'']"
definition namespace_of :: "js_value \<Rightarrow> string" where "namespace_of m = text_at m [''skill'', ''publisher'', ''namespace'']"
definition digest_of :: "js_value \<Rightarrow> string" where "digest_of m = text_at m [''integrity'', ''digest'']"
definition profiles_of :: "js_value \<Rightarrow> string list" where
  "profiles_of m = texts_of_value (at_path m [''binding'', ''allowedAgentProfileIds''])"
definition default_enabled :: "js_value \<Rightarrow> bool" where
  "default_enabled m \<longleftrightarrow> at_path m [''binding'', ''defaultEnabled''] = Boolean True"

definition ends_with :: "string \<Rightarrow> string \<Rightarrow> bool" where
  "ends_with p s \<longleftrightarrow> suffix p s"

definition publisherOwnsSkillId :: "string \<Rightarrow> string \<Rightarrow> bool" where
  "publisherOwnsSkillId namespace skillId \<longleftrightarrow>
    starts_with (namespace @ ''.skill.'') skillId \<and> length namespace + length ''.skill.'' < length skillId"

definition requiresPerExecutionConfirmation :: "string \<Rightarrow> bool" where
  "requiresPerExecutionConfirmation permission \<longleftrightarrow> last (split_on CHR '':'' permission) \<notin> {''read'', ''list'', ''search''}"

text \<open>The refinement of the schema: the issues it may raise, each for one relation between parts of the manifest.\<close>

definition entrypoint_ok :: "js_value \<Rightarrow> bool" where
  "entrypoint_ok m \<longleftrightarrow>
    (let entry = text_at m [''runtime'', ''entrypoint''] in
     if text_at m [''runtime'', ''format''] = ''content-v1'' then ends_with ''.md'' entry \<or> ends_with ''.json'' entry
     else ends_with ''.json'' entry)"

definition manifest_refined :: "js_value \<Rightarrow> bool" where
  "manifest_refined m \<longleftrightarrow>
    publisherOwnsSkillId (namespace_of m) (skill_id_of m) \<and>
    (text_at m [''runtime'', ''kind''] = ''builtin'' \<longrightarrow> namespace_of m = ''longhub'') \<and>
    (text_at m [''runtime'', ''kind''] = ''declarative'' \<longrightarrow> entrypoint_ok m) \<and>
    \<not> (text_at m [''permissions'', ''confirmationClass''] = ''none'' \<and>
       list_ex requiresPerExecutionConfirmation (texts_of_value (at_path m [''permissions'', ''requested'']))) \<and>
    skill_id_of m \<notin> set (texts_of_value (at_path m [''capabilities'', ''requiredSkillIds'']))"

type_synonym manifest_schema = "js_value \<Rightarrow> js_value option"

definition validateSkillPackage :: "manifest_schema \<Rightarrow> js_value \<Rightarrow> js_value option" where
  "validateSkillPackage schema input =
    (case schema input of None \<Rightarrow> None | Some m \<Rightarrow> if manifest_refined m then Some m else None)"

datatype registry_error =
    SKILL_REGISTRY_OWNER_INVALID
  | SKILL_REGISTRY_CORRUPT
  | SKILL_REGISTRY_OWNER_MISMATCH
  | SKILL_REGISTRY_UNSAFE_PATH
  | SKILL_REGISTRY_SNAPSHOT_INVALID
  | SKILL_PACKAGE_INVALID
  | SKILL_ID_NAMESPACE_MISMATCH
  | SKILL_ID_OWNERSHIP_CONFLICT
  | SKILL_VERSION_IMMUTABLE
  | SKILL_BINDING_AGENT_MISMATCH
  | SKILL_NOT_INSTALLED
  | SKILL_BINDING_NOT_ALLOWED
  | SKILL_BINDING_NOT_FOUND
  | SKILL_REVOKED
  | SKILL_VERSION_NOT_INSTALLED
  | SKILL_ROLLBACK_UNAVAILABLE
  | PROFILE_ID_INVALID

definition assertSkillIdOwnership :: "string \<Rightarrow> string \<Rightarrow> string option \<Rightarrow> registry_error + unit" where
  "assertSkillIdOwnership skillId namespace existing =
    (if \<not> publisherOwnsSkillId namespace skillId then Inl SKILL_ID_NAMESPACE_MISMATCH
     else if existing \<noteq> None \<and> existing \<noteq> Some namespace then Inl SKILL_ID_OWNERSHIP_CONFLICT
     else Inr ())"

subsection \<open>Agent ids\<close>

text \<open>\<^verbatim>\<open>toLowerCase\<close> on the modelled code units\<close>

definition js_lower :: "char \<Rightarrow> char" where
  "js_lower c = (let n = (of_char c :: nat) in
     if is_upper c \<or> 192 \<le> n \<and> n \<le> 222 \<and> n \<noteq> 215 then char_of (n + 32) else c)"

definition is_agent_char :: "char \<Rightarrow> bool" where
  "is_agent_char c \<longleftrightarrow> is_lower c \<or> is_digit c \<or> c = CHR ''_'' \<or> c = CHR ''-''"

text \<open>Every run of other characters becomes one dash; \<open>inside\<close> tells whether one is being read.\<close>

fun dash_runs :: "bool \<Rightarrow> string \<Rightarrow> string" where
  "dash_runs inside [] = []"
| "dash_runs inside (c # s) =
    (if is_agent_char c then c # dash_runs False s
     else if inside then dash_runs True s else CHR ''-'' # dash_runs True s)"

definition strip_dashes :: "string \<Rightarrow> string" where
  "strip_dashes s = rev (dropWhile (\<lambda>c. c = CHR ''-'') (rev (dropWhile (\<lambda>c. c = CHR ''-'') s)))"

definition agentIdForProfile :: "js_env \<Rightarrow> string \<Rightarrow> registry_error + string" where
  "agentIdForProfile e profileId =
    (let normalized = strip_dashes (dash_runs False (map js_lower (js_trim profileId))) in
     if normalized = [] \<or> profileId = ''main'' then Inl PROFILE_ID_INVALID
     else Inr (take 51 normalized @ ''-'' @ take 12 (sha256 e profileId)))"

text \<open>\<^verbatim>\<open>AGENT_ID\<close>\<close>

definition agent_id_ok :: "string \<Rightarrow> bool" where
  "agent_id_ok = head_tail (\<lambda>c. is_lower c \<or> is_digit c) is_agent_char 0 63"

subsection \<open>The state\<close>

record InstalledSkillVersion =
  iv_manifest :: js_value
  iv_installedAt :: string

datatype skill_status = Skill_installed | Skill_revoked

record SkillRegistryEntry =
  se_skillId :: string
  se_publisherNamespace :: string
  se_activeVersion :: string
  se_previousVersion :: "string option"
  se_status :: skill_status
  se_versions :: "InstalledSkillVersion list"
  se_updatedAt :: string

record AgentSkillBinding =
  ab_skillId :: string
  ab_profileId :: string
  ab_agentId :: string
  ab_enabled :: bool
  ab_createdAt :: string
  ab_updatedAt :: string

record SkillRegistryState =
  rg_ownerHash :: string
  rg_revision :: int
  rg_skills :: "SkillRegistryEntry list"
  rg_bindings :: "AgentSkillBinding list"

definition ownerHash :: "js_env \<Rightarrow> string \<Rightarrow> registry_error + string" where
  "ownerHash e ownerScope =
    (if js_trim ownerScope = [] \<or> 512 < length ownerScope then Inl SKILL_REGISTRY_OWNER_INVALID else Inr (sha256 e ownerScope))"

definition isIsoTimestamp :: "js_env \<Rightarrow> js_value \<Rightarrow> bool" where
  "isIsoTimestamp e value = (case value of
     Str s \<Rightarrow> (case date_parse e s of None \<Rightarrow> False | Some t \<Rightarrow> toISOString t = s) | _ \<Rightarrow> False)"

definition exact_keys :: "(string \<times> js_value) list \<Rightarrow> string list \<Rightarrow> bool" where
  "exact_keys members keys \<longleftrightarrow> joined_keys (map fst members) = joined_keys keys"

definition find_version :: "string \<Rightarrow> InstalledSkillVersion list \<Rightarrow> InstalledSkillVersion option" where
  "find_version version versions = List.find (\<lambda>v. version_of (iv_manifest v) = version) versions"

definition find_entry :: "string \<Rightarrow> SkillRegistryEntry list \<Rightarrow> SkillRegistryEntry option" where
  "find_entry skillId entries = List.find (\<lambda>entry. se_skillId entry = skillId) entries"

definition active_manifest :: "SkillRegistryEntry \<Rightarrow> js_value option" where
  "active_manifest entry = map_option iv_manifest (find_version (se_activeVersion entry) (se_versions entry))"

definition version_names :: "InstalledSkillVersion list \<Rightarrow> string list" where
  "version_names versions = map (version_of \<circ> iv_manifest) versions"

definition binding_key :: "AgentSkillBinding \<Rightarrow> string" where
  "binding_key b = ab_agentId b @ nul # ab_skillId b"

definition binding_related :: "SkillRegistryEntry list \<Rightarrow> AgentSkillBinding \<Rightarrow> bool" where
  "binding_related entries b \<longleftrightarrow>
    (case find_entry (ab_skillId b) entries of
       None \<Rightarrow> False
     | Some entry \<Rightarrow>
         (case active_manifest entry of None \<Rightarrow> False | Some m \<Rightarrow> ab_profileId b \<in> set (profiles_of m)) \<and>
         \<not> (se_status entry = Skill_revoked \<and> ab_enabled b))"

definition relationships_ok :: "SkillRegistryState \<Rightarrow> bool" where
  "relationships_ok s \<longleftrightarrow> distinct (map se_skillId (rg_skills s)) \<and> distinct (map binding_key (rg_bindings s)) \<and>
    list_all (binding_related (rg_skills s)) (rg_bindings s)"

definition validateRelationships :: "SkillRegistryState \<Rightarrow> registry_error + SkillRegistryState" where
  "validateRelationships s = (if relationships_ok s then Inr s else Inl SKILL_REGISTRY_CORRUPT)"


subsection \<open>Reading a registry\<close>

definition parseVersion :: "js_env \<Rightarrow> manifest_schema \<Rightarrow> js_value \<Rightarrow> InstalledSkillVersion option" where
  "parseVersion e schema value = do {
     members \<leftarrow> object_members value;
     require (exact_keys members [''manifest'', ''installedAt''] \<and> isIsoTimestamp e (field members ''installedAt''));
     m \<leftarrow> validateSkillPackage schema (field members ''manifest'');
     installedAt \<leftarrow> string_value (field members ''installedAt'');
     Some \<lparr>iv_manifest = m, iv_installedAt = installedAt\<rparr>
   }"

fun parse_versions :: "js_env \<Rightarrow> manifest_schema \<Rightarrow> js_value list \<Rightarrow> InstalledSkillVersion list option" where
  "parse_versions e schema [] = Some []"
| "parse_versions e schema (v # vs) = do {
     version \<leftarrow> parseVersion e schema v;
     versions \<leftarrow> parse_versions e schema vs;
     Some (version # versions)
   }"

fun status_value :: "js_value \<Rightarrow> skill_status option" where
  "status_value (Str s) = (if s = ''installed'' then Some Skill_installed else if s = ''revoked'' then Some Skill_revoked else None)"
| "status_value _ = None"

fun optional_string :: "js_value \<Rightarrow> string option option" where
  "optional_string Undefined = Some None"
| "optional_string (Str s) = Some (Some s)"
| "optional_string _ = None"

text \<open>The versions of an entry: present, with different names, among them the active and the previous one, all of the same Skill.\<close>

definition versions_ok :: "SkillRegistryEntry \<Rightarrow> bool" where
  "versions_ok entry \<longleftrightarrow>
    se_versions entry \<noteq> [] \<and> distinct (version_names (se_versions entry)) \<and>
    se_activeVersion entry \<in> set (version_names (se_versions entry)) \<and>
    (case se_previousVersion entry of None \<Rightarrow> True | Some p \<Rightarrow> p \<in> set (version_names (se_versions entry))) \<and>
    list_all (\<lambda>v. skill_id_of (iv_manifest v) = se_skillId entry \<and> namespace_of (iv_manifest v) = se_publisherNamespace entry)
      (se_versions entry)"

definition entry_keys :: "bool \<Rightarrow> string list" where
  "entry_keys previous = [''activeVersion'', ''publisherNamespace'', ''skillId'', ''status'', ''updatedAt'', ''versions''] @
     (if previous then [''previousVersion''] else [])"

definition parseSkillEntry :: "js_env \<Rightarrow> manifest_schema \<Rightarrow> js_value \<Rightarrow> SkillRegistryEntry option" where
  "parseSkillEntry e schema value = do {
     members \<leftarrow> object_members value;
     require (exact_keys members (entry_keys (field members ''previousVersion'' \<noteq> Undefined)) \<and>
       isIsoTimestamp e (field members ''updatedAt''));
     items \<leftarrow> array_items (field members ''versions'');
     versions \<leftarrow> parse_versions e schema items;
     skillId \<leftarrow> string_value (field members ''skillId'');
     namespace \<leftarrow> string_value (field members ''publisherNamespace'');
     activeVersion \<leftarrow> string_value (field members ''activeVersion'');
     previous \<leftarrow> optional_string (field members ''previousVersion'');
     status \<leftarrow> status_value (field members ''status'');
     updatedAt \<leftarrow> string_value (field members ''updatedAt'');
     let entry = \<lparr>se_skillId = skillId, se_publisherNamespace = namespace, se_activeVersion = activeVersion,
       se_previousVersion = previous, se_status = status, se_versions = versions, se_updatedAt = updatedAt\<rparr>;
     require (versions_ok entry);
     Some entry
   }"

fun parse_entries :: "js_env \<Rightarrow> manifest_schema \<Rightarrow> js_value list \<Rightarrow> SkillRegistryEntry list option" where
  "parse_entries e schema [] = Some []"
| "parse_entries e schema (v # vs) = do {
     entry \<leftarrow> parseSkillEntry e schema v;
     entries \<leftarrow> parse_entries e schema vs;
     Some (entry # entries)
   }"

fun boolean_value :: "js_value \<Rightarrow> bool option" where
  "boolean_value (Boolean b) = Some b"
| "boolean_value _ = None"

definition parseBinding :: "js_env \<Rightarrow> js_value \<Rightarrow> AgentSkillBinding option" where
  "parseBinding e value = do {
     members \<leftarrow> object_members value;
     require (exact_keys members [''agentId'', ''createdAt'', ''enabled'', ''profileId'', ''skillId'', ''updatedAt'']);
     skillId \<leftarrow> string_value (field members ''skillId'');
     profileId \<leftarrow> string_value (field members ''profileId'');
     agentId \<leftarrow> string_value (field members ''agentId'');
     require (agent_id_ok agentId \<and> agentIdForProfile e profileId = Inr agentId);
     enabled \<leftarrow> boolean_value (field members ''enabled'');
     require (isIsoTimestamp e (field members ''createdAt'') \<and> isIsoTimestamp e (field members ''updatedAt''));
     createdAt \<leftarrow> string_value (field members ''createdAt'');
     updatedAt \<leftarrow> string_value (field members ''updatedAt'');
     Some \<lparr>ab_skillId = skillId, ab_profileId = profileId, ab_agentId = agentId, ab_enabled = enabled,
           ab_createdAt = createdAt, ab_updatedAt = updatedAt\<rparr>
   }"

fun parse_bindings :: "js_env \<Rightarrow> js_value list \<Rightarrow> AgentSkillBinding list option" where
  "parse_bindings e [] = Some []"
| "parse_bindings e (v # vs) = do { b \<leftarrow> parseBinding e v; bs \<leftarrow> parse_bindings e vs; Some (b # bs) }"

definition STATE_KEYS :: "string list" where
  "STATE_KEYS = [''bindings'', ''ownerHash'', ''revision'', ''schemaVersion'', ''skills'']"

text \<open>The lists of a registry file of the given version, with its revision; \<open>None\<close> if the file has another shape.\<close>

definition registry_parts ::
  "string \<Rightarrow> string \<Rightarrow> (string \<times> js_value) list \<Rightarrow> (int \<times> js_value list \<times> js_value list) option" where
  "registry_parts schemaVersion owner members = do {
     require (exact_keys members STATE_KEYS \<and> field members ''schemaVersion'' = Str schemaVersion \<and>
       field members ''ownerHash'' = Str owner);
     n \<leftarrow> number_value (field members ''revision'');
     revision \<leftarrow> natural n;
     skills \<leftarrow> array_items (field members ''skills'');
     bindings \<leftarrow> array_items (field members ''bindings'');
     Some (revision, skills, bindings)
   }"

definition related :: "string \<Rightarrow> int \<Rightarrow> SkillRegistryEntry list option \<Rightarrow> AgentSkillBinding list option \<Rightarrow>
    registry_error + SkillRegistryState" where
  "related owner revision skills bindings =
    (case (skills, bindings) of
       (Some ss, Some bs) \<Rightarrow> validateRelationships \<lparr>rg_ownerHash = owner, rg_revision = revision, rg_skills = ss, rg_bindings = bs\<rparr>
     | _ \<Rightarrow> Inl SKILL_REGISTRY_CORRUPT)"

definition REGISTRY_SCHEMA :: string where "REGISTRY_SCHEMA = ''longhub/skill-registry/v1''"
definition LEGACY_SCHEMA :: string where "LEGACY_SCHEMA = ''longhub/skill-registry/v0''"

text \<open>A profile id that no agent id belongs to throws another error, which \<open>load\<close> treats in the same way.\<close>

definition parseV1 :: "js_env \<Rightarrow> manifest_schema \<Rightarrow> string \<Rightarrow> js_value \<Rightarrow> registry_error + SkillRegistryState" where
  "parseV1 e schema owner input =
    (case object_members input of
       None \<Rightarrow> Inl SKILL_REGISTRY_CORRUPT
     | Some members \<Rightarrow>
         (case (if is_digest owner then registry_parts REGISTRY_SCHEMA owner members else None) of
            None \<Rightarrow> Inl (if field members ''ownerHash'' \<noteq> Str owner then SKILL_REGISTRY_OWNER_MISMATCH else SKILL_REGISTRY_CORRUPT)
          | Some (revision, skills, bindings) \<Rightarrow>
              related owner revision (parse_entries e schema skills) (parse_bindings e bindings)))"

definition legacy_entry :: "manifest_schema \<Rightarrow> string \<Rightarrow> js_value \<Rightarrow> SkillRegistryEntry option" where
  "legacy_entry schema now value = map_option
     (\<lambda>m. \<lparr>se_skillId = skill_id_of m, se_publisherNamespace = namespace_of m, se_activeVersion = version_of m,
       se_previousVersion = None, se_status = Skill_installed,
       se_versions = [\<lparr>iv_manifest = m, iv_installedAt = now\<rparr>], se_updatedAt = now\<rparr>)
     (validateSkillPackage schema value)"

fun legacy_entries :: "manifest_schema \<Rightarrow> string \<Rightarrow> js_value list \<Rightarrow> SkillRegistryEntry list option" where
  "legacy_entries schema now [] = Some []"
| "legacy_entries schema now (v # vs) = do {
     entry \<leftarrow> legacy_entry schema now v;
     entries \<leftarrow> legacy_entries schema now vs;
     Some (entry # entries)
   }"

definition legacy_binding :: "js_env \<Rightarrow> string \<Rightarrow> js_value \<Rightarrow> AgentSkillBinding option" where
  "legacy_binding e now value = do {
     members \<leftarrow> object_members value;
     require (exact_keys members [''agentId'', ''enabled'', ''profileId'', ''skillId'']);
     skillId \<leftarrow> string_value (field members ''skillId'');
     profileId \<leftarrow> string_value (field members ''profileId'');
     agentId \<leftarrow> string_value (field members ''agentId'');
     require (agentIdForProfile e profileId = Inr agentId);
     enabled \<leftarrow> boolean_value (field members ''enabled'');
     Some \<lparr>ab_skillId = skillId, ab_profileId = profileId, ab_agentId = agentId, ab_enabled = enabled,
           ab_createdAt = now, ab_updatedAt = now\<rparr>
   }"

fun legacy_bindings :: "js_env \<Rightarrow> string \<Rightarrow> js_value list \<Rightarrow> AgentSkillBinding list option" where
  "legacy_bindings e now [] = Some []"
| "legacy_bindings e now (v # vs) = do { b \<leftarrow> legacy_binding e now v; bs \<leftarrow> legacy_bindings e now vs; Some (b # bs) }"

definition parseLegacy ::
  "js_env \<Rightarrow> manifest_schema \<Rightarrow> string \<Rightarrow> string \<Rightarrow> (string \<times> js_value) list \<Rightarrow> registry_error + SkillRegistryState" where
  "parseLegacy e schema owner now members =
    (case registry_parts LEGACY_SCHEMA owner members of
       None \<Rightarrow> Inl SKILL_REGISTRY_CORRUPT
     | Some (revision, skills, bindings) \<Rightarrow>
         related owner (revision + 1) (legacy_entries schema now skills) (legacy_bindings e now bindings))"

subsection \<open>Writing a registry\<close>

definition version_value :: "InstalledSkillVersion \<Rightarrow> js_value" where
  "version_value v = Obj [(''manifest'', iv_manifest v), (''installedAt'', Str (iv_installedAt v))]"

definition entry_value :: "SkillRegistryEntry \<Rightarrow> js_value" where
  "entry_value entry = Obj
    ([(''skillId'', Str (se_skillId entry)), (''publisherNamespace'', Str (se_publisherNamespace entry)),
      (''activeVersion'', Str (se_activeVersion entry))] @
     (case se_previousVersion entry of None \<Rightarrow> [] | Some p \<Rightarrow> [(''previousVersion'', Str p)]) @
     [(''status'', Str (if se_status entry = Skill_installed then ''installed'' else ''revoked'')),
      (''versions'', Arr (map version_value (se_versions entry))), (''updatedAt'', Str (se_updatedAt entry))])"

definition binding_json :: "AgentSkillBinding \<Rightarrow> js_value" where
  "binding_json b = Obj
    [(''skillId'', Str (ab_skillId b)), (''profileId'', Str (ab_profileId b)), (''agentId'', Str (ab_agentId b)),
     (''enabled'', Boolean (ab_enabled b)), (''createdAt'', Str (ab_createdAt b)), (''updatedAt'', Str (ab_updatedAt b))]"

definition state_value :: "SkillRegistryState \<Rightarrow> js_value" where
  "state_value s = Obj
    [(''schemaVersion'', Str REGISTRY_SCHEMA), (''ownerHash'', Str (rg_ownerHash s)),
     (''revision'', Number (IntNum (rg_revision s))), (''skills'', Arr (map entry_value (rg_skills s))),
     (''bindings'', Arr (map binding_json (rg_bindings s)))]"

text \<open>\<^verbatim>\<open>JSON.parse(JSON.stringify(v))\<close>: what of a value its JSON text keeps.\<close>

fun through_json :: "js_value \<Rightarrow> js_value" where
  "through_json Undefined = Null"
| "through_json (Number NaN) = Null"
| "through_json (Number PosInf) = Null"
| "through_json (Number NegInf) = Null"
| "through_json (Arr vs) = Arr (map through_json vs)"
| "through_json (Obj members) =
    Obj (map (\<lambda>(k, v). (k, through_json v)) (filter (\<lambda>(k, v). v \<noteq> Undefined) members))"
| "through_json v = v"


subsection \<open>The disk\<close>

text \<open>
  What a path holds; the content of a text that is not JSON is \<open>None\<close>. Only the path of the registry may hold another
  thing than a regular file; the backup and the temporary files hold a content or nothing.
\<close>

datatype disk_file = Regular "js_value option" | Symlink "js_value option" | Directory

record registry_disk =
  dk_file :: "disk_file option"
  dk_backup :: "js_value option option"
  dk_temporary :: "js_value option option"
  dk_backupTemporary :: "js_value option option"

record registry =
  rx_state :: SkillRegistryState
  rx_disk :: registry_disk

fun file_value :: "disk_file option \<Rightarrow> js_value option" where
  "file_value (Some (Regular v)) = v"
| "file_value (Some (Symlink v)) = v"
| "file_value _ = None"

text \<open>\<open>writeCurrent\<close>: the disks it passes through, first with a temporary file that is only begun.\<close>

definition write_disks :: "SkillRegistryState \<Rightarrow> registry_disk \<Rightarrow> registry_disk list" where
  "write_disks s d =
    [d\<lparr>dk_temporary := Some None\<rparr>,
     d\<lparr>dk_temporary := Some (Some (through_json (state_value s)))\<rparr>,
     d\<lparr>dk_file := Some (Regular (Some (through_json (state_value s)))), dk_temporary := None\<rparr>]"

text \<open>
  \<open>commit\<close>: the same, with a copy of the file to the backup before the last step, if there is a file. Only a regular file
  is replaced; otherwise the call fails with the temporary file written.
\<close>

definition backup_disks :: "registry_disk \<Rightarrow> registry_disk list" where
  "backup_disks d =
    [d\<lparr>dk_backupTemporary := Some None\<rparr>,
     d\<lparr>dk_backupTemporary := Some (file_value (dk_file d))\<rparr>,
     d\<lparr>dk_backup := Some (file_value (dk_file d)), dk_backupTemporary := None\<rparr>]"

definition written :: "SkillRegistryState \<Rightarrow> registry_disk \<Rightarrow> registry_disk" where
  "written s d = d\<lparr>dk_temporary := Some (Some (through_json (state_value s)))\<rparr>"

definition moved :: "registry_disk \<Rightarrow> registry_disk" where
  "moved d = d\<lparr>dk_file := map_option Regular (dk_temporary d), dk_temporary := None\<rparr>"

definition replaceable :: "registry_disk \<Rightarrow> bool" where
  "replaceable d \<longleftrightarrow> (case dk_file d of Some (Regular v) \<Rightarrow> True | None \<Rightarrow> True | _ \<Rightarrow> False)"

definition commit_disks :: "SkillRegistryState \<Rightarrow> registry_disk \<Rightarrow> registry_disk list" where
  "commit_disks s d =
    [d\<lparr>dk_temporary := Some None\<rparr>, written s d] @
    (if \<not> replaceable d then []
     else if dk_file d = None then [moved (written s d)]
     else backup_disks (written s d) @ [moved (last (backup_disks (written s d)))])"

definition next_state :: "js_env \<Rightarrow> SkillRegistryEntry list \<Rightarrow> AgentSkillBinding list \<Rightarrow> SkillRegistryState \<Rightarrow>
    registry_error + SkillRegistryState" where
  "next_state e skills bindings s = validateRelationships
    \<lparr>rg_ownerHash = rg_ownerHash s, rg_revision = rg_revision s + 1,
     rg_skills = js_sort (\<lambda>a b. localeCompare e (se_skillId a) (se_skillId b)) skills,
     rg_bindings = js_sort (\<lambda>a b. localeCompare e (binding_key a) (binding_key b)) bindings\<rparr>"

definition commit :: "js_env \<Rightarrow> SkillRegistryEntry list \<Rightarrow> AgentSkillBinding list \<Rightarrow> registry \<Rightarrow> registry \<times> (registry_error + unit)" where
  "commit e skills bindings r =
    (case next_state e skills bindings (rx_state r) of
       Inl err \<Rightarrow> (r, Inl err)
     | Inr next \<Rightarrow>
         let disk = last (commit_disks next (rx_disk r)) in
         if replaceable (rx_disk r) then (\<lparr>rx_state = next, rx_disk = disk\<rparr>, Inr ())
         else (r\<lparr>rx_disk := disk\<rparr>, Inl SKILL_REGISTRY_UNSAFE_PATH))"

text \<open>
  \<open>load\<close>: the state it returns, and the state it writes back when the file was of the old version or had to be recovered from
  the backup. A file that is missing is read from the backup; so is one that does not parse.
\<close>

definition empty_registry :: "string \<Rightarrow> SkillRegistryState" where
  "empty_registry owner = \<lparr>rg_ownerHash = owner, rg_revision = 0, rg_skills = [], rg_bindings = []\<rparr>"

definition recoverFromBackup :: "js_env \<Rightarrow> manifest_schema \<Rightarrow> string \<Rightarrow> registry_disk \<Rightarrow>
    registry_error + SkillRegistryState \<times> bool" where
  "recoverFromBackup e schema owner d =
    (case Option.bind (dk_backup d) id of
       None \<Rightarrow> Inl SKILL_REGISTRY_CORRUPT
     | Some v \<Rightarrow>
         (case parseV1 e schema owner v of
            Inr s \<Rightarrow> if dk_file d = Some Directory then Inl SKILL_REGISTRY_CORRUPT else Inr (s, True)
          | Inl err \<Rightarrow> Inl (if err = SKILL_REGISTRY_OWNER_MISMATCH then err else SKILL_REGISTRY_CORRUPT)))"

definition parse_file :: "js_env \<Rightarrow> manifest_schema \<Rightarrow> string \<Rightarrow> js_value option \<Rightarrow> registry_error + SkillRegistryState \<times> bool" where
  "parse_file e schema owner content =
    (case content of
       None \<Rightarrow> Inl SKILL_REGISTRY_CORRUPT
     | Some v \<Rightarrow>
         (case object_members v of
            Some members \<Rightarrow>
              if field members ''schemaVersion'' = Str LEGACY_SCHEMA
              then map_sum id (\<lambda>s. (s, True)) (parseLegacy e schema owner (now_iso e 0) members)
              else map_sum id (\<lambda>s. (s, False)) (parseV1 e schema owner v)
          | None \<Rightarrow> map_sum id (\<lambda>s. (s, False)) (parseV1 e schema owner v)))"

definition load :: "js_env \<Rightarrow> manifest_schema \<Rightarrow> string \<Rightarrow> registry_disk \<Rightarrow> registry_error + SkillRegistryState \<times> bool" where
  "load e schema owner d =
    (if dk_file d = None then
       (if dk_backup d = None then Inr (empty_registry owner, False) else recoverFromBackup e schema owner d)
     else (case parse_file e schema owner (file_value (dk_file d)) of
         Inr answer \<Rightarrow> Inr answer
       | Inl err \<Rightarrow>
           if err = SKILL_REGISTRY_OWNER_MISMATCH then Inl err
           else if dk_backup d \<noteq> None then recoverFromBackup e schema owner d
           else Inl SKILL_REGISTRY_CORRUPT))"

definition open_registry :: "js_env \<Rightarrow> manifest_schema \<Rightarrow> string \<Rightarrow> registry_disk \<Rightarrow> registry_error + registry" where
  "open_registry e schema ownerScope d =
    (case ownerHash e ownerScope of
       Inl err \<Rightarrow> Inl err
     | Inr owner \<Rightarrow>
         (case load e schema owner d of
            Inl err \<Rightarrow> Inl err
          | Inr (s, write) \<Rightarrow> Inr \<lparr>rx_state = s, rx_disk = (if write then last (write_disks s d) else d)\<rparr>))"

subsection \<open>Plans\<close>

text \<open>What a method answers, and the Skills and bindings it commits before, if it commits.\<close>

type_synonym 'r registry_plan = "registry_error + (SkillRegistryEntry list \<times> AgentSkillBinding list) option \<times> 'r"

definition replace_entry :: "SkillRegistryEntry \<Rightarrow> SkillRegistryEntry list \<Rightarrow> SkillRegistryEntry list" where
  "replace_entry next entries = map (\<lambda>entry. if se_skillId entry = se_skillId next then next else entry) entries"

definition installed_entry :: "js_value \<Rightarrow> bool \<Rightarrow> string \<Rightarrow> SkillRegistryEntry option \<Rightarrow> SkillRegistryEntry" where
  "installed_entry m activate now existing =
    (let new = \<lparr>iv_manifest = m, iv_installedAt = now\<rparr> in
     case existing of
       Some entry \<Rightarrow>
         let entry = (if activate then entry\<lparr>se_previousVersion := Some (se_activeVersion entry), se_activeVersion := version_of m\<rparr> else entry)
         in entry\<lparr>se_status := Skill_installed, se_versions := se_versions entry @ [new], se_updatedAt := now\<rparr>
     | None \<Rightarrow> \<lparr>se_skillId = skill_id_of m, se_publisherNamespace = namespace_of m, se_activeVersion = version_of m,
         se_previousVersion = None, se_status = Skill_installed, se_versions = [new], se_updatedAt = now\<rparr>)"

definition plan_install :: "js_env \<Rightarrow> manifest_schema \<Rightarrow> js_value \<Rightarrow> bool \<Rightarrow> SkillRegistryState \<Rightarrow> SkillRegistryEntry registry_plan" where
  "plan_install e schema input activate s =
    (case validateSkillPackage schema input of
       None \<Rightarrow> Inl SKILL_PACKAGE_INVALID
     | Some m \<Rightarrow>
         let existing = find_entry (skill_id_of m) (rg_skills s) in
         (case assertSkillIdOwnership (skill_id_of m) (namespace_of m) (map_option se_publisherNamespace existing) of
            Inl err \<Rightarrow> Inl err
          | Inr _ \<Rightarrow>
              (case Option.bind existing (\<lambda>entry. map_option (Pair entry) (find_version (version_of m) (se_versions entry))) of
                 Some (entry, same) \<Rightarrow>
                   if digest_of (iv_manifest same) \<noteq> digest_of m then Inl SKILL_VERSION_IMMUTABLE else Inr (None, entry)
               | None \<Rightarrow>
                   let next = installed_entry m activate (now_iso e 0) existing in
                   Inr (Some ((if existing = None then rg_skills s @ [next] else replace_entry next (rg_skills s)), rg_bindings s), next))))"

record bind_params =
  bd_skillId :: string
  bd_profileId :: string
  bd_agentId :: string
  bd_enabled :: "bool option"

definition find_binding :: "string \<Rightarrow> string \<Rightarrow> AgentSkillBinding list \<Rightarrow> AgentSkillBinding option" where
  "find_binding agentId skillId bindings = List.find (\<lambda>b. ab_agentId b = agentId \<and> ab_skillId b = skillId) bindings"

definition replace_binding :: "AgentSkillBinding \<Rightarrow> AgentSkillBinding list \<Rightarrow> AgentSkillBinding list" where
  "replace_binding next bindings =
    map (\<lambda>b. if ab_agentId b = ab_agentId next \<and> ab_skillId b = ab_skillId next then next else b) bindings"

definition bind_skill :: "js_env \<Rightarrow> bind_params \<Rightarrow> js_value \<Rightarrow> SkillRegistryState \<Rightarrow> AgentSkillBinding registry_plan" where
  "bind_skill e p m s =
    (let existing = find_binding (bd_agentId p) (bd_skillId p) (rg_bindings s);
         next = \<lparr>ab_skillId = bd_skillId p, ab_profileId = bd_profileId p, ab_agentId = bd_agentId p,
                  ab_enabled = (case bd_enabled p of None \<Rightarrow> default_enabled m | Some b \<Rightarrow> b),
                  ab_createdAt = (case existing of None \<Rightarrow> now_iso e 0 | Some b \<Rightarrow> ab_createdAt b), ab_updatedAt = now_iso e 0\<rparr>
     in case existing of
          Some b \<Rightarrow> if ab_enabled b = ab_enabled next \<and> ab_profileId b = ab_profileId next then Inr (None, b)
            else Inr (Some (rg_skills s, replace_binding next (rg_bindings s)), next)
        | None \<Rightarrow> Inr (Some (rg_skills s, rg_bindings s @ [next]), next))"

definition plan_bind :: "js_env \<Rightarrow> bind_params \<Rightarrow> SkillRegistryState \<Rightarrow> AgentSkillBinding registry_plan" where
  "plan_bind e p s =
    (case agentIdForProfile e (bd_profileId p) of
       Inl err \<Rightarrow> Inl err
     | Inr agentId \<Rightarrow>
         if bd_agentId p \<noteq> agentId then Inl SKILL_BINDING_AGENT_MISMATCH
         else (case find_entry (bd_skillId p) (rg_skills s) of
             None \<Rightarrow> Inl SKILL_NOT_INSTALLED
           | Some skill \<Rightarrow>
               (case active_manifest skill of
                  None \<Rightarrow> Inl SKILL_NOT_INSTALLED
                | Some m \<Rightarrow>
                    if se_status skill \<noteq> Skill_installed then Inl SKILL_NOT_INSTALLED
                    else if bd_profileId p \<notin> set (profiles_of m) then Inl SKILL_BINDING_NOT_ALLOWED
                    else bind_skill e p m s)))"

definition plan_setBindingEnabled :: "js_env \<Rightarrow> string \<Rightarrow> string \<Rightarrow> bool \<Rightarrow> SkillRegistryState \<Rightarrow> AgentSkillBinding registry_plan" where
  "plan_setBindingEnabled e skillId agentId enabled s =
    (case (find_entry skillId (rg_skills s), find_binding agentId skillId (rg_bindings s)) of
       (Some entry, Some b) \<Rightarrow>
         if enabled \<and> se_status entry \<noteq> Skill_installed then Inl SKILL_REVOKED
         else if ab_enabled b = enabled then Inr (None, b)
         else let next = b\<lparr>ab_enabled := enabled, ab_updatedAt := now_iso e 0\<rparr>
           in Inr (Some (rg_skills s, replace_binding next (rg_bindings s)), next)
     | _ \<Rightarrow> Inl SKILL_BINDING_NOT_FOUND)"

definition plan_activateVersion :: "js_env \<Rightarrow> string \<Rightarrow> string \<Rightarrow> SkillRegistryState \<Rightarrow> SkillRegistryEntry registry_plan" where
  "plan_activateVersion e skillId version s =
    (case find_entry skillId (rg_skills s) of
       None \<Rightarrow> Inl SKILL_NOT_INSTALLED
     | Some entry \<Rightarrow>
         if se_status entry \<noteq> Skill_installed then Inl SKILL_REVOKED
         else if version \<notin> set (version_names (se_versions entry)) then Inl SKILL_VERSION_NOT_INSTALLED
         else if se_activeVersion entry = version then Inr (None, entry)
         else let next = entry\<lparr>se_activeVersion := version, se_previousVersion := Some (se_activeVersion entry), se_updatedAt := now_iso e 0\<rparr>
           in Inr (Some (replace_entry next (rg_skills s), rg_bindings s), next))"

definition plan_rollback :: "js_env \<Rightarrow> string \<Rightarrow> SkillRegistryState \<Rightarrow> SkillRegistryEntry registry_plan" where
  "plan_rollback e skillId s =
    (case Option.bind (find_entry skillId (rg_skills s)) (\<lambda>entry. truthy (se_previousVersion entry)) of
       None \<Rightarrow> Inl SKILL_ROLLBACK_UNAVAILABLE
     | Some version \<Rightarrow> plan_activateVersion e skillId version s)"

definition plan_markRevoked :: "js_env \<Rightarrow> string \<Rightarrow> SkillRegistryState \<Rightarrow> SkillRegistryEntry registry_plan" where
  "plan_markRevoked e skillId s =
    (case find_entry skillId (rg_skills s) of
       None \<Rightarrow> Inl SKILL_NOT_INSTALLED
     | Some entry \<Rightarrow>
         if se_status entry = Skill_revoked then Inr (None, entry)
         else let next = entry\<lparr>se_status := Skill_revoked, se_updatedAt := now_iso e 0\<rparr>
           in Inr (Some (replace_entry next (rg_skills s),
                map (\<lambda>b. if ab_skillId b = skillId then b\<lparr>ab_enabled := False, ab_updatedAt := now_iso e 0\<rparr> else b) (rg_bindings s)), next))"

definition plan_remove :: "string \<Rightarrow> SkillRegistryState \<Rightarrow> unit registry_plan" where
  "plan_remove skillId s =
    (if find_entry skillId (rg_skills s) = None then Inl SKILL_NOT_INSTALLED
     else Inr (Some (filter (\<lambda>entry. se_skillId entry \<noteq> skillId) (rg_skills s),
       filter (\<lambda>b. ab_skillId b \<noteq> skillId) (rg_bindings s)), ()))"

record SkillRegistrySnapshot =
  sn_revision :: js_number
  sn_skills :: "SkillRegistryEntry list"
  sn_bindings :: "AgentSkillBinding list"

definition plan_restore :: "SkillRegistrySnapshot \<Rightarrow> SkillRegistryState \<Rightarrow> unit registry_plan" where
  "plan_restore snapshot s =
    (if natural (sn_revision snapshot) = None then Inl SKILL_REGISTRY_SNAPSHOT_INVALID
     else (case validateRelationships (s\<lparr>rg_skills := sn_skills snapshot, rg_bindings := sn_bindings snapshot\<rparr>) of
         Inl err \<Rightarrow> Inl err
       | Inr checked \<Rightarrow> Inr (Some (rg_skills checked, rg_bindings checked), ())))"


subsection \<open>The methods\<close>

definition run_plan :: "js_env \<Rightarrow> 'r registry_plan \<Rightarrow> registry \<Rightarrow> registry \<times> (registry_error + 'r)" where
  "run_plan e plan r =
    (case plan of
       Inl err \<Rightarrow> (r, Inl err)
     | Inr (None, x) \<Rightarrow> (r, Inr x)
     | Inr (Some (skills, bindings), x) \<Rightarrow>
         (case commit e skills bindings r of (r', Inl err) \<Rightarrow> (r', Inl err) | (r', Inr _) \<Rightarrow> (r', Inr x)))"

definition install :: "js_env \<Rightarrow> manifest_schema \<Rightarrow> js_value \<Rightarrow> bool \<Rightarrow> registry \<Rightarrow> registry \<times> (registry_error + SkillRegistryEntry)" where
  "install e schema input activate r = run_plan e (plan_install e schema input activate (rx_state r)) r"

definition bind_agent :: "js_env \<Rightarrow> bind_params \<Rightarrow> registry \<Rightarrow> registry \<times> (registry_error + AgentSkillBinding)" where
  "bind_agent e p r = run_plan e (plan_bind e p (rx_state r)) r"

definition setBindingEnabled :: "js_env \<Rightarrow> string \<Rightarrow> string \<Rightarrow> bool \<Rightarrow> registry \<Rightarrow> registry \<times> (registry_error + AgentSkillBinding)" where
  "setBindingEnabled e skillId agentId enabled r = run_plan e (plan_setBindingEnabled e skillId agentId enabled (rx_state r)) r"

definition activateVersion :: "js_env \<Rightarrow> string \<Rightarrow> string \<Rightarrow> registry \<Rightarrow> registry \<times> (registry_error + SkillRegistryEntry)" where
  "activateVersion e skillId version r = run_plan e (plan_activateVersion e skillId version (rx_state r)) r"

definition rollback :: "js_env \<Rightarrow> string \<Rightarrow> registry \<Rightarrow> registry \<times> (registry_error + SkillRegistryEntry)" where
  "rollback e skillId r = run_plan e (plan_rollback e skillId (rx_state r)) r"

definition markRevoked :: "js_env \<Rightarrow> string \<Rightarrow> registry \<Rightarrow> registry \<times> (registry_error + SkillRegistryEntry)" where
  "markRevoked e skillId r = run_plan e (plan_markRevoked e skillId (rx_state r)) r"

definition remove_skill :: "js_env \<Rightarrow> string \<Rightarrow> registry \<Rightarrow> registry \<times> (registry_error + unit)" where
  "remove_skill e skillId r = run_plan e (plan_remove skillId (rx_state r)) r"

definition restore :: "js_env \<Rightarrow> SkillRegistrySnapshot \<Rightarrow> registry \<Rightarrow> registry \<times> (registry_error + unit)" where
  "restore e snapshot r = run_plan e (plan_restore snapshot (rx_state r)) r"

definition snapshot_of :: "registry \<Rightarrow> SkillRegistrySnapshot" where
  "snapshot_of r = \<lparr>sn_revision = IntNum (rg_revision (rx_state r)), sn_skills = rg_skills (rx_state r),
     sn_bindings = rg_bindings (rx_state r)\<rparr>"

definition listBindings :: "string option \<Rightarrow> registry \<Rightarrow> AgentSkillBinding list" where
  "listBindings agentId r = (case agentId of
     None \<Rightarrow> rg_bindings (rx_state r) | Some a \<Rightarrow> filter (\<lambda>b. ab_agentId b = a) (rg_bindings (rx_state r)))"

definition findSkill :: "string \<Rightarrow> registry \<Rightarrow> SkillRegistryEntry option" where
  "findSkill skillId r = find_entry skillId (rg_skills (rx_state r))"

definition activeManifest :: "string \<Rightarrow> registry \<Rightarrow> js_value option" where
  "activeManifest skillId r = Option.bind (findSkill skillId r) active_manifest"

subsection \<open>Well-formed registries\<close>

abbreviation iso_ok :: "js_env \<Rightarrow> string \<Rightarrow> bool" where
  "iso_ok e s \<equiv> isIsoTimestamp e (Str s)"

definition manifest_ok :: "manifest_schema \<Rightarrow> js_value \<Rightarrow> bool" where
  "manifest_ok schema m \<longleftrightarrow> validateSkillPackage schema m = Some m \<and> through_json m = m"

definition entry_ok :: "js_env \<Rightarrow> manifest_schema \<Rightarrow> SkillRegistryEntry \<Rightarrow> bool" where
  "entry_ok e schema entry \<longleftrightarrow> versions_ok entry \<and> iso_ok e (se_updatedAt entry) \<and>
    list_all (\<lambda>v. manifest_ok schema (iv_manifest v) \<and> iso_ok e (iv_installedAt v)) (se_versions entry)"

definition binding_ok :: "js_env \<Rightarrow> AgentSkillBinding \<Rightarrow> bool" where
  "binding_ok e b \<longleftrightarrow> agent_id_ok (ab_agentId b) \<and> agentIdForProfile e (ab_profileId b) = Inr (ab_agentId b) \<and>
    iso_ok e (ab_createdAt b) \<and> iso_ok e (ab_updatedAt b)"

definition state_ok :: "js_env \<Rightarrow> manifest_schema \<Rightarrow> SkillRegistryState \<Rightarrow> bool" where
  "state_ok e schema s \<longleftrightarrow> list_all (entry_ok e schema) (rg_skills s) \<and> list_all (binding_ok e) (rg_bindings s) \<and>
    relationships_ok s \<and> is_digest (rg_ownerHash s) \<and> 0 \<le> rg_revision s \<and> rg_revision s \<le> maxSafeInteger"

text \<open>The pattern of a profile id (\<^verbatim>\<open>packIdSchema\<close>)\<close>

definition pack_id_ok :: "string \<Rightarrow> bool" where
  "pack_id_ok s \<longleftrightarrow> 2 \<le> length (split_on CHR ''.'' s) \<and>
    list_all (\<lambda>seg. seg \<noteq> [] \<and> is_lower (hd seg) \<and> list_all (\<lambda>c. is_lower c \<or> is_digit c \<or> c = CHR ''-'') (tl seg))
      (split_on CHR ''.'' s)"

text \<open>
  What the registry relies on: the schema answers with JSON when it is given JSON, accepts its answer again unchanged, and
  allows only profile ids of the pattern above and no empty version; a SHA-256 digest is written in 64 lower-case hexadecimal digits.
\<close>

definition schema_law :: "manifest_schema \<Rightarrow> bool" where
  "schema_law schema \<longleftrightarrow> (\<forall>v m. schema v = Some m \<longrightarrow>
     schema m = Some m \<and> (through_json v = v \<longrightarrow> through_json m = m) \<and> list_all pack_id_ok (profiles_of m) \<and> version_of m \<noteq> [])"

definition digest_law :: "js_env \<Rightarrow> bool" where
  "digest_law e \<longleftrightarrow> (\<forall>s. is_digest (sha256 e s))"

subsection \<open>A registry file reads back as it was written\<close>


lemma exact_keys_mset: "mset (map fst members) = mset keys \<Longrightarrow> exact_keys members keys"
  unfolding exact_keys_def by (rule joined_keys_mset)

lemma parse_version_value:
  assumes "manifest_ok schema (iv_manifest v)" and "iso_ok e (iv_installedAt v)"
  shows "parseVersion e schema (version_value v) = Some v"
proof -
  have keys: "exact_keys [(''manifest'', iv_manifest v), (''installedAt'', Str (iv_installedAt v))] [''manifest'', ''installedAt'']"
    by (rule exact_keys_mset) simp
  show ?thesis
    using assms keys by (simp add: parseVersion_def version_value_def field_def require_def manifest_ok_def)
qed

lemma parse_versions_value:
  "list_all (\<lambda>v. manifest_ok schema (iv_manifest v) \<and> iso_ok e (iv_installedAt v)) vs \<Longrightarrow>
    parse_versions e schema (map version_value vs) = Some vs"
  by (induction vs) (simp_all add: parse_version_value)

lemma parse_entry_value:
  assumes "entry_ok e schema entry"
  shows "parseSkillEntry e schema (entry_value entry) = Some entry"
proof -
  obtain members where members: "entry_value entry = Obj members" by (simp add: entry_value_def)
  have keys: "exact_keys members (entry_keys (se_previousVersion entry \<noteq> None))"
    using members by (intro exact_keys_mset) (auto simp: entry_value_def entry_keys_def split: option.splits)
  have look: "field members ''previousVersion'' = (case se_previousVersion entry of None \<Rightarrow> Undefined | Some p \<Rightarrow> Str p)"
      "field members ''updatedAt'' = Str (se_updatedAt entry)" "field members ''skillId'' = Str (se_skillId entry)"
      "field members ''versions'' = Arr (map version_value (se_versions entry))"
      "field members ''publisherNamespace'' = Str (se_publisherNamespace entry)"
      "field members ''activeVersion'' = Str (se_activeVersion entry)"
      "field members ''status'' = Str (if se_status entry = Skill_installed then ''installed'' else ''revoked'')"
    using members by (auto simp: entry_value_def field_def split: option.splits)
  have previous: "optional_string (field members ''previousVersion'') = Some (se_previousVersion entry)"
      "field members ''previousVersion'' \<noteq> Undefined \<longleftrightarrow> se_previousVersion entry \<noteq> None"
    by (simp_all add: look split: option.split)
  have status: "status_value (field members ''status'') = Some (se_status entry)"
    by (cases "se_status entry") (simp_all add: look)
  have versions: "parse_versions e schema (map version_value (se_versions entry)) = Some (se_versions entry)"
    using assms by (intro parse_versions_value) (simp add: entry_ok_def)
  have "versions_ok entry" "iso_ok e (se_updatedAt entry)" using assms by (simp_all add: entry_ok_def)
  moreover have eta: "\<lparr>se_skillId = se_skillId entry, se_publisherNamespace = se_publisherNamespace entry,
      se_activeVersion = se_activeVersion entry, se_previousVersion = se_previousVersion entry,
      se_status = se_status entry, se_versions = se_versions entry, se_updatedAt = se_updatedAt entry\<rparr> = entry" by simp
  ultimately show ?thesis
    using keys by (simp add: parseSkillEntry_def members previous status look(2-6) versions require_def Let_def eta)
qed

lemma parse_entries_value:
  "list_all (entry_ok e schema) entries \<Longrightarrow> parse_entries e schema (map entry_value entries) = Some entries"
  by (induction entries) (simp_all add: parse_entry_value)

lemma parse_binding_json:
  assumes "binding_ok e b"
  shows "parseBinding e (binding_json b) = Some b"
proof -
  have keys: "exact_keys
     [(''skillId'', Str (ab_skillId b)), (''profileId'', Str (ab_profileId b)), (''agentId'', Str (ab_agentId b)),
      (''enabled'', Boolean (ab_enabled b)), (''createdAt'', Str (ab_createdAt b)), (''updatedAt'', Str (ab_updatedAt b))]
     [''agentId'', ''createdAt'', ''enabled'', ''profileId'', ''skillId'', ''updatedAt'']"
    by (rule exact_keys_mset) simp
  show ?thesis
    using assms keys by (simp add: parseBinding_def binding_json_def field_def require_def binding_ok_def)
qed

lemma parse_bindings_json: "list_all (binding_ok e) bs \<Longrightarrow> parse_bindings e (map binding_json bs) = Some bs"
  by (induction bs) (simp_all add: parse_binding_json)

lemma parse_state_value:
  assumes "state_ok e schema s"
  shows "parseV1 e schema (rg_ownerHash s) (state_value s) = Inr s"
proof -
  obtain members where members: "state_value s = Obj members" by (simp add: state_value_def)
  have keys: "exact_keys members STATE_KEYS"
    using members by (intro exact_keys_mset) (auto simp: state_value_def STATE_KEYS_def)
  have look: "field members ''schemaVersion'' = Str REGISTRY_SCHEMA" "field members ''ownerHash'' = Str (rg_ownerHash s)"
      "field members ''revision'' = Number (IntNum (rg_revision s))" "field members ''skills'' = Arr (map entry_value (rg_skills s))"
      "field members ''bindings'' = Arr (map binding_json (rg_bindings s))"
    using members by (auto simp: state_value_def field_def)
  have "natural (IntNum (rg_revision s)) = Some (rg_revision s)"
    using assms by (simp add: natural_Some state_ok_def)
  then have parts: "registry_parts REGISTRY_SCHEMA (rg_ownerHash s) members =
      Some (rg_revision s, map entry_value (rg_skills s), map binding_json (rg_bindings s))"
    using keys by (simp add: registry_parts_def look require_def)
  have eta: "\<lparr>rg_ownerHash = rg_ownerHash s, rg_revision = rg_revision s, rg_skills = rg_skills s, rg_bindings = rg_bindings s\<rparr> = s"
    by simp
  from assms show ?thesis
    by (simp add: parseV1_def members parts related_def validateRelationships_def parse_entries_value parse_bindings_json state_ok_def eta)
qed

text \<open>What is written is JSON, so nothing of it is lost.\<close>

lemma entry_value_json: "entry_ok e schema entry \<Longrightarrow> through_json (entry_value entry) = entry_value entry"
  by (auto simp: entry_value_def version_value_def entry_ok_def manifest_ok_def list_all_iff validateSkillPackage_def
      split: option.splits)

lemma state_value_json:
  assumes "state_ok e schema s"
  shows "through_json (state_value s) = state_value s"
proof -
  have "map (through_json \<circ> entry_value) (rg_skills s) = map entry_value (rg_skills s)"
    using assms entry_value_json by (auto simp: state_ok_def list_all_iff)
  moreover have "map (through_json \<circ> binding_json) (rg_bindings s) = map binding_json (rg_bindings s)"
    by (simp add: binding_json_def)
  ultimately show ?thesis by (simp add: state_value_def)
qed

lemma state_value_not_legacy:
  "\<exists>members. object_members (state_value s) = Some members \<and> field members ''schemaVersion'' \<noteq> Str LEGACY_SCHEMA"
  by (simp add: state_value_def field_def REGISTRY_SCHEMA_def LEGACY_SCHEMA_def)

lemma parse_file_value:
  assumes "state_ok e schema s"
  shows "parse_file e schema (rg_ownerHash s) (Some (state_value s)) = Inr (s, False)"
  using state_value_not_legacy [of s] parse_state_value [OF assms] by (auto simp: parse_file_def)


subsection \<open>Agent ids have the pattern of agent ids\<close>

lemma drop_trailing: "\<not> P c \<Longrightarrow> \<exists>s'. rev (dropWhile P (rev (c # s))) = c # s' \<and> set s' \<subseteq> set s"
proof -
  assume c: "\<not> P c"
  have "rev (dropWhile P (rev s @ [c])) = c # rev (dropWhile P (rev s))"
    using c by (cases "\<forall>x \<in> set s. P x") (auto simp: dropWhile_append)
  then show ?thesis using set_dropWhileD by fastforce
qed

lemma dash_runs_chars: "list_all is_agent_char (dash_runs inside s)"
  by (induction inside s rule: dash_runs.induct) (simp_all add: is_agent_char_def)

lemma lower_char: "is_lower c \<Longrightarrow> is_agent_char c \<and> js_lower c = c \<and> \<not> is_space c \<and> c \<noteq> CHR ''-''"
  by (auto simp: is_lower_def is_upper_def char_in_def is_agent_char_def js_lower_def is_space_def Let_def)

lemma hex_agent_chars: "is_digest d \<Longrightarrow> list_all is_agent_char (take n d)"
proof -
  assume "is_digest d"
  then have hex: "\<And>c. c \<in> set d \<Longrightarrow> is_hex c" by (auto simp: is_digest_def all_within_def list_all_iff)
  have "is_agent_char c" if "is_hex c" for c
    using that by (auto simp: is_hex_def is_agent_char_def is_lower_def char_in_def)
  with hex show ?thesis by (auto simp: list_all_iff dest: in_set_takeD)
qed

lemma pack_id_head: "pack_id_ok p \<Longrightarrow> \<exists>c s. p = c # s \<and> is_lower c"
proof -
  assume ok: "pack_id_ok p"
  show ?thesis
  proof (cases p)
    case (Cons c s)
    show ?thesis
    proof (cases "split_on CHR ''.'' s")
      case Nil
      with ok Cons show ?thesis by (auto simp: pack_id_ok_def split: if_splits)
    next
      case seg: (Cons t ts)
      with ok Cons show ?thesis by (auto simp: pack_id_ok_def split: if_splits)
    qed
  qed (use ok in \<open>simp add: pack_id_ok_def\<close>)
qed

lemma agent_id_pattern:
  assumes "pack_id_ok p" and "digest_law e" and "agentIdForProfile e p = Inr a"
  shows "agent_id_ok a"
proof -
  obtain c s where p: "p = c # s" "is_lower c" using pack_id_head [OF assms(1)] by blast
  note c = lower_char [OF p(2)]
  obtain s1 where s1: "js_trim p = c # s1"
    using drop_trailing [of is_space c s] c by (auto simp: js_trim_def p)
  have runs: "dash_runs False (map js_lower (js_trim p)) = c # dash_runs False (map js_lower s1)"
    using c by (simp add: s1)
  obtain s2 where s2: "strip_dashes (dash_runs False (map js_lower (js_trim p))) = c # s2"
      "set s2 \<subseteq> set (dash_runs False (map js_lower s1))"
    using drop_trailing [of "\<lambda>c. c = CHR ''-''" c "dash_runs False (map js_lower s1)"] c by (auto simp: strip_dashes_def runs)
  have "list_all is_agent_char s2"
    using s2(2) dash_runs_chars [of False "map js_lower s1"] by (auto simp: list_all_iff)
  moreover have "list_all is_agent_char (take 12 (sha256 e p))"
    using assms(2) hex_agent_chars by (simp add: digest_law_def)
  moreover have "a = c # take 50 s2 @ ''-'' @ take 12 (sha256 e p)"
    using assms(3) by (simp add: agentIdForProfile_def Let_def s2(1) split: if_splits)
  ultimately show ?thesis
    using p(2) by (auto simp: agent_id_ok_def all_within_def list_all_iff is_agent_char_def dest: in_set_takeD)
qed

subsection \<open>Every plan is of well-formed parts\<close>

definition parts_ok :: "js_env \<Rightarrow> manifest_schema \<Rightarrow> SkillRegistryEntry list \<times> AgentSkillBinding list \<Rightarrow> bool" where
  "parts_ok e schema parts \<longleftrightarrow> list_all (entry_ok e schema) (fst parts) \<and> list_all (binding_ok e) (snd parts)"

definition plan_ok :: "js_env \<Rightarrow> manifest_schema \<Rightarrow> 'r registry_plan \<Rightarrow> bool" where
  "plan_ok e schema plan \<longleftrightarrow> (\<forall>parts x. plan = Inr (Some parts, x) \<longrightarrow> parts_ok e schema parts)"

lemma find_entry_Some: "find_entry k entries = Some entry \<Longrightarrow> entry \<in> set entries \<and> se_skillId entry = k"
  unfolding find_entry_def by (auto simp: find_Some_iff)

lemma find_version_Some: "find_version k vs = Some v \<Longrightarrow> v \<in> set vs \<and> version_of (iv_manifest v) = k"
  unfolding find_version_def by (auto simp: find_Some_iff)

lemma find_version_None: "find_version k vs = None \<longleftrightarrow> k \<notin> set (version_names vs)"
  by (auto simp: find_version_def find_None_iff version_names_def)

lemma find_binding_Some: "find_binding a k bs = Some b \<Longrightarrow> b \<in> set bs \<and> ab_agentId b = a \<and> ab_skillId b = k"
  unfolding find_binding_def by (auto simp: find_Some_iff)

lemma replace_entry_all: "list_all P entries \<Longrightarrow> P next \<Longrightarrow> list_all P (replace_entry next entries)"
  by (auto simp: replace_entry_def list_all_iff)

lemma replace_binding_all: "list_all P bs \<Longrightarrow> P next \<Longrightarrow> list_all P (replace_binding next bs)"
  by (auto simp: replace_binding_def list_all_iff)

lemma now_iso_ok: "common_era (clock e i) \<Longrightarrow> iso_ok e (now_iso e i)"
  by (simp add: isIsoTimestamp_def now_iso_def date_parse_toISOString)

lemma state_entry_ok: "state_ok e schema s \<Longrightarrow> find_entry k (rg_skills s) = Some entry \<Longrightarrow> entry_ok e schema entry"
  using find_entry_Some by (fastforce simp: state_ok_def list_all_iff)

lemma state_binding_ok: "state_ok e schema s \<Longrightarrow> find_binding a k (rg_bindings s) = Some b \<Longrightarrow> binding_ok e b"
  using find_binding_Some by (fastforce simp: state_ok_def list_all_iff)

lemma version_in_names: "v \<in> set vs \<Longrightarrow> version_of (iv_manifest v) \<in> set (version_names vs)"
  by (simp add: version_names_def)

lemma installed_entry_ok:
  assumes m: "manifest_ok schema m" and now: "iso_ok e now"
    and old: "\<And>entry. existing = Some entry \<Longrightarrow> entry_ok e schema entry \<and> se_skillId entry = skill_id_of m \<and>
      se_publisherNamespace entry = namespace_of m \<and> find_version (version_of m) (se_versions entry) = None"
  shows "entry_ok e schema (installed_entry m activate now existing)"
proof (cases existing)
  case None
  with m now show ?thesis by (simp add: installed_entry_def entry_ok_def versions_ok_def version_names_def)
next
  case (Some entry)
  note old = old [OF Some]
  then have "versions_ok entry" "version_of m \<notin> set (version_names (se_versions entry))"
    by (simp_all add: entry_ok_def find_version_None)
  then have "versions_ok (installed_entry m activate now (Some entry))"
    using old by (auto simp: installed_entry_def Let_def versions_ok_def version_names_def split: option.splits)
  with old m now Some show ?thesis by (auto simp: installed_entry_def Let_def entry_ok_def)
qed


lemma validated_manifest_ok:
  "schema_law schema \<Longrightarrow> through_json input = input \<Longrightarrow> validateSkillPackage schema input = Some m \<Longrightarrow> manifest_ok schema m"
  unfolding schema_law_def manifest_ok_def validateSkillPackage_def by (auto split: option.splits if_splits)

lemma manifest_profiles: "schema_law schema \<Longrightarrow> manifest_ok schema m \<Longrightarrow> p \<in> set (profiles_of m) \<Longrightarrow> pack_id_ok p"
  unfolding schema_law_def manifest_ok_def validateSkillPackage_def list_all_iff by (auto split: option.splits if_splits)

lemma active_manifest_ok:
  assumes "entry_ok e schema entry" and "active_manifest entry = Some m"
  shows "manifest_ok schema m"
proof -
  obtain v where "find_version (se_activeVersion entry) (se_versions entry) = Some v" "m = iv_manifest v"
    using assms(2) by (auto simp: active_manifest_def)
  with assms(1) find_version_Some show ?thesis by (fastforce simp: entry_ok_def list_all_iff)
qed

lemma unchanged_ok: "state_ok e schema s \<Longrightarrow> list_all (entry_ok e schema) (rg_skills s) \<and> list_all (binding_ok e) (rg_bindings s)"
  by (simp add: state_ok_def)

lemma install_plan_ok:
  assumes "schema_law schema" and "state_ok e schema s" and "common_era (clock e 0)" and "through_json input = input"
  shows "plan_ok e schema (plan_install e schema input activate s)"
  unfolding plan_ok_def
proof (intro allI impI)
  fix parts x assume plan: "plan_install e schema input activate s = Inr (Some parts, x)"
  define existing where "existing m = find_entry (skill_id_of m) (rg_skills s)" for m
  from plan obtain m where m: "validateSkillPackage schema input = Some m"
      and own: "assertSkillIdOwnership (skill_id_of m) (namespace_of m) (map_option se_publisherNamespace (existing m)) = Inr ()"
      and new: "Option.bind (existing m) (\<lambda>entry. map_option (Pair entry) (find_version (version_of m) (se_versions entry))) = None"
      and parts: "parts = ((if existing m = None then rg_skills s @ [installed_entry m activate (now_iso e 0) (existing m)]
        else replace_entry (installed_entry m activate (now_iso e 0) (existing m)) (rg_skills s)), rg_bindings s)"
    by (auto simp: plan_install_def Let_def existing_def [symmetric] split: option.splits sum.splits prod.splits if_splits)
  define installed where "installed = installed_entry m activate (now_iso e 0) (existing m)"
  have "entry_ok e schema installed"
    unfolding installed_def
  proof (rule installed_entry_ok)
    fix entry assume entry: "existing m = Some entry"
    with own new have "se_publisherNamespace entry = namespace_of m" "find_version (version_of m) (se_versions entry) = None"
      by (auto simp: assertSkillIdOwnership_def split: if_splits)
    with entry state_entry_ok [OF assms(2)] find_entry_Some show "entry_ok e schema entry \<and> se_skillId entry = skill_id_of m \<and>
        se_publisherNamespace entry = namespace_of m \<and> find_version (version_of m) (se_versions entry) = None"
      unfolding existing_def by blast
  qed (use validated_manifest_ok [OF assms(1,4) m] now_iso_ok [OF assms(3)] in auto)
  with unchanged_ok [OF assms(2)] show "parts_ok e schema parts"
    by (simp add: parts_ok_def parts [folded installed_def] replace_entry_all)
qed

lemma bind_plan_ok:
  assumes "schema_law schema" and "digest_law e" and "state_ok e schema s" and "common_era (clock e 0)"
  shows "plan_ok e schema (plan_bind e p s)"
  unfolding plan_ok_def
proof (intro allI impI)
  fix parts x assume plan: "plan_bind e p s = Inr (Some parts, x)"
  then obtain skill m where skill: "find_entry (bd_skillId p) (rg_skills s) = Some skill" "active_manifest skill = Some m"
      "bd_profileId p \<in> set (profiles_of m)" "agentIdForProfile e (bd_profileId p) = Inr (bd_agentId p)"
      and bound: "bind_skill e p m s = Inr (Some parts, x)"
    by (auto simp: plan_bind_def split: sum.splits option.splits if_splits)
  have "agent_id_ok (bd_agentId p)"
    using manifest_profiles [OF assms(1) active_manifest_ok [OF state_entry_ok [OF assms(3) skill(1)] skill(2)] skill(3)]
      agent_id_pattern assms(2) skill(4) by blast
  then have new: "binding_ok e \<lparr>ab_skillId = bd_skillId p, ab_profileId = bd_profileId p, ab_agentId = bd_agentId p,
      ab_enabled = on, ab_createdAt = at, ab_updatedAt = now_iso e 0\<rparr>" if "iso_ok e at" for on at
    using that skill(4) now_iso_ok [OF assms(4)] by (simp add: binding_ok_def)
  show "parts_ok e schema parts"
  proof (cases "find_binding (bd_agentId p) (bd_skillId p) (rg_bindings s)")
    case None
    with bound new now_iso_ok [OF assms(4)] unchanged_ok [OF assms(3)] show ?thesis
      by (auto simp: bind_skill_def parts_ok_def Let_def)
  next
    case (Some b)
    then have "iso_ok e (ab_createdAt b)" using state_binding_ok [OF assms(3)] by (simp add: binding_ok_def)
    then have "list_all (binding_ok e) (replace_binding \<lparr>ab_skillId = bd_skillId p, ab_profileId = bd_profileId p,
        ab_agentId = bd_agentId p, ab_enabled = on, ab_createdAt = ab_createdAt b, ab_updatedAt = now_iso e 0\<rparr> (rg_bindings s))" for on
      using new unchanged_ok [OF assms(3)] by (intro replace_binding_all) simp_all
    with Some bound unchanged_ok [OF assms(3)] show ?thesis
      by (auto simp: bind_skill_def parts_ok_def Let_def split: if_splits)
  qed
qed

lemma enable_plan_ok:
  assumes "state_ok e schema s" and "common_era (clock e 0)"
  shows "plan_ok e schema (plan_setBindingEnabled e skillId agentId enabled s)"
  unfolding plan_ok_def
proof (intro allI impI)
  fix parts x assume "plan_setBindingEnabled e skillId agentId enabled s = Inr (Some parts, x)"
  then obtain b where b: "find_binding agentId skillId (rg_bindings s) = Some b"
      and parts: "parts = (rg_skills s, replace_binding (b\<lparr>ab_enabled := enabled, ab_updatedAt := now_iso e 0\<rparr>) (rg_bindings s))"
    by (auto simp: plan_setBindingEnabled_def Let_def split: option.splits if_splits)
  have "binding_ok e (b\<lparr>ab_enabled := enabled, ab_updatedAt := now_iso e 0\<rparr>)"
    using state_binding_ok [OF assms(1) b] now_iso_ok [OF assms(2)] by (simp add: binding_ok_def)
  with unchanged_ok [OF assms(1)] show "parts_ok e schema parts"
    by (simp add: parts parts_ok_def replace_binding_all)
qed

lemma activate_plan_ok:
  assumes "state_ok e schema s" and "common_era (clock e 0)"
  shows "plan_ok e schema (plan_activateVersion e skillId version s)"
  unfolding plan_ok_def
proof (intro allI impI)
  fix parts x assume "plan_activateVersion e skillId version s = Inr (Some parts, x)"
  then obtain entry where entry: "find_entry skillId (rg_skills s) = Some entry" "version \<in> set (version_names (se_versions entry))"
      and parts: "parts = (replace_entry (entry\<lparr>se_activeVersion := version, se_previousVersion := Some (se_activeVersion entry),
        se_updatedAt := now_iso e 0\<rparr>) (rg_skills s), rg_bindings s)"
    by (auto simp: plan_activateVersion_def Let_def split: option.splits if_splits)
  have "entry_ok e schema (entry\<lparr>se_activeVersion := version, se_previousVersion := Some (se_activeVersion entry),
      se_updatedAt := now_iso e 0\<rparr>)"
    using state_entry_ok [OF assms(1) entry(1)] entry(2) now_iso_ok [OF assms(2)] by (simp add: entry_ok_def versions_ok_def)
  with unchanged_ok [OF assms(1)] show "parts_ok e schema parts"
    by (simp add: parts parts_ok_def replace_entry_all)
qed

lemma rollback_plan_ok:
  "state_ok e schema s \<Longrightarrow> common_era (clock e 0) \<Longrightarrow> plan_ok e schema (plan_rollback e skillId s)"
  using activate_plan_ok by (auto simp: plan_rollback_def plan_ok_def split: option.split)

lemma revoke_plan_ok:
  assumes "state_ok e schema s" and "common_era (clock e 0)"
  shows "plan_ok e schema (plan_markRevoked e skillId s)"
  unfolding plan_ok_def
proof (intro allI impI)
  fix parts x assume "plan_markRevoked e skillId s = Inr (Some parts, x)"
  then obtain entry where entry: "find_entry skillId (rg_skills s) = Some entry"
      and parts: "parts = (replace_entry (entry\<lparr>se_status := Skill_revoked, se_updatedAt := now_iso e 0\<rparr>) (rg_skills s),
        map (\<lambda>b. if ab_skillId b = skillId then b\<lparr>ab_enabled := False, ab_updatedAt := now_iso e 0\<rparr> else b) (rg_bindings s))"
    by (auto simp: plan_markRevoked_def Let_def split: option.splits if_splits)
  have "entry_ok e schema (entry\<lparr>se_status := Skill_revoked, se_updatedAt := now_iso e 0\<rparr>)"
    using state_entry_ok [OF assms(1) entry] now_iso_ok [OF assms(2)]
    by (auto simp: entry_ok_def versions_ok_def split: option.splits)
  moreover have "binding_ok e b \<Longrightarrow> binding_ok e (b\<lparr>ab_enabled := False, ab_updatedAt := now_iso e 0\<rparr>)" for b
    using now_iso_ok [OF assms(2)] by (simp add: binding_ok_def)
  ultimately show "parts_ok e schema parts"
    using unchanged_ok [OF assms(1)] by (auto simp: parts parts_ok_def list_all_iff replace_entry_def)
qed

lemma remove_plan_ok: "state_ok e schema s \<Longrightarrow> plan_ok e schema (plan_remove skillId s)"
  by (auto simp: plan_remove_def plan_ok_def parts_ok_def state_ok_def list_all_iff)

lemma restore_plan_ok:
  "parts_ok e schema (sn_skills snapshot, sn_bindings snapshot) \<Longrightarrow> plan_ok e schema (plan_restore snapshot s)"
  by (auto simp: plan_restore_def plan_ok_def validateRelationships_def split: if_splits)


subsection \<open>Operations and crashes\<close>

datatype registry_op =
    Install js_value bool
  | Bind bind_params
  | SetEnabled string string bool
  | ActivateVersion string string
  | Rollback string
  | MarkRevoked string
  | Remove string
  | Restore SkillRegistrySnapshot

fun perform :: "js_env \<Rightarrow> manifest_schema \<Rightarrow> registry_op \<Rightarrow> registry \<Rightarrow> registry" where
  "perform e schema (Install input activate) r = fst (install e schema input activate r)"
| "perform e schema (Bind p) r = fst (bind_agent e p r)"
| "perform e schema (SetEnabled skillId agentId enabled) r = fst (setBindingEnabled e skillId agentId enabled r)"
| "perform e schema (ActivateVersion skillId version) r = fst (activateVersion e skillId version r)"
| "perform e schema (Rollback skillId) r = fst (rollback e skillId r)"
| "perform e schema (MarkRevoked skillId) r = fst (markRevoked e skillId r)"
| "perform e schema (Remove skillId) r = fst (remove_skill e skillId r)"
| "perform e schema (Restore snapshot) r = fst (restore e snapshot r)"

text \<open>What an operation commits, if it gets that far.\<close>

definition committed :: "'r registry_plan \<Rightarrow> (SkillRegistryEntry list \<times> AgentSkillBinding list) option" where
  "committed plan = (case plan of Inl _ \<Rightarrow> None | Inr (parts, x) \<Rightarrow> parts)"

fun op_parts :: "js_env \<Rightarrow> manifest_schema \<Rightarrow> SkillRegistryState \<Rightarrow> registry_op \<Rightarrow> (SkillRegistryEntry list \<times> AgentSkillBinding list) option" where
  "op_parts e schema s (Install input activate) = committed (plan_install e schema input activate s)"
| "op_parts e schema s (Bind p) = committed (plan_bind e p s)"
| "op_parts e schema s (SetEnabled skillId agentId enabled) = committed (plan_setBindingEnabled e skillId agentId enabled s)"
| "op_parts e schema s (ActivateVersion skillId version) = committed (plan_activateVersion e skillId version s)"
| "op_parts e schema s (Rollback skillId) = committed (plan_rollback e skillId s)"
| "op_parts e schema s (MarkRevoked skillId) = committed (plan_markRevoked e skillId s)"
| "op_parts e schema s (Remove skillId) = committed (plan_remove skillId s)"
| "op_parts e schema s (Restore snapshot) = committed (plan_restore snapshot s)"

definition op_next :: "js_env \<Rightarrow> manifest_schema \<Rightarrow> registry_op \<Rightarrow> SkillRegistryState \<Rightarrow> SkillRegistryState option" where
  "op_next e schema op s = (case op_parts e schema s op of
     None \<Rightarrow> None | Some (skills, bindings) \<Rightarrow> (case next_state e skills bindings s of Inl _ \<Rightarrow> None | Inr next \<Rightarrow> Some next))"

text \<open>A manifest is read from JSON; a snapshot to restore holds entries and bindings as the registry has them.\<close>

fun op_input_ok :: "js_env \<Rightarrow> manifest_schema \<Rightarrow> registry_op \<Rightarrow> bool" where
  "op_input_ok e schema (Install input activate) = (through_json input = input)"
| "op_input_ok e schema (Restore snapshot) = parts_ok e schema (sn_skills snapshot, sn_bindings snapshot)"
| "op_input_ok e schema _ = True"

definition reopened :: "SkillRegistryState \<Rightarrow> bool \<Rightarrow> registry_disk \<Rightarrow> registry" where
  "reopened s write d = \<lparr>rx_state = s, rx_disk = (if write then last (write_disks s d) else d)\<rparr>"

inductive registry_step :: "js_env \<Rightarrow> manifest_schema \<Rightarrow> string \<Rightarrow> registry \<Rightarrow> registry \<Rightarrow> bool" for h schema owner where
  operate: "op_input_ok h schema op \<Longrightarrow> common_era (c 0) \<Longrightarrow> rg_revision (rx_state r) < maxSafeInteger \<Longrightarrow>
    registry_step h schema owner r (perform (at_time h c u) schema op r)"
| crash: "op_input_ok h schema op \<Longrightarrow> common_era (c 0) \<Longrightarrow> rg_revision (rx_state r) < maxSafeInteger \<Longrightarrow>
    op_next (at_time h c u) schema op (rx_state r) = Some next \<Longrightarrow> d \<in> set (commit_disks next (rx_disk r)) \<Longrightarrow>
    load (at_time h c' u') schema owner d = Inr (s, write) \<Longrightarrow>
    registry_step h schema owner r (reopened s write d)"

definition registry_start :: "string \<Rightarrow> registry" where
  "registry_start owner = \<lparr>rx_state = empty_registry owner,
     rx_disk = \<lparr>dk_file = None, dk_backup = None, dk_temporary = None, dk_backupTemporary = None\<rparr>\<rparr>"

subsection \<open>The invariant\<close>

lemma date_parse_at_time [simp]: "date_parse (at_time h c u) s = date_parse h s"
  by (simp add: date_parse_def)

lemma iso_at_time [simp]: "isIsoTimestamp (at_time h c u) v = isIsoTimestamp h v"
  by (simp add: isIsoTimestamp_def split: js_value.split)

lemma agent_id_at_time [simp]: "agentIdForProfile (at_time h c u) p = agentIdForProfile h p"
  by (simp add: agentIdForProfile_def Let_def)

lemma ok_at_time [simp]:
  "entry_ok (at_time h c u) schema entry = entry_ok h schema entry" "binding_ok (at_time h c u) b = binding_ok h b"
  "digest_law (at_time h c u) = digest_law h"
  by (simp_all add: entry_ok_def binding_ok_def digest_law_def)

lemma ok_at_time' [simp]:
  "entry_ok (at_time h c u) schema = entry_ok h schema" "binding_ok (at_time h c u) = binding_ok h"
  by (simp_all add: fun_eq_iff)

lemma state_ok_at_time [simp]:
  "state_ok (at_time h c u) schema s = state_ok h schema s" "parts_ok (at_time h c u) schema parts = parts_ok h schema parts"
  by (simp_all add: state_ok_def parts_ok_def)

lemma committed_Some: "committed plan = Some parts \<longleftrightarrow> (\<exists>x. plan = Inr (Some parts, x))"
  by (auto simp: committed_def split: sum.splits prod.splits)

lemma run_plan_commits:
  "fst (run_plan e plan r) = (case committed plan of None \<Rightarrow> r | Some (skills, bindings) \<Rightarrow> fst (commit e skills bindings r))"
  by (auto simp: run_plan_def committed_def split: sum.splits prod.splits option.splits)

lemma plan_committed_ok: "plan_ok e schema plan \<Longrightarrow> committed plan = Some parts \<Longrightarrow> parts_ok e schema parts"
  by (cases parts) (auto simp: plan_ok_def committed_Some)

lemma perform_commits:
  "perform e schema op r = (case op_parts e schema (rx_state r) op of
     None \<Rightarrow> r | Some (skills, bindings) \<Rightarrow> fst (commit e skills bindings r))"
  by (cases op) (simp_all add: run_plan_commits install_def bind_agent_def setBindingEnabled_def activateVersion_def rollback_def
      markRevoked_def remove_skill_def restore_def)

lemma op_parts_ok:
  assumes "schema_law schema" and "digest_law h" and "state_ok h schema s" and "common_era (c 0)" and "op_input_ok h schema op"
    and "op_parts (at_time h c u) schema s op = Some parts"
  shows "parts_ok h schema parts"
proof -
  let ?e = "at_time h c u"
  have era: "common_era (clock ?e 0)" and ok: "state_ok ?e schema s" and digests: "digest_law ?e" using assms(2-4) by simp_all
  note parts = plan_committed_ok [of ?e schema, simplified]
  show ?thesis
  proof (cases op)
    case (Install input activate)
    then show ?thesis using assms(5,6) install_plan_ok [OF assms(1) ok era] by (auto dest: parts [rotated])
  next
    case (Restore snapshot)
    then show ?thesis using assms(5,6) restore_plan_ok [of ?e schema snapshot s] by (auto dest: parts [rotated])
  qed (use assms(6) bind_plan_ok [OF assms(1) digests ok era] enable_plan_ok [OF ok era] activate_plan_ok [OF ok era]
      rollback_plan_ok [OF ok era] revoke_plan_ok [OF ok era] remove_plan_ok [OF ok] in \<open>auto dest: parts [rotated]\<close>)
qed

lemma next_state_ok:
  assumes "state_ok h schema s" and "parts_ok h schema (skills, bindings)" and "rg_revision s < maxSafeInteger"
    and "next_state e skills bindings s = Inr next"
  shows "state_ok h schema next" and "rg_ownerHash next = rg_ownerHash s"
  using assms by (auto simp: next_state_def validateRelationships_def state_ok_def parts_ok_def list_all_iff split: if_splits)


subsection \<open>The disk and the state in memory\<close>

text \<open>The file holds the state; before the first commit there is neither file nor backup.\<close>

definition on_disk :: "string \<Rightarrow> SkillRegistryState \<Rightarrow> registry_disk \<Rightarrow> bool" where
  "on_disk owner s d \<longleftrightarrow> dk_file d = Some (Regular (Some (state_value s))) \<or>
    dk_file d = None \<and> dk_backup d = None \<and> s = empty_registry owner"

definition registry_ok :: "js_env \<Rightarrow> manifest_schema \<Rightarrow> string \<Rightarrow> registry \<Rightarrow> bool" where
  "registry_ok h schema owner r \<longleftrightarrow> state_ok h schema (rx_state r) \<and> rg_ownerHash (rx_state r) = owner \<and>
    on_disk owner (rx_state r) (rx_disk r)"

lemma load_on_disk:
  assumes "state_ok h schema s" and "rg_ownerHash s = owner" and "on_disk owner s d"
  shows "load (at_time h c u) schema owner d = Inr (s, False)"
  using assms parse_file_value [of "at_time h c u" schema s] by (auto simp: load_def on_disk_def)

lemma commit_disks_file:
  assumes "d' \<in> set (commit_disks next d)" and "on_disk owner s d"
  shows "on_disk owner s d' \<or> dk_file d' = Some (Regular (Some (through_json (state_value next))))"
  using assms by (auto simp: commit_disks_def on_disk_def replaceable_def backup_disks_def written_def moved_def)

lemma commit_disks_last:
  "on_disk owner s d \<Longrightarrow> dk_file (last (commit_disks next d)) = Some (Regular (Some (through_json (state_value next)))) \<and>
    dk_backup (last (commit_disks next d)) = (if dk_file d = None then None else Some (Some (state_value s)))"
  by (auto simp: commit_disks_def on_disk_def replaceable_def backup_disks_def written_def moved_def)

lemma on_disk_replaceable: "on_disk owner s d \<Longrightarrow> replaceable d"
  by (auto simp: on_disk_def replaceable_def)

lemma op_next_ok:
  assumes "schema_law schema" and "digest_law h" and "state_ok h schema s" and "common_era (c 0)" and "op_input_ok h schema op"
    and "rg_revision s < maxSafeInteger" and "op_next (at_time h c u) schema op s = Some next"
  shows "state_ok h schema next" and "rg_ownerHash next = rg_ownerHash s"
proof -
  obtain skills bindings where parts: "op_parts (at_time h c u) schema s op = Some (skills, bindings)"
      and next_s: "next_state (at_time h c u) skills bindings s = Inr next"
    using assms(7) by (auto simp: op_next_def split: option.splits sum.splits)
  show "state_ok h schema next" "rg_ownerHash next = rg_ownerHash s"
    using next_state_ok [OF assms(3) op_parts_ok [OF assms(1-5) parts] assms(6) next_s] by blast+
qed

lemma perform_next:
  assumes "replaceable (rx_disk r)"
  shows "perform e schema op r = (case op_next e schema op (rx_state r) of
     None \<Rightarrow> r | Some next \<Rightarrow> \<lparr>rx_state = next, rx_disk = last (commit_disks next (rx_disk r))\<rparr>)"
  using assms by (auto simp: perform_commits op_next_def commit_def Let_def split: option.splits sum.splits)

text \<open>Every disk a commit passes through holds the old state or the next one.\<close>

lemma commit_disks_states:
  assumes "registry_ok h schema owner r" and "state_ok h schema next" and "rg_ownerHash next = owner"
    and "d \<in> set (commit_disks next (rx_disk r))"
  obtains s where "s = rx_state r \<or> s = next" and "state_ok h schema s" and "rg_ownerHash s = owner" and "on_disk owner s d"
proof -
  have "on_disk owner (rx_state r) d \<or> on_disk owner next d"
    using commit_disks_file [OF assms(4), of owner "rx_state r"] assms(1) state_value_json [OF assms(2)]
    by (auto simp: registry_ok_def on_disk_def)
  with assms that show thesis by (auto simp: registry_ok_def)
qed

lemma registry_step_ok:
  assumes "schema_law schema" and "digest_law h" and "registry_step h schema owner r r'" and "registry_ok h schema owner r"
  shows "registry_ok h schema owner r'"
  using assms(3)
proof cases
  case (operate op c u)
  have ok: "state_ok h schema (rx_state r)" "rg_ownerHash (rx_state r) = owner" "on_disk owner (rx_state r) (rx_disk r)"
    using assms(4) by (simp_all add: registry_ok_def)
  show ?thesis
  proof (cases "op_next (at_time h c u) schema op (rx_state r)")
    case None
    with operate(1) assms(4) show ?thesis by (simp add: perform_next [OF on_disk_replaceable [OF ok(3)]])
  next
    case (Some "next")
    note next_ok = op_next_ok [OF assms(1,2) ok(1) operate(3,2,4) Some]
    with operate(1) Some commit_disks_last [OF ok(3), of "next"] state_value_json [OF next_ok(1)] ok(2) show ?thesis
      by (simp add: perform_next [OF on_disk_replaceable [OF ok(3)]] registry_ok_def on_disk_def)
  qed
next
  case (crash op c u "next" d c' u' s "write")
  have ok: "state_ok h schema (rx_state r)" "rg_ownerHash (rx_state r) = owner" using assms(4) by (simp_all add: registry_ok_def)
  note next_ok = op_next_ok [OF assms(1,2) ok(1) crash(3,2,4,5)]
  obtain s0 where s0: "state_ok h schema s0" "rg_ownerHash s0 = owner" "on_disk owner s0 d"
    using commit_disks_states [OF assms(4) next_ok(1) _ crash(6)] next_ok(2) ok(2) by metis
  then have "s = s0" "\<not> write" using load_on_disk [OF s0, of c' u'] crash(7) by simp_all
  with s0 crash(1) show ?thesis by (simp add: registry_ok_def reopened_def)
qed

lemma registry_start_ok: "is_digest owner \<Longrightarrow> registry_ok h schema owner (registry_start owner)"
  by (simp add: registry_ok_def registry_start_def state_ok_def empty_registry_def relationships_ok_def on_disk_def maxSafeInteger_def)

text \<open>The invariant of a registry that is used under the laws above.\<close>

definition lawful_ok :: "js_env \<Rightarrow> manifest_schema \<Rightarrow> string \<Rightarrow> registry \<Rightarrow> bool" where
  "lawful_ok h schema owner r \<longleftrightarrow> schema_law schema \<and> digest_law h \<and> registry_ok h schema owner r"

interpretation registry_safe: step_invariant "registry_step h schema owner" "lawful_ok h schema owner" for h schema owner
  by unfold_locales (simp add: lawful_ok_def registry_step_ok)

lemma reached_ok:
  assumes "schema_law schema" and "digest_law h" and "is_digest owner" and "(registry_step h schema owner)\<^sup>*\<^sup>* (registry_start owner) r"
  shows "registry_ok h schema owner r"
proof -
  have "lawful_ok h schema owner (registry_start owner)" using assms(1-3) registry_start_ok by (simp add: lawful_ok_def)
  from registry_safe.run_inv [OF assms(4) this] show ?thesis by (simp add: lawful_ok_def)
qed

subsection \<open>Relationships do not depend on the order\<close>

lemma find_entry_distinct:
  "distinct (map se_skillId entries) \<Longrightarrow> find_entry k entries = Some entry \<longleftrightarrow> entry \<in> set entries \<and> se_skillId entry = k"
  by (induction entries) (auto simp: find_entry_def)

lemma find_entry_perm:
  assumes "mset entries' = mset entries" and "distinct (map se_skillId entries)"
  shows "find_entry k entries' = find_entry k entries"
proof -
  have "distinct (map se_skillId entries')" using assms by (metis mset_eq_imp_distinct_iff mset_map)
  moreover have "set entries' = set entries" using assms(1) by (rule mset_eq_setD)
  ultimately have "find_entry k entries' = Some entry \<longleftrightarrow> find_entry k entries = Some entry" for entry
    using assms(2) by (simp add: find_entry_distinct)
  then show ?thesis by (metis not_None_eq)
qed

lemma relationships_perm:
  assumes "relationships_ok s" and "mset (rg_skills t) = mset (rg_skills s)" and "mset (rg_bindings t) = mset (rg_bindings s)"
  shows "relationships_ok t"
proof -
  have d: "distinct (map se_skillId (rg_skills s))" "distinct (map binding_key (rg_bindings s))"
    using assms(1) by (simp_all add: relationships_ok_def)
  then have "distinct (map se_skillId (rg_skills t))" "distinct (map binding_key (rg_bindings t))"
    using assms(2,3) by (metis mset_eq_imp_distinct_iff mset_map)+
  moreover have "binding_related (rg_skills t) b = binding_related (rg_skills s) b" for b
    by (simp add: binding_related_def find_entry_perm [OF assms(2) d(1)])
  moreover have "set (rg_bindings t) = set (rg_bindings s)" using assms(3) by (rule mset_eq_setD)
  ultimately show ?thesis using assms(1) by (simp add: relationships_ok_def list_all_iff)
qed

lemma next_state_Inr:
  assumes "relationships_ok (s\<lparr>rg_skills := skills, rg_bindings := bindings\<rparr>)"
  obtains t where "next_state e skills bindings s = Inr t" and "mset (rg_skills t) = mset skills" and "mset (rg_bindings t) = mset bindings"
proof -
  let ?t = "\<lparr>rg_ownerHash = rg_ownerHash s, rg_revision = rg_revision s + 1,
     rg_skills = js_sort (\<lambda>a b. localeCompare e (se_skillId a) (se_skillId b)) skills,
     rg_bindings = js_sort (\<lambda>a b. localeCompare e (binding_key a) (binding_key b)) bindings\<rparr>"
  have "relationships_ok ?t" by (rule relationships_perm [OF assms]) simp_all
  then show thesis by (intro that [of ?t]) (simp_all add: next_state_def validateRelationships_def)
qed

lemma next_state_D:
  assumes "next_state e skills bindings s = Inr t"
  shows "mset (rg_skills t) = mset skills" and "mset (rg_bindings t) = mset bindings" and "relationships_ok t"
  using assms by (auto simp: next_state_def validateRelationships_def split: if_splits)

subsection \<open>Replacing an entry\<close>

lemma find_entry_replace:
  "find_entry k (replace_entry next entries) =
    (if k = se_skillId next then map_option (\<lambda>_. next) (find_entry k entries) else find_entry k entries)"
  by (induction entries) (auto simp: find_entry_def replace_entry_def)

lemma replace_entry_ids: "map se_skillId (replace_entry next entries) = map se_skillId entries"
  by (induction entries) (auto simp: replace_entry_def)

lemma replace_entry_twice: "se_skillId a = se_skillId b \<Longrightarrow> replace_entry b (replace_entry a entries) = replace_entry b entries"
  by (induction entries) (auto simp: replace_entry_def)

lemma replace_entry_mset: "mset a = mset b \<Longrightarrow> mset (replace_entry next a) = mset (replace_entry next b)"
  by (simp add: replace_entry_def)

text \<open>An entry with the same versions, active version and status keeps every relationship.\<close>

lemma replace_same_view:
  assumes "relationships_ok s" and "find_entry (se_skillId next) (rg_skills s) = Some entry"
    and "se_activeVersion next = se_activeVersion entry" "se_versions next = se_versions entry" "se_status next = se_status entry"
  shows "relationships_ok (s\<lparr>rg_skills := replace_entry next (rg_skills s)\<rparr>)"
proof -
  have "active_manifest next = active_manifest entry" using assms(3,4) by (simp add: active_manifest_def)
  then have "binding_related (replace_entry next (rg_skills s)) b = binding_related (rg_skills s) b" for b
    using assms(2,5) by (auto simp: binding_related_def find_entry_replace)
  with assms(1) show ?thesis by (simp add: relationships_ok_def replace_entry_ids list_all_iff)
qed

section \<open>Properties\<close>

text \<open>
  C36: Whatever operations, crashes and restarts a registry goes through, its file reads back as exactly the state in memory, and the state is
  well-formed: Skill ids and bindings are unique; every entry has its active and previous version among its versions, all of the
  Skill and publisher of the entry; every binding is to a profile that the active version allows, and none of a
  revoked Skill is enabled.
\<close>

theorem registry_consistent:
  assumes "schema_law schema" and "digest_law h" and "is_digest owner"
    and "(registry_step h schema owner)\<^sup>*\<^sup>* (registry_start owner) r"
  shows "load (at_time h c u) schema owner (rx_disk r) = Inr (rx_state r, False) \<and>
    relationships_ok (rx_state r) \<and> list_all versions_ok (rg_skills (rx_state r))"
proof -
  have ok: "registry_ok h schema owner r" using reached_ok [OF assms] .
  then have "state_ok h schema (rx_state r)" by (simp add: registry_ok_def)
  moreover from this have "list_all versions_ok (rg_skills (rx_state r))" by (simp add: state_ok_def entry_ok_def list_all_iff)
  ultimately show ?thesis using ok load_on_disk by (simp add: registry_ok_def state_ok_def)
qed

text \<open>
  C8: No crash loses a committed state. Stop any operation after any of its writes, even in the middle of one: the registry that
  is opened next has exactly the state before the operation or the state after it, the latter if all writes were made. And if the file of a
  completed operation is destroyed later, the state before that operation comes back from the backup.
\<close>

theorem registry_crash_safe:
  assumes "schema_law schema" and "digest_law h" and "is_digest owner"
    and "(registry_step h schema owner)\<^sup>*\<^sup>* (registry_start owner) r"
    and "op_input_ok h schema op" and "common_era (c 0)" and "rg_revision (rx_state r) < maxSafeInteger"
    and "op_next (at_time h c u) schema op (rx_state r) = Some next"
    and "d \<in> set (rx_disk r # commit_disks next (rx_disk r))"
  shows "(\<exists>s. load (at_time h c' u') schema owner d = Inr (s, False) \<and> (s = rx_state r \<or> s = next)) \<and>
    load (at_time h c' u') schema owner (rx_disk (perform (at_time h c u) schema op r)) = Inr (next, False) \<and>
    (dk_file (rx_disk r) \<noteq> None \<longrightarrow>
      load (at_time h c' u') schema owner ((rx_disk (perform (at_time h c u) schema op r))\<lparr>dk_file := Some (Regular None)\<rparr>) =
        Inr (rx_state r, True))"
proof -
  have ok: "registry_ok h schema owner r" using reached_ok [OF assms(1-4)] .
  then have s: "state_ok h schema (rx_state r)" "rg_ownerHash (rx_state r) = owner" "on_disk owner (rx_state r) (rx_disk r)"
    by (simp_all add: registry_ok_def)
  note next_ok = op_next_ok [OF assms(1,2) s(1) assms(6,5,7,8)]
  have after: "perform (at_time h c u) schema op r = \<lparr>rx_state = next, rx_disk = last (commit_disks next (rx_disk r))\<rparr>"
    using perform_next [OF on_disk_replaceable [OF s(3)]] assms(8) by simp
  note last = commit_disks_last [OF s(3), of "next"]
  have "on_disk owner next (last (commit_disks next (rx_disk r)))"
    using last state_value_json [OF next_ok(1)] by (simp add: on_disk_def)
  then have complete: "load (at_time h c' u') schema owner (last (commit_disks next (rx_disk r))) = Inr (next, False)"
    using next_ok s(2) by (intro load_on_disk) simp_all
  have "\<exists>s. load (at_time h c' u') schema owner d = Inr (s, False) \<and> (s = rx_state r \<or> s = next)"
  proof (cases "d = rx_disk r")
    case True
    with load_on_disk [OF s] show ?thesis by auto
  next
    case False
    with assms(9) have "d \<in> set (commit_disks next (rx_disk r))" by simp
    then show ?thesis
      using commit_disks_states [OF ok next_ok(1)] next_ok(2) s(2) load_on_disk by metis
  qed
  moreover have "load (at_time h c' u') schema owner ((last (commit_disks next (rx_disk r)))\<lparr>dk_file := Some (Regular None)\<rparr>) =
      Inr (rx_state r, True)" if "dk_file (rx_disk r) \<noteq> None"
    using that last parse_state_value [of "at_time h c' u'" schema "rx_state r"] s
    by (simp add: load_def parse_file_def recoverFromBackup_def)
  ultimately show ?thesis using complete by (simp add: after)
qed

text \<open>
  A rollback undoes an activation. After a version was activated, a rollback always succeeds: the entry has its former active version
  again (and remembers the other as the previous one), and every other entry and every binding is as before.
\<close>

theorem registry_rollback:
  assumes "schema_law schema" and "state_ok e schema s" and "find_entry k (rg_skills s) = Some entry"
    and "se_activeVersion entry \<noteq> version" and "op_next e schema (ActivateVersion k version) s = Some s1"
  shows "\<exists>s2. op_next e' schema (Rollback k) s1 = Some s2 \<and>
    find_entry k (rg_skills s2) = Some (entry\<lparr>se_previousVersion := Some version, se_updatedAt := now_iso e' 0\<rparr>) \<and>
    (\<forall>k'. k' \<noteq> k \<longrightarrow> find_entry k' (rg_skills s2) = find_entry k' (rg_skills s)) \<and>
    mset (rg_bindings s2) = mset (rg_bindings s)"
proof -
  define a where "a = entry\<lparr>se_activeVersion := version, se_previousVersion := Some (se_activeVersion entry), se_updatedAt := now_iso e 0\<rparr>"
  define b where "b = entry\<lparr>se_previousVersion := Some version, se_updatedAt := now_iso e' 0\<rparr>"
  have id: "se_skillId entry = k" using find_entry_Some [OF assms(3)] by simp
  have ids: "se_skillId a = k" "se_skillId b = k" by (simp_all add: a_def b_def id)
  have rel: "relationships_ok s" using assms(2) by (simp add: state_ok_def)
  then have distinct: "distinct (map se_skillId (rg_skills s))" by (simp add: relationships_ok_def)
  obtain s1': "next_state e (replace_entry a (rg_skills s)) (rg_bindings s) s = Inr s1" and installed: "se_status entry = Skill_installed"
    using assms(3-5)
    by (auto simp: op_next_def committed_def plan_activateVersion_def Let_def a_def split: option.splits sum.splits if_splits)
  note s1 = next_state_D [OF s1']
  have "find_entry k (rg_skills s1) = find_entry k (replace_entry a (rg_skills s))"
    by (rule find_entry_perm [OF s1(1)]) (simp add: replace_entry_ids distinct)
  then have found: "find_entry k (rg_skills s1) = Some a" by (simp add: find_entry_replace ids assms(3))
  have names: "se_activeVersion entry \<in> set (version_names (se_versions entry))" "se_activeVersion entry \<noteq> []"
  proof -
    have ok: "entry_ok e schema entry" using state_entry_ok [OF assms(2,3)] .
    then show active: "se_activeVersion entry \<in> set (version_names (se_versions entry))" by (simp add: entry_ok_def versions_ok_def)
    then obtain v where v: "v \<in> set (se_versions entry)" "se_activeVersion entry = version_of (iv_manifest v)"
      by (auto simp: version_names_def)
    then have "manifest_ok schema (iv_manifest v)" using ok by (simp add: entry_ok_def list_all_iff)
    with assms(1) v(2) show "se_activeVersion entry \<noteq> []" by (auto simp: schema_law_def manifest_ok_def validateSkillPackage_def split: option.splits if_splits)
  qed
  have plan: "plan_rollback e' k s1 = Inr (Some (replace_entry b (rg_skills s1), rg_bindings s1), b)"
    using found names installed assms(4) by (simp add: plan_rollback_def plan_activateVersion_def Let_def a_def b_def)
  have same: "mset (replace_entry b (rg_skills s1)) = mset (replace_entry b (rg_skills s))"
    using replace_entry_mset [OF s1(1), of b] replace_entry_twice [of a b] ids by simp
  have rel_b: "relationships_ok (s\<lparr>rg_skills := replace_entry b (rg_skills s)\<rparr>)"
    by (rule replace_same_view [OF rel]) (simp_all add: ids assms(3) b_def id)
  have "relationships_ok (s1\<lparr>rg_skills := replace_entry b (rg_skills s1), rg_bindings := rg_bindings s1\<rparr>)"
    by (rule relationships_perm [OF rel_b]) (simp_all add: same s1(2))
  then obtain s2 where s2: "next_state e' (replace_entry b (rg_skills s1)) (rg_bindings s1) s1 = Inr s2"
      "mset (rg_skills s2) = mset (replace_entry b (rg_skills s1))" "mset (rg_bindings s2) = mset (rg_bindings s1)"
    by (rule next_state_Inr)
  have look: "find_entry k' (rg_skills s2) = find_entry k' (replace_entry b (rg_skills s))" for k'
    by (rule find_entry_perm) (simp_all add: s2(2) same replace_entry_ids distinct)
  have "op_next e' schema (Rollback k) s1 = Some s2" by (simp add: op_next_def plan committed_def s2(1))
  with look s2(3) s1(2) ids assms(3) show ?thesis by (auto simp: find_entry_replace b_def)
qed


subsection \<open>A sample registry\<close>

definition sample_manifest :: "string \<Rightarrow> js_value" where
  "sample_manifest version = Obj
    [(''skill'', Obj [(''id'', Str ''a.skill.b''), (''version'', Str version), (''publisher'', Obj [(''namespace'', Str ''a'')])]),
     (''binding'', Obj [(''allowedAgentProfileIds'', Arr [Str ''a.p'']), (''defaultEnabled'', Boolean True)]),
     (''integrity'', Obj [(''digest'', Str version)])]"

definition sample_schema :: manifest_schema where
  "sample_schema v = (if v = sample_manifest ''1.0.0'' \<or> v = sample_manifest ''1.1.0'' then Some v else None)"

definition sample_host :: js_env where
  "sample_host = sample_env\<lparr>sha256 := \<lambda>_. replicate 64 CHR ''a''\<rparr>"

abbreviation sample_then :: js_env where
  "sample_then \<equiv> at_time sample_host (\<lambda>_. 0) (\<lambda>_. [])"

abbreviation sample_owner :: string where
  "sample_owner \<equiv> replicate 64 CHR ''a''"

lemma sample_manifest_parts:
  "skill_id_of (sample_manifest v) = ''a.skill.b''" "version_of (sample_manifest v) = v" "namespace_of (sample_manifest v) = ''a''"
  "profiles_of (sample_manifest v) = [''a.p'']" "through_json (sample_manifest v) = sample_manifest v"
  by (simp_all add: sample_manifest_def skill_id_of_def version_of_def namespace_of_def profiles_of_def field_def)

lemma sample_manifest_refined: "manifest_refined (sample_manifest v)"
  unfolding manifest_refined_def sample_manifest_parts
  by (simp add: publisherOwnsSkillId_def starts_with_def sample_manifest_def field_def)

lemma sample_schema_law: "schema_law sample_schema"
  by (auto simp: schema_law_def sample_schema_def sample_manifest_parts pack_id_ok_def is_lower_def char_in_def split: if_splits)

lemma sample_owner_digest: "is_digest sample_owner"
  by (simp add: is_digest_def all_within_def list_all_iff is_hex_def char_in_def)

lemma sample_digest_law: "digest_law sample_host"
  by (simp add: digest_law_def sample_host_def sample_owner_digest)

lemma sample_valid: "v \<in> {''1.0.0'', ''1.1.0''} \<Longrightarrow> validateSkillPackage sample_schema (sample_manifest v) = Some (sample_manifest v)"
  by (auto simp: validateSkillPackage_def sample_schema_def sample_manifest_refined)

lemma sample_era: "common_era 0"
  by (rule common_eraI) simp_all

abbreviation sample_install :: registry_op where
  "sample_install \<equiv> Install (sample_manifest ''1.0.0'') True"

lemma sample_install_input: "op_input_ok h schema sample_install"
  by (simp add: sample_manifest_parts)

lemma sample_start_revision: "rg_revision (rx_state (registry_start owner)) < maxSafeInteger"
  by (simp add: registry_start_def empty_registry_def maxSafeInteger_def)

lemma sample_next: "\<exists>t. op_next sample_then sample_schema sample_install (rx_state (registry_start sample_owner)) = Some t"
proof -
  have owned: "publisherOwnsSkillId ''a'' ''a.skill.b''" by (simp add: publisherOwnsSkillId_def starts_with_def)
  have "op_parts sample_then sample_schema (rx_state (registry_start sample_owner)) sample_install =
      Some ([installed_entry (sample_manifest ''1.0.0'') True (now_iso sample_then 0) None], [])"
    using sample_valid [of "''1.0.0''"]
    by (simp add: plan_install_def registry_start_def empty_registry_def find_entry_def Let_def assertSkillIdOwnership_def
        sample_manifest_parts committed_def owned)
  then show ?thesis
    by (simp add: op_next_def next_state_def validateRelationships_def relationships_ok_def js_sort_def)
qed

theorem registry_consistent_witness:
  "load sample_then sample_schema sample_owner
      (rx_disk (perform sample_then sample_schema sample_install (registry_start sample_owner))) =
    Inr (rx_state (perform sample_then sample_schema sample_install (registry_start sample_owner)), False)"
proof -
  have "(registry_step sample_host sample_schema sample_owner)\<^sup>*\<^sup>* (registry_start sample_owner)
      (perform sample_then sample_schema sample_install (registry_start sample_owner))"
    by (rule r_into_rtranclp, rule registry_step.operate [OF sample_install_input _ sample_start_revision]) (simp add: sample_era)
  from registry_consistent [OF sample_schema_law sample_digest_law sample_owner_digest this]
  show ?thesis by blast
qed

theorem registry_crash_safe_witness:
  "\<exists>t. op_next sample_then sample_schema sample_install (rx_state (registry_start sample_owner)) = Some t \<and>
    load sample_then sample_schema sample_owner
      (rx_disk (perform sample_then sample_schema sample_install (registry_start sample_owner))) = Inr (t, False)"
proof -
  obtain t where t: "op_next sample_then sample_schema sample_install (rx_state (registry_start sample_owner)) = Some t"
    using sample_next by blast
  have "rx_disk (registry_start sample_owner) \<in> set (rx_disk (registry_start sample_owner) # commit_disks t (rx_disk (registry_start sample_owner)))"
    by simp
  from registry_crash_safe [OF sample_schema_law sample_digest_law sample_owner_digest rtranclp.rtrancl_refl sample_install_input
      sample_era sample_start_revision t this] t show ?thesis by blast
qed

definition sample_entry :: SkillRegistryEntry where
  "sample_entry = \<lparr>se_skillId = ''a.skill.b'', se_publisherNamespace = ''a'', se_activeVersion = ''1.1.0'',
     se_previousVersion = Some ''1.0.0'', se_status = Skill_installed,
     se_versions = map (\<lambda>v. \<lparr>iv_manifest = sample_manifest v, iv_installedAt = toISOString 0\<rparr>) [''1.0.0'', ''1.1.0''],
     se_updatedAt = toISOString 0\<rparr>"

definition sample_registry :: SkillRegistryState where
  "sample_registry = \<lparr>rg_ownerHash = sample_owner, rg_revision = 2, rg_skills = [sample_entry], rg_bindings = []\<rparr>"

lemma sample_registry_ok: "state_ok sample_then sample_schema sample_registry"
proof -
  have iso: "iso_ok sample_host (toISOString 0)" by (simp add: isIsoTimestamp_def date_parse_toISOString sample_era)
  have manifests: "manifest_ok sample_schema (sample_manifest v)" if "v \<in> {''1.0.0'', ''1.1.0''}" for v
    using sample_valid [OF that] by (simp add: manifest_ok_def sample_manifest_parts)
  have "entry_ok sample_host sample_schema sample_entry"
    by (simp add: entry_ok_def versions_ok_def sample_entry_def version_names_def sample_manifest_parts manifests iso)
  then show ?thesis
    by (simp add: state_ok_def sample_registry_def relationships_ok_def sample_owner_digest maxSafeInteger_def)
qed

theorem registry_rollback_witness:
  "\<exists>s1 s2. op_next sample_then sample_schema (ActivateVersion ''a.skill.b'' ''1.0.0'') sample_registry = Some s1 \<and>
    op_next sample_then sample_schema (Rollback ''a.skill.b'') s1 = Some s2 \<and>
    map_option se_activeVersion (find_entry ''a.skill.b'' (rg_skills s2)) = Some ''1.1.0''"
proof -
  have entry: "find_entry ''a.skill.b'' (rg_skills sample_registry) = Some sample_entry"
    by (simp add: sample_registry_def find_entry_def sample_entry_def)
  have active: "se_activeVersion sample_entry = ''1.1.0''" by (simp add: sample_entry_def)
  obtain s1 where s1: "op_next sample_then sample_schema (ActivateVersion ''a.skill.b'' ''1.0.0'') sample_registry = Some s1"
    by (simp add: op_next_def plan_activateVersion_def entry committed_def)
      (simp add: sample_entry_def sample_registry_def version_names_def sample_manifest_parts replace_entry_def next_state_def
        validateRelationships_def relationships_ok_def js_sort_def Let_def)
  have "se_activeVersion sample_entry \<noteq> ''1.0.0''" by (simp add: active)
  from registry_rollback [OF sample_schema_law sample_registry_ok entry this s1, of sample_then] s1 active show ?thesis by fastforce
qed

end
