(* ===== verification/Executor_Credential.thy ===== *)
theory Executor_Credential
  imports Canonical_Json JS_Time Task_Fingerprint
begin

text \<open>
  The credential with which the cloud API calls the executor of Cloud Skills
  (\<^verbatim>\<open>apps/longhub-executor/src/credential.ts\<close>): a signed envelope of the claims that bind one task, Skill, idempotency key
  and input, encoded in base64url. Bytes and code units below 256 are both \<^typ>\<open>char\<close>. What the code calls from outside is the
  record \<open>executor_host\<close>: the HMAC, already encoded, and \<^verbatim>\<open>JSON.parse\<close> of the bytes of a payload. The lemmas show that encoding
  loses nothing, that an issued credential is accepted exactly in its time, and what an accepted one binds.
\<close>

subsection \<open>base64url\<close>

definition b64_char :: "nat \<Rightarrow> char" where
  "b64_char n =
    (if n < 26 then char_of (65 + n) else if n < 52 then char_of (71 + n) else if n < 62 then char_of (n - 4)
     else if n = 62 then CHR ''-'' else CHR ''_'')"

definition is_b64 :: "char \<Rightarrow> bool" where
  "is_b64 c \<longleftrightarrow> is_alnum c \<or> c = CHR ''-'' \<or> c = CHR ''_''"

definition b64_value :: "char \<Rightarrow> nat" where
  "b64_value c =
    (let n = of_char c in
     if is_upper c then n - 65 else if is_lower c then n - 71 else if is_digit c then n + 4
     else if c = CHR ''-'' then 62 else 63)"

abbreviation byte :: "char \<Rightarrow> nat" where
  "byte c \<equiv> of_char c"

text \<open>Three bytes are four characters; one or two bytes left over are two or three, with the free bits zero and no padding.\<close>

fun base64urlEncode :: "string \<Rightarrow> string" where
  "base64urlEncode [] = []"
| "base64urlEncode [a] = [b64_char (byte a div 4), b64_char (byte a mod 4 * 16)]"
| "base64urlEncode [a, b] =
    [b64_char (byte a div 4), b64_char (byte a mod 4 * 16 + byte b div 16), b64_char (byte b mod 16 * 4)]"
| "base64urlEncode (a # b # c # s) =
    b64_char (byte a div 4) # b64_char (byte a mod 4 * 16 + byte b div 16) #
    b64_char (byte b mod 16 * 4 + byte c div 64) # b64_char (byte c mod 64) # base64urlEncode s"

text \<open>\<^verbatim>\<open>Buffer.from(value, "base64url")\<close> of characters of the alphabet; bits that fill no byte are dropped.\<close>

fun b64_bytes :: "string \<Rightarrow> string" where
  "b64_bytes (p # q # r # t # s) =
    char_of (b64_value p * 4 + b64_value q div 16) # char_of (b64_value q mod 16 * 16 + b64_value r div 4) #
    char_of (b64_value r mod 4 * 64 + b64_value t) # b64_bytes s"
| "b64_bytes [p, q, r] = [char_of (b64_value p * 4 + b64_value q div 16), char_of (b64_value q mod 16 * 16 + b64_value r div 4)]"
| "b64_bytes [p, q] = [char_of (b64_value p * 4 + b64_value q div 16)]"
| "b64_bytes _ = []"

text \<open>Only the canonical encoding is accepted.\<close>

definition base64urlDecode :: "string \<Rightarrow> string option" where
  "base64urlDecode value = do {
     require (value \<noteq> [] \<and> list_all is_b64 value \<and> length value \<le> 4096);
     let decoded = b64_bytes value;
     require (decoded \<noteq> [] \<and> base64urlEncode decoded = value);
     Some decoded
   }"

lemma b64_value_char: "n < 64 \<Longrightarrow> b64_value (b64_char n) = n"
  by (auto simp: b64_value_def b64_char_def is_upper_def is_lower_def is_digit_def char_in_def Let_def)

lemma is_b64_char: "n < 64 \<Longrightarrow> is_b64 (b64_char n)"
  by (auto simp: is_b64_def b64_char_def is_alnum_def is_upper_def is_lower_def is_digit_def char_in_def)

lemma byte_bounds: "byte c < 256" "byte c div 4 < 64" "byte c mod 4 * 16 < 64" "byte c mod 16 * 4 < 64"
    "byte a mod 4 * 16 + byte b div 16 < 64" "byte b mod 16 * 4 + byte c div 64 < 64" "byte c mod 64 < 64"
proof -
  have b: "byte c < 256" for c by simp
  then have q: "byte c div 16 < 16" "byte c div 64 < 4" for c
    by (simp_all add: less_mult_imp_div_less)
  have m: "byte c mod 4 < 4" "byte c mod 16 < 16" for c by simp_all
  show "byte c < 256" "byte c div 4 < 64" "byte c mod 64 < 64" using b [of c] by (simp_all add: less_mult_imp_div_less)
  show "byte c mod 4 * 16 < 64" "byte c mod 16 * 4 < 64" "byte a mod 4 * 16 + byte b div 16 < 64"
      "byte b mod 16 * 4 + byte c div 64 < 64"
    using m [of c] m [of a] m [of b] q [of b] q [of c] by linarith+
qed

lemma b64_round_trip: "b64_bytes (base64urlEncode s) = s"
proof (induction s rule: base64urlEncode.induct)
  case (2 a)
  have "byte a div 4 * 4 + byte a mod 4 = byte a" by simp
  then show ?case by (simp add: b64_value_char byte_bounds)
next
  case (3 a b)
  have "(byte a mod 4 * 16 + byte b div 16) div 16 = byte a mod 4" "(byte a mod 4 * 16 + byte b div 16) mod 16 = byte b div 16"
    using byte_bounds(1) [of b] by (simp_all add: less_mult_imp_div_less)
  then show ?case by (simp add: b64_value_char byte_bounds)
next
  case (4 a b c s)
  have "(byte a mod 4 * 16 + byte b div 16) div 16 = byte a mod 4" "(byte a mod 4 * 16 + byte b div 16) mod 16 = byte b div 16"
    "(byte b mod 16 * 4 + byte c div 64) div 4 = byte b mod 16" "(byte b mod 16 * 4 + byte c div 64) mod 4 = byte c div 64"
    using byte_bounds(1) [of b] byte_bounds(1) [of c] by (simp_all add: less_mult_imp_div_less)
  with 4 show ?case by (simp add: b64_value_char byte_bounds)
qed simp

lemma b64_alphabet: "list_all is_b64 (base64urlEncode s)"
  by (induction s rule: base64urlEncode.induct) (simp_all add: is_b64_char byte_bounds)

lemma b64_decode_encode: "s \<noteq> [] \<Longrightarrow> length (base64urlEncode s) \<le> 4096 \<Longrightarrow> base64urlDecode (base64urlEncode s) = Some s"
proof -
  assume "s \<noteq> []" "length (base64urlEncode s) \<le> 4096"
  moreover from this have "base64urlEncode s \<noteq> []" using b64_round_trip [of s] by (metis b64_bytes.simps(4))
  ultimately show ?thesis by (simp add: base64urlDecode_def require_def b64_round_trip b64_alphabet)
qed

lemma length_b64: "length (base64urlEncode s) = (4 * length s + 2) div 3"
  by (induction s rule: base64urlEncode.induct) simp_all


subsection \<open>The digest of an input\<close>

text \<open>Unlike the bridge, the executor refuses undefined members and values nested deeper than 100 levels.\<close>

fun bounded_json :: "js_env \<Rightarrow> nat \<Rightarrow> js_value \<Rightarrow> string option"
  and bounded_items :: "js_env \<Rightarrow> nat \<Rightarrow> js_value list \<Rightarrow> string list option"
  and bounded_members :: "js_env \<Rightarrow> nat \<Rightarrow> (string \<times> js_value) list \<Rightarrow> (string \<times> string) list option" where
  "bounded_json e depth Null = (if 100 < depth then None else Some ''null'')"
| "bounded_json e depth (Str s) = (if 100 < depth then None else Some (json_string s))"
| "bounded_json e depth (Boolean b) = (if 100 < depth then None else Some (if b then ''true'' else ''false''))"
| "bounded_json e depth (Number n) = (if 100 < depth then None else number_json n)"
| "bounded_json e depth (Arr vs) = (if 100 < depth then None
     else map_option (\<lambda>ts. CHR ''['' # comma_join ts @ '']'') (bounded_items e (Suc depth) vs))"
| "bounded_json e depth (Obj ms) = (if 100 < depth then None
     else map_option (\<lambda>ts. CHR ''{'' # comma_join (map member_text (js_sort (by_key e) ts)) @ ''}'') (bounded_members e (Suc depth) ms))"
| "bounded_json e depth Undefined = None"
| "bounded_items e depth [] = Some []"
| "bounded_items e depth (v # vs) =
    (case bounded_json e depth v of None \<Rightarrow> None | Some t \<Rightarrow> map_option ((#) t) (bounded_items e depth vs))"
| "bounded_members e depth [] = Some []"
| "bounded_members e depth ((k, v) # ms) =
    (case bounded_json e depth v of None \<Rightarrow> None | Some t \<Rightarrow> map_option ((#) (k, t)) (bounded_members e depth ms))"

definition computeExecutorInputDigest :: "js_env \<Rightarrow> js_value \<Rightarrow> string option" where
  "computeExecutorInputDigest e input = map_option (sha256 e) (bounded_json e 0 input)"

subsection \<open>Claims\<close>

record executor_host =
  eh_env :: js_env
  eh_hmac :: "string \<Rightarrow> string \<Rightarrow> string"
  eh_parse :: "string \<Rightarrow> js_value option"

record ExecutorCredentialKey =
  ek_keyId :: string
  ek_secret :: string

record ExecutorCredentialClaims =
  cl_credential_id :: string
  cl_key_id :: string
  cl_task_id :: string
  cl_tenant_id :: string
  cl_skill_id :: string
  cl_idempotency_key :: string
  cl_input_digest :: string
  cl_issued_at :: int
  cl_expires_at :: int

datatype credential_error = CREDENTIAL_INVALID | CREDENTIAL_EXPIRED | CREDENTIAL_CONFIGURATION

definition EXECUTOR_CREDENTIAL_SCHEMA :: string where "EXECUTOR_CREDENTIAL_SCHEMA = ''longhub/executor-credential/v1''"
definition EXECUTOR_CREDENTIAL_TTL_MS :: int where "EXECUTOR_CREDENTIAL_TTL_MS = 60000"
definition EXECUTOR_CREDENTIAL_MAX_TTL_MS :: int where "EXECUTOR_CREDENTIAL_MAX_TTL_MS = 5 * 60000"
definition EXECUTOR_CLOCK_SKEW_MS :: int where "EXECUTOR_CLOCK_SKEW_MS = 10000"
definition CREDENTIAL_PREFIX :: string where "CREDENTIAL_PREFIX = ''lhx1''"

definition executor_id_ok :: "string \<Rightarrow> bool" where
  "executor_id_ok = head_tail is_alnum (\<lambda>c. is_alnum c \<or> c \<in> set ''._:-'') 0 127"

definition executor_skill_ok :: "string \<Rightarrow> bool" where
  "executor_skill_ok = head_tail (\<lambda>c. is_lower c \<or> is_digit c) (\<lambda>c. is_lower c \<or> is_digit c \<or> c \<in> set ''._-'') 2 127"

definition executor_idempotency_ok :: "string \<Rightarrow> bool" where
  "executor_idempotency_ok = head_tail is_alnum (\<lambda>c. is_alnum c \<or> c \<in> set ''._~:-'') 0 127"

definition executor_key_id_ok :: "string \<Rightarrow> bool" where
  "executor_key_id_ok = all_within (\<lambda>c. is_alnum c \<or> c \<in> set ''._-'') 1 128"

definition is_hex_either :: "char \<Rightarrow> bool" where
  "is_hex_either c \<longleftrightarrow> is_hex c \<or> char_in CHR ''A'' CHR ''F'' c"

definition uuid_ok :: "string \<Rightarrow> bool" where
  "uuid_ok s \<longleftrightarrow>
    (case split_on CHR ''-'' s of
       [a, b, c, d, x] \<Rightarrow>
         length a = 8 \<and> length b = 4 \<and> length c = 4 \<and> length d = 4 \<and> length x = 12 \<and>
         list_all is_hex_either (a @ b @ c @ d @ x) \<and> char_in CHR ''1'' CHR ''8'' (hd c) \<and> hd d \<in> set ''89abAB''
     | _ \<Rightarrow> False)"

definition assertKey :: "ExecutorCredentialKey \<Rightarrow> bool" where
  "assertKey key \<longleftrightarrow> executor_key_id_ok (ek_keyId key) \<and> 32 \<le> length (ek_secret key) \<and> length (ek_secret key) \<le> 64"

definition claims_members :: "ExecutorCredentialClaims \<Rightarrow> (string \<times> js_value) list" where
  "claims_members c =
    [(''schema_version'', Str EXECUTOR_CREDENTIAL_SCHEMA), (''credential_id'', Str (cl_credential_id c)),
     (''key_id'', Str (cl_key_id c)), (''task_id'', Str (cl_task_id c)), (''tenant_id'', Str (cl_tenant_id c)),
     (''skill_id'', Str (cl_skill_id c)), (''idempotency_key'', Str (cl_idempotency_key c)),
     (''input_digest'', Str (cl_input_digest c)), (''issued_at'', Number (IntNum (cl_issued_at c))),
     (''expires_at'', Number (IntNum (cl_expires_at c)))]"

text \<open>\<^verbatim>\<open>JSON.stringify(claims)\<close> and its bytes\<close>

fun flat_json :: "js_value \<Rightarrow> string" where
  "flat_json (Str s) = json_string s"
| "flat_json (Number (IntNum i)) = show_int i"
| "flat_json _ = []"

definition claims_json :: "ExecutorCredentialClaims \<Rightarrow> string" where
  "claims_json c = CHR ''{'' # comma_join (map (\<lambda>(k, v). member_text (k, flat_json v)) (claims_members c)) @ ''}''"

definition utf8_bytes :: "string \<Rightarrow> string" where
  "utf8_bytes s = concat (map (\<lambda>c. if byte c < 128 then [c] else [char_of (192 + byte c div 64), char_of (128 + byte c mod 64)]) s)"

definition CLAIM_KEYS :: "string list" where
  "CLAIM_KEYS = [''schema_version'', ''credential_id'', ''key_id'', ''task_id'', ''tenant_id'', ''skill_id'', ''idempotency_key'',
     ''input_digest'', ''issued_at'', ''expires_at'']"

definition claims_ok :: "ExecutorCredentialClaims \<Rightarrow> bool" where
  "claims_ok c \<longleftrightarrow> uuid_ok (cl_credential_id c) \<and> executor_key_id_ok (cl_key_id c) \<and> executor_id_ok (cl_task_id c) \<and>
    executor_id_ok (cl_tenant_id c) \<and> executor_skill_ok (cl_skill_id c) \<and> executor_idempotency_ok (cl_idempotency_key c) \<and>
    is_digest (cl_input_digest c) \<and> cl_issued_at c < cl_expires_at c \<and>
    cl_expires_at c - cl_issued_at c \<le> EXECUTOR_CREDENTIAL_MAX_TTL_MS"

definition parseClaims :: "js_value \<Rightarrow> ExecutorCredentialClaims option" where
  "parseClaims value = do {
     record \<leftarrow> object_members value;
     require (joined_keys (map fst record) = joined_keys CLAIM_KEYS \<and> field record ''schema_version'' = Str EXECUTOR_CREDENTIAL_SCHEMA);
     credentialId \<leftarrow> string_value (field record ''credential_id'');
     keyId \<leftarrow> string_value (field record ''key_id'');
     taskId \<leftarrow> string_value (field record ''task_id'');
     tenantId \<leftarrow> string_value (field record ''tenant_id'');
     skillId \<leftarrow> string_value (field record ''skill_id'');
     idempotencyKey \<leftarrow> string_value (field record ''idempotency_key'');
     inputDigest \<leftarrow> string_value (field record ''input_digest'');
     issued \<leftarrow> number_value (field record ''issued_at'');
     issuedAt \<leftarrow> safeInteger issued;
     expires \<leftarrow> number_value (field record ''expires_at'');
     expiresAt \<leftarrow> safeInteger expires;
     let c = \<lparr>cl_credential_id = credentialId, cl_key_id = keyId, cl_task_id = taskId, cl_tenant_id = tenantId,
       cl_skill_id = skillId, cl_idempotency_key = idempotencyKey, cl_input_digest = inputDigest,
       cl_issued_at = issuedAt, cl_expires_at = expiresAt\<rparr>;
     require (claims_ok c);
     Some c
   }"

subsection \<open>Issuing and verifying\<close>

definition signEnvelope :: "executor_host \<Rightarrow> string \<Rightarrow> ExecutorCredentialKey \<Rightarrow> string" where
  "signEnvelope h payload key = base64urlEncode (eh_hmac h (ek_secret key) (utf8_bytes (CREDENTIAL_PREFIX @ ''.'' @ payload)))"

record IssueExecutorCredentialInput =
  is_taskId :: string
  is_tenantId :: string
  is_skillId :: string
  is_idempotencyKey :: string
  is_input :: js_value

definition issued_claims :: "executor_host \<Rightarrow> IssueExecutorCredentialInput \<Rightarrow> ExecutorCredentialKey \<Rightarrow> int \<Rightarrow> int \<Rightarrow> string \<Rightarrow>
    ExecutorCredentialClaims" where
  "issued_claims h i key now ttl digest =
    \<lparr>cl_credential_id = uuid (eh_env h) 0, cl_key_id = ek_keyId key, cl_task_id = is_taskId i, cl_tenant_id = is_tenantId i,
     cl_skill_id = is_skillId i, cl_idempotency_key = is_idempotencyKey i, cl_input_digest = digest,
     cl_issued_at = now, cl_expires_at = now + ttl\<rparr>"

definition credential_token :: "executor_host \<Rightarrow> ExecutorCredentialKey \<Rightarrow> ExecutorCredentialClaims \<Rightarrow> string" where
  "credential_token h key c =
    (let payload = base64urlEncode (utf8_bytes (claims_json c)) in CREDENTIAL_PREFIX @ ''.'' @ payload @ ''.'' @ signEnvelope h payload key)"

definition issueExecutorCredential ::
  "executor_host \<Rightarrow> IssueExecutorCredentialInput \<Rightarrow> ExecutorCredentialKey \<Rightarrow> js_number option \<Rightarrow> js_number option \<Rightarrow> string option" where
  "issueExecutorCredential h i key nowMs ttlMs = do {
     require (assertKey key \<and> executor_id_ok (is_taskId i) \<and> executor_id_ok (is_tenantId i) \<and> executor_skill_ok (is_skillId i) \<and>
       executor_idempotency_ok (is_idempotencyKey i));
     now \<leftarrow> safeInteger (case nowMs of None \<Rightarrow> IntNum (clock (eh_env h) 0) | Some n \<Rightarrow> n);
     ttl \<leftarrow> safeInteger (case ttlMs of None \<Rightarrow> IntNum EXECUTOR_CREDENTIAL_TTL_MS | Some n \<Rightarrow> n);
     require (1 \<le> ttl \<and> ttl \<le> EXECUTOR_CREDENTIAL_MAX_TTL_MS);
     digest \<leftarrow> computeExecutorInputDigest (eh_env h) (is_input i);
     Some (credential_token h key (issued_claims h i key now ttl digest))
   }"

definition parseEnvelope :: "string \<Rightarrow> (string \<times> string) option" where
  "parseEnvelope token = do {
     require (16 \<le> length token \<and> length token \<le> 8192);
     case split_on CHR ''.'' token of
       [pre, payload, signature] \<Rightarrow> do {
         require (pre = CREDENTIAL_PREFIX);
         _ \<leftarrow> base64urlDecode payload;
         bytes \<leftarrow> base64urlDecode signature;
         require (length bytes = 32);
         Some (payload, signature)
       }
     | _ \<Rightarrow> None
   }"

definition verification_key :: "ExecutorCredentialKey \<Rightarrow> (string, ExecutorCredentialKey) js_map option \<Rightarrow> string \<Rightarrow> ExecutorCredentialKey option" where
  "verification_key key trusted keyId =
    (case Option.bind trusted (\<lambda>m. map_get m keyId) of
       Some k \<Rightarrow> Some k | None \<Rightarrow> if keyId = ek_keyId key then Some key else None)"

definition opened_claims :: "executor_host \<Rightarrow> string \<Rightarrow> ExecutorCredentialClaims option" where
  "opened_claims h payload = do {
     bytes \<leftarrow> base64urlDecode payload;
     parsed \<leftarrow> eh_parse h bytes;
     parseClaims parsed
   }"

definition in_time :: "js_number \<Rightarrow> ExecutorCredentialClaims \<Rightarrow> credential_error + ExecutorCredentialClaims" where
  "in_time nowMs c =
    (case safeInteger nowMs of
       None \<Rightarrow> Inl CREDENTIAL_INVALID
     | Some now \<Rightarrow>
         if now + EXECUTOR_CLOCK_SKEW_MS < cl_issued_at c then Inl CREDENTIAL_INVALID
         else if cl_expires_at c \<le> now then Inl CREDENTIAL_EXPIRED
         else Inr c)"

definition verifyExecutorCredential ::
  "executor_host \<Rightarrow> ExecutorCredentialKey \<Rightarrow> (string, ExecutorCredentialKey) js_map option \<Rightarrow> js_number \<Rightarrow> string \<Rightarrow>
    credential_error + ExecutorCredentialClaims" where
  "verifyExecutorCredential h key trusted nowMs token =
    (if \<not> assertKey key then Inl CREDENTIAL_CONFIGURATION
     else case parseEnvelope token of
       None \<Rightarrow> Inl CREDENTIAL_INVALID
     | Some (payload, signature) \<Rightarrow>
         (case opened_claims h payload of
            None \<Rightarrow> Inl CREDENTIAL_INVALID
          | Some c \<Rightarrow>
              (case verification_key key trusted (cl_key_id c) of
                 None \<Rightarrow> Inl CREDENTIAL_INVALID
               | Some k \<Rightarrow>
                   if \<not> assertKey k then Inl CREDENTIAL_CONFIGURATION
                   else if b64_bytes (signEnvelope h payload k) \<noteq> b64_bytes signature then Inl CREDENTIAL_INVALID
                   else in_time nowMs c)))"


subsection \<open>What is issued can be read\<close>

definition plain_char :: "char \<Rightarrow> bool" where
  "plain_char c \<longleftrightarrow> 32 \<le> byte c \<and> byte c < 128 \<and> c \<noteq> CHR 0x22 \<and> c \<noteq> CHR 0x5C"

abbreviation ascii :: "string \<Rightarrow> bool" where
  "ascii \<equiv> list_all (\<lambda>c. byte c < 128)"

lemma plain_alnum: "is_alnum c \<Longrightarrow> plain_char c"
  by (auto simp: is_alnum_def is_digit_def is_lower_def is_upper_def char_in_def plain_char_def)

lemma plain_json: "list_all plain_char s \<Longrightarrow> json_string s = CHR 0x22 # s @ [CHR 0x22]"
proof -
  have c: "json_char c = [c]" if "plain_char c" for c
    using that by (auto simp: plain_char_def json_char_def)
  assume "list_all plain_char s"
  then have "concat (map json_char s) = s" by (induction s) (simp_all add: c)
  then show ?thesis by (simp add: json_string_def)
qed

lemma plain_ascii: "list_all plain_char s \<Longrightarrow> ascii s"
  by (auto simp: list_all_iff plain_char_def)

lemma utf8_ascii: "ascii s \<Longrightarrow> utf8_bytes s = s"
  by (induction s) (simp_all add: utf8_bytes_def)

lemma head_tail_all: "head_tail P Q lo hi s \<Longrightarrow> (\<And>c. P c \<Longrightarrow> R c) \<Longrightarrow> (\<And>c. Q c \<Longrightarrow> R c) \<Longrightarrow> list_all R s \<and> length s \<le> Suc hi"
  by (cases s) (auto simp: all_within_def list_all_iff)

lemma split_on_chars: "x \<in> set s \<Longrightarrow> x = c \<or> (\<exists>t \<in> set (split_on c s). x \<in> set t)"
  by (induction s) (auto split: list.splits)

lemma split_on_length: "length s + 1 = sum_list (map length (split_on c s)) + length (split_on c s)"
  by (induction s) (auto split: list.splits)

lemma uuid_plain: "uuid_ok s \<Longrightarrow> list_all plain_char s \<and> length s = 36"
proof -
  assume "uuid_ok s"
  then obtain a b c d x where parts: "split_on CHR ''-'' s = [a, b, c, d, x]"
    and len: "length a = 8" "length b = 4" "length c = 4" "length d = 4" "length x = 12"
    and hex: "list_all is_hex_either (a @ b @ c @ d @ x)"
    by (auto simp: uuid_ok_def split: list.splits)
  have plain: "plain_char ch" if "is_hex_either ch" for ch
    using that by (auto simp: is_hex_either_def is_hex_def is_digit_def char_in_def plain_char_def)
  have "ch = CHR ''-'' \<or> plain_char ch" if "ch \<in> set s" for ch
    using split_on_chars [OF that, of "CHR ''-''"] hex plain unfolding parts list_all_iff by auto
  moreover have "plain_char CHR ''-''" by (simp add: plain_char_def)
  ultimately have "list_all plain_char s" by (auto simp: list_all_iff)
  then show ?thesis using split_on_length [of s "CHR ''-''"] len unfolding parts by simp
qed

definition claim_char :: "char \<Rightarrow> bool" where
  "claim_char c \<longleftrightarrow> is_alnum c \<or> char_in CHR ''a'' CHR ''f'' c \<or> c \<in> set ''._~:-''"

lemma plain_claim_char: "claim_char c \<Longrightarrow> plain_char c"
  by (auto simp: claim_char_def is_alnum_def is_digit_def is_lower_def is_upper_def char_in_def plain_char_def)

lemma claim_texts:
  assumes "claims_ok c"
  shows "list_all plain_char (cl_credential_id c)" "length (cl_credential_id c) \<le> 128"
    "list_all plain_char (cl_key_id c)" "length (cl_key_id c) \<le> 128"
    "list_all plain_char (cl_task_id c)" "length (cl_task_id c) \<le> 128"
    "list_all plain_char (cl_tenant_id c)" "length (cl_tenant_id c) \<le> 128"
    "list_all plain_char (cl_skill_id c)" "length (cl_skill_id c) \<le> 128"
    "list_all plain_char (cl_idempotency_key c)" "length (cl_idempotency_key c) \<le> 128"
    "list_all plain_char (cl_input_digest c)" "length (cl_input_digest c) \<le> 128"
proof -
  have charset: "list_all plain_char t \<and> length t \<le> Suc hi" if "head_tail P Q lo hi t"
    "\<And>ch. P ch \<Longrightarrow> claim_char ch" "\<And>ch. Q ch \<Longrightarrow> claim_char ch" for P Q lo hi t
    using that(1) by (rule head_tail_all) (use that(2,3) plain_claim_char in blast)+
  note ok = assms [unfolded claims_ok_def executor_key_id_ok_def is_digest_def all_within_def]
  show "list_all plain_char (cl_credential_id c)" "length (cl_credential_id c) \<le> 128"
    using ok uuid_plain by auto
  show "list_all plain_char (cl_key_id c)" "length (cl_key_id c) \<le> 128"
    "list_all plain_char (cl_input_digest c)" "length (cl_input_digest c) \<le> 128"
    using ok by (auto simp: list_all_iff intro!: plain_claim_char simp: claim_char_def is_hex_def is_alnum_def)
  have "executor_id_ok t \<Longrightarrow> list_all plain_char t \<and> length t \<le> 128" for t
    unfolding executor_id_ok_def by (drule charset) (auto simp: claim_char_def)
  then show "list_all plain_char (cl_task_id c)" "length (cl_task_id c) \<le> 128"
    "list_all plain_char (cl_tenant_id c)" "length (cl_tenant_id c) \<le> 128"
    using ok by blast+
  show "list_all plain_char (cl_skill_id c)" "length (cl_skill_id c) \<le> 128"
    using charset [OF ok [THEN conjunct2, THEN conjunct2, THEN conjunct2, THEN conjunct2, THEN conjunct1, unfolded executor_skill_ok_def]]
    by (auto simp: claim_char_def is_alnum_def)
  have "executor_idempotency_ok t \<Longrightarrow> list_all plain_char t \<and> length t \<le> 128" for t
    unfolding executor_idempotency_ok_def by (drule charset) (auto simp: claim_char_def)
  then show "list_all plain_char (cl_idempotency_key c)" "length (cl_idempotency_key c) \<le> 128"
    using ok by blast+
qed


lemma show_int_short: "0 \<le> i \<Longrightarrow> i \<le> maxSafeInteger \<Longrightarrow> ascii (show_int i) \<and> length (show_int i) \<le> 16"
proof -
  assume "0 \<le> i" "i \<le> maxSafeInteger"
  then have "nat i < 10 ^ Suc 15" by (simp add: maxSafeInteger_def)
  then have "length (show_nat (nat i)) \<le> 16" using length_show_nat [of "nat i" 15] by simp
  moreover have "is_digit c \<Longrightarrow> byte c < 128" for c by (auto simp: is_digit_def char_in_def)
  then have "ascii (show_nat (nat i))" using show_nat_digits [of "nat i"] by (auto simp: list_all_iff)
  ultimately show ?thesis using \<open>0 \<le> i\<close> by (simp add: show_int_def)
qed

text \<open>The JSON text of valid claims is short ASCII.\<close>

lemma claims_json_short:
  assumes "claims_ok c" and "0 \<le> cl_issued_at c" and "cl_expires_at c \<le> maxSafeInteger"
  shows "ascii (claims_json c) \<and> 2 \<le> length (claims_json c) \<and> length (claims_json c) \<le> 1200"
proof -
  have schema: "list_all plain_char EXECUTOR_CREDENTIAL_SCHEMA" by (simp add: EXECUTOR_CREDENTIAL_SCHEMA_def plain_char_def)
  have keys: "list_all (list_all plain_char) CLAIM_KEYS" by (simp add: CLAIM_KEYS_def plain_char_def)
  have times: "0 \<le> cl_issued_at c" "cl_issued_at c \<le> maxSafeInteger" "0 \<le> cl_expires_at c" "cl_expires_at c \<le> maxSafeInteger"
    using assms by (simp_all add: claims_ok_def)
  note parts = claim_texts [OF assms(1)]
  have json: "list_all plain_char s \<Longrightarrow> ascii (json_string s) \<and> length (json_string s) = length s + 2" for s
    using plain_ascii by (simp add: plain_json)
  have "length EXECUTOR_CREDENTIAL_SCHEMA = 30" by (simp add: EXECUTOR_CREDENTIAL_SCHEMA_def)
  then show ?thesis
    using json [OF schema] parts(2,4,6,8,10,12,14) parts(1,3,5,7,9,11,13) [THEN json]
      show_int_short [OF times(1,2)] show_int_short [OF times(3,4)] keys
    by (simp add: claims_json_def claims_members_def member_text_def CLAIM_KEYS_def json)
qed


lemma split_on_join: "concat (map ((#) c) (split_on c s)) = c # s"
  by (induction s) (auto split: list.splits)

lemma split_on_append: "c \<notin> set s \<Longrightarrow> split_on c (s @ c # t) = s # split_on c t"
  by (induction s) auto

lemma split_on_none: "c \<notin> set s \<Longrightarrow> split_on c s = [s]"
  by (induction s) auto

lemma b64_no_dot: "CHR ''.'' \<notin> set (base64urlEncode s)"
proof -
  have "\<not> is_b64 CHR ''.''"
    by (simp add: is_b64_def is_alnum_def is_digit_def is_lower_def is_upper_def char_in_def)
  then show ?thesis using b64_alphabet [of s] by (auto simp: list_all_iff)
qed

lemma parse_token:
  assumes "p \<noteq> []" and "length p \<le> 3000" and "length m = 32"
  shows "parseEnvelope (CREDENTIAL_PREFIX @ ''.'' @ base64urlEncode p @ ''.'' @ base64urlEncode m) =
    Some (base64urlEncode p, base64urlEncode m)"
proof -
  let ?t = "CREDENTIAL_PREFIX @ ''.'' @ base64urlEncode p @ ''.'' @ base64urlEncode m"
  have short: "length (base64urlEncode p) \<le> 4096" "length (base64urlEncode m) = 43"
    using assms by (simp_all add: length_b64)
  have "m \<noteq> []" using assms(3) by auto
  then have decoded: "base64urlDecode (base64urlEncode p) = Some p" "base64urlDecode (base64urlEncode m) = Some m"
    using short assms(1) by (simp_all add: b64_decode_encode)
  have "CHR ''.'' \<notin> set CREDENTIAL_PREFIX" by (simp add: CREDENTIAL_PREFIX_def)
  then have "split_on CHR ''.'' ?t = [CREDENTIAL_PREFIX, base64urlEncode p, base64urlEncode m]"
    using b64_no_dot [of p] b64_no_dot [of m] by (simp add: split_on_append split_on_none)
  then show ?thesis
    using short decoded assms(3) by (simp add: parseEnvelope_def require_def CREDENTIAL_PREFIX_def)
qed

lemma parse_envelope_token:
  "parseEnvelope token = Some (payload, signature) \<Longrightarrow>
    token = CREDENTIAL_PREFIX @ ''.'' @ payload @ ''.'' @ signature \<and> base64urlEncode (b64_bytes signature) = signature"
  using split_on_join [of "CHR ''.''" token]
  by (auto simp: parseEnvelope_def base64urlDecode_def require_def Let_def split: list.splits option.splits bind_splits if_splits)

lemma parse_claims_members:
  assumes "claims_ok c" and "0 \<le> cl_issued_at c" and "cl_expires_at c \<le> maxSafeInteger"
  shows "parseClaims (Obj (claims_members c)) = Some c"
proof -
  have times: "cl_issued_at c < cl_expires_at c" using assms(1) by (simp add: claims_ok_def)
  have keys: "map fst (claims_members c) = CLAIM_KEYS" by (simp add: claims_members_def CLAIM_KEYS_def)
  have eta: "\<lparr>cl_credential_id = cl_credential_id c, cl_key_id = cl_key_id c, cl_task_id = cl_task_id c, cl_tenant_id = cl_tenant_id c,
      cl_skill_id = cl_skill_id c, cl_idempotency_key = cl_idempotency_key c, cl_input_digest = cl_input_digest c,
      cl_issued_at = cl_issued_at c, cl_expires_at = cl_expires_at c\<rparr> = c" by simp
  show ?thesis
    using assms times by (simp add: parseClaims_def keys require_def, simp add: claims_members_def field_def require_def Let_def eta)
qed

lemma parse_claims_ok: "parseClaims v = Some c \<Longrightarrow> claims_ok c"
  by (auto simp: parseClaims_def Let_def require_def split: bind_splits if_splits)


text \<open>A token the code issued opens to the claims it was issued for.\<close>

lemma verify_issued:
  assumes ok: "claims_ok c" "0 \<le> cl_issued_at c" "cl_expires_at c \<le> maxSafeInteger"
    and hmac: "length (eh_hmac h (ek_secret k) (utf8_bytes (CREDENTIAL_PREFIX @ ''.'' @ base64urlEncode (utf8_bytes (claims_json c))))) = 32"
    and parse: "eh_parse h (utf8_bytes (claims_json c)) = Some (Obj (claims_members c))"
    and keys: "assertKey active" "assertKey k" "verification_key active trusted (cl_key_id c) = Some k"
  shows "verifyExecutorCredential h active trusted n (credential_token h k c) = in_time n c"
proof -
  have bytes: "utf8_bytes (claims_json c) \<noteq> []" "length (utf8_bytes (claims_json c)) \<le> 3000"
    using claims_json_short [OF ok] by (auto simp: utf8_ascii)
  have envelope: "parseEnvelope (credential_token h k c) =
      Some (base64urlEncode (utf8_bytes (claims_json c)), signEnvelope h (base64urlEncode (utf8_bytes (claims_json c))) k)"
    using parse_token [OF bytes hmac] by (simp add: credential_token_def signEnvelope_def Let_def)
  have "length (base64urlEncode (utf8_bytes (claims_json c))) \<le> 4096"
    using bytes(2) by (simp add: length_b64)
  then have "opened_claims h (base64urlEncode (utf8_bytes (claims_json c))) = Some c"
    using bytes(1) by (simp add: opened_claims_def b64_decode_encode parse parse_claims_members [OF ok])
  then show ?thesis using envelope keys by (simp add: verifyExecutorCredential_def)
qed

lemma issued_credential:
  "issueExecutorCredential h i key nowMs ttlMs = Some token \<longleftrightarrow>
    (\<exists>now ttl digest. token = credential_token h key (issued_claims h i key now ttl digest) \<and> assertKey key \<and>
      executor_id_ok (is_taskId i) \<and> executor_id_ok (is_tenantId i) \<and> executor_skill_ok (is_skillId i) \<and>
      executor_idempotency_ok (is_idempotencyKey i) \<and> 1 \<le> ttl \<and> ttl \<le> EXECUTOR_CREDENTIAL_MAX_TTL_MS \<and>
      safeInteger (case nowMs of None \<Rightarrow> IntNum (clock (eh_env h) 0) | Some n \<Rightarrow> n) = Some now \<and>
      safeInteger (case ttlMs of None \<Rightarrow> IntNum EXECUTOR_CREDENTIAL_TTL_MS | Some n \<Rightarrow> n) = Some ttl \<and>
      computeExecutorInputDigest (eh_env h) (is_input i) = Some digest)"
  by (auto simp: issueExecutorCredential_def require_def split: bind_splits if_splits)

text \<open>
  C21: an issued credential is accepted exactly in its time. Whoever trusts the issuing key and verifies the token at time \<open>t\<close> refuses
  it as invalid more than ten seconds before it was issued, as expired from \<open>now + ttl\<close> on, and gets the claims it was issued
  for in between, whatever the ids and the input. The HMAC has 32 bytes and \<^verbatim>\<open>JSON.parse\<close> reads what \<^verbatim>\<open>JSON.stringify\<close> wrote.
\<close>

theorem credential_window:
  assumes issued: "issueExecutorCredential h i key (Some (IntNum now)) (Some (IntNum ttl)) = Some token"
    and digest: "computeExecutorInputDigest (eh_env h) (is_input i) = Some digest" "is_digest digest"
    and id: "uuid_ok (uuid (eh_env h) 0)"
    and time: "0 \<le> now" "now + ttl \<le> maxSafeInteger" "\<bar>t\<bar> \<le> maxSafeInteger"
    and hmac: "\<forall>k m. length (eh_hmac h k m) = 32"
    and parse: "eh_parse h (utf8_bytes (claims_json (issued_claims h i key now ttl digest))) =
      Some (Obj (claims_members (issued_claims h i key now ttl digest)))"
    and keys: "assertKey active" "verification_key active trusted (ek_keyId key) = Some key"
  shows "verifyExecutorCredential h active trusted (IntNum t) token =
    (if t + EXECUTOR_CLOCK_SKEW_MS < now then Inl CREDENTIAL_INVALID
     else if now + ttl \<le> t then Inl CREDENTIAL_EXPIRED
     else Inr (issued_claims h i key now ttl digest))"
proof -
  let ?c = "issued_claims h i key now ttl digest"
  have ok: "claims_ok ?c" and key: "assertKey key" and token: "token = credential_token h key ?c"
    using issued digest id by (auto simp: issued_credential claims_ok_def issued_claims_def assertKey_def split: if_splits)
  have "verifyExecutorCredential h active trusted (IntNum t) token = in_time (IntNum t) ?c"
    unfolding token using hmac key keys time by (intro verify_issued [OF ok _ _ _ parse]) (simp_all add: issued_claims_def)
  then show ?thesis using time(3) by (simp add: in_time_def issued_claims_def)
qed

lemma verified_parts:
  assumes "verifyExecutorCredential h active trusted n token = Inr c"
  obtains payload signature k where "parseEnvelope token = Some (payload, signature)" and "opened_claims h payload = Some c"
    and "verification_key active trusted (cl_key_id c) = Some k" "assertKey k"
    and "b64_bytes (signEnvelope h payload k) = b64_bytes signature" and "in_time n c = Inr c" and "claims_ok c"
proof -
  obtain payload signature k where parts: "parseEnvelope token = Some (payload, signature)" "opened_claims h payload = Some c"
    "verification_key active trusted (cl_key_id c) = Some k" "assertKey k"
    "b64_bytes (signEnvelope h payload k) = b64_bytes signature" "in_time n c = Inr c"
    using assms unfolding verifyExecutorCredential_def
    by (auto simp: in_time_def split: if_splits option.splits)
  moreover have "claims_ok c" using parts(2) parse_claims_ok by (auto simp: opened_claims_def split: bind_splits)
  ultimately show thesis by (rule that)
qed

text \<open>
  what an accepted credential binds. The token is the envelope whose signature is the HMAC of exactly its payload under the trusted
  key its claims name, in the one canonical encoding; the payload opens to the accepted claims; they are well formed and live at most
  five minutes, and the time of the call lies in their window. So no token but the one a holder of a trusted key writes for a payload is
  accepted for it.
\<close>

theorem credential_binds:
  assumes "verifyExecutorCredential h active trusted n token = Inr c"
  shows "\<exists>k payload now. verification_key active trusted (cl_key_id c) = Some k \<and> assertKey k \<and>
    token = CREDENTIAL_PREFIX @ ''.'' @ payload @ ''.'' @ signEnvelope h payload k \<and> opened_claims h payload = Some c \<and> claims_ok c \<and>
    n = IntNum now \<and> cl_issued_at c \<le> now + EXECUTOR_CLOCK_SKEW_MS \<and> now < cl_expires_at c"
proof -
  obtain payload signature k where envelope: "parseEnvelope token = Some (payload, signature)" and opened: "opened_claims h payload = Some c"
    and key: "verification_key active trusted (cl_key_id c) = Some k" "assertKey k"
    and sign: "b64_bytes (signEnvelope h payload k) = b64_bytes signature" and time: "in_time n c = Inr c" and ok: "claims_ok c"
    using assms by (rule verified_parts)
  have token: "token = CREDENTIAL_PREFIX @ ''.'' @ payload @ ''.'' @ signature" "base64urlEncode (b64_bytes signature) = signature"
    using parse_envelope_token [OF envelope] by auto
  have "base64urlEncode (b64_bytes (signEnvelope h payload k)) = signEnvelope h payload k"
    by (simp add: signEnvelope_def b64_round_trip)
  then have "signature = signEnvelope h payload k" using token(2) sign by metis
  moreover obtain now where "n = IntNum now" "cl_issued_at c \<le> now + EXECUTOR_CLOCK_SKEW_MS" "now < cl_expires_at c"
    using time by (auto simp: in_time_def safeInteger_Some split: option.splits if_splits)
  ultimately show ?thesis using key ok opened token(1) by blast
qed

subsection \<open>Reading the keys of the environment\<close>

text \<open>\<^verbatim>\<open>env\<close> is the process environment; \<^verbatim>\<open>Inl\<close> is the error with which the bootstrap stops.\<close>

definition decoded_secret :: "string \<Rightarrow> string option" where
  "decoded_secret raw = do {
     require (all_within is_b64 43 86 raw);
     let secret = b64_bytes raw;
     require (32 \<le> length secret \<and> length secret \<le> 64 \<and> base64urlEncode secret = raw);
     Some secret
   }"

definition parseExecutorCredentialKey :: "(string \<Rightarrow> string option) \<Rightarrow> unit + ExecutorCredentialKey option" where
  "parseExecutorCredentialKey env =
    (case truthy (map_option js_trim (env ''EXECUTOR_CREDENTIAL_SECRET'')) of
       None \<Rightarrow> Inr None
     | Some rawSecret \<Rightarrow>
         let rawKeyId = (case truthy (map_option js_trim (env ''EXECUTOR_CREDENTIAL_KEY_ID'')) of None \<Rightarrow> ''executor-v1'' | Some k \<Rightarrow> k) in
         if \<not> executor_key_id_ok rawKeyId then Inl ()
         else case decoded_secret rawSecret of
           None \<Rightarrow> Inl ()
         | Some secret \<Rightarrow> Inr (Some \<lparr>ek_keyId = rawKeyId, ek_secret = secret\<rparr>))"

fun trusted_entries :: "(string \<times> js_value) list \<Rightarrow> (string, ExecutorCredentialKey) js_map \<Rightarrow> (string, ExecutorCredentialKey) js_map option" where
  "trusted_entries [] keys = Some keys"
| "trusted_entries ((keyId, v) # entries) keys = do {
     raw \<leftarrow> string_value v;
     require (executor_key_id_ok keyId);
     secret \<leftarrow> decoded_secret raw;
     trusted_entries entries (map_set keyId \<lparr>ek_keyId = keyId, ek_secret = secret\<rparr> keys)
   }"

definition parseExecutorCredentialTrustedKeys ::
  "executor_host \<Rightarrow> (string \<Rightarrow> string option) \<Rightarrow> unit + (string, ExecutorCredentialKey) js_map" where
  "parseExecutorCredentialTrustedKeys h env =
    (case truthy (map_option js_trim (env ''EXECUTOR_CREDENTIAL_TRUSTED_KEYS_JSON'')) of
       None \<Rightarrow> Inr []
     | Some raw \<Rightarrow>
         (case Option.bind (eh_parse h (utf8_bytes raw)) object_members of
            None \<Rightarrow> Inl ()
          | Some entries \<Rightarrow>
              if 16 < length entries then Inl ()
              else (case trusted_entries entries [] of None \<Rightarrow> Inl () | Some keys \<Rightarrow> Inr keys)))"

text \<open>Every key read from the environment is usable, and the overlap set is keyed by the id of its keys.\<close>

definition trusted_ok :: "(string, ExecutorCredentialKey) js_map \<Rightarrow> bool" where
  "trusted_ok keys \<longleftrightarrow> (\<forall>i k. map_get keys i = Some k \<longrightarrow> ek_keyId k = i \<and> assertKey k)"

lemma decoded_secret_ok: "decoded_secret raw = Some s \<Longrightarrow> 32 \<le> length s \<and> length s \<le> 64"
  by (auto simp: decoded_secret_def require_def Let_def split: bind_splits if_splits)

lemma trusted_none: "trusted_ok []"
  by (simp add: trusted_ok_def)

lemma trusted_ok_set: "trusted_ok keys \<Longrightarrow> assertKey k \<Longrightarrow> ek_keyId k = i \<Longrightarrow> trusted_ok (map_set i k keys)"
  by (auto simp: trusted_ok_def)

lemma trusted_entries_ok: "trusted_entries es keys = Some r \<Longrightarrow> trusted_ok keys \<Longrightarrow> trusted_ok r"
proof (induction es keys rule: trusted_entries.induct)
  case (2 keyId v entries keys)
  then obtain raw secret where step: "string_value v = Some raw" "executor_key_id_ok keyId" "decoded_secret raw = Some secret"
      "trusted_entries entries (map_set keyId \<lparr>ek_keyId = keyId, ek_secret = secret\<rparr> keys) = Some r"
    by (auto simp: require_def split: bind_splits if_splits)
  show ?case
    using "2.IH" [OF step(1) _ step(3,4)] step(2,3) "2.prems"(2)
    by (simp add: require_def trusted_ok_set assertKey_def decoded_secret_ok)
qed simp

lemma trusted_keys_ok: "parseExecutorCredentialTrustedKeys h env = Inr keys \<Longrightarrow> trusted_ok keys"
  using trusted_entries_ok [of _ "[]" keys] trusted_none
  by (auto simp: parseExecutorCredentialTrustedKeys_def split: option.splits if_splits)

lemma credential_key_ok: "parseExecutorCredentialKey env = Inr (Some key) \<Longrightarrow> assertKey key"
  by (auto simp: parseExecutorCredentialKey_def Let_def assertKey_def decoded_secret_ok split: option.splits if_splits)


subsection \<open>One credential\<close>

definition sample_executor_key :: ExecutorCredentialKey where
  "sample_executor_key = \<lparr>ek_keyId = ''executor-v1'', ek_secret = replicate 32 CHR ''k''\<rparr>"

definition sample_claims :: ExecutorCredentialClaims where
  "sample_claims =
    \<lparr>cl_credential_id = ''00000000-0000-4000-8000-000000000000'', cl_key_id = ''executor-v1'', cl_task_id = ''task-1'',
     cl_tenant_id = ''tenant-1'', cl_skill_id = ''longhub.skill.salary-band'', cl_idempotency_key = ''key-1'',
     cl_input_digest = replicate 64 CHR ''0'', cl_issued_at = 1000, cl_expires_at = 61000\<rparr>"

definition sample_executor_host :: executor_host where
  "sample_executor_host =
    \<lparr>eh_env = sample_env\<lparr>uuid := \<lambda>_. ''00000000-0000-4000-8000-000000000000'', sha256 := \<lambda>_. replicate 64 CHR ''0''\<rparr>,
     eh_hmac = \<lambda>_ _. replicate 32 CHR ''s'',
     eh_parse = \<lambda>b. if b = utf8_bytes (claims_json sample_claims) then Some (Obj (claims_members sample_claims)) else None\<rparr>"

definition sample_issue :: IssueExecutorCredentialInput where
  "sample_issue = \<lparr>is_taskId = ''task-1'', is_tenantId = ''tenant-1'', is_skillId = ''longhub.skill.salary-band'',
     is_idempotencyKey = ''key-1'', is_input = Obj [(''level'', Number (IntNum 3))]\<rparr>"

definition sample_token :: string where
  "sample_token = credential_token sample_executor_host sample_executor_key sample_claims"

lemmas sample_char_defs = is_alnum_def is_digit_def is_lower_def is_upper_def is_hex_def char_in_def all_within_def

lemma sample_key_ok: "assertKey sample_executor_key"
  by (simp add: sample_executor_key_def assertKey_def executor_key_id_ok_def sample_char_defs)

lemma sample_claims_ok: "claims_ok sample_claims"
  by (simp add: sample_claims_def claims_ok_def uuid_ok_def is_hex_either_def executor_key_id_ok_def executor_id_ok_def
      executor_skill_ok_def executor_idempotency_ok_def is_digest_def EXECUTOR_CREDENTIAL_MAX_TTL_MS_def sample_char_defs list_all_iff)

lemma sample_issued_claims: "issued_claims sample_executor_host sample_issue sample_executor_key 1000 60000 (replicate 64 CHR ''0'') = sample_claims"
  by (simp add: issued_claims_def sample_executor_host_def sample_issue_def sample_executor_key_def sample_claims_def)

lemma sample_digest: "computeExecutorInputDigest (eh_env sample_executor_host) (is_input sample_issue) = Some (replicate 64 CHR ''0'')"
  by (simp add: computeExecutorInputDigest_def sample_issue_def sample_executor_host_def)

lemma sample_issued:
  "issueExecutorCredential sample_executor_host sample_issue sample_executor_key (Some (IntNum 1000)) (Some (IntNum 60000)) = Some sample_token"
  using sample_claims_ok sample_digest sample_key_ok sample_issued_claims
  by (auto simp: issued_credential sample_token_def claims_ok_def sample_claims_def sample_issue_def maxSafeInteger_def
      EXECUTOR_CREDENTIAL_MAX_TTL_MS_def)

lemma sample_verified:
  "verifyExecutorCredential sample_executor_host sample_executor_key None (IntNum 60999) sample_token = Inr sample_claims"
proof -
  have "verifyExecutorCredential sample_executor_host sample_executor_key None (IntNum 60999) sample_token = in_time (IntNum 60999) sample_claims"
    unfolding sample_token_def
    by (intro verify_issued [OF sample_claims_ok] sample_key_ok)
      (simp_all add: sample_claims_def sample_executor_host_def sample_executor_key_def maxSafeInteger_def verification_key_def)
  then show ?thesis by (simp add: in_time_def maxSafeInteger_def sample_claims_def EXECUTOR_CLOCK_SKEW_MS_def)
qed

theorem credential_window_witness:
  "issueExecutorCredential sample_executor_host sample_issue sample_executor_key (Some (IntNum 1000)) (Some (IntNum 60000)) = Some sample_token \<and>
   verifyExecutorCredential sample_executor_host sample_executor_key None (IntNum 61000) sample_token = Inl CREDENTIAL_EXPIRED"
proof
  show "verifyExecutorCredential sample_executor_host sample_executor_key None (IntNum 61000) sample_token = Inl CREDENTIAL_EXPIRED"
    using credential_window [OF sample_issued sample_digest, of 61000 sample_executor_key None] sample_key_ok sample_issued_claims sample_claims_ok
    by (simp add: claims_ok_def sample_claims_def sample_executor_host_def maxSafeInteger_def verification_key_def EXECUTOR_CLOCK_SKEW_MS_def)
qed (rule sample_issued)

theorem credential_binds_witness:
  "verifyExecutorCredential sample_executor_host sample_executor_key None (IntNum 60999) sample_token = Inr sample_claims \<and>
   (\<exists>payload. sample_token = CREDENTIAL_PREFIX @ ''.'' @ payload @ ''.'' @ signEnvelope sample_executor_host payload sample_executor_key)"
proof -
  have "verification_key sample_executor_key None (cl_key_id sample_claims) = Some k \<Longrightarrow> k = sample_executor_key" for k
    by (simp add: verification_key_def split: if_splits)
  then show ?thesis using credential_binds [OF sample_verified] sample_verified by blast
qed

end
