(* ===== verification/Executor_Server.thy ===== *)
theory Executor_Server
  imports Executor_Credential
begin

text \<open>
  The executor of Cloud Skills (\<^verbatim>\<open>apps/longhub-executor/src/server.ts\<close> and \<^verbatim>\<open>private-skills/\<close>). A request is
  checked in two halves around the reading of its body: \<open>check_head\<close> before, \<open>check_body\<close> and \<open>begin_execution\<close> after. The
  promises of the idempotency cache are the runs they stand for, by number; a run gets its response when its Skill settles or its time is
  over. The messages of error bodies are left out, their codes and retry flags are kept. The lemmas show that a tenant's key runs at most
  once per lifetime of a cache entry and that a reply belongs to a run of exactly the request the credential was issued for.
\<close>

subsection \<open>Problems, requests and responses\<close>

datatype HttpProblem = HttpProblem (problem_status: int) (problem_code: string) (problem_retryable: bool)

datatype response_body = Output js_value | Failure string bool

record ExecutionResponse =
  xr_status :: int
  xr_body :: response_body

record incoming =
  rq_method :: string
  rq_url :: string
  rq_headers :: "string \<Rightarrow> string option"

record ExecutorRequest =
  xq_task_id :: string
  xq_tenant_id :: string
  xq_skill_id :: string
  xq_idempotency_key :: string
  xq_input_digest :: string
  xq_input :: js_value

record CloudSkillContext =
  cx_requestId :: string
  cx_taskId :: string
  cx_tenantId :: string
  cx_skillId :: string
  cx_idempotencyKey :: string

datatype skill_outcome = Returned js_value | InputRejected | Threw

type_synonym CloudSkill = "js_value \<Rightarrow> CloudSkillContext \<Rightarrow> skill_outcome"

record ExecutorServerOptions =
  xo_credentialKey :: ExecutorCredentialKey
  xo_verificationKeys :: "(string, ExecutorCredentialKey) js_map"
  xo_skills :: "(string, CloudSkill) js_map"
  xo_maxBodyBytes :: js_number
  xo_maxResponseBytes :: "js_number option"
  xo_bodyTimeoutMs :: js_number
  xo_executionTimeoutMs :: js_number
  xo_idempotencyTtlMs :: js_number
  xo_maxIdempotencyEntries :: js_number

definition EXECUTOR_REQUEST_SCHEMA :: string where "EXECUTOR_REQUEST_SCHEMA = ''longhub/executor-request/v1''"
definition EXECUTOR_CREDENTIAL_HEADER :: string where "EXECUTOR_CREDENTIAL_HEADER = ''x-longhub-executor-credential''"
definition DEFAULT_MAX_BODY_BYTES :: int where "DEFAULT_MAX_BODY_BYTES = 1 * 1024 * 1024"
definition DEFAULT_BODY_TIMEOUT_MS :: int where "DEFAULT_BODY_TIMEOUT_MS = 10000"
definition DEFAULT_EXECUTION_TIMEOUT_MS :: int where "DEFAULT_EXECUTION_TIMEOUT_MS = 30000"
definition DEFAULT_IDEMPOTENCY_TTL_MS :: int where "DEFAULT_IDEMPOTENCY_TTL_MS = 10 * 60000"
definition DEFAULT_MAX_IDEMPOTENCY_ENTRIES :: int where "DEFAULT_MAX_IDEMPOTENCY_ENTRIES = 10000"

text \<open>A server is what the options leave after the checks and defaults of \<^verbatim>\<open>createExecutorServer\<close>.\<close>

record executor_server =
  xs_key :: ExecutorCredentialKey
  xs_keys :: "(string, ExecutorCredentialKey) js_map"
  xs_skills :: "(string, CloudSkill) js_map"
  xs_maxBodyBytes :: int
  xs_maxResponseBytes :: int
  xs_idempotencyTtlMs :: int
  xs_maxIdempotencyEntries :: int
  xs_requestTimeout :: int
  xs_headersTimeout :: int

definition positive_limit :: "js_number \<Rightarrow> int option" where
  "positive_limit n = (case safeInteger n of None \<Rightarrow> None | Some i \<Rightarrow> if i \<le> 0 then None else Some i)"

definition createExecutorServer :: "ExecutorServerOptions \<Rightarrow> executor_server option" where
  "createExecutorServer x = do {
     maxBodyBytes \<leftarrow> positive_limit (xo_maxBodyBytes x);
     maxResponseBytes \<leftarrow> positive_limit (case xo_maxResponseBytes x of None \<Rightarrow> xo_maxBodyBytes x | Some n \<Rightarrow> n);
     bodyTimeoutMs \<leftarrow> positive_limit (xo_bodyTimeoutMs x);
     executionTimeoutMs \<leftarrow> positive_limit (xo_executionTimeoutMs x);
     idempotencyTtlMs \<leftarrow> positive_limit (xo_idempotencyTtlMs x);
     maxIdempotencyEntries \<leftarrow> positive_limit (xo_maxIdempotencyEntries x);
     Some \<lparr>xs_key = xo_credentialKey x,
       xs_keys = map_set (ek_keyId (xo_credentialKey x)) (xo_credentialKey x) (xo_verificationKeys x),
       xs_skills = xo_skills x, xs_maxBodyBytes = maxBodyBytes, xs_maxResponseBytes = maxResponseBytes,
       xs_idempotencyTtlMs = idempotencyTtlMs, xs_maxIdempotencyEntries = maxIdempotencyEntries,
       xs_requestTimeout = max (bodyTimeoutMs + executionTimeoutMs + 5000) 15000,
       xs_headersTimeout = max bodyTimeoutMs 5000\<rparr>
   }"

subsection \<open>Before the body\<close>

text \<open>\<^verbatim>\<open>/^application\/json(?:\s*;\s*charset=utf-8)?$/i\<close>\<close>

definition json_content_type :: "string \<Rightarrow> bool" where
  "json_content_type s \<longleftrightarrow>
    (let t = map ascii_lower s; rest = drop 16 t in
     starts_with ''application/json'' t \<and>
     (rest = [] \<or>
      (case dropWhile is_space rest of
         [] \<Rightarrow> False
       | c # more_text \<Rightarrow> c = CHR '';'' \<and> dropWhile is_space more_text = ''charset=utf-8'')))"

definition internalCredential :: "incoming \<Rightarrow> string option" where
  "internalCredential req = map_option js_trim (rq_headers req EXECUTOR_CREDENTIAL_HEADER)"

definition check_head :: "executor_host \<Rightarrow> executor_server \<Rightarrow> int \<Rightarrow> incoming \<Rightarrow> HttpProblem + ExecutorCredentialClaims" where
  "check_head h x now req =
    (if rq_method req \<noteq> ''POST'' \<or> rq_url req \<noteq> ''/execute'' then Inl (HttpProblem 404 ''NOT_FOUND'' False)
     else if \<not> (case rq_headers req ''content-type'' of None \<Rightarrow> False | Some t \<Rightarrow> json_content_type t)
     then Inl (HttpProblem 415 ''UNSUPPORTED_MEDIA_TYPE'' False)
     else case rq_headers req ''idempotency-key'' of
       None \<Rightarrow> Inl (HttpProblem 400 ''IDEMPOTENCY_KEY_REQUIRED'' False)
     | Some idempotencyKey \<Rightarrow>
         if \<not> executor_idempotency_ok idempotencyKey then Inl (HttpProblem 400 ''IDEMPOTENCY_KEY_REQUIRED'' False)
         else case truthy (internalCredential req) of
           None \<Rightarrow> Inl (HttpProblem 401 ''CREDENTIAL_REQUIRED'' False)
         | Some rawCredential \<Rightarrow>
             (case verifyExecutorCredential h (xs_key x) (Some (xs_keys x)) (IntNum now) rawCredential of
                Inl CREDENTIAL_EXPIRED \<Rightarrow> Inl (HttpProblem 401 ''CREDENTIAL_EXPIRED'' False)
              | Inl _ \<Rightarrow> Inl (HttpProblem 401 ''CREDENTIAL_INVALID'' False)
              | Inr claims \<Rightarrow>
                  if cl_idempotency_key claims \<noteq> idempotencyKey then Inl (HttpProblem 403 ''CREDENTIAL_BINDING_MISMATCH'' False)
                  else Inr claims))"

subsection \<open>The body\<close>

datatype body_event = Data string | End | Error | Aborted | Timeout

text \<open>\<^verbatim>\<open>None\<close>: the promise is still open. The first event that settles it decides.\<close>

fun read_chunks :: "int \<Rightarrow> string \<Rightarrow> body_event list \<Rightarrow> (HttpProblem + string) option" where
  "read_chunks maxBytes got [] = None"
| "read_chunks maxBytes got (Data chunk # evs) =
    (if maxBytes < int (length got + length chunk) then Some (Inl (HttpProblem 413 ''REQUEST_TOO_LARGE'' False))
     else read_chunks maxBytes (got @ chunk) evs)"
| "read_chunks maxBytes got (End # evs) = Some (Inr got)"
| "read_chunks maxBytes got (Error # evs) = Some (Inl (HttpProblem 400 ''INVALID_REQUEST'' False))"
| "read_chunks maxBytes got (Aborted # evs) = Some (Inl (HttpProblem 408 ''REQUEST_TIMEOUT'' True))"
| "read_chunks maxBytes got (Timeout # evs) = Some (Inl (HttpProblem 408 ''REQUEST_TIMEOUT'' True))"

definition readBoundedBody :: "js_env \<Rightarrow> incoming \<Rightarrow> int \<Rightarrow> body_event list \<Rightarrow> (HttpProblem + string) option" where
  "readBoundedBody e req maxBytes evs =
    (if (case rq_headers req ''content-length'' of
           None \<Rightarrow> False
         | Some s \<Rightarrow> s = [] \<or> \<not> list_all is_digit s \<or> js_greater e (js_Number e s) (IntNum maxBytes))
     then Some (Inl (HttpProblem 413 ''REQUEST_TOO_LARGE'' False))
     else read_chunks maxBytes [] evs)"

definition REQUEST_KEYS :: "string list" where
  "REQUEST_KEYS = [''schema_version'', ''task_id'', ''tenant_id'', ''skill_id'', ''idempotency_key'', ''input_digest'', ''input'']"

definition parseRequest :: "js_value \<Rightarrow> ExecutorRequest option" where
  "parseRequest value = do {
     record \<leftarrow> object_members value;
     require (joined_keys (map fst record) = joined_keys REQUEST_KEYS \<and> field record ''schema_version'' = Str EXECUTOR_REQUEST_SCHEMA);
     taskId \<leftarrow> string_value (field record ''task_id'');
     tenantId \<leftarrow> string_value (field record ''tenant_id'');
     skillId \<leftarrow> string_value (field record ''skill_id'');
     idempotencyKey \<leftarrow> string_value (field record ''idempotency_key'');
     inputDigest \<leftarrow> string_value (field record ''input_digest'');
     require (executor_id_ok taskId \<and> executor_id_ok tenantId \<and> executor_skill_ok skillId \<and>
       executor_idempotency_ok idempotencyKey \<and> is_digest inputDigest);
     Some \<lparr>xq_task_id = taskId, xq_tenant_id = tenantId, xq_skill_id = skillId, xq_idempotency_key = idempotencyKey,
       xq_input_digest = inputDigest, xq_input = field record ''input''\<rparr>
   }"

text \<open>The request is the one the credential was issued for, and its digest is that of the input it carries.\<close>

definition bound :: "js_env \<Rightarrow> ExecutorCredentialClaims \<Rightarrow> ExecutorRequest \<Rightarrow> bool" where
  "bound e c r \<longleftrightarrow> xq_task_id r = cl_task_id c \<and> xq_tenant_id r = cl_tenant_id c \<and> xq_skill_id r = cl_skill_id c \<and>
    xq_idempotency_key r = cl_idempotency_key c \<and> xq_input_digest r = cl_input_digest c \<and>
    computeExecutorInputDigest e (xq_input r) = Some (xq_input_digest r)"

definition check_body :: "executor_host \<Rightarrow> ExecutorCredentialClaims \<Rightarrow> string \<Rightarrow> HttpProblem + ExecutorRequest" where
  "check_body h claims body =
    (case eh_parse h body of
       None \<Rightarrow> Inl (HttpProblem 400 ''INVALID_JSON'' False)
     | Some parsed \<Rightarrow>
         (case parseRequest parsed of
            None \<Rightarrow> Inl (HttpProblem 422 ''INVALID_REQUEST'' False)
          | Some request \<Rightarrow>
              if computeExecutorInputDigest (eh_env h) (xq_input request) = None then Inl (HttpProblem 422 ''INVALID_REQUEST'' False)
              else if \<not> bound (eh_env h) claims request then Inl (HttpProblem 403 ''CREDENTIAL_BINDING_MISMATCH'' False)
              else Inr request))"

subsection \<open>Running a Skill\<close>

definition executionResponse :: "int \<Rightarrow> string \<Rightarrow> bool \<Rightarrow> ExecutionResponse" where
  "executionResponse status code retryable = \<lparr>xr_status = status, xr_body = Failure code retryable\<rparr>"

definition skill_context :: "ExecutorCredentialClaims \<Rightarrow> string \<Rightarrow> CloudSkillContext" where
  "skill_context c requestId =
    \<lparr>cx_requestId = requestId, cx_taskId = cl_task_id c, cx_tenantId = cl_tenant_id c, cx_skillId = cl_skill_id c,
     cx_idempotencyKey = cl_idempotency_key c\<rparr>"

text \<open>What \<^verbatim>\<open>runSkill\<close> resolves to; \<open>timedOut\<close> says which promise of the race came first.\<close>

definition runSkill :: "executor_server \<Rightarrow> ExecutorRequest \<Rightarrow> ExecutorCredentialClaims \<Rightarrow> string \<Rightarrow> bool \<Rightarrow> ExecutionResponse" where
  "runSkill x request claims requestId timedOut =
    (case map_get (xs_skills x) (xq_skill_id request) of
       None \<Rightarrow> executionResponse 404 ''SKILL_NOT_FOUND'' False
     | Some skill \<Rightarrow>
         if timedOut then executionResponse 504 ''EXECUTION_TIMEOUT'' True
         else case skill (xq_input request) (skill_context claims requestId) of
           Returned out \<Rightarrow>
             if xs_maxResponseBytes x < int (length (utf8_bytes (the (stringify (Obj [(''output'', out)])))))
             then executionResponse 502 ''OUTPUT_TOO_LARGE'' False
             else \<lparr>xr_status = 200, xr_body = Output out\<rparr>
         | InputRejected \<Rightarrow> executionResponse 422 ''SKILL_INPUT_INVALID'' False
         | Threw \<Rightarrow> executionResponse 500 ''SKILL_EXECUTION_FAILED'' False)"


subsection \<open>The idempotency cache\<close>

text \<open>A run with the claims it was admitted under, when its head was checked and when it was started.\<close>

record executor_run =
  er_request :: ExecutorRequest
  er_claims :: ExecutorCredentialClaims
  er_requestId :: string
  er_arrived :: int
  er_at :: int
  er_response :: "ExecutionResponse option"

record CachedResponse =
  ce_fingerprint :: string
  ce_expiresAt :: int
  ce_promise :: nat

record executor_state =
  ex_idempotency :: "(string, CachedResponse) js_map"
  ex_runs :: "executor_run list"

definition requestFingerprint :: "ExecutorRequest \<Rightarrow> string" where
  "requestFingerprint r = nul_join [xq_task_id r, xq_tenant_id r, xq_skill_id r, xq_input_digest r]"

definition cacheKey :: "ExecutorRequest \<Rightarrow> string" where
  "cacheKey r = nul_join [xq_tenant_id r, xq_idempotency_key r]"

text \<open>The run whose promise the caller awaits: that of a live entry, or a new one.\<close>

definition begin_execution :: "executor_server \<Rightarrow> int \<Rightarrow> executor_run \<Rightarrow> executor_state \<Rightarrow> executor_state \<times> (HttpProblem + nat)" where
  "begin_execution x current run st =
    (let live = map_reject (\<lambda>_ entry. ce_expiresAt entry \<le> current) (ex_idempotency st);
         st' = st\<lparr>ex_idempotency := live\<rparr>;
         fingerprint = requestFingerprint (er_request run) in
     case map_get live (cacheKey (er_request run)) of
       Some existing \<Rightarrow>
         if ce_fingerprint existing \<noteq> fingerprint then (st', Inl (HttpProblem 409 ''IDEMPOTENCY_CONFLICT'' False))
         else (st', Inr (ce_promise existing))
     | None \<Rightarrow>
         if xs_maxIdempotencyEntries x \<le> int (length live) then (st', Inl (HttpProblem 503 ''EXECUTOR_BUSY'' True))
         else (st'\<lparr>ex_idempotency := map_set (cacheKey (er_request run))
                  \<lparr>ce_fingerprint = fingerprint, ce_expiresAt = current + xs_idempotencyTtlMs x, ce_promise = length (ex_runs st)\<rparr> live,
                ex_runs := ex_runs st @ [run]\<rparr>,
               Inr (length (ex_runs st))))"

text \<open>The handler from the end of the body on.\<close>

definition serve_body ::
  "executor_host \<Rightarrow> executor_server \<Rightarrow> ExecutorCredentialClaims \<Rightarrow> int \<Rightarrow> string \<Rightarrow> string \<Rightarrow> int \<Rightarrow> executor_state \<Rightarrow>
    executor_state \<times> (HttpProblem + nat)" where
  "serve_body h x claims arrived requestId body current st =
    (case check_body h claims body of
       Inl p \<Rightarrow> (st, Inl p)
     | Inr request \<Rightarrow>
         begin_execution x current
           \<lparr>er_request = request, er_claims = claims, er_requestId = requestId, er_arrived = arrived, er_at = current,
            er_response = None\<rparr> st)"

definition settle_run :: "executor_server \<Rightarrow> bool \<Rightarrow> executor_run \<Rightarrow> executor_run" where
  "settle_run x timedOut r =
    (case er_response r of
       Some _ \<Rightarrow> r
     | None \<Rightarrow> r\<lparr>er_response := Some (runSkill x (er_request r) (er_claims r) (er_requestId r) timedOut)\<rparr>)"

text \<open>
  The server between its events: the clock, the requests whose head was accepted and whose body is still being read, the cache and the
  runs. Requests interleave at every await.
\<close>

record executor_system =
  sy_now :: int
  sy_waiting :: "(ExecutorCredentialClaims \<times> int) list"
  sy_state :: executor_state

definition executor_start :: "int \<Rightarrow> executor_system" where
  "executor_start now = \<lparr>sy_now = now, sy_waiting = [], sy_state = \<lparr>ex_idempotency = [], ex_runs = []\<rparr>\<rparr>"

inductive executor_step :: "executor_host \<Rightarrow> executor_server \<Rightarrow> executor_system \<Rightarrow> executor_system \<Rightarrow> bool" for h x where
  tick: "sy_now s \<le> t \<Longrightarrow> executor_step h x s (s\<lparr>sy_now := t\<rparr>)"
| head: "check_head h x (sy_now s) req = Inr claims \<Longrightarrow> executor_step h x s (s\<lparr>sy_waiting := (claims, sy_now s) # sy_waiting s\<rparr>)"
| body_failed: "executor_step h x s (s\<lparr>sy_waiting := remove1 w (sy_waiting s)\<rparr>)"
| body_read: "(claims, arrived) \<in> set (sy_waiting s) \<Longrightarrow>
    serve_body h x claims arrived requestId body (sy_now s) (sy_state s) = (st', r) \<Longrightarrow>
    executor_step h x s (s\<lparr>sy_waiting := remove1 (claims, arrived) (sy_waiting s), sy_state := st'\<rparr>)"
| settled: "n < length (ex_runs (sy_state s)) \<Longrightarrow>
    executor_step h x s (s\<lparr>sy_state := (sy_state s)\<lparr>ex_runs := (ex_runs (sy_state s))[n := settle_run x timedOut (ex_runs (sy_state s) ! n)]\<rparr>\<rparr>)"

subsection \<open>Invariant\<close>

text \<open>The claims were accepted at time \<open>a\<close>.\<close>

definition accepted :: "int \<Rightarrow> ExecutorCredentialClaims \<Rightarrow> bool" where
  "accepted a c \<longleftrightarrow> claims_ok c \<and> cl_issued_at c \<le> a + EXECUTOR_CLOCK_SKEW_MS \<and> a < cl_expires_at c"

definition run_ok :: "executor_host \<Rightarrow> int \<Rightarrow> executor_run \<Rightarrow> bool" where
  "run_ok h now r \<longleftrightarrow> accepted (er_arrived r) (er_claims r) \<and> bound (eh_env h) (er_claims r) (er_request r) \<and>
    er_arrived r \<le> er_at r \<and> er_at r \<le> now"

definition cache_ok :: "executor_server \<Rightarrow> int \<Rightarrow> executor_state \<Rightarrow> bool" where
  "cache_ok x now st \<longleftrightarrow>
    map_ok (ex_idempotency st) \<and> int (length (ex_idempotency st)) \<le> max 0 (xs_maxIdempotencyEntries x) \<and>
    (\<forall>k e. map_get (ex_idempotency st) k = Some e \<longrightarrow> ce_promise e < length (ex_runs st) \<and>
      (let r = ex_runs st ! ce_promise e in k = cacheKey (er_request r) \<and> ce_fingerprint e = requestFingerprint (er_request r) \<and>
        ce_expiresAt e = er_at r + xs_idempotencyTtlMs x)) \<and>
    (\<forall>i < length (ex_runs st). now < er_at (ex_runs st ! i) + xs_idempotencyTtlMs x \<longrightarrow>
      (\<exists>e. map_get (ex_idempotency st) (cacheKey (er_request (ex_runs st ! i))) = Some e \<and> ce_promise e = i)) \<and>
    (\<forall>j < length (ex_runs st). \<forall>i < j. cacheKey (er_request (ex_runs st ! i)) = cacheKey (er_request (ex_runs st ! j)) \<longrightarrow>
      er_at (ex_runs st ! i) + xs_idempotencyTtlMs x \<le> er_at (ex_runs st ! j))"

definition executor_inv :: "executor_host \<Rightarrow> executor_server \<Rightarrow> executor_system \<Rightarrow> bool" where
  "executor_inv h x s \<longleftrightarrow>
    (\<forall>(c, a) \<in> set (sy_waiting s). accepted a c \<and> a \<le> sy_now s) \<and>
    list_all (run_ok h (sy_now s)) (ex_runs (sy_state s)) \<and> cache_ok x (sy_now s) (sy_state s)"

lemma cache_okD:
  assumes "cache_ok x now st"
  shows "map_ok (ex_idempotency st)"
    and "map_get (ex_idempotency st) k = Some e \<Longrightarrow> ce_promise e < length (ex_runs st) \<and>
      k = cacheKey (er_request (ex_runs st ! ce_promise e)) \<and> ce_fingerprint e = requestFingerprint (er_request (ex_runs st ! ce_promise e)) \<and>
      ce_expiresAt e = er_at (ex_runs st ! ce_promise e) + xs_idempotencyTtlMs x"
    and "i < length (ex_runs st) \<Longrightarrow> now < er_at (ex_runs st ! i) + xs_idempotencyTtlMs x \<Longrightarrow>
      \<exists>e. map_get (ex_idempotency st) (cacheKey (er_request (ex_runs st ! i))) = Some e \<and> ce_promise e = i"
    and "i < j \<Longrightarrow> j < length (ex_runs st) \<Longrightarrow> cacheKey (er_request (ex_runs st ! i)) = cacheKey (er_request (ex_runs st ! j)) \<Longrightarrow>
      er_at (ex_runs st ! i) + xs_idempotencyTtlMs x \<le> er_at (ex_runs st ! j)"
  using assms by (auto simp: cache_ok_def Let_def)

lemma accepted_head: "check_head h x now req = Inr c \<Longrightarrow> accepted now c"
proof -
  assume "check_head h x now req = Inr c"
  then obtain t where "verifyExecutorCredential h (xs_key x) (Some (xs_keys x)) (IntNum now) t = Inr c"
    by (auto simp: check_head_def split: if_splits option.splits sum.splits credential_error.splits)
  then have "in_time (IntNum now) c = Inr c \<and> claims_ok c" by (rule verified_parts) blast
  then show ?thesis by (auto simp: accepted_def in_time_def split: if_splits option.splits)
qed

text \<open>Time only removes obligations; expired entries stand for none.\<close>

lemma cache_ok_later: "cache_ok x now st \<Longrightarrow> now \<le> t \<Longrightarrow> cache_ok x t st"
  by (fastforce simp: cache_ok_def)

lemma cache_ok_swept:
  assumes "cache_ok x now st"
  shows "cache_ok x now (st\<lparr>ex_idempotency := map_reject (\<lambda>_ e. ce_expiresAt e \<le> now) (ex_idempotency st)\<rparr>)"
proof -
  note ok = cache_okD [OF assms]
  have get: "map_get (map_reject (\<lambda>_ e. ce_expiresAt e \<le> now) (ex_idempotency st)) k = Some e \<longleftrightarrow>
      map_get (ex_idempotency st) k = Some e \<and> now < ce_expiresAt e" for k e
    by (auto simp: map_get_reject ok(1) split: option.splits)
  have "int (length (map_reject (\<lambda>_ e. ce_expiresAt e \<le> now) (ex_idempotency st))) \<le> int (length (ex_idempotency st))"
    by (simp add: map_reject_def)
  then have size: "int (length (map_reject (\<lambda>_ e. ce_expiresAt e \<le> now) (ex_idempotency st))) \<le> max 0 (xs_maxIdempotencyEntries x)"
    using assms by (auto simp: cache_ok_def)
  have keep: "\<exists>e. (map_get (ex_idempotency st) (cacheKey (er_request (ex_runs st ! i))) = Some e \<and> now < ce_expiresAt e) \<and> ce_promise e = i"
    if run: "i < length (ex_runs st)" "now < er_at (ex_runs st ! i) + xs_idempotencyTtlMs x" for i
  proof -
    obtain e where e: "map_get (ex_idempotency st) (cacheKey (er_request (ex_runs st ! i))) = Some e" "ce_promise e = i"
      using ok(3) [OF run] by blast
    then have "ce_expiresAt e = er_at (ex_runs st ! i) + xs_idempotencyTtlMs x" using ok(2) [OF e(1)] by blast
    with e run(2) show ?thesis by auto
  qed
  show ?thesis
    unfolding cache_ok_def
  proof (intro conjI allI impI, goal_cases)
    case (3 k e)
    then show ?case using ok(2) [of k e] get by simp
  next
    case (4 k e)
    then have "map_get (ex_idempotency st) k = Some e" using get by simp
    from ok(2) [OF this] show ?case by (simp add: Let_def)
  next
    case (5 i)
    then show ?case using keep [of i] get by simp
  qed (use ok(1,4) size in simp_all)
qed

lemma cache_ok_new:
  assumes ok: "cache_ok x now st" and absent: "map_get (ex_idempotency st) (cacheKey (er_request run)) = None"
    and at: "er_at run = now" and room: "int (length (ex_idempotency st)) < xs_maxIdempotencyEntries x"
    and past: "\<forall>r \<in> set (ex_runs st). er_at r \<le> now"
  shows "cache_ok x now (st\<lparr>ex_idempotency := map_set (cacheKey (er_request run))
      \<lparr>ce_fingerprint = requestFingerprint (er_request run), ce_expiresAt = now + xs_idempotencyTtlMs x, ce_promise = length (ex_runs st)\<rparr>
      (ex_idempotency st), ex_runs := ex_runs st @ [run]\<rparr>)"
proof -
  note okD = cache_okD [OF ok]
  have fresh: "er_at (ex_runs st ! i) + xs_idempotencyTtlMs x \<le> now"
    if "i < length (ex_runs st)" "cacheKey (er_request (ex_runs st ! i)) = cacheKey (er_request run)" for i
    using okD(3) [OF that(1)] absent that(2) by fastforce
  have new_size: "length (map_set (cacheKey (er_request run)) e (ex_idempotency st)) = Suc (length (ex_idempotency st))" for e
    using arg_cong [OF map_values_set_absent [OF absent], of length] by simp
  show ?thesis
    unfolding cache_ok_def
  proof (intro conjI allI impI, goal_cases)
    case (3 k e)
    then show ?case using okD(2) [of k e] at by (auto simp: Let_def nth_append split: if_splits)
  next
    case (4 k e)
    then show ?case using okD(2) [of k e] at by (auto simp: Let_def nth_append split: if_splits)
  next
    case (5 i)
    then show ?case using okD(3) [of i] absent by (auto simp: nth_append less_Suc_eq split: if_splits)
  next
    case (6 j i)
    then show ?case using okD(4) [of i j] fresh [of i] at by (auto simp: nth_append less_Suc_eq split: if_splits)
  qed (use okD(1) room new_size in auto)
qed


lemma begin_execution_ok:
  assumes ok: "cache_ok x now st" and run: "run_ok h now run" "er_at run = now" and runs: "list_all (run_ok h now) (ex_runs st)"
    and step: "begin_execution x now run st = (st', r)"
  shows "cache_ok x now st' \<and> list_all (run_ok h now) (ex_runs st')"
    and "r = Inr n \<Longrightarrow> n < length (ex_runs st') \<and> cacheKey (er_request (ex_runs st' ! n)) = cacheKey (er_request run) \<and>
      requestFingerprint (er_request (ex_runs st' ! n)) = requestFingerprint (er_request run)"
proof -
  define swept where "swept = st\<lparr>ex_idempotency := map_reject (\<lambda>_ e. ce_expiresAt e \<le> now) (ex_idempotency st)\<rparr>"
  have swept: "cache_ok x now swept" "ex_runs swept = ex_runs st"
    using cache_ok_swept [OF ok] by (simp_all add: swept_def)
  have past: "\<forall>r \<in> set (ex_runs swept). er_at r \<le> now" using runs by (auto simp: swept(2) list_all_iff run_ok_def)
  note step' = step [unfolded begin_execution_def Let_def, folded swept_def]
  show "cache_ok x now st' \<and> list_all (run_ok h now) (ex_runs st')"
  proof (cases "map_get (ex_idempotency swept) (cacheKey (er_request run)) = None \<and>
      int (length (ex_idempotency swept)) < xs_maxIdempotencyEntries x")
    case True
    then have "st' = swept\<lparr>ex_idempotency := map_set (cacheKey (er_request run))
      \<lparr>ce_fingerprint = requestFingerprint (er_request run), ce_expiresAt = now + xs_idempotencyTtlMs x, ce_promise = length (ex_runs swept)\<rparr>
      (ex_idempotency swept), ex_runs := ex_runs swept @ [run]\<rparr>"
      using step' by (simp add: swept_def)
    then show ?thesis using cache_ok_new [OF swept(1) _ run(2) _ past] True run(1) runs swept(2) by simp
  next
    case False
    then have "st' = swept" using step' by (auto simp: swept_def split: option.splits if_splits)
    then show ?thesis using swept runs by simp
  qed
  show "n < length (ex_runs st') \<and> cacheKey (er_request (ex_runs st' ! n)) = cacheKey (er_request run) \<and>
      requestFingerprint (er_request (ex_runs st' ! n)) = requestFingerprint (er_request run)" if "r = Inr n"
  proof (cases "map_get (ex_idempotency swept) (cacheKey (er_request run))")
    case None
    then show ?thesis using step' that by (auto simp: swept_def split: if_splits)
  next
    case (Some e)
    then have "st' = swept" "ce_promise e = n" "ce_fingerprint e = requestFingerprint (er_request run)"
      using step' that by (auto simp: swept_def split: if_splits)
    then show ?thesis using cache_okD(2) [OF swept(1) Some] by metis
  qed
qed

lemma check_body_bound: "check_body h c body = Inr r \<Longrightarrow> bound (eh_env h) c r"
  by (auto simp: check_body_def split: option.splits if_splits)

lemma settle_run_fields [simp]:
  "er_request (settle_run x b r) = er_request r" "er_claims (settle_run x b r) = er_claims r"
  "er_arrived (settle_run x b r) = er_arrived r" "er_at (settle_run x b r) = er_at r"
  by (simp_all add: settle_run_def split: option.splits)

lemma settled_nth:
  "er_request (rs[n := settle_run x b (rs ! n)] ! i) = er_request (rs ! i)" "er_at (rs[n := settle_run x b (rs ! n)] ! i) = er_at (rs ! i)"
  by (cases "n < length rs"; simp add: nth_list_update list_update_beyond)+

lemma cache_ok_settled:
  "cache_ok x now st \<Longrightarrow> cache_ok x now (st\<lparr>ex_runs := (ex_runs st)[n := settle_run x b (ex_runs st ! n)]\<rparr>)"
  unfolding cache_ok_def Let_def by (simp add: settled_nth)

lemma run_ok_later: "run_ok h now r \<Longrightarrow> now \<le> t \<Longrightarrow> run_ok h t r"
  by (simp add: run_ok_def)

lemma executor_step_inv: "executor_step h x s s' \<Longrightarrow> executor_inv h x s \<Longrightarrow> executor_inv h x s'"
proof (induction rule: executor_step.induct)
  case (tick s t)
  then have "\<forall>(c, a) \<in> set (sy_waiting s). accepted a c \<and> a \<le> t" by (fastforce simp: executor_inv_def)
  moreover have "list_all (run_ok h t) (ex_runs (sy_state s))"
    using tick by (auto simp: executor_inv_def list_all_iff intro: run_ok_later)
  ultimately show ?case using tick cache_ok_later by (auto simp: executor_inv_def)
next
  case (head s req claims)
  then show ?case by (auto simp: executor_inv_def dest: accepted_head)
next
  case (body_failed s w)
  then show ?case using set_remove1_subset [of w "sy_waiting s"] by (auto simp: executor_inv_def)
next
  case (body_read claims arrived s requestId body st' r)
  then have wait: "accepted arrived claims" "arrived \<le> sy_now s" and inv: "cache_ok x (sy_now s) (sy_state s)"
    "list_all (run_ok h (sy_now s)) (ex_runs (sy_state s))"
    by (auto simp: executor_inv_def)
  have "cache_ok x (sy_now s) st' \<and> list_all (run_ok h (sy_now s)) (ex_runs st')"
  proof (cases "check_body h claims body")
    case (Inl p)
    then show ?thesis using body_read(2) inv by (simp add: serve_body_def)
  next
    case (Inr request)
    show ?thesis
      by (rule begin_execution_ok(1) [OF inv(1) _ _ inv(2) body_read(2) [unfolded serve_body_def Inr sum.case]])
        (use wait check_body_bound [OF Inr] in \<open>simp_all add: run_ok_def\<close>)
  qed
  then show ?case using body_read.prems set_remove1_subset [of "(claims, arrived)" "sy_waiting s"] by (auto simp: executor_inv_def)
next
  case (settled n s timedOut)
  then show ?case
    by (auto simp: executor_inv_def cache_ok_settled list_all_length nth_list_update run_ok_def)
qed

interpretation executor: step_invariant "executor_step h x" "executor_inv h x"
  by unfold_locales (rule executor_step_inv)

lemma executor_start_inv: "executor_inv h x (executor_start now)"
  by (simp add: executor_inv_def executor_start_def cache_ok_def)

lemma executor_reachable: "(executor_step h x)\<^sup>*\<^sup>* (executor_start t) s \<Longrightarrow> executor_inv h x s"
  by (erule executor.run_inv) (rule executor_start_inv)

text \<open>Ids have no NUL: the keys of the cache and the fingerprints name one tenant, key and request each.\<close>

lemma claim_text_no_nul:
  "head_tail P Q lo hi s \<Longrightarrow> (\<And>c. P c \<Longrightarrow> claim_char c) \<Longrightarrow> (\<And>c. Q c \<Longrightarrow> claim_char c) \<Longrightarrow> no_nul s"
proof -
  assume "head_tail P Q lo hi s" "\<And>c. P c \<Longrightarrow> claim_char c" "\<And>c. Q c \<Longrightarrow> claim_char c"
  then have "list_all claim_char s" using head_tail_all by blast
  moreover have "\<not> claim_char nul" by (simp add: claim_char_def is_alnum_def is_digit_def is_lower_def is_upper_def char_in_def nul_def)
  ultimately show "no_nul s" by (auto simp: list_all_iff no_nul_def)
qed

lemma executor_id_no_nul: "executor_id_ok s \<Longrightarrow> no_nul s"
  unfolding executor_id_ok_def by (erule claim_text_no_nul) (auto simp: claim_char_def)

lemma executor_skill_no_nul: "executor_skill_ok s \<Longrightarrow> no_nul s"
  unfolding executor_skill_ok_def by (erule claim_text_no_nul) (auto simp: claim_char_def is_alnum_def)

lemma run_ok_no_nul:
  "run_ok h now r \<Longrightarrow> no_nul (xq_task_id (er_request r)) \<and> no_nul (xq_tenant_id (er_request r)) \<and> no_nul (xq_skill_id (er_request r))"
  by (auto simp: run_ok_def accepted_def claims_ok_def bound_def intro: executor_id_no_nul executor_skill_no_nul)


text \<open>
  C6: a tenant's idempotency key runs at most once per cache lifetime, and a credential at most once. However the server interleaves
  requests, failed and retried bodies and settling Skills, two runs of the same tenant and key start at least \<open>idempotencyTtlMs\<close>
  apart; if both ran under one credential, the body of the second was still being read more than
  \<open>idempotencyTtlMs\<close> less the five minutes and ten seconds of the credential after its head was checked - with the defaults almost
  five minutes, where the body timeout is ten seconds.
\<close>

theorem executor_once:
  assumes run: "(executor_step h x)\<^sup>*\<^sup>* (executor_start t) s" and order: "i < j" "j < length (ex_runs (sy_state s))"
    and first: "r = ex_runs (sy_state s) ! i" and second: "r' = ex_runs (sy_state s) ! j"
    and same: "xq_tenant_id (er_request r) = xq_tenant_id (er_request r')"
      "xq_idempotency_key (er_request r) = xq_idempotency_key (er_request r')"
  shows "er_at r + xs_idempotencyTtlMs x \<le> er_at r' \<and>
    (er_claims r = er_claims r' \<longrightarrow>
      xs_idempotencyTtlMs x - (EXECUTOR_CREDENTIAL_MAX_TTL_MS + EXECUTOR_CLOCK_SKEW_MS) < er_at r' - er_arrived r')"
proof -
  have inv: "executor_inv h x s" by (rule executor_reachable [OF run])
  then have "run_ok h (sy_now s) r" "run_ok h (sy_now s) r'" using order first second by (auto simp: executor_inv_def list_all_length)
  moreover have apart: "er_at r + xs_idempotencyTtlMs x \<le> er_at r'"
    using inv order same cache_okD(4) [of x "sy_now s" "sy_state s" i j] by (simp add: executor_inv_def first second cacheKey_def)
  ultimately show ?thesis by (auto simp: run_ok_def accepted_def claims_ok_def)
qed


text \<open>The limits a server was created with are positive; the active key is among the trusted ones under its own id.\<close>

lemma created_limits:
  "createExecutorServer o' = Some x \<Longrightarrow> 0 < xs_maxBodyBytes x \<and> 0 < xs_maxResponseBytes x \<and> 0 < xs_idempotencyTtlMs x \<and>
    0 < xs_maxIdempotencyEntries x \<and> map_get (xs_keys x) (ek_keyId (xs_key x)) = Some (xs_key x)"
  by (auto simp: createExecutorServer_def positive_limit_def split: bind_splits option.splits if_splits)

text \<open>The body a request is parsed from never exceeds the limit.\<close>

lemma read_chunks_bounded: "read_chunks maxBytes got evs = Some (Inr body) \<Longrightarrow> int (length got) \<le> maxBytes \<Longrightarrow> int (length body) \<le> maxBytes"
  by (induction maxBytes got evs rule: read_chunks.induct) (auto split: if_splits)

lemma response_bounded:
  "runSkill x request claims requestId timedOut = \<lparr>xr_status = 200, xr_body = Output v\<rparr> \<Longrightarrow>
    int (length (utf8_bytes (the (stringify (Obj [(''output'', v)]))))) \<le> xs_maxResponseBytes x"
  by (auto simp: runSkill_def executionResponse_def split: option.splits if_splits skill_outcome.splits)


subsection \<open>Starting the process\<close>

text \<open>The port, from the argument or the environment; \<^verbatim>\<open>None\<close> is the error.\<close>

definition parseExecutorPort :: "string option \<Rightarrow> js_number option \<Rightarrow> int option" where
  "parseExecutorPort v override =
    (case override of
       Some (IntNum p) \<Rightarrow> if p < 1 \<or> 65535 < p then None else Some p
     | Some _ \<Rightarrow> None
     | None \<Rightarrow>
         let rawPort = (case v of None \<Rightarrow> ''8082'' | Some s \<Rightarrow> s) in
         if \<not> head_tail (char_in CHR ''1'' CHR ''9'') is_digit 0 4 rawPort then None
         else if 65535 < read_nat rawPort then None else Some (int (read_nat rawPort)))"

text \<open>\<^verbatim>\<open>isIP(host) === 4\<close>: four decimal octets without leading zeros.\<close>

definition ipv4_octet :: "string \<Rightarrow> bool" where
  "ipv4_octet s \<longleftrightarrow> all_within is_digit 1 3 s \<and> (hd s = CHR ''0'' \<longrightarrow> s = ''0'') \<and> read_nat s \<le> 255"

definition is_ipv4 :: "string \<Rightarrow> bool" where
  "is_ipv4 s \<longleftrightarrow> length (split_on CHR ''.'' s) = 4 \<and> list_all ipv4_octet (split_on CHR ''.'' s)"

definition parseExecutorBindHost :: "string option \<Rightarrow> string option" where
  "parseExecutorBindHost v =
    (let host = (case v of None \<Rightarrow> ''127.0.0.1'' | Some s \<Rightarrow> s) in
     if host = [] \<or> 255 < length host \<or> \<not> list_all (\<lambda>c. 32 \<le> byte c \<and> byte c \<noteq> 127) host then None
     else if (is_ipv4 host \<and> hd (split_on CHR ''.'' host) = ''127'') \<or> host = ''::1'' then Some host
     else None)"

definition executor_defaults :: "ExecutorCredentialKey \<Rightarrow> (string, ExecutorCredentialKey) js_map \<Rightarrow> (string, CloudSkill) js_map \<Rightarrow> ExecutorServerOptions" where
  "executor_defaults key keys skills =
    \<lparr>xo_credentialKey = key, xo_verificationKeys = keys, xo_skills = skills, xo_maxBodyBytes = IntNum DEFAULT_MAX_BODY_BYTES,
     xo_maxResponseBytes = None, xo_bodyTimeoutMs = IntNum DEFAULT_BODY_TIMEOUT_MS,
     xo_executionTimeoutMs = IntNum DEFAULT_EXECUTION_TIMEOUT_MS, xo_idempotencyTtlMs = IntNum DEFAULT_IDEMPOTENCY_TTL_MS,
     xo_maxIdempotencyEntries = IntNum DEFAULT_MAX_IDEMPOTENCY_ENTRIES\<rparr>"

text \<open>The server, its port and its host; \<^verbatim>\<open>None\<close> where the process refuses to start.\<close>

definition bootstrapExecutorServer ::
  "executor_host \<Rightarrow> (string \<Rightarrow> string option) \<Rightarrow> js_number option \<Rightarrow> ExecutorCredentialKey option \<Rightarrow> string option \<Rightarrow>
    (string, CloudSkill) js_map option \<Rightarrow> (executor_server \<times> int \<times> string) option" where
  "bootstrapExecutorServer h env port credentialKey host skills = do {
     validatedPort \<leftarrow> parseExecutorPort (env ''PORT'') port;
     key \<leftarrow> credentialKey;
     registry \<leftarrow> skills;
     require (registry \<noteq> []);
     validatedHost \<leftarrow> parseExecutorBindHost host;
     keys \<leftarrow> (case parseExecutorCredentialTrustedKeys h env of Inl _ \<Rightarrow> None | Inr m \<Rightarrow> Some m);
     x \<leftarrow> createExecutorServer (executor_defaults key keys registry);
     Some (x, validatedPort, validatedHost)
   }"

text \<open>The one private Skill of \<^verbatim>\<open>private-skills/\<close> and the fixed registry the production process starts with.\<close>

definition parseSalaryBandInput :: "js_value \<Rightarrow> int option" where
  "parseSalaryBandInput v =
    (case v of
       Obj [(k, Number n)] \<Rightarrow>
         if k \<noteq> ''level'' then None
         else (case safeInteger n of None \<Rightarrow> None | Some level \<Rightarrow> if level < 1 \<or> 10 < level then None else Some level)
     | _ \<Rightarrow> None)"

definition executeSalaryBand :: CloudSkill where
  "executeSalaryBand v ctx =
    (case parseSalaryBandInput v of
       None \<Rightarrow> InputRejected
     | Some level \<Rightarrow>
         let minimum = 8000 + level * 4000 in
         Returned (Obj [(''level'', Number (IntNum level)), (''min'', Number (IntNum minimum)),
           (''max'', Number (IntNum ((minimum * 16 + 5) div 10))), (''currency'', Str ''CNY'')]))"

definition PRIVATE_CLOUD_SKILL_REGISTRY :: "(string, CloudSkill) js_map" where
  "PRIVATE_CLOUD_SKILL_REGISTRY = [(''longhub.skill.salary-band'', executeSalaryBand)]"

definition startProductionExecutor :: "executor_host \<Rightarrow> (string \<Rightarrow> string option) \<Rightarrow> (executor_server \<times> int \<times> string) option" where
  "startProductionExecutor h env =
    (case parseExecutorCredentialKey env of
       Inl _ \<Rightarrow> None
     | Inr key \<Rightarrow> bootstrapExecutorServer h env None key (env ''EXECUTOR_BIND_HOST'') (Some PRIVATE_CLOUD_SKILL_REGISTRY))"

lemma bootstrapped:
  "bootstrapExecutorServer h env port key host skills = Some (x, p, a) \<longleftrightarrow>
    (\<exists>k registry keys. key = Some k \<and> skills = Some registry \<and> registry \<noteq> [] \<and> parseExecutorPort (env ''PORT'') port = Some p \<and>
      parseExecutorBindHost host = Some a \<and> parseExecutorCredentialTrustedKeys h env = Inr keys \<and>
      createExecutorServer (executor_defaults k keys registry) = Some x)"
  by (auto simp: bootstrapExecutorServer_def require_def split: bind_splits sum.splits if_splits)

lemma parsed_port: "parseExecutorPort v override = Some p \<Longrightarrow> 1 \<le> p \<and> p \<le> 65535"
proof -
  assume parsed: "parseExecutorPort v override = Some p"
  have least: "digit_value c \<le> read_nat (c # s)" for c s
  proof (induction s rule: rev_induct)
    case (snoc d s)
    then show ?case using read_nat_snoc [of "c # s" d] by simp
  qed (simp add: read_nat_def)
  have "1 \<le> read_nat s" if "head_tail (char_in CHR ''1'' CHR ''9'') is_digit 0 4 s" for s
    using that least [of "hd s" "tl s"] by (cases s) (auto simp: char_in_def digit_value_def)
  then show ?thesis using parsed by (auto simp: parseExecutorPort_def Let_def split: option.splits if_splits js_number.splits)
qed

lemma created_key: "createExecutorServer o' = Some x \<Longrightarrow>
    xs_key x = xo_credentialKey o' \<and> xs_keys x = map_set (ek_keyId (xo_credentialKey o')) (xo_credentialKey o') (xo_verificationKeys o') \<and>
    xs_skills x = xo_skills o'"
  by (auto simp: createExecutorServer_def split: bind_splits)

text \<open>
  C37: the production executor fails closed. If it starts, it listens on a loopback address and a port of 1 to 65535, every key it
  accepts credentials of is usable and filed under its own id, the active one included, it has positive limits, and the only Skill it runs
  is the one of the build; without a configured secret it does not start.
\<close>

theorem executor_starts_closed:
  assumes "startProductionExecutor h env = Some (x, p, a)"
  shows "(a = ''::1'' \<or> (is_ipv4 a \<and> hd (split_on CHR ''.'' a) = ''127'')) \<and> 1 \<le> p \<and> p \<le> 65535 \<and>
    assertKey (xs_key x) \<and> trusted_ok (xs_keys x) \<and> map_get (xs_keys x) (ek_keyId (xs_key x)) = Some (xs_key x) \<and>
    0 < xs_maxBodyBytes x \<and> 0 < xs_idempotencyTtlMs x \<and> 0 < xs_maxIdempotencyEntries x \<and>
    map_keys (xs_skills x) = [''longhub.skill.salary-band''] \<and> truthy (map_option js_trim (env ''EXECUTOR_CREDENTIAL_SECRET'')) \<noteq> None"
proof -
  obtain k keys where key: "parseExecutorCredentialKey env = Inr (Some k)" and keys: "parseExecutorCredentialTrustedKeys h env = Inr keys"
    and created: "createExecutorServer (executor_defaults k keys PRIVATE_CLOUD_SKILL_REGISTRY) = Some x"
    and port: "parseExecutorPort (env ''PORT'') None = Some p" and host: "parseExecutorBindHost (env ''EXECUTOR_BIND_HOST'') = Some a"
    using assms by (auto simp: startProductionExecutor_def bootstrapped split: sum.splits)
  have "trusted_ok (xs_keys x)"
    using created_key [OF created] trusted_ok_set [OF trusted_keys_ok [OF keys] credential_key_ok [OF key]] by (simp add: executor_defaults_def)
  moreover have "truthy (map_option js_trim (env ''EXECUTOR_CREDENTIAL_SECRET'')) \<noteq> None"
    using key by (auto simp: parseExecutorCredentialKey_def simp del: truthy_Some split: option.splits)
  moreover have "a = ''::1'' \<or> (is_ipv4 a \<and> hd (split_on CHR ''.'' a) = ''127'')"
    using host by (auto simp: parseExecutorBindHost_def Let_def split: if_splits)
  ultimately show ?thesis
    using created_limits [OF created] created_key [OF created] credential_key_ok [OF key] parsed_port [OF port]
    by (simp add: executor_defaults_def PRIVATE_CLOUD_SKILL_REGISTRY_def)
qed


subsection \<open>One server\<close>

lemma js_trim_id: "list_all (\<lambda>c. \<not> is_space c) s \<Longrightarrow> js_trim s = s"
proof -
  have "dropWhile is_space t = t" if "list_all (\<lambda>c. \<not> is_space c) t" for t
    using that by (cases t) simp_all
  then show "list_all (\<lambda>c. \<not> is_space c) s \<Longrightarrow> ?thesis" by (simp add: js_trim_def)
qed

lemma b64_no_space: "list_all (\<lambda>c. \<not> is_space c) (base64urlEncode s)"
proof -
  have "\<not> is_space c" if "is_b64 c" for c
    using that by (auto simp: is_b64_def is_alnum_def is_digit_def is_lower_def is_upper_def char_in_def is_space_def)
  then show ?thesis using b64_alphabet [of s] by (auto simp: list_all_iff)
qed

definition sample_env_vars :: "string \<Rightarrow> string option" where
  "sample_env_vars v = (if v = ''EXECUTOR_CREDENTIAL_SECRET'' then Some (base64urlEncode (replicate 32 CHR ''k'')) else None)"

definition sample_limits :: ExecutorServerOptions where
  "sample_limits = executor_defaults sample_executor_key [] PRIVATE_CLOUD_SKILL_REGISTRY"

definition sample_server :: executor_server where
  "sample_server = the (createExecutorServer sample_limits)"

lemma sample_started: "startProductionExecutor sample_executor_host sample_env_vars = Some (sample_server, 8082, ''127.0.0.1'')"
proof -
  have secret: "decoded_secret (base64urlEncode (replicate 32 CHR ''k'')) = Some (replicate 32 CHR ''k'')"
    by (simp add: decoded_secret_def all_within_def length_b64 b64_alphabet b64_round_trip require_def Let_def)
  have full: "base64urlEncode (replicate 32 CHR ''k'') \<noteq> []"
    by (metis length_0_conv length_b64 length_replicate numeral_eq_iff zero_neq_numeral div_eq_0_iff add_is_0 mult_is_0 verit_eq_simplify(14) b64_round_trip b64_bytes.simps(4))
  have key: "parseExecutorCredentialKey sample_env_vars = Inr (Some sample_executor_key)"
    using full secret by (simp add: parseExecutorCredentialKey_def sample_env_vars_def js_trim_id b64_no_space Let_def sample_executor_key_def
        executor_key_id_ok_def sample_char_defs)
  have port: "parseExecutorPort None None = Some 8082"
    by (simp add: parseExecutorPort_def Let_def sample_char_defs read_nat_def digit_value_def)
  have host: "parseExecutorBindHost None = Some ''127.0.0.1''"
    by (simp add: parseExecutorBindHost_def is_ipv4_def ipv4_octet_def sample_char_defs read_nat_def digit_value_def Let_def)
  have "createExecutorServer sample_limits = Some sample_server"
    by (simp add: sample_server_def sample_limits_def executor_defaults_def createExecutorServer_def positive_limit_def maxSafeInteger_def
        DEFAULT_MAX_BODY_BYTES_def DEFAULT_BODY_TIMEOUT_MS_def DEFAULT_EXECUTION_TIMEOUT_MS_def DEFAULT_IDEMPOTENCY_TTL_MS_def
        DEFAULT_MAX_IDEMPOTENCY_ENTRIES_def)
  then show ?thesis
    using key port host
    by (simp add: startProductionExecutor_def bootstrapped sample_env_vars_def parseExecutorCredentialTrustedKeys_def
        PRIVATE_CLOUD_SKILL_REGISTRY_def sample_limits_def)
qed

theorem executor_starts_closed_witness:
  "startProductionExecutor sample_executor_host sample_env_vars = Some (sample_server, 8082, ''127.0.0.1'') \<and>
   map_keys (xs_skills sample_server) = [''longhub.skill.salary-band'']"
  using executor_starts_closed [OF sample_started] sample_started by simp


text \<open>A request whose body arrives, and the same request again whose body takes ten minutes.\<close>

definition sample_request_members :: "(string \<times> js_value) list" where
  "sample_request_members =
    [(''schema_version'', Str EXECUTOR_REQUEST_SCHEMA), (''task_id'', Str ''task-1''), (''tenant_id'', Str ''tenant-1''),
     (''skill_id'', Str ''longhub.skill.salary-band''), (''idempotency_key'', Str ''key-1''),
     (''input_digest'', Str (replicate 64 CHR ''0'')), (''input'', Obj [(''level'', Number (IntNum 3))])]"

definition sample_server_host :: executor_host where
  "sample_server_host = sample_executor_host\<lparr>eh_parse := \<lambda>b. if b = ''body'' then Some (Obj sample_request_members) else eh_parse sample_executor_host b\<rparr>"

definition sample_incoming :: incoming where
  "sample_incoming = \<lparr>rq_method = ''POST'', rq_url = ''/execute'',
     rq_headers = (\<lambda>n. if n = ''content-type'' then Some ''application/json'' else if n = ''idempotency-key'' then Some ''key-1''
       else if n = EXECUTOR_CREDENTIAL_HEADER then Some sample_token else None)\<rparr>"

definition sample_run :: "int \<Rightarrow> executor_run" where
  "sample_run now =
    \<lparr>er_request = \<lparr>xq_task_id = ''task-1'', xq_tenant_id = ''tenant-1'', xq_skill_id = ''longhub.skill.salary-band'',
       xq_idempotency_key = ''key-1'', xq_input_digest = replicate 64 CHR ''0'', xq_input = Obj [(''level'', Number (IntNum 3))]\<rparr>,
     er_claims = sample_claims, er_requestId = ''r'', er_arrived = 60999, er_at = now, er_response = None\<rparr>"

definition sample_cache :: "int \<Rightarrow> nat \<Rightarrow> (string, CachedResponse) js_map" where
  "sample_cache now n = [(cacheKey (er_request (sample_run now)),
     \<lparr>ce_fingerprint = requestFingerprint (er_request (sample_run now)), ce_expiresAt = now + 600000, ce_promise = n\<rparr>)]"

lemma sample_token_trim: "js_trim sample_token = sample_token"
proof -
  have "list_all (\<lambda>c. \<not> is_space c) (CREDENTIAL_PREFIX @ ''.'')" by (simp add: CREDENTIAL_PREFIX_def is_space_def)
  then show ?thesis
    by (intro js_trim_id) (simp add: sample_token_def credential_token_def signEnvelope_def b64_no_space Let_def)
qed

lemma sample_key_known: "map_get (xs_keys sample_server) ''executor-v1'' = Some sample_executor_key" "xs_key sample_server = sample_executor_key"
    "xs_idempotencyTtlMs sample_server = 600000" "xs_maxIdempotencyEntries sample_server = 10000"
  by (simp_all add: sample_server_def sample_limits_def executor_defaults_def createExecutorServer_def positive_limit_def maxSafeInteger_def
        DEFAULT_MAX_BODY_BYTES_def DEFAULT_BODY_TIMEOUT_MS_def DEFAULT_EXECUTION_TIMEOUT_MS_def DEFAULT_IDEMPOTENCY_TTL_MS_def
        DEFAULT_MAX_IDEMPOTENCY_ENTRIES_def sample_executor_key_def)

lemma sample_head: "check_head sample_server_host sample_server 60999 sample_incoming = Inr sample_claims"
proof -
  have "utf8_bytes (claims_json sample_claims) \<noteq> ''body''"
    by (simp add: claims_json_def utf8_bytes_def)
  then have "verifyExecutorCredential sample_server_host sample_executor_key (Some (xs_keys sample_server)) (IntNum 60999)
      (credential_token sample_server_host sample_executor_key sample_claims) = in_time (IntNum 60999) sample_claims"
    by (intro verify_issued [OF sample_claims_ok] sample_key_ok)
      (simp_all add: sample_claims_def sample_server_host_def sample_executor_host_def maxSafeInteger_def verification_key_def sample_key_known)
  moreover have "credential_token sample_server_host sample_executor_key sample_claims = sample_token"
    by (simp add: sample_token_def credential_token_def signEnvelope_def sample_server_host_def)
  moreover have "in_time (IntNum 60999) sample_claims = Inr sample_claims"
    by (simp add: in_time_def maxSafeInteger_def sample_claims_def EXECUTOR_CLOCK_SKEW_MS_def)
  ultimately have "verifyExecutorCredential sample_server_host sample_executor_key (Some (xs_keys sample_server)) (IntNum 60999) sample_token =
      Inr sample_claims" by simp
  moreover have "sample_token \<noteq> []" by (simp add: sample_token_def credential_token_def CREDENTIAL_PREFIX_def Let_def)
  ultimately show ?thesis
    by (simp add: check_head_def sample_incoming_def internalCredential_def sample_token_trim EXECUTOR_CREDENTIAL_HEADER_def
        json_content_type_def starts_with_def ascii_lower_def is_upper_def char_in_def sample_key_known executor_idempotency_ok_def
        all_within_def is_alnum_def is_digit_def is_lower_def sample_claims_def)
qed

lemma sample_body: "check_body sample_server_host sample_claims ''body'' = Inr (er_request (sample_run now))"
proof -
  have "map fst sample_request_members = REQUEST_KEYS" by (simp add: sample_request_members_def REQUEST_KEYS_def)
  then have "parseRequest (Obj sample_request_members) = Some (er_request (sample_run now))"
    by (simp add: parseRequest_def require_def,
      simp add: sample_request_members_def field_def sample_run_def executor_id_ok_def executor_skill_ok_def executor_idempotency_ok_def
        is_digest_def sample_char_defs list_all_iff require_def)
  then show ?thesis
    by (simp add: check_body_def sample_server_host_def bound_def sample_run_def sample_claims_def computeExecutorInputDigest_def
        sample_executor_host_def)
qed

lemma sample_serve:
  "serve_body sample_server_host sample_server sample_claims 60999 ''r'' ''body'' now st =
    begin_execution sample_server now (sample_run now) st"
  by (simp add: serve_body_def sample_body [of now]) (simp add: sample_run_def)

definition sample_two_runs :: executor_system where
  "sample_two_runs = \<lparr>sy_now = 660999, sy_waiting = [],
     sy_state = \<lparr>ex_idempotency = sample_cache 660999 1, ex_runs = [sample_run 60999, sample_run 660999]\<rparr>\<rparr>"

lemma sample_begin:
  "begin_execution sample_server 60999 (sample_run 60999) \<lparr>ex_idempotency = [], ex_runs = []\<rparr> =
    (\<lparr>ex_idempotency = sample_cache 60999 0, ex_runs = [sample_run 60999]\<rparr>, Inr 0)"
  "begin_execution sample_server 660999 (sample_run 660999) \<lparr>ex_idempotency = sample_cache 60999 0, ex_runs = [sample_run 60999]\<rparr> =
    (\<lparr>ex_idempotency = sample_cache 660999 1, ex_runs = [sample_run 60999, sample_run 660999]\<rparr>, Inr 1)"
  by (simp_all add: begin_execution_def map_reject_def sample_cache_def sample_key_known Let_def)

lemma sample_reached:
  "(executor_step sample_server_host sample_server)\<^sup>*\<^sup>* (executor_start 60999)
     \<lparr>sy_now = 60999, sy_waiting = [(sample_claims, 60999), (sample_claims, 60999)], sy_state = \<lparr>ex_idempotency = [], ex_runs = []\<rparr>\<rparr>"
  "(executor_step sample_server_host sample_server)\<^sup>*\<^sup>* (executor_start 60999) sample_two_runs"
proof -
  let ?step = "executor_step sample_server_host sample_server"
  define s2 where "s2 = \<lparr>sy_now = 60999, sy_waiting = [(sample_claims, 60999), (sample_claims, 60999)],
    sy_state = \<lparr>ex_idempotency = [], ex_runs = []\<rparr>\<rparr>"
  define s4 where "s4 = \<lparr>sy_now = 660999, sy_waiting = [(sample_claims, 60999)],
    sy_state = \<lparr>ex_idempotency = sample_cache 60999 0, ex_runs = [sample_run 60999]\<rparr>\<rparr>"
  have "?step (executor_start 60999) (executor_start 60999\<lparr>sy_waiting := [(sample_claims, 60999)]\<rparr>)"
    using head [of sample_server_host sample_server "executor_start 60999" sample_incoming sample_claims] sample_head
    by (simp add: executor_start_def)
  moreover have "?step (executor_start 60999\<lparr>sy_waiting := [(sample_claims, 60999)]\<rparr>) s2"
    using head [of sample_server_host sample_server "executor_start 60999\<lparr>sy_waiting := [(sample_claims, 60999)]\<rparr>" sample_incoming sample_claims]
      sample_head
    by (simp add: executor_start_def s2_def)
  ultimately show two: "?step\<^sup>*\<^sup>* (executor_start 60999) s2" unfolding s2_def [symmetric] by (meson converse_rtranclp_into_rtranclp r_into_rtranclp)
  have "?step s2 (s4\<lparr>sy_now := 60999\<rparr>)"
    using body_read [of sample_claims 60999 s2 sample_server_host sample_server "''r''" "''body''"] sample_serve [of 60999] sample_begin(1)
    by (simp add: s2_def s4_def)
  moreover have "?step (s4\<lparr>sy_now := 60999\<rparr>) s4"
    using tick [of "s4\<lparr>sy_now := 60999\<rparr>" 660999] by (simp add: s4_def)
  moreover have "?step s4 sample_two_runs"
    using body_read [of sample_claims 60999 s4 sample_server_host sample_server "''r''" "''body''"] sample_serve [of 660999] sample_begin(2)
    by (simp add: s4_def sample_two_runs_def)
  ultimately show "?step\<^sup>*\<^sup>* (executor_start 60999) sample_two_runs"
    using two by (meson rtranclp.rtrancl_into_rtrancl)
qed

theorem executor_once_witness:
  "(executor_step sample_server_host sample_server)\<^sup>*\<^sup>* (executor_start 60999) sample_two_runs \<and>
   er_at (sample_run 60999) + 600000 \<le> er_at (sample_run 660999)"
  using executor_once [OF sample_reached(2), of 0 1 "sample_run 60999" "sample_run 660999"] sample_reached(2)
  by (simp add: sample_two_runs_def sample_key_known sample_run_def)


end
