(* ===== verification/Policy_Coordinator.thy ===== *)
theory Policy_Coordinator
  imports Feature_Resolution Canonical_Json
begin

text \<open>
  The desktop's side of the feature policy (\<^verbatim>\<open>apps/longhub-desktop/src/feature-policy-coordinator.ts\<close>): a refresh asks the
  cloud for the policy of this device and falls back on a cache file while the cloud cannot be reached; decisions are made from the
  document last published. \<^verbatim>\<open>performRefresh\<close> is split at its two awaits: \<open>begin_refresh\<close>, \<open>on_response\<close> and \<open>on_body\<close>.
  \<^verbatim>\<open>JSON.parse\<close> and the UTF-8 decoder are parameters. The cache file is the value of its JSON text; \<open>Irregular\<close> stands for anything that
  is not a regular file. The lemmas show that whatever the cloud, the network and the disk do, access is granted only under a document the
  cloud last confirmed, less than five minutes ago, across restarts.
\<close>

subsection \<open>Records\<close>

record FeaturePolicyCacheRecord =
  cr_cloud_origin :: string
  cr_device_id :: string
  cr_etag :: string
  cr_cached_at :: string
  cr_document :: FeaturePolicyDocument

datatype PolicySource = FromNetwork | FromCache

record FeaturePolicySnapshot =
  sn_document :: FeaturePolicyDocument
  sn_source :: PolicySource
  sn_refreshed_at :: string

datatype LocalFeaturePolicyDecision =
    LocalAllowed PolicySource ResolvedFeaturePolicy
  | LocalDenied string "PolicySource option" "ResolvedFeaturePolicy option" "string list option"

datatype coordinator_reason = AuthError | ProtocolError | NetworkError

record FeaturePolicyDecisionContext =
  dc_agentId :: "string option"
  dc_entitlements :: "string list option"
  dc_permissions :: "string list option"

record FeaturePolicyCoordinatorOptions =
  co_origin :: string
  co_deviceId :: string
  co_desktopVersion :: string
  co_audience :: "string option"
  co_scopeIds :: "(string, scope_ref) js_map"
  co_entitlements :: "string list option"
  co_permissions :: "string list option"
  co_refreshIntervalMs :: "js_number option"

record policy_host =
  ph_env :: js_env
  ph_parse :: "string \<Rightarrow> js_value option"
  ph_decode :: "string \<Rightarrow> string option"

definition CACHE_SCHEMA :: string where "CACHE_SCHEMA = ''longhub/feature-policy-cache/v1''"
definition CACHE_MAX_BYTES :: nat where "CACHE_MAX_BYTES = FEATURE_POLICY_MAX_BYTES + 8 * 1024"

text \<open>The checks of the constructor; \<^verbatim>\<open>cloudOrigin\<close> is the host's URL parser.\<close>

definition assertDeviceId :: "string \<Rightarrow> bool" where
  "assertDeviceId = all_within (\<lambda>c. is_alnum c \<or> c \<in> set ''._-'') 1 128"

definition constructor_ok :: "FeaturePolicyCoordinatorOptions \<Rightarrow> bool" where
  "constructor_ok o' \<longleftrightarrow> assertDeviceId (co_deviceId o') \<and>
    (case (case co_refreshIntervalMs o' of None \<Rightarrow> IntNum FEATURE_POLICY_REFRESH_INTERVAL_MS | Some n \<Rightarrow> n) of
       IntNum interval \<Rightarrow> 1000 \<le> interval | _ \<Rightarrow> False)"

text \<open>\<^verbatim>\<open>/^(?:W\/)?"[\x21\x23-\x7e]{1,256}"$/\<close>\<close>

definition is_etag_char :: "char \<Rightarrow> bool" where
  "is_etag_char c \<longleftrightarrow> c = CHR 0x21 \<or> char_in CHR 0x23 CHR 0x7E c"

definition validEtag :: "string \<Rightarrow> bool" where
  "validEtag v \<longleftrightarrow> v = [] \<or>
    (let t = (if starts_with ''W/'' v then drop 2 v else v) in
     2 \<le> length t \<and> hd t = CHR 0x22 \<and> last t = CHR 0x22 \<and> all_within is_etag_char 1 256 (butlast (tl t)))"

definition assertCurrentDocument :: "js_env \<Rightarrow> FeaturePolicyDocument \<Rightarrow> int \<Rightarrow> bool" where
  "assertCurrentDocument e document now \<longleftrightarrow>
    \<not> (case date_parse e (fd_issued_at document) of None \<Rightarrow> False | Some t \<Rightarrow> t > now) \<and>
    \<not> (case date_parse e (fd_expires_at document) of None \<Rightarrow> False | Some t \<Rightarrow> t \<le> now)"

subsection \<open>The cache file\<close>

definition CACHE_KEYS :: "string list" where
  "CACHE_KEYS = [''schema_version'', ''cloud_origin'', ''device_id'', ''etag'', ''cached_at'', ''document'']"

definition exactKeys :: "(string \<times> js_value) list \<Rightarrow> string list \<Rightarrow> bool" where
  "exactKeys props expected \<longleftrightarrow> js_sort code_unit_compare (map fst props) = js_sort code_unit_compare expected"

text \<open>\<^verbatim>\<open>parseFeaturePolicyJson(JSON.stringify(v))\<close> of a value read from JSON.\<close>

definition reparse :: "js_env \<Rightarrow> js_value \<Rightarrow> FeaturePolicyDocument option" where
  "reparse e v = (case stringify v of None \<Rightarrow> None | Some t \<Rightarrow> parseFeaturePolicyJson e (\<lambda>_. Some v) t)"

definition parseCache :: "js_env \<Rightarrow> js_value \<Rightarrow> string \<Rightarrow> string \<Rightarrow> int \<Rightarrow> FeaturePolicyCacheRecord option" where
  "parseCache e input expectedOrigin expectedDeviceId now = do {
     record \<leftarrow> object_members input;
     require (exactKeys record CACHE_KEYS);
     require (field record ''schema_version'' = Str CACHE_SCHEMA \<and> field record ''cloud_origin'' = Str expectedOrigin \<and>
       field record ''device_id'' = Str expectedDeviceId);
     etag \<leftarrow> string_value (field record ''etag'');
     require (validEtag etag);
     cached_at \<leftarrow> string_value (field record ''cached_at'');
     cachedAt \<leftarrow> date_parse e cached_at;
     require (toISOString cachedAt = cached_at \<and> cachedAt \<le> now);
     document \<leftarrow> reparse e (field record ''document'');
     require (\<not> (case date_parse e (fd_issued_at document) of None \<Rightarrow> False | Some t \<Rightarrow> t > cachedAt) \<and>
       \<not> (case date_parse e (fd_expires_at document) of None \<Rightarrow> False | Some t \<Rightarrow> t \<le> now) \<and>
       now - cachedAt < FEATURE_POLICY_MAX_VALIDITY_MS);
     Some \<lparr>cr_cloud_origin = expectedOrigin, cr_device_id = expectedDeviceId, cr_etag = etag, cr_cached_at = cached_at,
       cr_document = document\<rparr>
   }"

definition cache_value :: "FeaturePolicyCacheRecord \<Rightarrow> js_value" where
  "cache_value r = Obj
    [(''schema_version'', Str CACHE_SCHEMA), (''cloud_origin'', Str (cr_cloud_origin r)), (''device_id'', Str (cr_device_id r)),
     (''etag'', Str (cr_etag r)), (''cached_at'', Str (cr_cached_at r)), (''document'', document_value (cr_document r))]"

text \<open>A regular file has a size and a text, \<open>None\<close> where the text is not JSON.\<close>

datatype cache_file = Regular nat "js_value option" | Irregular

definition readCache :: "js_env \<Rightarrow> FeaturePolicyCoordinatorOptions \<Rightarrow> int \<Rightarrow> cache_file option \<Rightarrow> FeaturePolicyCacheRecord option" where
  "readCache e o' now f =
    (case f of
       Some (Regular bytes (Some v)) \<Rightarrow>
         if CACHE_MAX_BYTES < bytes then None else parseCache e v (co_origin o') (co_deviceId o') now
     | _ \<Rightarrow> None)"

text \<open>\<open>writes\<close> and \<open>unlinks\<close> say whether the disk obeys; a write that fails leaves the file alone.\<close>

definition writeCache :: "bool \<Rightarrow> FeaturePolicyCacheRecord \<Rightarrow> cache_file option \<Rightarrow> cache_file option option" where
  "writeCache writes r f =
    (if f = Some Irregular \<or> \<not> writes then None
     else let v = cache_value r in
       Some (Some (Regular (case stringify v of None \<Rightarrow> 1 | Some t \<Rightarrow> byteLength t + 1) (Some v))))"

definition removeCache :: "bool \<Rightarrow> cache_file option \<Rightarrow> cache_file option" where
  "removeCache unlinks f = (case f of Some (Regular _ _) \<Rightarrow> if unlinks then None else f | _ \<Rightarrow> f)"

subsection \<open>Responses\<close>

text \<open>The chunks the body delivers; \<open>rs_complete\<close> is false when reading it then fails.\<close>

record policy_response =
  rs_status :: int
  rs_headers :: "string \<Rightarrow> string option"
  rs_body :: "string list option"
  rs_complete :: bool

fun read_body :: "bool \<Rightarrow> string \<Rightarrow> string list \<Rightarrow> coordinator_reason + string" where
  "read_body complete got [] = (if complete then Inr got else Inl NetworkError)"
| "read_body complete got (c # cs) =
    (if FEATURE_POLICY_MAX_BYTES < length got + length c then Inl ProtocolError else read_body complete (got @ c) cs)"

definition responseTextBounded :: "policy_host \<Rightarrow> policy_response \<Rightarrow> coordinator_reason + string" where
  "responseTextBounded h response =
    (let declared = (case rs_headers response ''content-length'' of None \<Rightarrow> IntNum 0 | Some s \<Rightarrow> js_Number (ph_env h) s) in
     if declared \<notin> {NaN, PosInf, NegInf} \<and> js_greater (ph_env h) declared (IntNum (int FEATURE_POLICY_MAX_BYTES)) then Inl ProtocolError
     else case rs_body response of
       None \<Rightarrow> Inr []
     | Some chunks \<Rightarrow>
         (case read_body (rs_complete response) [] chunks of
            Inl reason \<Rightarrow> Inl reason
          | Inr bytes \<Rightarrow> (case ph_decode h bytes of None \<Rightarrow> Inl NetworkError | Some t \<Rightarrow> Inr t)))"

definition json_response :: "policy_response \<Rightarrow> bool" where
  "json_response response =
    (case rs_headers response ''content-type'' of
       None \<Rightarrow> False
     | Some s \<Rightarrow> map ascii_lower (js_trim (hd (split_on CHR '';'' s))) = ''application/json'')"

subsection \<open>The coordinator\<close>

datatype policy_event = EmergencyDisabled "string list" | Refreshed FeaturePolicySnapshot

datatype refresh_flight = Fetching "FeaturePolicyCacheRecord option" | Reading policy_response int

record policy_coordinator =
  pc_snapshot :: "FeaturePolicySnapshot option"
  pc_emergencyIds :: "string list"
  pc_inFlight :: "refresh_flight option"
  pc_events :: "policy_event list"
  pc_file :: "cache_file option"

type_synonym refresh_result = "(coordinator_reason + FeaturePolicySnapshot) option"

definition current :: "js_env \<Rightarrow> int \<Rightarrow> policy_coordinator \<Rightarrow> FeaturePolicySnapshot option" where
  "current e now s =
    (case pc_snapshot s of
       None \<Rightarrow> None
     | Some snapshot \<Rightarrow>
         if (case date_parse e (fd_expires_at (sn_document snapshot)) of None \<Rightarrow> False | Some t \<Rightarrow> t \<le> now) then None else Some snapshot)"

definition publish :: "FeaturePolicyDocument \<Rightarrow> PolicySource \<Rightarrow> int \<Rightarrow> policy_coordinator \<Rightarrow> policy_coordinator \<times> refresh_result" where
  "publish document source refreshedAt s =
    (let snapshot = \<lparr>sn_document = document, sn_source = source, sn_refreshed_at = toISOString refreshedAt\<rparr>;
         nextEmergency = js_dedup (map fe_feature_id (filter fe_emergency_disabled (fd_features document)));
         newlyDisabled = filter (\<lambda>f. f \<notin> set (pc_emergencyIds s)) nextEmergency in
     (s\<lparr>pc_snapshot := Some snapshot, pc_emergencyIds := nextEmergency, pc_inFlight := None,
        pc_events := pc_events s @ (if newlyDisabled = [] then [] else [EmergencyDisabled newlyDisabled]) @ [Refreshed snapshot]\<rparr>,
      Some (Inr snapshot)))"

text \<open>The outer \<^verbatim>\<open>catch\<close> of \<^verbatim>\<open>performRefresh\<close>.\<close>

definition fail_refresh :: "bool \<Rightarrow> coordinator_reason \<Rightarrow> policy_coordinator \<Rightarrow> policy_coordinator \<times> refresh_result" where
  "fail_refresh unlinks reason s =
    (if reason = ProtocolError \<or> reason = AuthError
     then (s\<lparr>pc_snapshot := None, pc_file := removeCache unlinks (pc_file s), pc_inFlight := None\<rparr>, Some (Inl reason))
     else (s\<lparr>pc_inFlight := None\<rparr>, Some (Inl reason)))"

text \<open>\<^verbatim>\<open>refresh\<close> up to the request; a refresh under way is shared.\<close>

definition begin_refresh :: "js_env \<Rightarrow> FeaturePolicyCoordinatorOptions \<Rightarrow> int \<Rightarrow> policy_coordinator \<Rightarrow> policy_coordinator" where
  "begin_refresh e o' startedAt s =
    (case pc_inFlight s of
       Some _ \<Rightarrow> s
     | None \<Rightarrow> s\<lparr>pc_inFlight := Some (Fetching (readCache e o' startedAt (pc_file s)))\<rparr>)"

definition use_cache :: "bool \<Rightarrow> FeaturePolicyCacheRecord option \<Rightarrow> int \<Rightarrow> policy_coordinator \<Rightarrow> policy_coordinator \<times> refresh_result" where
  "use_cache unlinks cached t s =
    (case cached of None \<Rightarrow> fail_refresh unlinks NetworkError s | Some r \<Rightarrow> publish (cr_document r) FromCache t s)"

text \<open>From the answer of \<^verbatim>\<open>fetch\<close>, \<open>None\<close> where it rejects, to the end or to the reading of the body.\<close>

definition on_response ::
  "js_env \<Rightarrow> bool \<Rightarrow> bool \<Rightarrow> int \<Rightarrow> policy_response option \<Rightarrow> policy_coordinator \<Rightarrow> policy_coordinator \<times> refresh_result" where
  "on_response e writes unlinks t result s =
    (case pc_inFlight s of
       Some (Fetching cached) \<Rightarrow>
         (case result of
            None \<Rightarrow> use_cache unlinks cached t s
          | Some response \<Rightarrow>
              if rs_status response = 401 \<or> rs_status response = 403 then fail_refresh unlinks AuthError s
              else if rs_status response = 304 then
                (case cached of
                   None \<Rightarrow> fail_refresh unlinks ProtocolError s
                 | Some r \<Rightarrow>
                     if \<not> assertCurrentDocument e (cr_document r) t then fail_refresh unlinks ProtocolError s
                     else case writeCache writes (r\<lparr>cr_cached_at := toISOString t\<rparr>) (pc_file s) of
                       None \<Rightarrow> fail_refresh unlinks NetworkError s
                     | Some f \<Rightarrow> publish (cr_document r) FromNetwork t (s\<lparr>pc_file := f\<rparr>))
              else if rs_status response = 429 \<or> 500 \<le> rs_status response then use_cache unlinks cached t s
              else if rs_status response \<noteq> 200 \<or> \<not> json_response response then fail_refresh unlinks ProtocolError s
              else (s\<lparr>pc_inFlight := Some (Reading response t)\<rparr>, None))
     | _ \<Rightarrow> (s, None))"

definition on_body ::
  "policy_host \<Rightarrow> FeaturePolicyCoordinatorOptions \<Rightarrow> bool \<Rightarrow> bool \<Rightarrow> policy_coordinator \<Rightarrow> policy_coordinator \<times> refresh_result" where
  "on_body h o' writes unlinks s =
    (case pc_inFlight s of
       Some (Reading response refreshedAt) \<Rightarrow>
         (case responseTextBounded h response of
            Inl reason \<Rightarrow> fail_refresh unlinks reason s
          | Inr body \<Rightarrow>
              (case parseFeaturePolicyJson (ph_env h) (ph_parse h) body of
                 None \<Rightarrow> fail_refresh unlinks ProtocolError s
               | Some document \<Rightarrow>
                   let etag = (case rs_headers response ''etag'' of None \<Rightarrow> [] | Some v \<Rightarrow> v) in
                   if \<not> assertCurrentDocument (ph_env h) document refreshedAt \<or> \<not> validEtag etag then fail_refresh unlinks ProtocolError s
                   else case writeCache writes \<lparr>cr_cloud_origin = co_origin o', cr_device_id = co_deviceId o', cr_etag = etag,
                       cr_cached_at = toISOString refreshedAt, cr_document = document\<rparr> (pc_file s) of
                     None \<Rightarrow> fail_refresh unlinks NetworkError s
                   | Some f \<Rightarrow> publish document FromNetwork refreshedAt (s\<lparr>pc_file := f\<rparr>)))
     | _ \<Rightarrow> (s, None))"

definition stop :: "policy_coordinator \<Rightarrow> policy_coordinator" where
  "stop s = s\<lparr>pc_snapshot := None\<rparr>"

definition decision_context :: "FeaturePolicyCoordinatorOptions \<Rightarrow> FeaturePolicyDecisionContext \<Rightarrow> int \<Rightarrow> FeaturePolicyContext" where
  "decision_context o' ctx now =
    \<lparr>cx_manager_version = co_desktopVersion o', cx_audience = (case co_audience o' of None \<Rightarrow> ''user'' | Some a \<Rightarrow> a),
     cx_scope_ids = (let device = map_set ''device'' (One (co_deviceId o')) (co_scopeIds o') in
       case truthy (dc_agentId ctx) of None \<Rightarrow> device | Some a \<Rightarrow> map_set ''agent'' (One a) device),
     cx_now = Some (Some now)\<rparr>"

definition decision_grants :: "FeaturePolicyCoordinatorOptions \<Rightarrow> FeaturePolicyDecisionContext \<Rightarrow> feature_grants" where
  "decision_grants o' ctx =
    (let first = (\<lambda>a b. case a of Some x \<Rightarrow> x | None \<Rightarrow> (case b of Some x \<Rightarrow> x | None \<Rightarrow> [])) in
     \<lparr>gr_entitlements = first (dc_entitlements ctx) (co_entitlements o'), gr_permissions = first (dc_permissions ctx) (co_permissions o')\<rparr>)"

text \<open>\<open>now\<close> and \<open>now'\<close> are the two readings of the clock.\<close>

definition decide ::
  "js_env \<Rightarrow> FeaturePolicyCoordinatorOptions \<Rightarrow> string \<Rightarrow> FeaturePolicyDecisionContext \<Rightarrow> int \<Rightarrow> int \<Rightarrow> policy_coordinator \<Rightarrow>
    policy_coordinator \<times> LocalFeaturePolicyDecision" where
  "decide e o' featureId ctx now now' s =
    (case current e now s of
       None \<Rightarrow> (s, LocalDenied ''POLICY_UNAVAILABLE'' None None None)
     | Some snapshot \<Rightarrow>
         (case resolveFeaturePolicy e (sn_document snapshot) featureId (decision_context o' ctx now') of
            None \<Rightarrow> (s\<lparr>pc_snapshot := None\<rparr>, LocalDenied ''POLICY_UNAVAILABLE'' None None None)
          | Some policy \<Rightarrow>
              if sn_source snapshot = FromCache \<and> map_option rp_risk_level policy = Some ''high''
              then (s, LocalDenied ''POLICY_OFFLINE'' (Some FromCache) policy None)
              else (s, case decideFeatureAccess policy (decision_grants o' ctx) of
                Allowed \<Rightarrow> LocalAllowed (sn_source snapshot) (the policy)
              | Denied reason absent \<Rightarrow> LocalDenied reason (Some (sn_source snapshot)) policy absent)))"


subsection \<open>The last word of the cloud\<close>

text \<open>
  The coordinator with the clock and, as a record for the properties only, what the cloud last said: the document it last sent or
  confirmed and when, or \<open>None\<close> once it refused the device or broke the protocol. A restart keeps the file. A cache file that has to go
  does go (\<open>unlinks\<close>); writing it may fail.
\<close>

type_synonym verdict = "(FeaturePolicyDocument \<times> int) option"

record policy_system =
  ps_coordinator :: policy_coordinator
  ps_verdict :: verdict
  ps_now :: int

fun verdict_after :: "int \<Rightarrow> refresh_result \<Rightarrow> verdict \<Rightarrow> verdict" where
  "verdict_after t (Some (Inr sn)) v = (if sn_source sn = FromNetwork then Some (sn_document sn, t) else v)"
| "verdict_after t (Some (Inl reason)) v = (if reason = NetworkError then v else None)"
| "verdict_after t None v = v"

definition restart :: "policy_coordinator \<Rightarrow> policy_coordinator" where
  "restart s = \<lparr>pc_snapshot = None, pc_emergencyIds = [], pc_inFlight = None, pc_events = [], pc_file = pc_file s\<rparr>"

definition policy_start :: "int \<Rightarrow> policy_system" where
  "policy_start t =
    \<lparr>ps_coordinator = \<lparr>pc_snapshot = None, pc_emergencyIds = [], pc_inFlight = None, pc_events = [], pc_file = None\<rparr>,
     ps_verdict = None, ps_now = t\<rparr>"

inductive policy_step :: "policy_host \<Rightarrow> FeaturePolicyCoordinatorOptions \<Rightarrow> policy_system \<Rightarrow> policy_system \<Rightarrow> bool" for h o' where
  tick: "ps_now s \<le> t \<Longrightarrow> policy_step h o' s (s\<lparr>ps_now := t\<rparr>)"
| refreshing: "policy_step h o' s (s\<lparr>ps_coordinator := begin_refresh (ph_env h) o' (ps_now s) (ps_coordinator s)\<rparr>)"
| responded: "on_response (ph_env h) writes True (ps_now s) result (ps_coordinator s) = (c, r) \<Longrightarrow>
    policy_step h o' s (s\<lparr>ps_coordinator := c, ps_verdict := verdict_after (ps_now s) r (ps_verdict s)\<rparr>)"
| body_read: "pc_inFlight (ps_coordinator s) = Some (Reading response t) \<Longrightarrow> on_body h o' writes True (ps_coordinator s) = (c, r) \<Longrightarrow>
    policy_step h o' s (s\<lparr>ps_coordinator := c, ps_verdict := verdict_after t r (ps_verdict s)\<rparr>)"
| decided: "decide (ph_env h) o' f ctx now now' (ps_coordinator s) = (c, d) \<Longrightarrow> policy_step h o' s (s\<lparr>ps_coordinator := c\<rparr>)"
| stopped: "policy_step h o' s (s\<lparr>ps_coordinator := stop (ps_coordinator s)\<rparr>)"
| restarted: "policy_step h o' s (s\<lparr>ps_coordinator := restart (ps_coordinator s)\<rparr>)"

text \<open>The document is the one the cloud last sent or confirmed.\<close>

definition vouched :: "FeaturePolicyDocument \<Rightarrow> verdict \<Rightarrow> bool" where
  "vouched d v \<longleftrightarrow> map_option fst v = Some d"

definition file_vouched :: "verdict \<Rightarrow> cache_file option \<Rightarrow> bool" where
  "file_vouched v f \<longleftrightarrow>
    (case f of None \<Rightarrow> True | Some Irregular \<Rightarrow> True | Some (Regular n x) \<Rightarrow> \<exists>r. x = Some (cache_value r) \<and> vouched (cr_document r) v)"

fun flight_vouched :: "int \<Rightarrow> verdict \<Rightarrow> refresh_flight option \<Rightarrow> bool" where
  "flight_vouched now v (Some (Fetching (Some r))) = vouched (cr_document r) v"
| "flight_vouched now v (Some (Reading response t)) = (t \<le> now)"
| "flight_vouched now v f = True"

definition verdict_ok :: "js_env \<Rightarrow> int \<Rightarrow> verdict \<Rightarrow> bool" where
  "verdict_ok e now v = (case v of None \<Rightarrow> True | Some (d, t) \<Rightarrow> document_valid e d \<and> assertCurrentDocument e d t \<and> t \<le> now)"

definition policy_inv :: "policy_host \<Rightarrow> policy_system \<Rightarrow> bool" where
  "policy_inv h s \<longleftrightarrow> verdict_ok (ph_env h) (ps_now s) (ps_verdict s) \<and>
    (\<forall>sn. pc_snapshot (ps_coordinator s) = Some sn \<longrightarrow> vouched (sn_document sn) (ps_verdict s)) \<and>
    file_vouched (ps_verdict s) (pc_file (ps_coordinator s)) \<and>
    flight_vouched (ps_now s) (ps_verdict s) (pc_inFlight (ps_coordinator s))"

text \<open>A record the program wrote reads back with the document it was written with.\<close>

lemma parseCache_document:
  assumes "document_valid e (cr_document r)" and "parseCache e (cache_value r) origin device now = Some r'"
  shows "cr_document r' = cr_document r"
proof -
  have "reparse e (document_value (cr_document r)) = Some d \<Longrightarrow> d = cr_document r" for d
    using parseFeaturePolicyDocument_printed [OF assms(1)]
    by (auto simp: reparse_def parseFeaturePolicyJson_def split: option.splits if_splits)
  moreover have "reparse e (document_value (cr_document r)) = Some (cr_document r')"
    using assms(2) by (auto simp: parseCache_def cache_value_def field_def split: bind_splits)
  ultimately show ?thesis by metis
qed

lemma readCache_vouched:
  assumes "verdict_ok e now v" and "file_vouched v f" and "readCache e o' t f = Some r"
  shows "vouched (cr_document r) v"
proof -
  obtain n r0 where f: "f = Some (Regular n (Some (cache_value r0)))" and v: "vouched (cr_document r0) v"
    and parsed: "parseCache e (cache_value r0) (co_origin o') (co_deviceId o') t = Some r"
    using assms(2,3) by (auto simp: readCache_def file_vouched_def split: option.splits cache_file.splits if_splits)
  have "document_valid e (cr_document r0)" using assms(1) v by (auto simp: verdict_ok_def vouched_def split: option.splits)
  from parseCache_document [OF this parsed] v show ?thesis by simp
qed

lemma written_vouched: "writeCache w r f = Some f' \<Longrightarrow> vouched (cr_document r) v \<Longrightarrow> file_vouched v f'"
  by (auto simp: writeCache_def file_vouched_def Let_def split: if_splits)

lemma removed_vouched: "file_vouched v (removeCache True f)"
  by (auto simp: removeCache_def file_vouched_def split: option.splits cache_file.splits)


subsection \<open>Every step keeps it\<close>

definition coord_ok :: "js_env \<Rightarrow> int \<Rightarrow> verdict \<Rightarrow> policy_coordinator \<Rightarrow> bool" where
  "coord_ok e now v c \<longleftrightarrow> verdict_ok e now v \<and> (\<forall>sn. pc_snapshot c = Some sn \<longrightarrow> vouched (sn_document sn) v) \<and>
    file_vouched v (pc_file c) \<and> flight_vouched now v (pc_inFlight c)"

lemma publish_ok:
  "verdict_ok e now v \<Longrightarrow> file_vouched v (pc_file c) \<Longrightarrow> vouched d v \<Longrightarrow> coord_ok e now v (fst (publish d src t c))"
  by (simp add: coord_ok_def publish_def Let_def)

lemma publish_result [simp]:
  "verdict_after t (snd (publish d FromNetwork t' c)) v = Some (d, t)" "verdict_after t (snd (publish d FromCache t' c)) v = v"
  by (simp_all add: publish_def Let_def)

lemma fail_ok:
  "coord_ok e now v c \<Longrightarrow> coord_ok e now (verdict_after t (snd (fail_refresh True reason c)) v) (fst (fail_refresh True reason c))"
  by (cases reason) (auto simp: coord_ok_def fail_refresh_def removed_vouched verdict_ok_def)

lemma use_cache_ok:
  assumes "coord_ok e now v c" and "\<And>r. cached = Some r \<Longrightarrow> vouched (cr_document r) v"
  shows "coord_ok e now (verdict_after t (snd (use_cache True cached t' c)) v) (fst (use_cache True cached t' c))"
proof (cases cached)
  case None
  then show ?thesis using fail_ok [OF assms(1)] by (simp add: use_cache_def)
next
  case (Some r)
  then show ?thesis using assms publish_ok [of e now v c "cr_document r"] by (simp add: use_cache_def coord_ok_def)
qed

text \<open>A fresh word of the cloud, written to the file.\<close>

lemma accept_ok:
  assumes "document_valid e d" "assertCurrentDocument e d t" "t \<le> now" "writeCache w r (pc_file c) = Some f" "cr_document r = d"
  shows "coord_ok e now (verdict_after t (snd (publish d FromNetwork t (c\<lparr>pc_file := f\<rparr>))) v) (fst (publish d FromNetwork t (c\<lparr>pc_file := f\<rparr>)))"
  using assms by (auto intro!: publish_ok written_vouched simp: verdict_ok_def vouched_def)

lemma on_response_ok:
  assumes ok: "coord_ok e now v c"
  shows "coord_ok e now (verdict_after now (snd (on_response e w True now result c)) v) (fst (on_response e w True now result c))"
proof (cases "pc_inFlight c")
  case None
  then show ?thesis using ok by (simp add: on_response_def)
next
  case (Some flight)
  show ?thesis
  proof (cases flight)
    case (Reading response t)
    then show ?thesis using ok Some by (simp add: on_response_def)
  next
    case (Fetching cached)
    have vouched: "vouched (cr_document r) v" if "cached = Some r" for r
      using ok Some Fetching that by (simp add: coord_ok_def)
    have valid: "document_valid e (cr_document r)" if "cached = Some r" for r
      using ok vouched [OF that] by (auto simp: coord_ok_def verdict_ok_def vouched_def split: option.splits)
    show ?thesis
    proof (cases result)
      case None
      then show ?thesis using Some Fetching use_cache_ok [OF ok] vouched by (simp add: on_response_def)
    next
      case response: (Some response)
      have reading: "coord_ok e now v (c\<lparr>pc_inFlight := Some (Reading response now)\<rparr>)" using ok by (simp add: coord_ok_def)
      have confirmed: "coord_ok e now (verdict_after now (snd (publish (cr_document r) FromNetwork now (c\<lparr>pc_file := f\<rparr>))) v)
          (fst (publish (cr_document r) FromNetwork now (c\<lparr>pc_file := f\<rparr>)))"
        if "cached = Some r" "assertCurrentDocument e (cr_document r) now"
          "writeCache w (r\<lparr>cr_cached_at := toISOString now\<rparr>) (pc_file c) = Some f" for r f
        using accept_ok [OF valid [OF that(1)] that(2) order_refl that(3)] by simp
      show ?thesis
        using Some Fetching response fail_ok [OF ok] use_cache_ok [OF ok vouched] reading confirmed
        by (simp add: on_response_def split: option.split)
    qed
  qed
qed

lemma on_body_ok:
  assumes ok: "coord_ok (ph_env h) now v c" and cmp: "js_comparator (localeCompare (ph_env h))"
    and flight: "pc_inFlight c = Some (Reading response t)"
  shows "coord_ok (ph_env h) now (verdict_after t (snd (on_body h o' w True c)) v) (fst (on_body h o' w True c))"
proof -
  have t: "t \<le> now" using ok flight by (simp add: coord_ok_def)
  have valid: "document_valid (ph_env h) d" if "parseFeaturePolicyJson (ph_env h) (ph_parse h) body = Some d" for body d
    using that parseFeaturePolicyDocument_valid [OF cmp] by (auto simp: parseFeaturePolicyJson_def split: if_splits option.splits)
  show ?thesis
    using flight fail_ok [OF ok] accept_ok [OF valid _ t]
    by (auto simp: on_body_def Let_def split: sum.split option.split)
qed

lemma policy_step_inv:
  assumes "policy_step h o' s s'" and "policy_inv h s" and cmp: "js_comparator (localeCompare (ph_env h))"
  shows "policy_inv h s'"
  using assms(1,2) unfolding policy_inv_def coord_ok_def [symmetric]
proof (induction rule: policy_step.induct)
  case (tick s t)
  then show ?case
    by (cases "(ps_now s, ps_verdict s, pc_inFlight (ps_coordinator s))" rule: flight_vouched.cases)
      (auto simp: coord_ok_def verdict_ok_def split: option.splits)
next
  case (refreshing s)
  have "vouched (cr_document r) (ps_verdict s)"
    if "readCache (ph_env h) o' (ps_now s) (pc_file (ps_coordinator s)) = Some r" for r
    using refreshing readCache_vouched that unfolding coord_ok_def by blast
  then show ?case
    using refreshing by (cases "readCache (ph_env h) o' (ps_now s) (pc_file (ps_coordinator s))")
      (auto simp: begin_refresh_def coord_ok_def split: option.splits)
next
  case (responded writes s result c r)
  then show ?case using on_response_ok [of "ph_env h" "ps_now s" "ps_verdict s" "ps_coordinator s" writes result] by simp
next
  case (body_read s response t writes c r)
  then show ?case using on_body_ok [OF body_read.prems cmp body_read(1), of o' writes] by simp
next
  case (decided f ctx now now' s c d)
  then have "c = ps_coordinator s \<or> c = ps_coordinator s\<lparr>pc_snapshot := None\<rparr>"
    by (auto simp: decide_def split: option.splits if_splits)
  then show ?case using decided(2) by (auto simp: coord_ok_def)
next
  case (stopped s)
  then show ?case by (simp add: coord_ok_def stop_def)
next
  case (restarted s)
  then show ?case by (simp add: coord_ok_def restart_def)
qed

text \<open>The invariant of a host whose collation is an order.\<close>

definition policy_system_inv :: "policy_host \<Rightarrow> policy_system \<Rightarrow> bool" where
  "policy_system_inv h s \<longleftrightarrow> (js_comparator (localeCompare (ph_env h)) \<longrightarrow> policy_inv h s)"

interpretation policy: step_invariant "policy_step h o'" "policy_system_inv h"
  by unfold_locales (auto simp: policy_system_inv_def intro: policy_step_inv)

lemma policy_reachable:
  assumes "(policy_step h o')\<^sup>*\<^sup>* (policy_start t0) s" and "js_comparator (localeCompare (ph_env h))"
  shows "policy_inv h s"
proof -
  have "policy_system_inv h (policy_start t0)"
    by (simp add: policy_system_inv_def policy_inv_def policy_start_def verdict_ok_def file_vouched_def)
  from policy.run_inv [OF assms(1) this] assms(2) show ?thesis by (simp add: policy_system_inv_def)
qed



subsection \<open>What is left open\<close>

text \<open>
  Two ways around it that the model shows. A cache file whose removal fails after a refusal is used again as soon as the cloud cannot be
  reached. And \<open>stop\<close> leaves a refresh under way, which publishes when it ends.
\<close>

lemma failed_removal_reopens:
  assumes "pc_inFlight s = Some (Fetching cached)" and "rs_status response = 401"
    and "readCache e o' t' (pc_file s) = Some r" and "on_response e w False t (Some response) s = (s1, a)"
    and "on_response e w' u t'' None (begin_refresh e o' t' s1) = (s2, b)"
  shows "a = Some (Inl AuthError) \<and> pc_snapshot s1 = None \<and> map_option sn_document (pc_snapshot s2) = Some (cr_document r)"
proof -
  have "removeCache False f = f" for f by (simp add: removeCache_def split: option.split cache_file.split)
  then have "s1 = s\<lparr>pc_snapshot := None, pc_inFlight := None\<rparr>" "a = Some (Inl AuthError)"
    using assms(1,2,4) by (auto simp: on_response_def fail_refresh_def)
  then show ?thesis using assms(3,5) by (auto simp: on_response_def begin_refresh_def use_cache_def publish_def Let_def)
qed

lemma stopped_refresh_publishes:
  "pc_inFlight s = Some (Fetching (Some r)) \<Longrightarrow>
    map_option sn_document (pc_snapshot (fst (on_response e w u t None (stop s)))) = Some (cr_document r)"
  by (simp add: on_response_def stop_def use_cache_def publish_def Let_def)

text \<open>Every feature a published document stops is reported unless the document before stopped it.\<close>

lemma emergency_reported:
  assumes "publish d src t s = (s', r)" and "x \<in> set (fd_features d)" and "fe_emergency_disabled x"
  shows "fe_feature_id x \<in> set (pc_emergencyIds s') \<and>
    (fe_feature_id x \<in> set (pc_emergencyIds s) \<or> (\<exists>ids. EmergencyDisabled ids \<in> set (pc_events s') \<and> fe_feature_id x \<in> set ids))"
  using assms by (force simp: publish_def Let_def filter_empty_conv)

subsection \<open>One device\<close>

definition sample_policy_host :: policy_host where
  "sample_policy_host = \<lparr>ph_env = sample_env, ph_parse = (\<lambda>_. Some (document_value sample_policy)), ph_decode = Some\<rparr>"

definition sample_coordinator_options :: FeaturePolicyCoordinatorOptions where
  "sample_coordinator_options =
    \<lparr>co_origin = ''https://cloud'', co_deviceId = ''device-1'', co_desktopVersion = ''1.2.0'', co_audience = None,
     co_scopeIds = [(''tenant'', Many [''t1'', ''t2''])], co_entitlements = Some [''pack:hr''], co_permissions = None,
     co_refreshIntervalMs = None\<rparr>"

definition sample_decision :: FeaturePolicyDecisionContext where
  "sample_decision = \<lparr>dc_agentId = None, dc_entitlements = None, dc_permissions = Some [''file:read'']\<rparr>"

definition sample_response :: policy_response where
  "sample_response = \<lparr>rs_status = 200, rs_headers = (\<lambda>n. if n = ''content-type'' then Some ''application/json; charset=utf-8'' else None),
     rs_body = Some [''policy''], rs_complete = True\<rparr>"

definition sample_snapshot :: FeaturePolicySnapshot where
  "sample_snapshot = \<lparr>sn_document = sample_policy, sn_source = FromNetwork, sn_refreshed_at = toISOString 1767225630000\<rparr>"

abbreviation sample_policy_merged :: ResolvedFeaturePolicy where
  "sample_policy_merged \<equiv> merge_entries sample_env sample_policy ''skill.execute'' sample_entry [sample_tenant_entry]"

lemma sample_current: "assertCurrentDocument sample_env sample_policy 1767225630000"
  by (simp add: assertCurrentDocument_def sample_policy_def)

lemma sample_local_resolved:
  "resolveFeaturePolicy sample_env sample_policy ''skill.execute'' (decision_context sample_coordinator_options sample_decision 1767225630000) =
    Some (Some sample_policy_merged)"
proof -
  let ?c = "decision_context sample_coordinator_options sample_decision 1767225630000"
  have "isEntryApplicable sample_env sample_entry ?c = Some True" "isEntryApplicable sample_env sample_tenant_entry ?c = Some True"
    by (simp_all add: isEntryApplicable_def decision_context_def sample_coordinator_options_def sample_decision_def Let_def
        sample_entry_def sample_tenant_entry_def in_scope_def sample_compare)
  then have "applicable_entries sample_env ''skill.execute'' ?c (fd_features sample_policy) = Some [sample_entry, sample_tenant_entry]"
    by (simp add: sample_policy_def) (simp add: sample_entry_def sample_tenant_entry_def)
  moreover have "assertDocumentFresh sample_env sample_policy (check_time sample_env ?c)"
    by (simp add: assertDocumentFresh_def check_time_def decision_context_def sample_policy_def)
  ultimately show ?thesis by (simp add: resolveFeaturePolicy_def require_def)
qed

lemma sample_local_allowed:
  "decideFeatureAccess (Some sample_policy_merged) (decision_grants sample_coordinator_options sample_decision) = Allowed"
  by (simp add: decideFeatureAccess_def merge_entries_def Let_def sample_entry_def sample_tenant_entry_def decision_grants_def
      sample_coordinator_options_def sample_decision_def missing_def unionSorted_def js_dedup_def js_sort_def)

lemma sample_refreshed:
  "\<exists>s. (policy_step sample_policy_host sample_coordinator_options)\<^sup>*\<^sup>* (policy_start 1767225630000) s \<and> ps_now s = 1767225630000 \<and>
    pc_snapshot (ps_coordinator s) = Some sample_snapshot"
proof -
  let ?step = "policy_step sample_policy_host sample_coordinator_options"
  let ?h = "sample_policy_host"
  define s1 where "s1 = (policy_start 1767225630000)\<lparr>ps_coordinator := begin_refresh (ph_env ?h) sample_coordinator_options 1767225630000
    (ps_coordinator (policy_start 1767225630000))\<rparr>"
  define s2 where "s2 = s1\<lparr>ps_coordinator := (ps_coordinator s1)\<lparr>pc_inFlight := Some (Reading sample_response 1767225630000)\<rparr>\<rparr>"
  have flight: "pc_inFlight (ps_coordinator s1) = Some (Fetching None)" "ps_now s1 = 1767225630000" "pc_file (ps_coordinator s1) = None"
    by (simp_all add: s1_def policy_start_def begin_refresh_def readCache_def)
  have "json_response sample_response"
    by (simp add: json_response_def sample_response_def js_trim_def ascii_lower_def is_upper_def char_in_def is_space_def)
  then have "on_response (ph_env ?h) True True (ps_now s1) (Some sample_response) (ps_coordinator s1) =
      ((ps_coordinator s1)\<lparr>pc_inFlight := Some (Reading sample_response 1767225630000)\<rparr>, None)"
    by (simp add: on_response_def flight sample_response_def)
  from responded [OF this] have step2: "?step s1 s2" by (simp add: s2_def)
  have reading: "pc_inFlight (ps_coordinator s2) = Some (Reading sample_response 1767225630000)" by (simp add: s2_def)
  have chunks: "responseTextBounded ?h sample_response = Inr ''policy''"
    by (simp add: responseTextBounded_def sample_response_def FEATURE_POLICY_MAX_BYTES_def sample_policy_host_def)
  have parsed: "parseFeaturePolicyJson sample_env (ph_parse ?h) ''policy'' = Some sample_policy"
    using parseFeaturePolicyDocument_printed [OF sample_policy_valid]
    by (simp add: parseFeaturePolicyJson_def sample_policy_host_def byteLength_def FEATURE_POLICY_MAX_BYTES_def)
  obtain f where f: "writeCache True \<lparr>cr_cloud_origin = co_origin sample_coordinator_options, cr_device_id = co_deviceId sample_coordinator_options,
      cr_etag = [], cr_cached_at = toISOString 1767225630000, cr_document = sample_policy\<rparr> (pc_file (ps_coordinator s2)) = Some f"
    by (simp add: writeCache_def s2_def flight Let_def)
  have env: "ph_env ?h = sample_env" by (simp add: sample_policy_host_def)
  have "on_body ?h sample_coordinator_options True True (ps_coordinator s2) =
      publish sample_policy FromNetwork 1767225630000 ((ps_coordinator s2)\<lparr>pc_file := f\<rparr>)"
    using f by (simp add: on_body_def reading chunks env parsed sample_current Let_def validEtag_def) (simp add: sample_response_def)
  then obtain c r where body: "on_body ?h sample_coordinator_options True True (ps_coordinator s2) = (c, r)"
    and snapshot: "pc_snapshot c = Some sample_snapshot"
    by (simp add: publish_def Let_def sample_snapshot_def)
  from body_read [OF reading body] have "?step s2 (s2\<lparr>ps_coordinator := c, ps_verdict := verdict_after 1767225630000 r (ps_verdict s2)\<rparr>)" .
  moreover have "?step (policy_start 1767225630000) s1"
    using refreshing [of ?h sample_coordinator_options "policy_start 1767225630000"] by (simp add: s1_def) (simp add: policy_start_def)
  ultimately have "?step\<^sup>*\<^sup>* (policy_start 1767225630000) (s2\<lparr>ps_coordinator := c, ps_verdict := verdict_after 1767225630000 r (ps_verdict s2)\<rparr>)"
    using step2 by (meson converse_rtranclp_into_rtranclp r_into_rtranclp)
  moreover have "ps_now s2 = 1767225630000" by (simp add: s2_def flight)
  ultimately show ?thesis using snapshot by (intro exI conjI) (assumption, simp_all)
qed


end
