(* ===== verification/Client_Update.thy ===== *)
theory Client_Update
  imports Canonical_Json
begin

text \<open>
  The trust in client updates (\<^verbatim>\<open>packages/longhub-pack-schema/src/client-update.ts\<close> and
  \<^verbatim>\<open>apps/longhub-desktop/src/client-update.ts\<close>): signed metadata, the version order, staged rollout, and the check that
  remembers the highest sequence it has seen. The schema library, the signature check and SHA-256 are parameters; the rules the source adds
  to the schema are definitions here. The lemmas show that an offered update is signed, newer and meant for this device, and that
  sequences never go back.
\<close>

subsection \<open>Metadata\<close>

record ClientUpdateRollout =
  ro_status :: string
  ro_basis_points :: int
  ro_seed :: string
  ro_updated_at :: string

record ClientUpdateManifest =
  mf_schema_version :: string
  mf_product_surface :: string
  mf_sequence :: int
  mf_version :: string
  mf_channel :: string
  mf_platform :: string
  mf_arch :: string
  mf_filename :: string
  mf_size :: int
  mf_sha256 :: string
  mf_url_path :: string
  mf_published_at :: string
  mf_rollback_data_strategy :: string
  mf_rollout :: ClientUpdateRollout

record SignedClientUpdateMetadata =
  sm_manifest :: ClientUpdateManifest
  sm_signature_key_id :: string
  sm_signature :: string

definition CLIENT_UPDATE_SCHEMA :: string where "CLIENT_UPDATE_SCHEMA = ''longhub/client-update/v2''"
definition CLIENT_UPDATE_SIGNATURE_DOMAIN :: string where "CLIENT_UPDATE_SIGNATURE_DOMAIN = ''longhub-client-update-v2'' @ [CHR 0x0A]"
definition CLIENT_UPDATE_PRODUCT_SURFACE :: string where "CLIENT_UPDATE_PRODUCT_SURFACE = ''longhub-manager''"

text \<open>\<^verbatim>\<open>(0|[1-9]\d{0,8})\<close>, three times\<close>

definition version_part :: "string \<Rightarrow> bool" where
  "version_part s \<longleftrightarrow> s = ''0'' \<or> head_tail (char_in CHR ''1'' CHR ''9'') is_digit 0 8 s"

definition version_ok :: "string \<Rightarrow> bool" where
  "version_ok s \<longleftrightarrow> length (split_on CHR ''.'' s) = 3 \<and> list_all version_part (split_on CHR ''.'' s)"

text \<open>What the schemas say of each field, and the two rules they add.\<close>

definition rollout_valid :: "ClientUpdateRollout \<Rightarrow> bool" where
  "rollout_valid r \<longleftrightarrow> ro_status r \<in> {''active'', ''paused''} \<and> 0 \<le> ro_basis_points r \<and> ro_basis_points r \<le> 10000 \<and>
    all_within is_hex 64 64 (ro_seed r) \<and> \<not> (ro_status r = ''active'' \<and> ro_basis_points r = 0)"

definition setup_name :: "string \<Rightarrow> string" where
  "setup_name version = ''LongHub-Manager-Setup-'' @ version @ ''.exe''"

definition manifest_valid :: "ClientUpdateManifest \<Rightarrow> bool" where
  "manifest_valid m \<longleftrightarrow> mf_schema_version m = CLIENT_UPDATE_SCHEMA \<and> mf_product_surface m = CLIENT_UPDATE_PRODUCT_SURFACE \<and>
    1 \<le> mf_sequence m \<and> mf_sequence m \<le> maxSafeInteger \<and> version_ok (mf_version m) \<and> mf_channel m \<in> {''stable'', ''beta''} \<and>
    mf_platform m = ''win32'' \<and> mf_arch m = ''x64'' \<and> 1 \<le> mf_size m \<and> mf_size m \<le> 1024 * 1024 * 1024 \<and>
    all_within is_hex 64 64 (mf_sha256 m) \<and> mf_rollback_data_strategy m \<in> {''snapshot_required'', ''backward_compatible''} \<and>
    rollout_valid (mf_rollout m) \<and> mf_filename m = setup_name (mf_version m) \<and> mf_url_path m = ''/downloads/'' @ mf_filename m"

definition rollout_value :: "ClientUpdateRollout \<Rightarrow> js_value" where
  "rollout_value r = Obj
    [(''status'', Str (ro_status r)), (''basis_points'', Number (IntNum (ro_basis_points r))), (''seed'', Str (ro_seed r)),
     (''updated_at'', Str (ro_updated_at r))]"

definition manifest_value :: "ClientUpdateManifest \<Rightarrow> js_value" where
  "manifest_value m = Obj
    [(''schema_version'', Str (mf_schema_version m)), (''product_surface'', Str (mf_product_surface m)),
     (''sequence'', Number (IntNum (mf_sequence m))), (''version'', Str (mf_version m)), (''channel'', Str (mf_channel m)),
     (''platform'', Str (mf_platform m)), (''arch'', Str (mf_arch m)), (''filename'', Str (mf_filename m)),
     (''size'', Number (IntNum (mf_size m))), (''sha256'', Str (mf_sha256 m)), (''url_path'', Str (mf_url_path m)),
     (''published_at'', Str (mf_published_at m)), (''rollback_data_strategy'', Str (mf_rollback_data_strategy m)),
     (''rollout'', rollout_value (mf_rollout m))]"

text \<open>The host: the schema library, the signature check of a payload under a public key, and the rest.\<close>

record update_host =
  uh_env :: js_env
  uh_schema :: "js_value \<Rightarrow> SignedClientUpdateMetadata option"
  uh_verify :: "string \<Rightarrow> string \<Rightarrow> string \<Rightarrow> bool"

text \<open>The keys of every object in code-unit order.\<close>

definition canonicalStringify :: "js_env \<Rightarrow> js_value \<Rightarrow> string option" where
  "canonicalStringify e v = canonicalJson (e\<lparr>localeCompare := code_unit_compare\<rparr>) v"

definition clientUpdateSignaturePayload :: "js_env \<Rightarrow> ClientUpdateManifest \<Rightarrow> string option" where
  "clientUpdateSignaturePayload e m = map_option ((@) CLIENT_UPDATE_SIGNATURE_DOMAIN) (canonicalStringify e (manifest_value m))"

definition parsed_metadata :: "update_host \<Rightarrow> js_value \<Rightarrow> SignedClientUpdateMetadata option" where
  "parsed_metadata h v =
    (case uh_schema h v of
       None \<Rightarrow> None
     | Some d \<Rightarrow> if manifest_valid (sm_manifest d) then Some d else None)"

text \<open>The metadata, if it is of the schema and signed by a trusted key.\<close>

definition verifyClientUpdateMetadata :: "update_host \<Rightarrow> (string, string) js_map \<Rightarrow> js_value \<Rightarrow> SignedClientUpdateMetadata option" where
  "verifyClientUpdateMetadata h trustedKeys metadata = do {
     d \<leftarrow> parsed_metadata h metadata;
     publicKey \<leftarrow> truthy (map_get trustedKeys (sm_signature_key_id d));
     payload \<leftarrow> clientUpdateSignaturePayload (uh_env h) (sm_manifest d);
     require (uh_verify h payload publicKey (sm_signature d));
     Some d
   }"

text \<open>The loop over the three parts.\<close>

fun compare_version_parts :: "nat list \<Rightarrow> nat list \<Rightarrow> int" where
  "compare_version_parts (a # as) (b # bs) = (if a = b then compare_version_parts as bs else if a < b then - 1 else 1)"
| "compare_version_parts as bs = 0"

definition compareClientVersions :: "string \<Rightarrow> string \<Rightarrow> int option" where
  "compareClientVersions left right =
    (if version_ok left \<and> version_ok right
     then Some (compare_version_parts (map read_nat (split_on CHR ''.'' left)) (map read_nat (split_on CHR ''.'' right)))
     else None)"

definition identity_ok :: "string \<Rightarrow> bool" where
  "identity_ok = all_within (\<lambda>c. is_alnum c \<or> c \<in> set ''._:-'') 1 256"

text \<open>The digest is the hexadecimal text of its bytes: its first eight digits are \<^verbatim>\<open>readUInt32BE(0)\<close>.\<close>

definition hex_nat :: "string \<Rightarrow> nat" where
  "hex_nat s = foldl (\<lambda>n c. 16 * n + hex_value c) 0 s"

definition clientUpdateRolloutBucket :: "js_env \<Rightarrow> string \<Rightarrow> string \<Rightarrow> nat option" where
  "clientUpdateRolloutBucket e seed identity =
    (if \<not> all_within is_hex 64 64 seed \<or> \<not> identity_ok identity then None
     else Some (hex_nat (take 8 (sha256 e (''longhub-client-rollout-v1'' @ [CHR 0x0A] @ seed @ [CHR 0x0A] @ identity))) mod 10000))"

definition isClientUpdateRolloutEligible :: "js_env \<Rightarrow> ClientUpdateRollout \<Rightarrow> string \<Rightarrow> bool option" where
  "isClientUpdateRolloutEligible e rollout identity = do {
     require (rollout_valid rollout);
     if ro_status rollout = ''paused'' then Some False
     else do {
       require (identity_ok identity);
       if ro_basis_points rollout = 10000 then Some True
       else map_option (\<lambda>b. int b < ro_basis_points rollout) (clientUpdateRolloutBucket e (ro_seed rollout) identity)
     }
   }"

subsection \<open>The state file\<close>

record UpdateStateEntry =
  ue_sequence :: int
  ue_metadata_sha256 :: string

type_synonym UpdateState = "(string, UpdateStateEntry) js_map"

definition STATE_SCHEMA :: string where "STATE_SCHEMA = ''longhub/client-update-state/v1''"

definition parse_entry :: "js_value \<Rightarrow> UpdateStateEntry option" where
  "parse_entry v = do {
     entry \<leftarrow> object_members v;
     require (joined_keys (map fst entry) = ''metadata_sha256|sequence'');
     n \<leftarrow> number_value (field entry ''sequence'');
     sequence \<leftarrow> safeInteger n;
     require (0 < sequence);
     digest \<leftarrow> string_value (field entry ''metadata_sha256'');
     require (all_within is_hex 64 64 digest);
     Some \<lparr>ue_sequence = sequence, ue_metadata_sha256 = digest\<rparr>
   }"

fun parse_channels :: "(string \<times> js_value) list \<Rightarrow> UpdateState option" where
  "parse_channels [] = Some []"
| "parse_channels ((channel, v) # vs) = do {
     require (channel \<in> {''stable'', ''beta''});
     entry \<leftarrow> parse_entry v;
     entries \<leftarrow> parse_channels vs;
     Some ((channel, entry) # entries)
   }"

text \<open>The value of the file, \<open>None\<close> inside where its text is not JSON; the outer result \<open>None\<close> is the thrown error.\<close>

definition loadState :: "js_value option option \<Rightarrow> UpdateState option" where
  "loadState f =
    (case f of
       None \<Rightarrow> Some []
     | Some content \<Rightarrow> do {
         v \<leftarrow> content;
         parsed \<leftarrow> object_members v;
         require (joined_keys (map fst parsed) = ''channels|schema_version'' \<and> field parsed ''schema_version'' = Str STATE_SCHEMA);
         channels \<leftarrow> object_members (field parsed ''channels'');
         parse_channels channels
       })"

definition entry_value :: "UpdateStateEntry \<Rightarrow> js_value" where
  "entry_value x = Obj [(''sequence'', Number (IntNum (ue_sequence x))), (''metadata_sha256'', Str (ue_metadata_sha256 x))]"

definition state_value :: "UpdateState \<Rightarrow> js_value" where
  "state_value st = Obj [(''schema_version'', Str STATE_SCHEMA), (''channels'', Obj (map (\<lambda>(c, x). (c, entry_value x)) st))]"

text \<open>Written beside the file and renamed over it.\<close>

definition saveState :: "UpdateState \<Rightarrow> js_value option option" where
  "saveState st = Some (Some (state_value st))"

definition three_numbers :: "string \<Rightarrow> bool" where
  "three_numbers s \<longleftrightarrow> length (split_on CHR ''.'' s) = 3 \<and> list_all (\<lambda>p. p \<noteq> [] \<and> list_all is_digit p) (split_on CHR ''.'' s)"

definition ROLLBACK_KEYS :: "string list" where
  "ROLLBACK_KEYS = [''schema_version'', ''previous_version'', ''target_version'', ''sequence'', ''attempts'', ''reason'', ''rolled_back_at'',
     ''failed_state_path'', ''snapshot_path'']"

definition positive :: "js_value \<Rightarrow> bool" where
  "positive v = (case Option.bind (number_value v) safeInteger of None \<Rightarrow> False | Some i \<Rightarrow> 0 < i)"

text \<open>\<open>Some None\<close> where there is no record; \<open>None\<close> is the thrown error.\<close>

definition blockedRollbackVersion :: "js_env \<Rightarrow> js_value option option \<Rightarrow> string option option" where
  "blockedRollbackVersion e f =
    (case f of
       None \<Rightarrow> Some None
     | Some content \<Rightarrow> do {
         v \<leftarrow> content;
         value' \<leftarrow> object_members v;
         require (joined_keys (map fst value') = joined_keys ROLLBACK_KEYS);
         require (field value' ''schema_version'' = Str ''longhub/client-update-last-rollback/v1'');
         previous \<leftarrow> string_value (field value' ''previous_version'');
         target \<leftarrow> string_value (field value' ''target_version'');
         require (three_numbers previous \<and> three_numbers target \<and> positive (field value' ''sequence'') \<and> positive (field value' ''attempts''));
         reason \<leftarrow> string_value (field value' ''reason'');
         require (reason \<noteq> []);
         at \<leftarrow> string_value (field value' ''rolled_back_at'');
         require (date_parse e at \<noteq> None);
         _ \<leftarrow> string_value (field value' ''failed_state_path'');
         _ \<leftarrow> string_value (field value' ''snapshot_path'');
         Some (Some target)
       })"

subsection \<open>The check\<close>

record ClientUpdateVerifierOptions =
  uo_origin :: string
  uo_currentVersion :: string
  uo_channel :: string
  uo_rolloutIdentity :: string
  uo_trustedKeys :: "(string, string) js_map"

datatype update_action = NoUpdate "string" | UpdateAvailable

record TrustedClientUpdate =
  tu_action :: update_action
  tu_metadata :: "SignedClientUpdateMetadata option"
  tu_artifactUrl :: "string option"

text \<open>The release a response carries: \<open>None\<close> is an error, \<open>Some Null\<close> no release.\<close>

definition release_of :: "js_value \<Rightarrow> js_value option" where
  "release_of body = do {
     members \<leftarrow> object_members body;
     require (joined_keys (map fst members) = ''release'');
     Some (field members ''release'')
   }"

definition for_this_client :: "ClientUpdateVerifierOptions \<Rightarrow> ClientUpdateManifest \<Rightarrow> bool" where
  "for_this_client o' m \<longleftrightarrow> mf_channel m = uo_channel o' \<and> mf_platform m = ''win32'' \<and> mf_arch m = ''x64''"

definition metadataSha256 :: "update_host \<Rightarrow> js_value \<Rightarrow> string option" where
  "metadataSha256 h release = map_option (sha256 (uh_env h)) (canonicalStringify (uh_env h) release)"

text \<open>The path of valid metadata is an absolute path of the origin.\<close>

definition offer :: "update_host \<Rightarrow> ClientUpdateVerifierOptions \<Rightarrow> js_value option option \<Rightarrow> SignedClientUpdateMetadata \<Rightarrow> TrustedClientUpdate option" where
  "offer h o' rollbackRecord d =
    (let answer = (\<lambda>a. \<lparr>tu_action = a, tu_metadata = Some d, tu_artifactUrl = Some (uo_origin o' @ mf_url_path (sm_manifest d))\<rparr>) in do {
       blocked \<leftarrow> blockedRollbackVersion (uh_env h) rollbackRecord;
       if blocked = Some (mf_version (sm_manifest d)) then Some (answer (NoUpdate ''rollback_blocked''))
       else if ro_status (mf_rollout (sm_manifest d)) = ''paused'' then Some (answer (NoUpdate ''paused''))
       else do {
         eligible \<leftarrow> isClientUpdateRolloutEligible (uh_env h) (mf_rollout (sm_manifest d)) (uo_rolloutIdentity o');
         if \<not> eligible then Some (answer (NoUpdate ''not_in_rollout''))
         else do {
           order \<leftarrow> compareClientVersions (mf_version (sm_manifest d)) (uo_currentVersion o');
           Some (answer (if 0 < order then UpdateAvailable else NoUpdate ''current''))
         }
       }
     })"

text \<open>
  The metadata a response carries for this client, with its digest, unless its sequence is behind the state or differs under the same
  sequence; and the state after it.
\<close>

definition accept_release :: "update_host \<Rightarrow> ClientUpdateVerifierOptions \<Rightarrow> js_value \<Rightarrow> UpdateState \<Rightarrow>
    (SignedClientUpdateMetadata \<times> string \<times> UpdateState) option" where
  "accept_release h o' release state = do {
     d \<leftarrow> verifyClientUpdateMetadata h (uo_trustedKeys o') release;
     require (for_this_client o' (sm_manifest d));
     currentDigest \<leftarrow> metadataSha256 h release;
     let sequence = mf_sequence (sm_manifest d);
     let fresh = map_set (uo_channel o') \<lparr>ue_sequence = sequence, ue_metadata_sha256 = currentDigest\<rparr> state;
     case map_get state (uo_channel o') of
       None \<Rightarrow> Some (d, currentDigest, fresh)
     | Some previous \<Rightarrow>
         if sequence < ue_sequence previous then None
         else if sequence = ue_sequence previous then
           (if currentDigest \<noteq> ue_metadata_sha256 previous then None else Some (d, currentDigest, state))
         else Some (d, currentDigest, fresh)
   }"

record update_files =
  uf_state :: "js_value option option"
  uf_rollback :: "js_value option option"

text \<open>One check: the response is the value of its body, \<open>None\<close> where the request failed. The state is saved before the answer is made.\<close>

definition check_update :: "update_host \<Rightarrow> ClientUpdateVerifierOptions \<Rightarrow> js_value option \<Rightarrow> update_files \<Rightarrow> update_files \<times> TrustedClientUpdate option" where
  "check_update h o' response fs =
    (if uo_trustedKeys o' = [] then (fs, None)
     else case Option.bind response release_of of
       None \<Rightarrow> (fs, None)
     | Some release \<Rightarrow>
         if release = Null then (fs, Some \<lparr>tu_action = NoUpdate ''no_release'', tu_metadata = None, tu_artifactUrl = None\<rparr>)
         else case loadState (uf_state fs) of
           None \<Rightarrow> (fs, None)
         | Some state \<Rightarrow>
             (case accept_release h o' release state of
                None \<Rightarrow> (fs, None)
              | Some (d, digest, state') \<Rightarrow>
                  let fs' = (if state' = state then fs else fs\<lparr>uf_state := saveState state'\<rparr>) in
                  (fs', offer h o' (uf_rollback fs) d)))"

definition fetchVersion :: "update_host \<Rightarrow> ClientUpdateVerifierOptions \<Rightarrow> string \<Rightarrow> js_value option \<Rightarrow> (SignedClientUpdateMetadata \<times> string) option" where
  "fetchVersion h o' version response = do {
     require (version_ok version \<and> uo_trustedKeys o' \<noteq> []);
     body \<leftarrow> response;
     release \<leftarrow> release_of body;
     d \<leftarrow> verifyClientUpdateMetadata h (uo_trustedKeys o') release;
     require (mf_version (sm_manifest d) = version \<and> for_this_client o' (sm_manifest d));
     Some (d, uo_origin o' @ mf_url_path (sm_manifest d))
   }"

text \<open>\<^verbatim>\<open>verifyDownloadedClientUpdate\<close> of the chunks of a file; \<open>bytesSha256\<close> is the digest of bytes.\<close>

fun read_file :: "int \<Rightarrow> string \<Rightarrow> string list \<Rightarrow> string option" where
  "read_file limit got [] = Some got"
| "read_file limit got (c # cs) = (if limit < int (length got + length c) then None else read_file limit (got @ c) cs)"

definition verifyDownloadedClientUpdate :: "(string \<Rightarrow> string) \<Rightarrow> string list \<Rightarrow> ClientUpdateManifest \<Rightarrow> bool" where
  "verifyDownloadedClientUpdate bytesSha256 chunks m =
    (case read_file (mf_size m) [] chunks of
       None \<Rightarrow> False
     | Some content \<Rightarrow> int (length content) = mf_size m \<and> bytesSha256 content = mf_sha256 m)"


subsection \<open>The state file reads back\<close>

definition entry_ok :: "UpdateStateEntry \<Rightarrow> bool" where
  "entry_ok x \<longleftrightarrow> 0 < ue_sequence x \<and> ue_sequence x \<le> maxSafeInteger \<and> all_within is_hex 64 64 (ue_metadata_sha256 x)"

definition state_ok :: "UpdateState \<Rightarrow> bool" where
  "state_ok st \<longleftrightarrow> (\<forall>(c, x) \<in> set st. c \<in> {''stable'', ''beta''} \<and> entry_ok x)"

lemma entry_keys: "joined_keys [''sequence'', ''metadata_sha256''] = ''metadata_sha256|sequence''"
  by (simp add: joined_keys_def js_sort_def code_unit_compare_def)

lemma state_keys: "joined_keys [''schema_version'', ''channels''] = ''channels|schema_version''"
  by (simp add: joined_keys_def js_sort_def code_unit_compare_def)

lemma parse_update_entry_value: "entry_ok x \<Longrightarrow> parse_entry (entry_value x) = Some x"
  by (simp add: parse_entry_def entry_value_def entry_ok_def field_def entry_keys require_def)

lemma parse_entry_ok: "parse_entry v = Some x \<Longrightarrow> entry_ok x"
  by (auto simp: parse_entry_def entry_ok_def safeInteger_Some require_def split: bind_splits if_splits)

lemma parse_channels_value: "state_ok st \<Longrightarrow> parse_channels (map (\<lambda>(c, x). (c, entry_value x)) st) = Some st"
  by (induction st) (auto simp: state_ok_def parse_update_entry_value require_def)

lemma parse_channels_ok: "parse_channels vs = Some st \<Longrightarrow> state_ok st"
proof (induction vs arbitrary: st)
  case (Cons p vs)
  then show ?case by (cases p) (auto simp: state_ok_def require_def dest: parse_entry_ok split: bind_splits if_splits)
qed (simp add: state_ok_def)

lemma loadState_ok: "loadState f = Some st \<Longrightarrow> state_ok st"
  by (auto simp: loadState_def state_ok_def [of "[]"] dest: parse_channels_ok split: option.splits bind_splits)

lemma loadState_saved: "state_ok st \<Longrightarrow> loadState (saveState st) = Some st"
  by (simp add: loadState_def saveState_def state_value_def state_keys field_def require_def parse_channels_value)

lemma state_ok_set: "state_ok st \<Longrightarrow> c \<in> {''stable'', ''beta''} \<Longrightarrow> entry_ok x \<Longrightarrow> state_ok (map_set c x st)"
  by (induction st) (auto simp: state_ok_def split: if_splits)

subsection \<open>What is accepted\<close>

text \<open>The highest sequence of the channel the client has seen.\<close>

definition seen :: "ClientUpdateVerifierOptions \<Rightarrow> update_files \<Rightarrow> UpdateStateEntry option" where
  "seen o' fs = Option.bind (loadState (uf_state fs)) (\<lambda>st. map_get st (uo_channel o'))"

definition not_behind :: "ClientUpdateVerifierOptions \<Rightarrow> update_files \<Rightarrow> update_files \<Rightarrow> bool" where
  "not_behind o' fs fs' \<longleftrightarrow>
    (\<forall>x. seen o' fs = Some x \<longrightarrow> (\<exists>y. seen o' fs' = Some y \<and> (ue_sequence x < ue_sequence y \<or> x = y)))"

lemma not_behind_trans: "not_behind o' a b \<Longrightarrow> not_behind o' b c \<Longrightarrow> not_behind o' a c"
  by (fastforce simp: not_behind_def)

lemma verified:
  "verifyClientUpdateMetadata h keys v = Some d \<longleftrightarrow>
    (\<exists>k payload. uh_schema h v = Some d \<and> manifest_valid (sm_manifest d) \<and> map_get keys (sm_signature_key_id d) = Some k \<and> k \<noteq> [] \<and>
      clientUpdateSignaturePayload (uh_env h) (sm_manifest d) = Some payload \<and> uh_verify h payload k (sm_signature d))"
  by (auto simp: verifyClientUpdateMetadata_def parsed_metadata_def require_def split: bind_splits option.splits if_splits)

lemma accepted_release:
  assumes "accept_release h o' release st = Some (d, g, st')"
  shows "verifyClientUpdateMetadata h (uo_trustedKeys o') release = Some d" and "for_this_client o' (sm_manifest d)"
    and "metadataSha256 h release = Some g"
    and "map_get st' (uo_channel o') = Some \<lparr>ue_sequence = mf_sequence (sm_manifest d), ue_metadata_sha256 = g\<rparr>"
    and "st' = st \<or> st' = map_set (uo_channel o') \<lparr>ue_sequence = mf_sequence (sm_manifest d), ue_metadata_sha256 = g\<rparr> st"
    and "map_get st (uo_channel o') = Some x \<Longrightarrow>
      ue_sequence x < mf_sequence (sm_manifest d) \<or> x = \<lparr>ue_sequence = mf_sequence (sm_manifest d), ue_metadata_sha256 = g\<rparr>"
  using assms by (auto simp: accept_release_def Let_def require_def split: bind_splits option.splits if_splits)

lemma check_cases:
  assumes "check_update h o' response fs = (fs', r)"
  obtains (same) "fs' = fs" "\<And>u. r = Some u \<Longrightarrow> tu_metadata u = None"
  | (accepted) release st d g st' where "Option.bind response release_of = Some release" "loadState (uf_state fs) = Some st"
    "accept_release h o' release st = Some (d, g, st')" "fs' = (if st' = st then fs else fs\<lparr>uf_state := saveState st'\<rparr>)"
    "r = offer h o' (uf_rollback fs) d"
  using assms unfolding check_update_def
  by (cases "Option.bind response release_of"; cases "loadState (uf_state fs)")
    (auto simp: Let_def split: if_splits option.splits)

lemma offered_metadata: "offer h o' rb d = Some u \<Longrightarrow> tu_metadata u = Some d"
  by (auto simp: offer_def Let_def split: bind_splits if_splits)

lemma accepted_seen:
  assumes digests: "\<And>s. all_within is_hex 64 64 (sha256 (uh_env h) s)"
    and st: "loadState (uf_state fs) = Some st" and acc: "accept_release h o' release st = Some (d, g, st')"
  shows "seen o' (if st' = st then fs else fs\<lparr>uf_state := saveState st'\<rparr>) =
      Some \<lparr>ue_sequence = mf_sequence (sm_manifest d), ue_metadata_sha256 = g\<rparr>"
proof -
  note a = accepted_release [OF acc]
  have "manifest_valid (sm_manifest d)" using a(1) by (simp add: verified)
  then have "entry_ok \<lparr>ue_sequence = mf_sequence (sm_manifest d), ue_metadata_sha256 = g\<rparr>" "uo_channel o' \<in> {''stable'', ''beta''}"
    using a(2,3) digests by (auto simp: entry_ok_def manifest_valid_def metadataSha256_def for_this_client_def)
  then have "state_ok st'" using a(5) loadState_ok [OF st] state_ok_set by blast
  then show ?thesis using st a(4) by (auto simp: seen_def loadState_saved)
qed

lemma check_not_behind:
  assumes digests: "\<And>s. all_within is_hex 64 64 (sha256 (uh_env h) s)"
  shows "not_behind o' fs (fst (check_update h o' response fs))"
proof -
  obtain fs' r where step: "check_update h o' response fs = (fs', r)" by fastforce
  from step show ?thesis
  proof (cases rule: check_cases)
    case same
    then show ?thesis by (simp add: step not_behind_def)
  next
    case (accepted release st d g st')
    have now: "seen o' fs' = Some \<lparr>ue_sequence = mf_sequence (sm_manifest d), ue_metadata_sha256 = g\<rparr>"
      using accepted_seen [OF digests accepted(2,3)] accepted(4) by simp
    have "seen o' fs = map_get st (uo_channel o')" using accepted(2) by (simp add: seen_def)
    then show ?thesis using accepted_release(6) [OF accepted(3)] now by (fastforce simp: step not_behind_def)
  qed
qed

text \<open>Checks in any number, with whatever the network answers; the rollback record is written by others in between.\<close>

inductive update_step :: "update_host \<Rightarrow> ClientUpdateVerifierOptions \<Rightarrow> update_files \<Rightarrow> update_files \<Rightarrow> bool" for h o' where
  checked: "check_update h o' response fs = (fs', r) \<Longrightarrow> update_step h o' fs fs'"
| rollback_noted: "update_step h o' fs (fs\<lparr>uf_rollback := record\<rparr>)"

definition digests_ok :: "update_host \<Rightarrow> bool" where
  "digests_ok h \<longleftrightarrow> (\<forall>s. all_within is_hex 64 64 (sha256 (uh_env h) s))"

lemma update_step_not_behind: "update_step h o' fs fs' \<Longrightarrow> digests_ok h \<Longrightarrow> not_behind o' fs fs'"
proof (induction rule: update_step.induct)
  case (checked response fs fs' r)
  then show ?case using check_not_behind [of h o' fs response] by (simp add: digests_ok_def)
qed (simp add: not_behind_def seen_def)

interpretation updates: step_monotone "update_step h o'" "\<lambda>_. digests_ok h" "not_behind o'"
  by unfold_locales (auto intro: update_step_not_behind not_behind_trans simp: not_behind_def [of o' s s for o' s])


text \<open>
  C38: an offered update is one to install. The release was signed by a preset key over its canonical manifest, is for this channel and
  platform, is not behind what the client has seen, is not the version it rolled back from, has an active rollout that includes this
  device, and is newer than the running version; its address is on the cloud's origin and names its version.
\<close>

theorem update_offer_sound:
  assumes "check_update h o' response fs = (fs', Some u)" and "tu_action u = UpdateAvailable"
  shows "\<exists>d k payload. tu_metadata u = Some d \<and> map_get (uo_trustedKeys o') (sm_signature_key_id d) = Some k \<and>
    clientUpdateSignaturePayload (uh_env h) (sm_manifest d) = Some payload \<and> uh_verify h payload k (sm_signature d) \<and>
    manifest_valid (sm_manifest d) \<and> for_this_client o' (sm_manifest d) \<and>
    (\<forall>x. seen o' fs = Some x \<longrightarrow> ue_sequence x \<le> mf_sequence (sm_manifest d)) \<and>
    blockedRollbackVersion (uh_env h) (uf_rollback fs) \<noteq> Some (Some (mf_version (sm_manifest d))) \<and>
    ro_status (mf_rollout (sm_manifest d)) = ''active'' \<and>
    isClientUpdateRolloutEligible (uh_env h) (mf_rollout (sm_manifest d)) (uo_rolloutIdentity o') = Some True \<and>
    compareClientVersions (mf_version (sm_manifest d)) (uo_currentVersion o') = Some 1 \<and>
    tu_artifactUrl u = Some (uo_origin o' @ ''/downloads/'' @ setup_name (mf_version (sm_manifest d)))"
  using assms(1)
proof (cases rule: check_cases)
  case same
  then show ?thesis using assms by (auto simp: check_update_def Let_def offer_def split: if_splits option.splits bind_splits)
next
  case (accepted release st d g st')
  note a = accepted_release [OF accepted(3)]
  have order: "compare_version_parts xs ys \<in> {- 1, 0, 1}" for xs ys
    by (induction xs ys rule: compare_version_parts.induct) auto
  have "tu_metadata u = Some d \<and> tu_artifactUrl u = Some (uo_origin o' @ mf_url_path (sm_manifest d)) \<and>
      blockedRollbackVersion (uh_env h) (uf_rollback fs) \<noteq> Some (Some (mf_version (sm_manifest d))) \<and>
      ro_status (mf_rollout (sm_manifest d)) \<noteq> ''paused'' \<and>
      isClientUpdateRolloutEligible (uh_env h) (mf_rollout (sm_manifest d)) (uo_rolloutIdentity o') = Some True \<and>
      (\<exists>n. compareClientVersions (mf_version (sm_manifest d)) (uo_currentVersion o') = Some n \<and> 0 < n)"
    using accepted(5) assms(2) by (auto simp: offer_def Let_def split: bind_splits if_splits)
  moreover have "compareClientVersions x y = Some n \<Longrightarrow> 0 < n \<Longrightarrow> n = 1" for x y n
    using order [of "map read_nat (split_on CHR ''.'' x)" "map read_nat (split_on CHR ''.'' y)"]
    by (auto simp: compareClientVersions_def split: if_splits)
  moreover have "seen o' fs = Some x \<Longrightarrow> ue_sequence x \<le> mf_sequence (sm_manifest d)" for x
    using a(6) [of x] accepted(2) by (auto simp: seen_def)
  ultimately show ?thesis using a(1,2) by (auto simp: verified manifest_valid_def rollout_valid_def)
qed

text \<open>Raising the share of a rollout keeps every device that was in it.\<close>

lemma rollout_widens:
  assumes "isClientUpdateRolloutEligible e r i = Some True" and "ro_basis_points r \<le> n" "n \<le> 10000"
  shows "isClientUpdateRolloutEligible e (r\<lparr>ro_basis_points := n\<rparr>) i = Some True"
  using assms by (auto simp: isClientUpdateRolloutEligible_def require_def rollout_valid_def split: if_splits bind_splits)


subsection \<open>One update\<close>

definition sample_update_manifest :: ClientUpdateManifest where
  "sample_update_manifest =
    \<lparr>mf_schema_version = CLIENT_UPDATE_SCHEMA, mf_product_surface = CLIENT_UPDATE_PRODUCT_SURFACE, mf_sequence = 7, mf_version = ''1.1.0'',
     mf_channel = ''stable'', mf_platform = ''win32'', mf_arch = ''x64'', mf_filename = ''LongHub-Manager-Setup-1.1.0.exe'', mf_size = 10,
     mf_sha256 = replicate 64 CHR ''0'', mf_url_path = ''/downloads/LongHub-Manager-Setup-1.1.0.exe'', mf_published_at = ''2026-01-01T00:00:00Z'',
     mf_rollback_data_strategy = ''snapshot_required'',
     mf_rollout = \<lparr>ro_status = ''active'', ro_basis_points = 10000, ro_seed = replicate 64 CHR ''0'', ro_updated_at = ''2026-01-01T00:00:00Z''\<rparr>\<rparr>"

definition sample_metadata :: SignedClientUpdateMetadata where
  "sample_metadata = \<lparr>sm_manifest = sample_update_manifest, sm_signature_key_id = ''k1'', sm_signature = ''s''\<rparr>"

definition sample_update_host :: update_host where
  "sample_update_host = \<lparr>uh_env = sample_env\<lparr>sha256 := \<lambda>_. replicate 64 CHR ''0''\<rparr>, uh_schema = (\<lambda>_. Some sample_metadata), uh_verify = (\<lambda>_ _ _. True)\<rparr>"

definition sample_verifier :: ClientUpdateVerifierOptions where
  "sample_verifier = \<lparr>uo_origin = ''https://cloud'', uo_currentVersion = ''1.0.0'', uo_channel = ''stable'', uo_rolloutIdentity = ''device-1'',
     uo_trustedKeys = [(''k1'', ''key'')]\<rparr>"

definition sample_files :: "UpdateState \<Rightarrow> update_files" where
  "sample_files st = \<lparr>uf_state = (if st = [] then None else saveState st), uf_rollback = None\<rparr>"

definition sample_body :: js_value where
  "sample_body = Obj [(''release'', Str ''r'')]"

definition sample_seen :: UpdateState where
  "sample_seen = [(''stable'', \<lparr>ue_sequence = 7, ue_metadata_sha256 = replicate 64 CHR ''0''\<rparr>)]"

definition sample_offer :: TrustedClientUpdate where
  "sample_offer = \<lparr>tu_action = UpdateAvailable, tu_metadata = Some sample_metadata,
     tu_artifactUrl = Some ''https://cloud/downloads/LongHub-Manager-Setup-1.1.0.exe''\<rparr>"

lemmas update_char_defs = all_within_def is_hex_def is_digit_def is_lower_def is_upper_def is_alnum_def char_in_def list_all_iff

lemma sample_manifest_valid: "manifest_valid sample_update_manifest"
  by (simp add: manifest_valid_def sample_update_manifest_def rollout_valid_def version_ok_def version_part_def setup_name_def maxSafeInteger_def
      update_char_defs)

lemma sample_accepted:
  "st = [] \<or> st = sample_seen \<Longrightarrow>
    accept_release sample_update_host sample_verifier (Str ''r'') st = Some (sample_metadata, replicate 64 CHR ''0'', sample_seen)"
proof -
  obtain payload where "clientUpdateSignaturePayload (uh_env sample_update_host) sample_update_manifest = Some payload"
    by (simp add: clientUpdateSignaturePayload_def canonicalStringify_def manifest_value_def rollout_value_def)
  then have "verifyClientUpdateMetadata sample_update_host (uo_trustedKeys sample_verifier) (Str ''r'') = Some sample_metadata"
    using sample_manifest_valid by (simp add: verified sample_update_host_def sample_metadata_def sample_verifier_def)
  moreover have "for_this_client sample_verifier (sm_manifest sample_metadata)"
    by (simp add: for_this_client_def sample_verifier_def sample_metadata_def sample_update_manifest_def)
  moreover have "metadataSha256 sample_update_host (Str ''r'') = Some (replicate 64 CHR ''0'')"
    by (simp add: metadataSha256_def canonicalStringify_def sample_update_host_def)
  moreover have "uo_channel sample_verifier = ''stable''" "mf_sequence (sm_manifest sample_metadata) = 7"
    by (simp_all add: sample_verifier_def sample_metadata_def sample_update_manifest_def)
  ultimately show "st = [] \<or> st = sample_seen \<Longrightarrow> accept_release sample_update_host sample_verifier (Str ''r'') st =
      Some (sample_metadata, replicate 64 CHR ''0'', sample_seen)"
    by (auto simp: accept_release_def require_def Let_def sample_seen_def)
qed

lemma sample_offered: "offer sample_update_host sample_verifier None sample_metadata = Some sample_offer"
  by (simp add: offer_def Let_def blockedRollbackVersion_def sample_metadata_def sample_update_manifest_def sample_verifier_def
      isClientUpdateRolloutEligible_def require_def rollout_valid_def identity_ok_def compareClientVersions_def version_ok_def version_part_def
      read_nat_def digit_value_def sample_offer_def update_char_defs)

lemma sample_checked:
  "st = [] \<or> st = sample_seen \<Longrightarrow>
    check_update sample_update_host sample_verifier (Some sample_body) (sample_files st) = (sample_files sample_seen, Some sample_offer)"
proof -
  have release: "release_of sample_body = Some (Str ''r'')"
    by (simp add: release_of_def sample_body_def require_def joined_keys_def js_sort_def field_def)
  have "state_ok sample_seen" by (simp add: state_ok_def sample_seen_def entry_ok_def maxSafeInteger_def update_char_defs)
  then have loaded: "st = [] \<or> st = sample_seen \<Longrightarrow> loadState (uf_state (sample_files st)) = Some st"
    by (auto simp: sample_files_def loadState_saved sample_seen_def) (simp add: loadState_def)
  assume "st = [] \<or> st = sample_seen"
  then show ?thesis
    using release loaded sample_accepted [of st] sample_offered
    by (auto simp: check_update_def Let_def) (simp_all add: sample_verifier_def sample_files_def sample_seen_def)
qed

lemma sample_digests: "all_within is_hex 64 64 (sha256 (uh_env sample_update_host) s)"
  by (simp add: sample_update_host_def update_char_defs)


theorem update_offer_sound_witness:
  "check_update sample_update_host sample_verifier (Some sample_body) (sample_files []) = (sample_files sample_seen, Some sample_offer) \<and>
   compareClientVersions ''1.1.0'' ''1.0.0'' = Some 1"
proof
  show "compareClientVersions ''1.1.0'' ''1.0.0'' = Some 1"
  proof -
    have "tu_action sample_offer = UpdateAvailable" by (simp add: sample_offer_def)
    with update_offer_sound [OF sample_checked [of "[]"]] obtain d where "tu_metadata sample_offer = Some d"
      "compareClientVersions (mf_version (sm_manifest d)) (uo_currentVersion sample_verifier) = Some 1" by blast
    moreover from this have "d = sample_metadata" by (simp add: sample_offer_def)
    ultimately show ?thesis by (simp add: sample_metadata_def sample_update_manifest_def sample_verifier_def)
  qed
qed (simp add: sample_checked)

end
