(* ===== verification/Update_Recovery.thy ===== *)
theory Update_Recovery
  imports Client_Update
begin

text \<open>
  The recovery of client updates (\<^verbatim>\<open>apps/longhub-desktop/src/client-update-coordinator.ts\<close>): the snapshot taken before an
  installation, the pending record, the rollback that restores the snapshot, and the coordinator that leads to an installation. The disk
  is a record of what the store reads and writes; a path is the name under its root, which is what the containment checks of the source
  establish; the JSON files the program writes are the records they hold, and \<open>Damaged\<close> is any other content. A rollback that is
  interrupted leaves one of the disks it passed through: \<open>prepareRollback\<close> lists them before its result. The lemmas show that after any
  number of interrupted rollbacks, starts and whatever the new version did to the data, a completed rollback restores every entry.
\<close>

subsection \<open>Files\<close>

datatype tree = FileNode string | DirNode "(string \<times> tree) list" | LinkNode | OtherNode

definition MAX_SNAPSHOT_BYTES :: nat where "MAX_SNAPSHOT_BYTES = 4 * 1024 * 1024 * 1024"
definition MAX_SNAPSHOT_FILES :: nat where "MAX_SNAPSHOT_FILES = 200000"

text \<open>The copy of a tree with the budget after it; links and special files are refused.\<close>

fun copySnapshotEntry :: "tree \<Rightarrow> nat \<times> nat \<Rightarrow> (tree \<times> nat \<times> nat) option"
  and copy_children :: "(string \<times> tree) list \<Rightarrow> nat \<times> nat \<Rightarrow> ((string \<times> tree) list \<times> nat \<times> nat) option" where
  "copySnapshotEntry LinkNode budget = None"
| "copySnapshotEntry OtherNode budget = None"
| "copySnapshotEntry (FileNode content) budget =
    (let bytes = fst budget + length content; files = snd budget + 1 in
     if MAX_SNAPSHOT_BYTES < bytes \<or> MAX_SNAPSHOT_FILES < files then None else Some (FileNode content, bytes, files))"
| "copySnapshotEntry (DirNode cs) budget =
    (case copy_children cs budget of None \<Rightarrow> None | Some (cs', b) \<Rightarrow> Some (DirNode cs', b))"
| "copy_children [] budget = Some ([], budget)"
| "copy_children ((n, t) # cs) budget =
    (case copySnapshotEntry t budget of
       None \<Rightarrow> None
     | Some (t', b) \<Rightarrow> (case copy_children cs b of None \<Rightarrow> None | Some (cs', b') \<Rightarrow> Some ((n, t') # cs', b')))"

definition SNAPSHOT_ENTRIES :: "string list" where
  "SNAPSHOT_ENTRIES =
    [''openclaw'', ''packs'', ''agent-registry.json'', ''trusted-keys.json'', ''device.json'', ''client-update-state.json'']"

text \<open>An installer in the trusted inventory, by version and file name, or anywhere else.\<close>

datatype installer_path = Stored (path_dir: string) (path_file: string) | Downloaded (path_dir: string) (path_file: string)

datatype update_phase = InstallingUpdate | RollbackLaunched

record PendingClientUpdate =
  pn_previous_version :: string
  pn_target_version :: string
  pn_target_metadata :: SignedClientUpdateMetadata
  pn_target_installer_path :: installer_path
  pn_rollback_metadata :: SignedClientUpdateMetadata
  pn_rollback_installer_path :: installer_path
  pn_snapshot_path :: string
  pn_attempts :: int
  pn_phase :: update_phase
  pn_reason :: "string option"
  pn_failed_state_path :: "string option"
  pn_created_at :: string
  pn_rollback_launched_at :: "string option"

record snapshot_manifest =
  ss_previous_version :: string
  ss_target_version :: string
  ss_sequence :: int
  ss_created_at :: string
  ss_entries :: "string list"
  ss_files :: nat
  ss_bytes :: nat

record update_snapshot =
  us_manifest :: "snapshot_manifest option"
  us_saved :: "(string, tree) js_map"
  us_mtime :: int

record rollback_record =
  rr_previous_version :: string
  rr_target_version :: string
  rr_sequence :: int
  rr_attempts :: int
  rr_reason :: string
  rr_rolled_back_at :: string
  rr_failed_state_path :: string
  rr_snapshot_path :: string

record success_record =
  sr_previous_version :: string
  sr_target_version :: string
  sr_sequence :: int
  sr_attempts :: int
  sr_healthy_at :: string
  sr_snapshot_path :: string
  sr_installer_path :: installer_path

datatype pending_file = Readable PendingClientUpdate | Damaged

record update_disk =
  ud_active :: "(string, tree) js_map"
  ud_pending :: "pending_file option"
  ud_snapshots :: "(string, update_snapshot) js_map"
  ud_failed :: "(string, (string, tree) js_map) js_map"
  ud_installers :: "installer_path list"
  ud_last_rollback :: "rollback_record option"
  ud_last_success :: "success_record option"

definition validInstallerReference :: "installer_path \<Rightarrow> string \<Rightarrow> bool" where
  "validInstallerReference p version \<longleftrightarrow> path_file p = setup_name version"

definition validInstallerPath :: "update_disk \<Rightarrow> installer_path \<Rightarrow> string \<Rightarrow> bool" where
  "validInstallerPath d p version \<longleftrightarrow> path_file p = setup_name version \<and> p \<in> set (ud_installers d)"

fun is_stored :: "installer_path \<Rightarrow> bool" where
  "is_stored (Stored _ _) = True"
| "is_stored (Downloaded _ _) = False"

definition pending_valid :: "js_env \<Rightarrow> update_disk \<Rightarrow> PendingClientUpdate \<Rightarrow> bool" where
  "pending_valid e d p \<longleftrightarrow>
    manifest_valid (sm_manifest (pn_target_metadata p)) \<and> manifest_valid (sm_manifest (pn_rollback_metadata p)) \<and>
    mf_version (sm_manifest (pn_target_metadata p)) = pn_target_version p \<and>
    mf_version (sm_manifest (pn_rollback_metadata p)) = pn_previous_version p \<and>
    validInstallerReference (pn_target_installer_path p) (pn_target_version p) \<and>
    validInstallerPath d (pn_rollback_installer_path p) (pn_previous_version p) \<and> is_stored (pn_rollback_installer_path p) \<and>
    0 \<le> pn_attempts p \<and> pn_attempts p \<le> maxSafeInteger \<and> date_parse e (pn_created_at p) \<noteq> None \<and>
    (case pn_rollback_launched_at p of None \<Rightarrow> True | Some s \<Rightarrow> date_parse e s \<noteq> None)"

text \<open>\<open>None\<close> is the thrown error.\<close>

definition readPending :: "js_env \<Rightarrow> update_disk \<Rightarrow> PendingClientUpdate option option" where
  "readPending e d =
    (case ud_pending d of
       None \<Rightarrow> Some None
     | Some Damaged \<Rightarrow> None
     | Some (Readable p) \<Rightarrow> if pending_valid e d p then Some (Some p) else None)"

definition readSnapshot :: "update_disk \<Rightarrow> PendingClientUpdate \<Rightarrow> (update_snapshot \<times> string list) option" where
  "readSnapshot d p = do {
     s \<leftarrow> map_get (ud_snapshots d) (pn_snapshot_path p);
     m \<leftarrow> us_manifest s;
     require (ss_previous_version m = pn_previous_version p \<and> ss_target_version m = pn_target_version p \<and>
       ss_sequence m = mf_sequence (sm_manifest (pn_target_metadata p)) \<and> distinct (ss_entries m) \<and>
       set (ss_entries m) \<subseteq> set SNAPSHOT_ENTRIES);
     Some (s, ss_entries m)
   }"

subsection \<open>Before the installation\<close>

fun copy_entries :: "string list \<Rightarrow> (string, tree) js_map \<Rightarrow> nat \<times> nat \<Rightarrow> ((string, tree) js_map \<times> nat \<times> nat) option" where
  "copy_entries [] active budget = Some ([], budget)"
| "copy_entries (n # ns) active budget =
    (case map_get active n of
       None \<Rightarrow> copy_entries ns active budget
     | Some t \<Rightarrow>
         (case copySnapshotEntry t budget of
            None \<Rightarrow> None
          | Some (t', b) \<Rightarrow> (case copy_entries ns active b of None \<Rightarrow> None | Some (saved, b') \<Rightarrow> Some ((n, t') # saved, b'))))"

definition createPending ::
  "js_env \<Rightarrow> string \<Rightarrow> SignedClientUpdateMetadata \<Rightarrow> installer_path \<Rightarrow> SignedClientUpdateMetadata \<Rightarrow> installer_path \<Rightarrow> update_disk \<Rightarrow>
    update_disk \<times> PendingClientUpdate option" where
  "createPending e currentVersion target targetInstaller rollback rollbackInstaller d =
    (let tm = sm_manifest target; rm = sm_manifest rollback in
     if ud_pending d \<noteq> None \<or> \<not> manifest_valid tm \<or> \<not> manifest_valid rm \<or>
       mf_version tm = currentVersion \<or> mf_version rm \<noteq> currentVersion \<or> mf_channel tm \<noteq> mf_channel rm \<or>
       \<not> validInstallerPath d targetInstaller (mf_version tm) \<or>
       \<not> validInstallerPath d rollbackInstaller currentVersion \<or> \<not> is_stored rollbackInstaller
     then (d, None)
     else case copy_entries SNAPSHOT_ENTRIES (ud_active d) (0, 0) of
       None \<Rightarrow> (d, None)
     | Some (saved, bytes, files) \<Rightarrow>
         let name = show_int (mf_sequence tm) @ ''-'' @ mf_version tm @ ''-'' @ uuid e 0;
             snapshot = \<lparr>us_manifest = Some \<lparr>ss_previous_version = currentVersion, ss_target_version = mf_version tm,
                 ss_sequence = mf_sequence tm, ss_created_at = toISOString (clock e 0), ss_entries = map fst saved,
                 ss_files = files, ss_bytes = bytes\<rparr>, us_saved = saved, us_mtime = clock e 0\<rparr>;
             pending = \<lparr>pn_previous_version = currentVersion, pn_target_version = mf_version tm, pn_target_metadata = target,
               pn_target_installer_path = targetInstaller, pn_rollback_metadata = rollback, pn_rollback_installer_path = rollbackInstaller,
               pn_snapshot_path = name, pn_attempts = 0, pn_phase = InstallingUpdate, pn_reason = None, pn_failed_state_path = None,
               pn_created_at = toISOString (clock e 1), pn_rollback_launched_at = None\<rparr> in
         (d\<lparr>ud_snapshots := map_set name snapshot (ud_snapshots d), ud_pending := Some (Readable pending)\<rparr>, Some pending))"

subsection \<open>Starting\<close>

text \<open>Newest first; the ones without a manifest are not counted and not touched.\<close>

definition pruneSnapshots :: "nat \<Rightarrow> (string, update_snapshot) js_map \<Rightarrow> (string, update_snapshot) js_map" where
  "pruneSnapshots keep snapshots =
    (let complete = js_sort (\<lambda>a b. us_mtime (snd b) - us_mtime (snd a)) (filter (\<lambda>(_, s). us_manifest s \<noteq> None) snapshots);
         doomed = map fst (drop keep complete) in
     filter (\<lambda>(n, _). n \<notin> set doomed) snapshots)"

definition pruneInstallers :: "string set \<Rightarrow> installer_path list \<Rightarrow> installer_path list" where
  "pruneInstallers keepVersions ps = filter (\<lambda>p. is_stored p \<longrightarrow> path_dir p \<in> keepVersions) ps"

record ClientUpdateStartupState =
  st_pending :: bool
  st_attempts :: int
  st_targetVersion :: "string option"
  st_phase :: "update_phase option"
  st_shouldRollback :: bool
  st_rollbackCompleted :: bool

definition rolled_back :: "js_env \<Rightarrow> PendingClientUpdate \<Rightarrow> update_disk \<Rightarrow> update_disk" where
  "rolled_back e p d = d\<lparr>
     ud_last_rollback := Some \<lparr>rr_previous_version = pn_previous_version p, rr_target_version = pn_target_version p,
       rr_sequence = mf_sequence (sm_manifest (pn_target_metadata p)), rr_attempts = pn_attempts p,
       rr_reason = (case pn_reason p of None \<Rightarrow> ''startup_failure'' | Some r \<Rightarrow> r), rr_rolled_back_at = toISOString (clock e 0),
       rr_failed_state_path = (case pn_failed_state_path p of None \<Rightarrow> [] | Some f \<Rightarrow> f), rr_snapshot_path = pn_snapshot_path p\<rparr>,
     ud_pending := None, ud_snapshots := pruneSnapshots 2 (ud_snapshots d),
     ud_installers := pruneInstallers {pn_previous_version p} (ud_installers d)\<rparr>"

definition beginStartup :: "js_env \<Rightarrow> string \<Rightarrow> int \<Rightarrow> update_disk \<Rightarrow> update_disk \<times> ClientUpdateStartupState option" where
  "beginStartup e currentVersion maxAttempts d =
    (case readPending e d of
       None \<Rightarrow> (d, None)
     | Some None \<Rightarrow> (d, Some \<lparr>st_pending = False, st_attempts = 0, st_targetVersion = None, st_phase = None, st_shouldRollback = False,
         st_rollbackCompleted = False\<rparr>)
     | Some (Some p) \<Rightarrow>
         if pn_phase p = RollbackLaunched \<and> pn_previous_version p = currentVersion
         then (rolled_back e p d, Some \<lparr>st_pending = False, st_attempts = pn_attempts p, st_targetVersion = None, st_phase = None,
           st_shouldRollback = False, st_rollbackCompleted = True\<rparr>)
         else
           let p' = (if pn_target_version p = currentVersion then p\<lparr>pn_attempts := pn_attempts p + 1\<rparr> else p);
               d' = (if pn_target_version p = currentVersion then d\<lparr>ud_pending := Some (Readable p')\<rparr> else d) in
           (d', Some \<lparr>st_pending = True, st_attempts = pn_attempts p', st_targetVersion = Some (pn_target_version p), st_phase = Some (pn_phase p),
             st_shouldRollback = (pn_target_version p = currentVersion \<and> (pn_phase p = RollbackLaunched \<or> maxAttempts \<le> pn_attempts p')),
             st_rollbackCompleted = False\<rparr>))"

definition cancelPending :: "js_env \<Rightarrow> update_disk \<Rightarrow> update_disk option" where
  "cancelPending e d =
    (case readPending e d of
       None \<Rightarrow> None
     | Some None \<Rightarrow> Some (d\<lparr>ud_pending := None\<rparr>)
     | Some (Some p) \<Rightarrow> Some (d\<lparr>ud_pending := None, ud_snapshots := map_delete (pn_snapshot_path p) (ud_snapshots d)\<rparr>))"

text \<open>The target installer is linked into the inventory under its version.\<close>

definition retainInstaller :: "installer_path \<Rightarrow> SignedClientUpdateMetadata \<Rightarrow> update_disk \<Rightarrow> (update_disk \<times> installer_path) option" where
  "retainInstaller source metadata d =
    (let m = sm_manifest metadata; target = Stored (mf_version m) (mf_filename m) in
     if \<not> validInstallerPath d source (mf_version m) \<or> \<not> three_numbers (mf_version m) then None
     else
       let d' = (if target \<in> set (ud_installers d) then d else d\<lparr>ud_installers := ud_installers d @ [target]\<rparr>) in
       if validInstallerPath d' target (mf_version m) then Some (d', target) else None)"

definition markHealthy :: "js_env \<Rightarrow> string \<Rightarrow> update_disk \<Rightarrow> update_disk option" where
  "markHealthy e currentVersion d =
    (case readPending e d of
       None \<Rightarrow> None
     | Some None \<Rightarrow> Some d
     | Some (Some p) \<Rightarrow>
         if pn_phase p \<noteq> InstallingUpdate \<or> pn_target_version p \<noteq> currentVersion then Some d
         else (case retainInstaller (pn_target_installer_path p) (pn_target_metadata p) d of
           None \<Rightarrow> None
         | Some (d', retained) \<Rightarrow>
             Some (d'\<lparr>ud_last_success := Some \<lparr>sr_previous_version = pn_previous_version p, sr_target_version = pn_target_version p,
                 sr_sequence = mf_sequence (sm_manifest (pn_target_metadata p)), sr_attempts = pn_attempts p,
                 sr_healthy_at = toISOString (clock e 0), sr_snapshot_path = pn_snapshot_path p, sr_installer_path = retained\<rparr>,
               ud_pending := None, ud_snapshots := pruneSnapshots 2 (ud_snapshots d'),
               ud_installers := pruneInstallers {pn_previous_version p, pn_target_version p} (ud_installers d')\<rparr>)))"

subsection \<open>Rolling back\<close>

text \<open>The disks an operation passes through, and its result.\<close>

type_synonym passage = "update_disk list \<times> update_disk option"

definition passage_then :: "passage \<Rightarrow> (update_disk \<Rightarrow> passage) \<Rightarrow> passage" where
  "passage_then r f = (case snd r of None \<Rightarrow> r | Some d \<Rightarrow> (fst r @ fst (f d), snd (f d)))"

definition write_pending :: "PendingClientUpdate \<Rightarrow> update_disk \<Rightarrow> update_disk" where
  "write_pending p d = d\<lparr>ud_pending := Some (Readable p)\<rparr>"

definition failed_entries :: "update_disk \<Rightarrow> string \<Rightarrow> (string, tree) js_map" where
  "failed_entries d failed = (case map_get (ud_failed d) failed of None \<Rightarrow> [] | Some m \<Rightarrow> m)"

definition set_active :: "string \<Rightarrow> tree \<Rightarrow> update_disk \<Rightarrow> update_disk" where
  "set_active n t d = d\<lparr>ud_active := map_set n t (ud_active d)\<rparr>"

definition drop_active :: "string \<Rightarrow> update_disk \<Rightarrow> update_disk" where
  "drop_active n d = d\<lparr>ud_active := map_delete n (ud_active d)\<rparr>"

text \<open>
  The state of the failed version is moved away the first time; later, whatever is in its place is removed, and \<open>torn\<close> is what an
  interrupted removal leaves of it.
\<close>

definition clear_entry :: "(tree \<Rightarrow> tree) \<Rightarrow> string \<Rightarrow> string \<Rightarrow> update_disk \<Rightarrow> passage" where
  "clear_entry torn failed n d =
    (case map_get (ud_active d) n of
       None \<Rightarrow> ([], Some d)
     | Some t \<Rightarrow>
         if t = LinkNode then ([], None)
         else if map_get (failed_entries d failed) n = None then
           let d' = drop_active n (d\<lparr>ud_failed := map_set failed (map_set n t (failed_entries d failed)) (ud_failed d)\<rparr>) in ([d'], Some d')
         else ([set_active n (torn t) d, drop_active n d], Some (drop_active n d)))"

text \<open>The copy is made beside the entry and renamed into its place.\<close>

definition restore_entry :: "update_snapshot \<Rightarrow> string list \<Rightarrow> string \<Rightarrow> update_disk \<Rightarrow> passage" where
  "restore_entry s entries n d =
    (if n \<notin> set entries then ([], Some d)
     else case map_get (us_saved s) n of
       None \<Rightarrow> ([], None)
     | Some saved \<Rightarrow>
         (case copySnapshotEntry saved (0, 0) of
            None \<Rightarrow> ([], None)
          | Some (t, _) \<Rightarrow> ([set_active n t d], Some (set_active n t d))))"

fun rollback_entries :: "(tree \<Rightarrow> tree) \<Rightarrow> string \<Rightarrow> update_snapshot \<Rightarrow> string list \<Rightarrow> string list \<Rightarrow> update_disk \<Rightarrow> passage" where
  "rollback_entries torn failed s entries [] d = ([], Some d)"
| "rollback_entries torn failed s entries (n # ns) d =
    passage_then (passage_then (clear_entry torn failed n d) (restore_entry s entries n)) (rollback_entries torn failed s entries ns)"

text \<open>Where the failed state goes is written down before anything is moved there.\<close>

definition failed_path :: "js_env \<Rightarrow> PendingClientUpdate \<Rightarrow> string" where
  "failed_path e p =
    (case pn_failed_state_path p of
       None \<Rightarrow> pn_target_version p @ ''-'' @ show_int (mf_sequence (sm_manifest (pn_target_metadata p))) @ ''-'' @ uuid e 0
     | Some f \<Rightarrow> f)"

definition with_failed_path :: "js_env \<Rightarrow> string \<Rightarrow> PendingClientUpdate \<Rightarrow> PendingClientUpdate" where
  "with_failed_path e reason p =
    (if pn_failed_state_path p = None then p\<lparr>pn_failed_state_path := Some (failed_path e p), pn_reason := Some reason\<rparr> else p)"

definition note_failure :: "js_env \<Rightarrow> string \<Rightarrow> PendingClientUpdate \<Rightarrow> update_disk \<Rightarrow> update_disk" where
  "note_failure e reason p d = (if pn_failed_state_path p = None then write_pending (with_failed_path e reason p) d else d)"

definition open_failed :: "string \<Rightarrow> update_disk \<Rightarrow> update_disk" where
  "open_failed failed d = d\<lparr>ud_failed := map_set failed (failed_entries d failed) (ud_failed d)\<rparr>"

definition launch_rollback :: "js_env \<Rightarrow> string \<Rightarrow> PendingClientUpdate \<Rightarrow> update_disk \<Rightarrow> update_disk" where
  "launch_rollback e reason p d =
    write_pending (p\<lparr>pn_phase := RollbackLaunched, pn_reason := Some reason, pn_rollback_launched_at := Some (toISOString (clock e 0))\<rparr>) d"

definition prepareRollback :: "js_env \<Rightarrow> (tree \<Rightarrow> tree) \<Rightarrow> string \<Rightarrow> update_disk \<Rightarrow> passage" where
  "prepareRollback e torn reason d =
    (case readPending e d of
       Some (Some p) \<Rightarrow>
         let p1 = with_failed_path e reason p; d1 = note_failure e reason p d; d2 = open_failed (failed_path e p) d1 in
         passage_then ([d1, d2], Some d2) (\<lambda>d2.
           case readSnapshot d2 p1 of
             None \<Rightarrow> ([], None)
           | Some (s, entries) \<Rightarrow>
               passage_then (rollback_entries torn (failed_path e p) s entries SNAPSHOT_ENTRIES d2)
                 (\<lambda>d3. ([launch_rollback e reason p1 d3], Some (launch_rollback e reason p1 d3))))
     | _ \<Rightarrow> ([], None))"

subsection \<open>Copies\<close>

text \<open>What the copy amounts to: the tree itself, if it has no links and stays within the budget.\<close>

fun plain_tree :: "tree \<Rightarrow> bool" and plain_children :: "(string \<times> tree) list \<Rightarrow> bool" where
  "plain_tree (FileNode c) = True"
| "plain_tree (DirNode cs) = plain_children cs"
| "plain_tree _ = False"
| "plain_children [] = True"
| "plain_children ((n, t) # cs) = (plain_tree t \<and> plain_children cs)"

fun tree_cost :: "tree \<Rightarrow> nat \<times> nat" and children_cost :: "(string \<times> tree) list \<Rightarrow> nat \<times> nat" where
  "tree_cost (FileNode c) = (length c, 1)"
| "tree_cost (DirNode cs) = children_cost cs"
| "tree_cost _ = (0, 0)"
| "children_cost [] = (0, 0)"
| "children_cost ((n, t) # cs) = (fst (tree_cost t) + fst (children_cost cs), snd (tree_cost t) + snd (children_cost cs))"

definition within :: "nat \<times> nat \<Rightarrow> bool" where
  "within b \<longleftrightarrow> fst b \<le> MAX_SNAPSHOT_BYTES \<and> snd b \<le> MAX_SNAPSHOT_FILES"

lemma copy_is_identity:
  "within b \<Longrightarrow> copySnapshotEntry t b =
    (let b' = (fst b + fst (tree_cost t), snd b + snd (tree_cost t)) in if plain_tree t \<and> within b' then Some (t, b') else None)"
  "within b \<Longrightarrow> copy_children cs b =
    (let b' = (fst b + fst (children_cost cs), snd b + snd (children_cost cs)) in if plain_children cs \<and> within b' then Some (cs, b') else None)"
proof (induction t b and cs b rule: copySnapshotEntry_copy_children.induct)
  case (6 n t cs budget)
  show ?case
  proof (cases "plain_tree t \<and> within (fst budget + fst (tree_cost t), snd budget + snd (tree_cost t))")
    case True
    then have "copySnapshotEntry t budget = Some (t, fst budget + fst (tree_cost t), snd budget + snd (tree_cost t))"
      using 6 by (simp add: Let_def)
    then show ?thesis using 6(2) True by (simp add: Let_def add.assoc)
  next
    case False
    then have "copySnapshotEntry t budget = None" using 6 by (auto simp: Let_def)
    moreover have "\<not> (plain_children ((n, t) # cs) \<and>
        within (fst budget + fst (children_cost ((n, t) # cs)), snd budget + snd (children_cost ((n, t) # cs))))"
      using False by (auto simp: within_def)
    ultimately show ?thesis by (simp add: Let_def)
  qed
qed (auto simp: Let_def within_def)

lemma copied: "copySnapshotEntry t b = Some (t', b') \<Longrightarrow> within b \<Longrightarrow> t' = t \<and> within b'"
  by (auto simp: copy_is_identity Let_def split: if_splits)

lemma copied_again: "copySnapshotEntry t b = Some (t', b') \<Longrightarrow> within b \<Longrightarrow> \<exists>c. copySnapshotEntry t (0, 0) = Some (t, c)"
proof -
  have "within (0, 0)" by (simp add: within_def)
  then show "copySnapshotEntry t b = Some (t', b') \<Longrightarrow> within b \<Longrightarrow> \<exists>c. copySnapshotEntry t (0, 0) = Some (t, c)"
    by (auto simp: copy_is_identity Let_def within_def split: if_splits)
qed

lemma copy_entries_saved:
  assumes "copy_entries ns active b = Some (saved, b')" and "within b" and "distinct ns"
  shows "map fst saved = filter (\<lambda>n. map_get active n \<noteq> None) ns \<and>
    (\<forall>n. map_get saved n = (if n \<in> set ns then map_get active n else None)) \<and>
    (\<forall>n t. map_get saved n = Some t \<longrightarrow> (\<exists>c. copySnapshotEntry t (0, 0) = Some (t, c)))"
  using assms
proof (induction ns arbitrary: b saved)
  case (Cons m ns)
  show ?case
  proof (cases "map_get active m")
    case None
    then show ?thesis using Cons.IH [of b saved] Cons.prems by auto
  next
    case (Some t)
    then obtain t' b1 saved' where copy: "copySnapshotEntry t b = Some (t', b1)" and rest: "copy_entries ns active b1 = Some (saved', b')"
      and saved: "saved = (m, t') # saved'"
      using Cons.prems(1) by (auto split: option.splits)
    have "t' = t" "within b1" using copied [OF copy Cons.prems(2)] by auto
    then show ?thesis
      using Cons.IH [OF rest] Cons.prems(3) Some saved copied_again [OF copy Cons.prems(2)] by auto
  qed
qed auto

subsection \<open>Passages\<close>

definition passage_all :: "(update_disk \<Rightarrow> bool) \<Rightarrow> passage \<Rightarrow> bool" where
  "passage_all P r \<longleftrightarrow> (\<forall>d \<in> set (fst r). P d) \<and> (\<forall>d. snd r = Some d \<longrightarrow> P d)"

lemma passage_all_then:
  "passage_all P r \<Longrightarrow> (\<And>d. snd r = Some d \<Longrightarrow> P d \<Longrightarrow> passage_all P (f d)) \<Longrightarrow> passage_all P (passage_then r f)"
  by (fastforce simp: passage_all_def passage_then_def split: option.splits)

lemma passage_then_Some: "snd (passage_then r f) = Some d' \<longleftrightarrow> (\<exists>d. snd r = Some d \<and> snd (f d) = Some d')"
  by (auto simp: passage_then_def split: option.splits)

text \<open>The snapshots, the pending record and the installers stay as they are while entries are restored.\<close>

definition same_frame :: "update_disk \<Rightarrow> update_disk \<Rightarrow> bool" where
  "same_frame d d' \<longleftrightarrow> ud_snapshots d' = ud_snapshots d \<and> ud_pending d' = ud_pending d \<and> ud_installers d' = ud_installers d"

lemma entry_frame:
  "same_frame d0 d \<Longrightarrow> passage_all (same_frame d0) (clear_entry torn failed n d)"
  "same_frame d0 d \<Longrightarrow> passage_all (same_frame d0) (restore_entry s entries n d)"
  by (auto simp: passage_all_def same_frame_def clear_entry_def restore_entry_def drop_active_def set_active_def Let_def
      split: option.splits if_splits)

lemma rollback_entries_frame: "same_frame d0 d \<Longrightarrow> passage_all (same_frame d0) (rollback_entries torn failed s entries ns d)"
proof (induction ns arbitrary: d)
  case (Cons n ns)
  show ?case
    unfolding rollback_entries.simps by (intro passage_all_then entry_frame Cons)
qed (simp add: passage_all_def)

lemma cleared_entry:
  "snd (clear_entry torn failed n d) = Some d' \<Longrightarrow> map_get (ud_active d') m = (if m = n then None else map_get (ud_active d) m)"
  by (auto simp: clear_entry_def drop_active_def Let_def split: option.splits if_splits)

lemma within_zero: "within (0, 0)"
  by (simp add: within_def)

lemma restored_entry:
  "snd (restore_entry s entries n d) = Some d' \<Longrightarrow> map_get (ud_active d) n = None \<Longrightarrow>
    map_get (ud_active d') m = (if m = n then if n \<in> set entries then map_get (us_saved s) n else None else map_get (ud_active d) m)"
  using copied [OF _ within_zero] by (fastforce simp: restore_entry_def set_active_def split: option.splits if_splits)

lemma rollback_entries_active:
  assumes "snd (rollback_entries torn failed s entries ns d) = Some d'" and "distinct ns"
  shows "map_get (ud_active d') m =
    (if m \<in> set ns then if m \<in> set entries then map_get (us_saved s) m else None else map_get (ud_active d) m)"
  using assms
proof (induction ns arbitrary: d)
  case (Cons n ns)
  then obtain d1 d2 where steps: "snd (clear_entry torn failed n d) = Some d1" "snd (restore_entry s entries n d1) = Some d2"
    "snd (rollback_entries torn failed s entries ns d2) = Some d'"
    by (auto simp: passage_then_Some)
  show ?case
    using Cons.IH [OF steps(3)] Cons.prems(2) restored_entry [OF steps(2), of m] cleared_entry [OF steps(1)] by auto
qed simp

lemma rollback_entries_succeeds:
  assumes "\<forall>n \<in> set ns. map_get (ud_active d) n \<noteq> Some LinkNode" and "distinct ns"
    and "\<forall>n \<in> set entries. \<exists>t c. map_get (us_saved s) n = Some t \<and> copySnapshotEntry t (0, 0) = Some (t, c)"
  shows "\<exists>d'. snd (rollback_entries torn failed s entries ns d) = Some d'"
  using assms(1,2)
proof (induction ns arbitrary: d)
  case (Cons n ns)
  obtain d1 where cleared: "snd (clear_entry torn failed n d) = Some d1"
    using Cons.prems(1) by (cases "map_get (ud_active d) n"; cases "map_get (failed_entries d failed) n") (auto simp: clear_entry_def Let_def)
  obtain d2 where restored: "snd (restore_entry s entries n d1) = Some d2"
  proof (cases "n \<in> set entries")
    case True
    with assms(3) obtain t c where "map_get (us_saved s) n = Some t" "copySnapshotEntry t (0, 0) = Some (t, c)" by blast
    then show ?thesis using that True by (simp add: restore_entry_def)
  qed (simp add: restore_entry_def that)
  have "\<forall>m \<in> set ns. map_get (ud_active d2) m \<noteq> Some LinkNode"
    using Cons.prems restored_entry [OF restored] cleared_entry [OF cleared] by auto
  from Cons.IH [OF this] Cons.prems(2) cleared restored show ?case by (auto simp: passage_then_Some)
qed simp


subsection \<open>Interrupted rollbacks\<close>

text \<open>
  What may happen between the snapshot and a completed rollback: the versions write to the data, the program starts, is found healthy or the
  update is cancelled, and rollbacks are interrupted at any disk they pass through or refused half way.
\<close>

inductive recovery_step :: "update_disk \<Rightarrow> update_disk \<Rightarrow> bool" where
  activity: "recovery_step d (d\<lparr>ud_active := a\<rparr>)"
| started: "beginStartup e v n d = (d', r) \<Longrightarrow> recovery_step d d'"
| healthy: "markHealthy e v d = Some d' \<Longrightarrow> recovery_step d d'"
| cancelled: "cancelPending e d = Some d' \<Longrightarrow> recovery_step d d'"
| interrupted: "d' \<in> set (fst (prepareRollback e torn reason d)) \<Longrightarrow> recovery_step d d'"

text \<open>The update is over, or its record still names the snapshot and the installer it was created with.\<close>

definition same_update :: "PendingClientUpdate \<Rightarrow> PendingClientUpdate \<Rightarrow> bool" where
  "same_update p q \<longleftrightarrow> pn_snapshot_path q = pn_snapshot_path p \<and> pn_previous_version q = pn_previous_version p \<and>
    pn_target_version q = pn_target_version p \<and> pn_target_metadata q = pn_target_metadata p \<and>
    pn_rollback_installer_path q = pn_rollback_installer_path p"

definition recoverable :: "PendingClientUpdate \<Rightarrow> update_snapshot \<Rightarrow> update_disk \<Rightarrow> bool" where
  "recoverable p s d \<longleftrightarrow> ud_pending d = None \<or>
    (\<exists>q. ud_pending d = Some (Readable q) \<and> same_update p q \<and> map_get (ud_snapshots d) (pn_snapshot_path p) = Some s)"

lemma recoverable_frame: "recoverable p s d \<Longrightarrow> same_frame d d' \<Longrightarrow> recoverable p s d'"
  by (simp add: recoverable_def same_frame_def)

lemma read_recoverable:
  "readPending e d = Some (Some q) \<Longrightarrow> recoverable p s d \<Longrightarrow>
    ud_pending d = Some (Readable q) \<and> same_update p q \<and> map_get (ud_snapshots d) (pn_snapshot_path p) = Some s"
  by (auto simp: readPending_def recoverable_def split: option.splits pending_file.splits if_splits)

lemma write_recoverable:
  "map_get (ud_snapshots d) (pn_snapshot_path p) = Some s \<Longrightarrow> same_update p q \<Longrightarrow> recoverable p s (write_pending q d)"
  by (simp add: recoverable_def write_pending_def)

lemma prepareRollback_recoverable:
  assumes ok: "recoverable p s d"
  shows "passage_all (recoverable p s) (prepareRollback e torn reason d)"
proof (cases "\<exists>q. readPending e d = Some (Some q)")
  case False
  then show ?thesis by (auto simp: prepareRollback_def passage_all_def split: option.splits)
next
  case True
  then obtain q where q: "readPending e d = Some (Some q)" by blast
  note here = read_recoverable [OF q ok]
  let ?d2 = "open_failed (failed_path e q) (note_failure e reason q d)"
  have same: "same_update p (with_failed_path e reason q)" using here by (simp add: with_failed_path_def same_update_def)
  have d1: "recoverable p s (note_failure e reason q d)" using ok here same by (simp add: note_failure_def write_recoverable)
  have d2: "recoverable p s ?d2" using recoverable_frame [OF d1] by (simp add: open_failed_def same_frame_def)
  have snap: "map_get (ud_snapshots ?d2) (pn_snapshot_path p) = Some s"
    using here by (simp add: open_failed_def note_failure_def write_pending_def)
  have launched: "recoverable p s (launch_rollback e reason (with_failed_path e reason q) d3)" if "same_frame ?d2 d3" for d3
    using snap same that by (auto simp: launch_rollback_def same_frame_def same_update_def intro!: write_recoverable)
  have frame: "passage_all (same_frame ?d2) (rollback_entries torn f t es SNAPSHOT_ENTRIES ?d2)" for f t es
    by (rule rollback_entries_frame) (simp add: same_frame_def)
  have entries: "passage_all (recoverable p s) (passage_then (rollback_entries torn f t es SNAPSHOT_ENTRIES ?d2)
      (\<lambda>d3. ([launch_rollback e reason (with_failed_path e reason q) d3], Some (launch_rollback e reason (with_failed_path e reason q) d3))))"
    for f t es
  proof (rule passage_all_then)
    show "passage_all (recoverable p s) (rollback_entries torn f t es SNAPSHOT_ENTRIES ?d2)"
      using frame [of f t es] recoverable_frame [OF d2] unfolding passage_all_def by blast
  qed (use frame [of f t es] launched in \<open>simp add: passage_all_def\<close>)
  have "passage_all (recoverable p s) ([note_failure e reason q d, ?d2], Some ?d2)" using d1 d2 by (simp add: passage_all_def)
  then show ?thesis
    unfolding prepareRollback_def q Let_def option.case
    by (rule passage_all_then) (auto simp: entries passage_all_def [of _ "([], None)"] split: option.split)
qed

lemma recovery_step_recoverable: "recovery_step d d' \<Longrightarrow> recoverable p s d \<Longrightarrow> recoverable p s d'"
proof (induction rule: recovery_step.induct)
  case (activity d a)
  then show ?case by (simp add: recoverable_def)
next
  case (started e v n d d' r)
  show ?case
  proof (cases "\<exists>q. readPending e d = Some (Some q)")
    case True
    then obtain q where q: "readPending e d = Some (Some q)" by blast
    show ?thesis
      using started read_recoverable [OF q started(2)]
      by (auto simp: beginStartup_def q Let_def rolled_back_def recoverable_def same_update_def split: if_splits)
  next
    case False
    then have "d' = d" using started(1) by (auto simp: beginStartup_def split: option.splits)
    then show ?thesis using started(2) by simp
  qed
next
  case (healthy e v d d')
  then have "d' = d \<or> ud_pending d' = None" by (auto simp: markHealthy_def split: option.splits if_splits)
  then show ?case using healthy(2) by (auto simp: recoverable_def)
next
  case (cancelled e d d')
  then have "ud_pending d' = None" by (auto simp: cancelPending_def split: option.splits)
  then show ?case by (simp add: recoverable_def)
next
  case (interrupted d' e torn reason d)
  then show ?case using prepareRollback_recoverable [OF interrupted(2), of e torn reason] by (simp add: passage_all_def)
qed

interpretation recovery: step_invariant recovery_step "recoverable p s"
  by unfold_locales (rule recovery_step_recoverable)


lemma created_snapshot:
  assumes "createPending e currentVersion target ti rollback ri d = (d1, Some p)"
  shows "\<exists>s m. recoverable p s d1 \<and> pn_rollback_installer_path p = ri \<and> us_manifest s = Some m \<and> ss_entries m = map fst (us_saved s) \<and>
    ss_entries m = filter (\<lambda>n. map_get (ud_active d) n \<noteq> None) SNAPSHOT_ENTRIES \<and>
    ss_previous_version m = pn_previous_version p \<and> ss_target_version m = pn_target_version p \<and>
    ss_sequence m = mf_sequence (sm_manifest (pn_target_metadata p)) \<and>
    (\<forall>n. map_get (us_saved s) n = (if n \<in> set SNAPSHOT_ENTRIES then map_get (ud_active d) n else None)) \<and>
    (\<forall>n t. map_get (us_saved s) n = Some t \<longrightarrow> (\<exists>c. copySnapshotEntry t (0, 0) = Some (t, c)))"
proof -
  obtain saved bytes files where copied: "copy_entries SNAPSHOT_ENTRIES (ud_active d) (0, 0) = Some (saved, bytes, files)"
    using assms by (auto simp: createPending_def Let_def split: if_splits option.splits)
  have "distinct SNAPSHOT_ENTRIES" by (simp add: SNAPSHOT_ENTRIES_def)
  note facts = copy_entries_saved [OF copied within_zero this]
  then show ?thesis
    using assms copied by (auto simp: createPending_def Let_def recoverable_def same_update_def split: if_splits)
qed

lemma snapshot_read:
  assumes "recoverable p s d" "readPending e d = Some (Some q)" and "us_manifest s = Some m"
    and "ss_previous_version m = pn_previous_version p" "ss_target_version m = pn_target_version p"
      "ss_sequence m = mf_sequence (sm_manifest (pn_target_metadata p))" "distinct (ss_entries m)" "set (ss_entries m) \<subseteq> set SNAPSHOT_ENTRIES"
  shows "readSnapshot (open_failed f (note_failure e reason q d)) (with_failed_path e reason q) = Some (s, ss_entries m)"
  using read_recoverable [OF assms(2,1)] assms(3-8)
  by (auto simp: readSnapshot_def open_failed_def note_failure_def write_pending_def with_failed_path_def same_update_def require_def)

text \<open>A completed rollback, seen from its parts.\<close>

lemma prepareRollback_Some:
  "snd (prepareRollback e torn reason d) = Some d3 \<longleftrightarrow>
    (\<exists>q s entries d2. readPending e d = Some (Some q) \<and>
      readSnapshot (open_failed (failed_path e q) (note_failure e reason q d)) (with_failed_path e reason q) = Some (s, entries) \<and>
      snd (rollback_entries torn (failed_path e q) s entries SNAPSHOT_ENTRIES (open_failed (failed_path e q) (note_failure e reason q d))) = Some d2 \<and>
      d3 = launch_rollback e reason (with_failed_path e reason q) d2)"
  by (auto simp: prepareRollback_def Let_def passage_then_Some split: option.splits)

lemma prepared_active: "ud_active (open_failed f (note_failure e reason q d)) = ud_active d"
  by (simp add: open_failed_def note_failure_def write_pending_def)

lemma rollback_parts:
  assumes created: "createPending e0 currentVersion target ti rollback ri d = (d1, Some p)"
    and history: "recovery_step\<^sup>*\<^sup>* d1 d2" and rolled: "prepareRollback e torn reason d2 = (ds, Some d3)"
  obtains q s entries d4 where "same_update p q" and "d3 = launch_rollback e reason (with_failed_path e reason q) d4"
    and "snd (rollback_entries torn (failed_path e q) s entries SNAPSHOT_ENTRIES (open_failed (failed_path e q) (note_failure e reason q d2))) = Some d4"
    and "entries = filter (\<lambda>n. map_get (ud_active d) n \<noteq> None) SNAPSHOT_ENTRIES"
    and "\<forall>n. map_get (us_saved s) n = (if n \<in> set SNAPSHOT_ENTRIES then map_get (ud_active d) n else None)"
proof -
  obtain s m where snap: "recoverable p s d1" "us_manifest s = Some m"
      "ss_entries m = filter (\<lambda>n. map_get (ud_active d) n \<noteq> None) SNAPSHOT_ENTRIES"
      "ss_previous_version m = pn_previous_version p" "ss_target_version m = pn_target_version p"
      "ss_sequence m = mf_sequence (sm_manifest (pn_target_metadata p))"
      "\<forall>n. map_get (us_saved s) n = (if n \<in> set SNAPSHOT_ENTRIES then map_get (ud_active d) n else None)"
    using created_snapshot [OF created] by metis
  have ok: "recoverable p s d2" by (rule recovery.run_inv [OF history snap(1)])
  have entries: "distinct (ss_entries m)" "set (ss_entries m) \<subseteq> set SNAPSHOT_ENTRIES"
    unfolding snap(3) by (auto simp: SNAPSHOT_ENTRIES_def)
  from rolled obtain q s' es d4 where q: "readPending e d2 = Some (Some q)"
    and read: "readSnapshot (open_failed (failed_path e q) (note_failure e reason q d2)) (with_failed_path e reason q) = Some (s', es)"
    and restored: "snd (rollback_entries torn (failed_path e q) s' es SNAPSHOT_ENTRIES (open_failed (failed_path e q) (note_failure e reason q d2))) = Some d4"
    and d3: "d3 = launch_rollback e reason (with_failed_path e reason q) d4"
    using prepareRollback_Some [of e torn reason d2 d3] by auto
  have "s' = s" "es = ss_entries m" using read snapshot_read [OF ok q snap(2,4,5,6) entries] by auto
  moreover have "same_update p q" using read_recoverable [OF q ok] by simp
  ultimately show thesis using that d3 restored snap(3,7) by simp
qed

lemma rollback_active:
  assumes "createPending e0 currentVersion target ti rollback ri d = (d1, Some p)"
    and "recovery_step\<^sup>*\<^sup>* d1 d2" and "prepareRollback e torn reason d2 = (ds, Some d3)"
  shows "map_get (ud_active d3) n = (if n \<in> set SNAPSHOT_ENTRIES then map_get (ud_active d) n else map_get (ud_active d2) n)"
proof -
  obtain q s entries d4 where parts: "d3 = launch_rollback e reason (with_failed_path e reason q) d4"
    "entries = filter (\<lambda>n. map_get (ud_active d) n \<noteq> None) SNAPSHOT_ENTRIES"
    "\<forall>n. map_get (us_saved s) n = (if n \<in> set SNAPSHOT_ENTRIES then map_get (ud_active d) n else None)"
    and restored: "snd (rollback_entries torn (failed_path e q) s entries SNAPSHOT_ENTRIES (open_failed (failed_path e q) (note_failure e reason q d2))) = Some d4"
    using assms by (rule rollback_parts)
  have "distinct SNAPSHOT_ENTRIES" by (simp add: SNAPSHOT_ENTRIES_def)
  from rollback_entries_active [OF restored this, of n] parts(3) show ?thesis
    by (auto simp: parts(1,2) launch_rollback_def write_pending_def prepared_active)
qed

text \<open>
  C9: a rollback restores the data of the old version, exactly. After a snapshot was taken, let the versions write whatever they
  want to the data, let the program start any number of times, and let any number of rollbacks be interrupted after any of their writes: a
  rollback that completes leaves every one of the six entries as it was when the snapshot was taken - with the same content, or absent - and
  everything else untouched, and its record says to launch the old version's installer.
\<close>

theorem update_rollback_restores:
  assumes created: "createPending e0 currentVersion target ti rollback ri d = (d1, Some p)"
    and history: "recovery_step\<^sup>*\<^sup>* d1 d2" and rolled: "prepareRollback e torn reason d2 = (ds, Some d3)"
  shows "map_get (ud_active d3) n = (if n \<in> set SNAPSHOT_ENTRIES then map_get (ud_active d) n else map_get (ud_active d2) n) \<and>
    (\<exists>q. ud_pending d3 = Some (Readable q) \<and> pn_phase q = RollbackLaunched \<and> pn_rollback_installer_path q = ri \<and>
      pn_previous_version q = currentVersion)"
proof
  obtain q where "same_update p q" and d3: "\<exists>d4. d3 = launch_rollback e reason (with_failed_path e reason q) d4"
    using assms by (rule rollback_parts) blast
  moreover have "pn_previous_version p = currentVersion" "pn_rollback_installer_path p = ri"
    using created by (auto simp: createPending_def Let_def split: if_splits option.splits)
  ultimately show "\<exists>q. ud_pending d3 = Some (Readable q) \<and> pn_phase q = RollbackLaunched \<and> pn_rollback_installer_path q = ri \<and>
      pn_previous_version q = currentVersion"
    by (auto simp: launch_rollback_def write_pending_def with_failed_path_def same_update_def)
qed (rule rollback_active [OF assms])

text \<open>
  C39: an interrupted rollback can always be finished. In the same situation, as long as the update is still pending in a readable record
  and none of the six entries was replaced by a symbolic link, the next rollback completes.
\<close>

theorem update_rollback_possible:
  assumes created: "createPending e0 currentVersion target ti rollback ri d = (d1, Some p)"
    and history: "recovery_step\<^sup>*\<^sup>* d1 d2" and pending: "readPending e d2 = Some (Some q)"
    and links: "\<forall>n \<in> set SNAPSHOT_ENTRIES. map_get (ud_active d2) n \<noteq> Some LinkNode"
  shows "\<exists>ds d3. prepareRollback e torn reason d2 = (ds, Some d3)"
proof -
  obtain s m where snap: "recoverable p s d1" "us_manifest s = Some m" "ss_entries m = map fst (us_saved s)"
      "ss_entries m = filter (\<lambda>n. map_get (ud_active d) n \<noteq> None) SNAPSHOT_ENTRIES"
      "ss_previous_version m = pn_previous_version p" "ss_target_version m = pn_target_version p"
      "ss_sequence m = mf_sequence (sm_manifest (pn_target_metadata p))"
      "\<forall>n. map_get (us_saved s) n = (if n \<in> set SNAPSHOT_ENTRIES then map_get (ud_active d) n else None)"
      "\<forall>n t. map_get (us_saved s) n = Some t \<longrightarrow> (\<exists>c. copySnapshotEntry t (0, 0) = Some (t, c))"
    using created_snapshot [OF created] by metis
  have ok: "recoverable p s d2" by (rule recovery.run_inv [OF history snap(1)])
  have distinct: "distinct SNAPSHOT_ENTRIES" by (simp add: SNAPSHOT_ENTRIES_def)
  have entries: "distinct (ss_entries m)" "set (ss_entries m) \<subseteq> set SNAPSHOT_ENTRIES"
    unfolding snap(4) using distinct by auto
  have saved: "\<forall>n \<in> set (ss_entries m). \<exists>t c. map_get (us_saved s) n = Some t \<and> copySnapshotEntry t (0, 0) = Some (t, c)"
  proof
    fix n assume "n \<in> set (ss_entries m)"
    then obtain t where "map_get (us_saved s) n = Some t" using snap(8) by (auto simp: snap(4))
    then show "\<exists>t c. map_get (us_saved s) n = Some t \<and> copySnapshotEntry t (0, 0) = Some (t, c)" using snap(9) by blast
  qed
  let ?d = "open_failed (failed_path e q) (note_failure e reason q d2)"
  have "\<forall>n \<in> set SNAPSHOT_ENTRIES. map_get (ud_active ?d) n \<noteq> Some LinkNode" using links by (simp add: prepared_active)
  from rollback_entries_succeeds [OF this distinct saved]
  obtain d4 where "snd (rollback_entries torn (failed_path e q) s (ss_entries m) SNAPSHOT_ENTRIES ?d) = Some d4" by blast
  then have "snd (prepareRollback e torn reason d2) = Some (launch_rollback e reason (with_failed_path e reason q) d4)"
    using pending snapshot_read [OF ok pending snap(2,5,6,7) entries] unfolding prepareRollback_Some by blast
  then show ?thesis by (cases "prepareRollback e torn reason d2") auto
qed


text \<open>
  The rollback takes back one thing more than it should: the file with the highest sequence seen is one of the six entries, so sequences
  the new version saw are forgotten.
\<close>

lemma rollback_forgets_sequences:
  assumes "createPending e0 currentVersion target ti rollback ri d = (d1, Some p)" "recovery_step\<^sup>*\<^sup>* d1 d2"
    and "prepareRollback e torn reason d2 = (ds, Some d3)"
  shows "map_get (ud_active d3) ''client-update-state.json'' = map_get (ud_active d) ''client-update-state.json''"
  using rollback_active [OF assms, of "''client-update-state.json''"] by (simp add: SNAPSHOT_ENTRIES_def)

text \<open>A version that starts often enough without being found healthy is told to roll back.\<close>

lemma startup_limit:
  assumes "readPending e d = Some (Some p)" and "pn_target_version p = v" "pn_phase p = InstallingUpdate" "maxAttempts \<le> pn_attempts p + 1"
  shows "\<exists>st. snd (beginStartup e v maxAttempts d) = Some st \<and> st_shouldRollback st \<and> st_attempts st = pn_attempts p + 1"
  using assms by (simp add: beginStartup_def Let_def)

subsection \<open>The coordinator\<close>

text \<open>
  What the world answers to one run of \<^verbatim>\<open>checkOnce\<close>: \<open>None\<close> is a rejected promise. The effects that cannot be undone are
  logged.
\<close>

datatype update_effect = VerifiedInstaller installer_path | RuntimeStopped | InstallerLaunched installer_path

datatype coordinator_result = Busy | Declined | NothingToDo | DownloadedOnly | Withdrawn | InstallLaunched

record update_world =
  uw_check :: "TrustedClientUpdate option"
  uw_confirmDownload :: bool
  uw_download :: "installer_path option"
  uw_verifyInstaller :: "installer_path \<Rightarrow> bool"
  uw_resolveRollback :: "SignedClientUpdateMetadata option"
  uw_downloadRollback :: "installer_path option"
  uw_confirmInstall :: bool
  uw_revalidate :: "TrustedClientUpdate option"
  uw_stopRuntime :: bool
  uw_launchInstaller :: bool

definition available :: "TrustedClientUpdate \<Rightarrow> (SignedClientUpdateMetadata \<times> string) option" where
  "available u = do {
     require (tu_action u = UpdateAvailable);
     d \<leftarrow> tu_metadata u;
     url \<leftarrow> truthy (tu_artifactUrl u);
     Some (d, url)
   }"

definition same_artifact :: "SignedClientUpdateMetadata \<times> string \<Rightarrow> SignedClientUpdateMetadata \<times> string \<Rightarrow> bool" where
  "same_artifact a b \<longleftrightarrow> snd a = snd b \<and> mf_version (sm_manifest (fst a)) = mf_version (sm_manifest (fst b)) \<and>
    mf_filename (sm_manifest (fst a)) = mf_filename (sm_manifest (fst b)) \<and> mf_size (sm_manifest (fst a)) = mf_size (sm_manifest (fst b)) \<and>
    mf_sha256 (sm_manifest (fst a)) = mf_sha256 (sm_manifest (fst b))"

text \<open>From the second confirmation on; a failed launch cancels the pending update.\<close>

definition install_update ::
  "js_env \<Rightarrow> string \<Rightarrow> update_world \<Rightarrow> SignedClientUpdateMetadata \<times> string \<Rightarrow> installer_path \<Rightarrow> SignedClientUpdateMetadata \<Rightarrow> installer_path \<Rightarrow>
    update_disk \<Rightarrow> update_effect list \<times> update_disk \<times> coordinator_result option" where
  "install_update e currentVersion w update installer rollback rollbackInstaller d =
    (if \<not> uw_confirmInstall w then ([], d, Some DownloadedOnly)
     else case uw_revalidate w of
       None \<Rightarrow> ([], d, None)
     | Some again \<Rightarrow>
         (case available again of
            None \<Rightarrow> ([], d, Some Withdrawn)
          | Some latest \<Rightarrow>
              if \<not> same_artifact latest update then ([], d, Some Withdrawn)
              else if \<not> uw_stopRuntime w then ([], d, None)
              else case createPending e currentVersion (fst latest) installer rollback rollbackInstaller d of
                (d', None) \<Rightarrow> ([RuntimeStopped], d', None)
              | (d', Some pending) \<Rightarrow>
                  if uw_launchInstaller w then ([RuntimeStopped, InstallerLaunched installer], d', Some InstallLaunched)
                  else ([RuntimeStopped], case cancelPending e d' of None \<Rightarrow> d' | Some d'' \<Rightarrow> d'', None)))"

text \<open>A call made while one is under way is told \<^verbatim>\<open>busy\<close>; the flag is up exactly while a call runs.\<close>

definition checkOnce :: "js_env \<Rightarrow> string \<Rightarrow> update_world \<Rightarrow> bool \<Rightarrow> update_disk \<Rightarrow> update_effect list \<times> update_disk \<times> coordinator_result option" where
  "checkOnce e currentVersion w running d =
    (if running then ([], d, Some Busy)
     else case uw_check w of
       None \<Rightarrow> ([], d, None)
     | Some found \<Rightarrow>
         (case available found of
            None \<Rightarrow> ([], d, Some NothingToDo)
          | Some update \<Rightarrow>
              if \<not> uw_confirmDownload w then ([], d, Some Declined)
              else case uw_download w of
                None \<Rightarrow> ([], d, None)
              | Some installer \<Rightarrow>
                  if \<not> uw_verifyInstaller w installer then ([], d, None)
                  else case uw_resolveRollback w of
                    None \<Rightarrow> ([VerifiedInstaller installer], d, None)
                  | Some rollback \<Rightarrow>
                      (case uw_downloadRollback w of
                         None \<Rightarrow> ([VerifiedInstaller installer], d, None)
                       | Some rollbackInstaller \<Rightarrow>
                           if \<not> uw_verifyInstaller w rollbackInstaller then ([VerifiedInstaller installer], d, None)
                           else let (effects, r) = install_update e currentVersion w update installer rollback rollbackInstaller d in
                             ([VerifiedInstaller installer, VerifiedInstaller rollbackInstaller] @ effects, r))))"

text \<open>
  C40: nothing is installed that cannot be taken back. If the coordinator launches an installer, both it and the old version's
  installer were verified before, the user confirmed the download and the installation, the release was still offered unchanged, the
  runtime was stopped, and the disk holds a pending record and a snapshot: whatever happens afterwards, a rollback that completes
  restores the data of this moment.
\<close>

theorem update_install_guarded:
  assumes run: "checkOnce e currentVersion w running d = (effects, d', r)" and launched: "InstallerLaunched i \<in> set effects"
  shows "\<exists>b found again u l p. effects = [VerifiedInstaller i, VerifiedInstaller b, RuntimeStopped, InstallerLaunched i] \<and>
    uw_verifyInstaller w i \<and> uw_verifyInstaller w b \<and> uw_confirmDownload w \<and> uw_confirmInstall w \<and>
    uw_check w = Some found \<and> available found = Some u \<and> uw_revalidate w = Some again \<and> available again = Some l \<and> same_artifact l u \<and>
    ud_pending d' = Some (Readable p) \<and> pn_target_metadata p = fst l \<and> pn_rollback_installer_path p = b \<and> validInstallerPath d b currentVersion \<and>
    (\<forall>d2 e' torn reason ds d3 n. recovery_step\<^sup>*\<^sup>* d' d2 \<and> prepareRollback e' torn reason d2 = (ds, Some d3) \<and> n \<in> set SNAPSHOT_ENTRIES \<longrightarrow>
      map_get (ud_active d3) n = map_get (ud_active d) n)"
proof -
  obtain found u b rb again l p where steps: "effects = [VerifiedInstaller i, VerifiedInstaller b, RuntimeStopped, InstallerLaunched i]"
    "uw_verifyInstaller w i" "uw_verifyInstaller w b" "uw_confirmDownload w" "uw_confirmInstall w"
    "uw_check w = Some found" "available found = Some u" "uw_revalidate w = Some again" "available again = Some l" "same_artifact l u"
    and created: "createPending e currentVersion (fst l) i rb b d = (d', Some p)"
    using assms by (auto simp: checkOnce_def install_update_def split: option.splits if_splits prod.splits)
  have noted: "ud_pending d' = Some (Readable p)" "pn_target_metadata p = fst l" "pn_rollback_installer_path p = b" "validInstallerPath d b currentVersion"
    using created by (auto simp: createPending_def Let_def split: if_splits option.splits)
  show ?thesis
    using steps noted rollback_active [OF created] by (intro exI conjI allI impI) (assumption | erule conjE | simp)+
qed


subsection \<open>One update, taken back\<close>

definition sample_old_metadata :: SignedClientUpdateMetadata where
  "sample_old_metadata = sample_metadata\<lparr>sm_manifest := sample_update_manifest\<lparr>mf_version := ''1.0.0'',
     mf_filename := ''LongHub-Manager-Setup-1.0.0.exe'', mf_url_path := ''/downloads/LongHub-Manager-Setup-1.0.0.exe''\<rparr>\<rparr>"

definition sample_target_installer :: installer_path where
  "sample_target_installer = Downloaded ''downloads'' ''LongHub-Manager-Setup-1.1.0.exe''"

definition sample_old_installer :: installer_path where
  "sample_old_installer = Stored ''1.0.0'' ''LongHub-Manager-Setup-1.0.0.exe''"

definition sample_disk :: update_disk where
  "sample_disk = \<lparr>ud_active = [(''device.json'', FileNode ''old'')], ud_pending = None, ud_snapshots = [], ud_failed = [],
     ud_installers = [sample_target_installer, sample_old_installer], ud_last_rollback = None, ud_last_success = None\<rparr>"

definition sample_pending :: PendingClientUpdate where
  "sample_pending = the (snd (createPending sample_env ''1.0.0'' sample_metadata sample_target_installer sample_old_metadata sample_old_installer sample_disk))"

definition sample_saved :: update_disk where
  "sample_saved = fst (createPending sample_env ''1.0.0'' sample_metadata sample_target_installer sample_old_metadata sample_old_installer sample_disk)"

text \<open>The new version changed one entry and made another.\<close>

definition sample_changed :: update_disk where
  "sample_changed = sample_saved\<lparr>ud_active := [(''device.json'', FileNode ''new''), (''packs'', DirNode [])]\<rparr>"

lemma sample_metadata_valid: "manifest_valid (sm_manifest sample_metadata)" "manifest_valid (sm_manifest sample_old_metadata)"
  using sample_manifest_valid
  by (simp_all add: sample_metadata_def sample_old_metadata_def manifest_valid_def sample_update_manifest_def setup_name_def version_ok_def
      version_part_def)

lemma sample_installers:
  "validInstallerPath sample_disk sample_target_installer ''1.1.0''" "validInstallerPath sample_disk sample_old_installer ''1.0.0''"
  "is_stored sample_old_installer"
  by (simp_all add: validInstallerPath_def sample_disk_def sample_target_installer_def sample_old_installer_def setup_name_def)

lemma sample_copied: "copy_entries SNAPSHOT_ENTRIES (ud_active sample_disk) (0, 0) = Some ([(''device.json'', FileNode ''old'')], 3, 1)"
  by (simp add: SNAPSHOT_ENTRIES_def sample_disk_def MAX_SNAPSHOT_BYTES_def MAX_SNAPSHOT_FILES_def)

lemma sample_versions: "mf_version (sm_manifest sample_metadata) = ''1.1.0''" "mf_version (sm_manifest sample_old_metadata) = ''1.0.0''"
  "mf_channel (sm_manifest sample_metadata) = mf_channel (sm_manifest sample_old_metadata)" "mf_sequence (sm_manifest sample_metadata) = 7"
  by (simp_all add: sample_metadata_def sample_old_metadata_def sample_update_manifest_def)

lemma sample_created:
  "createPending sample_env ''1.0.0'' sample_metadata sample_target_installer sample_old_metadata sample_old_installer sample_disk =
    (sample_saved, Some sample_pending)"
proof -
  have "ud_pending sample_disk = None" by (simp add: sample_disk_def)
  then have "\<exists>d p. createPending sample_env ''1.0.0'' sample_metadata sample_target_installer sample_old_metadata sample_old_installer sample_disk = (d, Some p)"
    using sample_metadata_valid sample_installers sample_copied sample_versions by (simp add: createPending_def Let_def)
  then show ?thesis by (auto simp: sample_saved_def sample_pending_def)
qed

lemma sample_history: "recovery_step\<^sup>*\<^sup>* sample_saved sample_changed"
  unfolding sample_changed_def by (rule r_into_rtranclp) (rule activity)

lemma created_fields:
  assumes "createPending e currentVersion target ti rollback ri d = (d1, Some p)"
  shows "ud_pending d1 = Some (Readable p)" "ud_installers d1 = ud_installers d" "pn_target_metadata p = target" "pn_rollback_metadata p = rollback"
    "pn_target_version p = mf_version (sm_manifest target)" "pn_previous_version p = currentVersion"
    "pn_target_installer_path p = ti" "pn_rollback_installer_path p = ri" "pn_attempts p = 0"
    "pn_created_at p = toISOString (clock e 1)" "pn_rollback_launched_at p = None"
  using assms by (auto simp: createPending_def Let_def split: if_splits option.splits)

lemma sample_pending_read: "readPending sample_env sample_changed = Some (Some sample_pending)"
proof -
  have created: "date_parse e (toISOString 1767225600000) = Some 1767225600000" for e
    by (rule date_parse_toISOString) (rule common_eraI; simp)
  have "ud_pending sample_changed = Some (Readable sample_pending)" "ud_installers sample_changed = ud_installers sample_disk"
    "pn_target_metadata sample_pending = sample_metadata" "pn_rollback_metadata sample_pending = sample_old_metadata"
    "pn_target_version sample_pending = ''1.1.0''" "pn_previous_version sample_pending = ''1.0.0''"
    "pn_target_installer_path sample_pending = sample_target_installer" "pn_rollback_installer_path sample_pending = sample_old_installer"
    "pn_attempts sample_pending = 0" "pn_created_at sample_pending = toISOString (clock sample_env 1)" "pn_rollback_launched_at sample_pending = None"
    using created_fields [OF sample_created] sample_versions by (simp_all add: sample_changed_def)
  moreover have "clock sample_env 1 = 1767225600000" by (simp add: sample_env_def)
  moreover have "validInstallerPath sample_changed sample_old_installer ''1.0.0''"
    using sample_installers(2) \<open>ud_installers sample_changed = ud_installers sample_disk\<close> by (simp add: validInstallerPath_def)
  ultimately show ?thesis
    using sample_metadata_valid sample_versions sample_installers(3) created
    by (simp add: readPending_def pending_valid_def validInstallerReference_def sample_target_installer_def setup_name_def maxSafeInteger_def)
qed

lemma sample_no_links: "\<forall>n \<in> set SNAPSHOT_ENTRIES. map_get (ud_active sample_changed) n \<noteq> Some LinkNode"
  by (simp add: sample_changed_def)

lemma sample_rolled: "\<exists>ds d3. prepareRollback sample_env torn ''failed'' sample_changed = (ds, Some d3)"
proof -
  have distinct: "distinct SNAPSHOT_ENTRIES" by (simp add: SNAPSHOT_ENTRIES_def)
  obtain s m where snap: "recoverable sample_pending s sample_saved" "us_manifest s = Some m" "ss_entries m = map fst (us_saved s)"
      "ss_entries m = filter (\<lambda>n. map_get (ud_active sample_disk) n \<noteq> None) SNAPSHOT_ENTRIES"
      "ss_previous_version m = pn_previous_version sample_pending" "ss_target_version m = pn_target_version sample_pending"
      "ss_sequence m = mf_sequence (sm_manifest (pn_target_metadata sample_pending))"
      "\<forall>n. map_get (us_saved s) n = (if n \<in> set SNAPSHOT_ENTRIES then map_get (ud_active sample_disk) n else None)"
      "\<forall>n t. map_get (us_saved s) n = Some t \<longrightarrow> (\<exists>c. copySnapshotEntry t (0, 0) = Some (t, c))"
    using created_snapshot [OF sample_created] by metis
  have ok: "recoverable sample_pending s sample_changed" by (rule recovery.run_inv [OF sample_history snap(1)])
  have entries: "ss_entries m = [''device.json'']" by (simp add: snap(4) SNAPSHOT_ENTRIES_def sample_disk_def)
  then have "distinct (ss_entries m)" "set (ss_entries m) \<subseteq> set SNAPSHOT_ENTRIES" by (simp_all add: SNAPSHOT_ENTRIES_def)
  note read = snapshot_read [OF ok sample_pending_read snap(2,5,6,7) this]
  have "map_get (us_saved s) ''device.json'' = Some (FileNode ''old'')" using snap(8) by (simp add: SNAPSHOT_ENTRIES_def sample_disk_def)
  then have "\<forall>n \<in> set (ss_entries m). \<exists>t c. map_get (us_saved s) n = Some t \<and> copySnapshotEntry t (0, 0) = Some (t, c)"
    using snap(9) unfolding entries by (auto simp del: copySnapshotEntry.simps)
  from rollback_entries_succeeds [OF _ distinct this]
  have "\<exists>d4. snd (rollback_entries torn (failed_path sample_env sample_pending) s (ss_entries m) SNAPSHOT_ENTRIES
      (open_failed (failed_path sample_env sample_pending) (note_failure sample_env ''failed'' sample_pending sample_changed))) = Some d4"
    using sample_no_links by (simp add: prepared_active)
  then obtain d4 where "snd (prepareRollback sample_env torn ''failed'' sample_changed) = Some d4"
    using sample_pending_read read prepareRollback_Some [of sample_env torn "''failed''" sample_changed] by blast
  then show ?thesis by (cases "prepareRollback sample_env torn ''failed'' sample_changed") auto
qed

theorem update_rollback_restores_witness:
  "\<exists>ds d3. prepareRollback sample_env id ''failed'' sample_changed = (ds, Some d3) \<and>
    map_get (ud_active d3) ''device.json'' = Some (FileNode ''old'') \<and> map_get (ud_active d3) ''packs'' = None"
proof -
  obtain ds d3 where rolled: "prepareRollback sample_env id ''failed'' sample_changed = (ds, Some d3)" using sample_rolled [of id] by blast
  show ?thesis
    using update_rollback_restores [OF sample_created sample_history rolled, of "''device.json''"]
      update_rollback_restores [OF sample_created sample_history rolled, of "''packs''"] rolled
    by (simp add: SNAPSHOT_ENTRIES_def sample_disk_def)
qed

theorem update_rollback_possible_witness:
  "map_get (ud_active sample_changed) ''device.json'' = Some (FileNode ''new'') \<and>
    (\<exists>ds d3. prepareRollback sample_env id ''failed'' sample_changed = (ds, Some d3))"
  using update_rollback_possible [OF sample_created sample_history sample_pending_read sample_no_links]
  by (simp add: sample_changed_def)

definition sample_world :: update_world where
  "sample_world = \<lparr>uw_check = Some sample_offer, uw_confirmDownload = True, uw_download = Some sample_target_installer,
     uw_verifyInstaller = (\<lambda>_. True), uw_resolveRollback = Some sample_old_metadata, uw_downloadRollback = Some sample_old_installer,
     uw_confirmInstall = True, uw_revalidate = Some sample_offer, uw_stopRuntime = True, uw_launchInstaller = True\<rparr>"

lemma sample_checked_once:
  "checkOnce sample_env ''1.0.0'' sample_world False sample_disk =
    ([VerifiedInstaller sample_target_installer, VerifiedInstaller sample_old_installer, RuntimeStopped, InstallerLaunched sample_target_installer],
     sample_saved, Some InstallLaunched)"
  using sample_created
  by (simp add: checkOnce_def install_update_def sample_world_def sample_offer_def available_def require_def same_artifact_def)

theorem update_install_guarded_witness:
  "fst (checkOnce sample_env ''1.0.0'' sample_world False sample_disk) =
    [VerifiedInstaller sample_target_installer, VerifiedInstaller sample_old_installer, RuntimeStopped, InstallerLaunched sample_target_installer] \<and>
   (\<exists>p. ud_pending sample_saved = Some (Readable p) \<and> pn_target_metadata p = sample_metadata)"
proof -
  obtain l again p where "ud_pending sample_saved = Some (Readable p)" "pn_target_metadata p = fst l"
    "uw_revalidate sample_world = Some again" "available again = Some l"
    using update_install_guarded [OF sample_checked_once, of sample_target_installer] by auto
  then show ?thesis
    using sample_checked_once by (auto simp: sample_world_def available_def sample_offer_def require_def)
qed

end
