(* ===== verification/Spec2Isabelle.thy ===== *)
theory Spec2Isabelle
  imports Task_Store Device_Store Account_Store Execution_Admission Billing_Fulfilment Billing_Outbox
    Feature_Resolution Workflow_Engine Core_Runtime Skill_Registry Executor_Server Policy_Coordinator Update_Recovery
begin

text \<open>
  A verification of the core logic of LongHub.

  LongHub sells and runs AI Skills. A \<^emph>\<open>cloud API\<close> (\<^verbatim>\<open>apps/longhub-cloud-api\<close>) keeps accounts, devices, orders, the wallet,
  Cloud Skill subscriptions and tasks, and decides who may run what. It calls an \<^emph>\<open>executor\<close> (\<^verbatim>\<open>apps/longhub-executor\<close>), which runs
  the private Skills under a signed credential per task. The \<^emph>\<open>desktop\<close> (\<^verbatim>\<open>apps/longhub-desktop\<close>) keeps the installed Skills and Agents, starts the
  \<^emph>\<open>core\<close> (\<^verbatim>\<open>packages/longhub-core\<close>), whose tool bridge lets a model call Skills with the user's consent and whose workflow engine runs
  bounded workflows, and follows the feature policy the cloud publishes (\<^verbatim>\<open>packages/longhub-feature-policy\<close>).

  \<^bold>\<open>Theories and sources.\<close> Definitions carry the names of the functions, methods and types they translate.

  \<^item> \<open>JS_Prelude\<close>, \<open>JS_Time\<close>: the JavaScript the sources use - values, \<^verbatim>\<open>Map\<close>, stable sort, strings of code units below 256, decimal
    numerals, ISO instants and calendar arithmetic - and the interfaces several components share: \<open>step_invariant\<close> and
    \<open>step_monotone\<close> (a component as steps with an invariant), \<open>idempotent_op\<close> (an operation a client retries),
    \<open>js_comparator\<close>. Every store interprets them on its own operations.
  \<^item> \<open>Task_Fingerprint\<close>, \<open>Task_Store\<close>: \<^verbatim>\<open>task-fingerprint.ts\<close> and the tasks of \<^verbatim>\<open>memory-store.ts\<close>: creation under an idempotency
    key, the admission states, guarded transitions, the event log. A retried request creates one task, a conflicting one is
    refused, a claim is exclusive, a finished task is never written again.
  \<^item> \<open>Device_Store\<close>: devices, pairing challenges, activation codes and pack entitlements (\<^verbatim>\<open>memory-store.ts\<close>,
    \<^verbatim>\<open>activation-code.ts\<close>). A pairing code works once, a code never seats more devices than it has seats.
  \<^item> \<open>Account_Store\<close>, \<open>Redaction\<close>: users, sessions, administrators, audit log; the redaction of log fields
    (\<^verbatim>\<open>packages/longhub-observability\<close>).
  \<^item> \<open>Cloud_Skill_Store\<close>, \<open>Execution_Admission\<close>: plans, subscriptions, entitlements, bindings; the gate that reserves and releases
    executions. Access is the declarative condition of \<open>access_exactly_when\<close>; concurrency, rate and included calls are never exceeded.
  \<^item> \<open>Billing_Store\<close>, \<open>Billing_Fulfilment\<close>, \<open>Billing_Outbox\<close>: products, orders, wallet, settlements; what payment and refund do to packs and
    Skill access; the outbox and its worker (\<^verbatim>\<open>billing-outbox.ts\<close>). The wallet is its ledger, a retried settlement changes nothing,
    a lease is exclusive, a published event is final.
  \<^item> \<open>Feature_Policy\<close>, \<open>Feature_Resolution\<close>: \<^verbatim>\<open>schema.ts\<close> and \<^verbatim>\<open>resolution.ts\<close> of the feature policy: parsing is exact, merging is
    the meet of the applicable entries, access is granted exactly when every applicable entry grants it.
  \<^item> \<open>Workflow_Engine\<close>: \<^verbatim>\<open>workflow-dsl.ts\<close> and \<^verbatim>\<open>workflow-engine.ts\<close>: every run is bounded and every Skill call was cleared.
  \<^item> \<open>Canonical_Json\<close>, \<open>Bridge_Authorization\<close>, \<open>Core_Runtime\<close>: \<^verbatim>\<open>authorization.ts\<close> and \<^verbatim>\<open>runtime.ts\<close> of the core and the policy parser of
    \<^verbatim>\<open>core-process.ts\<close>: consent is bound to one call and used once, permissions are the meet of their four sources.
  \<^item> \<open>Skill_Registry\<close>: \<^verbatim>\<open>skill-registry.ts\<close> of the desktop with its file, backup and recovery, and the ownership rules of
    \<^verbatim>\<open>skill-package.ts\<close>: a crash after any write leaves the state before or after the operation.
  \<^item> \<open>Executor_Credential\<close>, \<open>Executor_Server\<close>: \<^verbatim>\<open>credential.ts\<close>, \<^verbatim>\<open>server.ts\<close>, \<^verbatim>\<open>main.ts\<close> and \<^verbatim>\<open>private-skills/\<close> of the executor: a
    credential is accepted in its window and binds one request; a key runs once per cache lifetime.
  \<^item> \<open>Policy_Coordinator\<close>: \<^verbatim>\<open>feature-policy-coordinator.ts\<close> of the desktop: fetching and caching the policy; a feature is open only under
    the document the cloud last sent or confirmed, less than five minutes before.
  \<^item> \<open>Client_Update\<close>, \<open>Update_Recovery\<close>: \<^verbatim>\<open>client-update.ts\<close> of the Pack schema and of the desktop and \<^verbatim>\<open>client-update-coordinator.ts\<close>:
    which releases are accepted and offered; the snapshot, the installation and the rollback, interrupted at any disk they pass through.
    Accepted sequences never go back, and a rollback that completes restores the data from before the update.

  \<^bold>\<open>How state and effects are modelled.\<close> The state of a component is a record of its maps and lists; an operation is a function from the host
  environment, its arguments and the state to the new state and an error or a result, with one branch per early return and throw of the
  code. A method without an await is one step, since the event loop does not interrupt it; a method with awaits is split at each of
  them, and the parts are steps of an inductive relation, so that other calls come in between. Invariants are proved for one step and
  carried to every execution by \<open>step_invariant\<close>. Error messages are not modelled, error classes and codes are.

  \<^bold>\<open>Bounds.\<close> Every recursion is structural or has a measure; there is no fuel. Workflow runs are bounded by their own budget
  (20 Skill calls, 60 calls of any kind). JavaScript numbers are integers with the checks of \<^verbatim>\<open>Number.isSafeInteger\<close> the code
  makes, since the modelled code computes with integers within those checks; fractions are carried as their text.

  \<^bold>\<open>Parameters.\<close> What is not under \<^verbatim>\<open>src/\<close> is an argument: the clock, \<^verbatim>\<open>randomUUID\<close>, SHA-256, HMAC, \<^verbatim>\<open>localeCompare\<close>, \<^verbatim>\<open>JSON.parse\<close>
  of bytes, the zod schema of Skill packages, the event publisher, the Skills, the Skill executor and verifier of the core. Where a property
  needs a law of one of them (digests do not collide on the values compared, ids are fresh, a MAC has 32 bytes), the law is a hypothesis of
  the theorem, and the witness instantiates it.

  \<^bold>\<open>Not modelled.\<close> \<^verbatim>\<open>pg-store.ts\<close> is SQL text given to a database: it implements the interface \<^verbatim>\<open>store.ts\<close> whose reference
  implementation \<^verbatim>\<open>memory-store.ts\<close> is modelled, and its meaning is that of PostgreSQL. The HTTP routes (\<^verbatim>\<open>server.ts\<close>,
  \<^verbatim>\<open>admin-routes.ts\<close>, \<^verbatim>\<open>account-routes.ts\<close>, \<^verbatim>\<open>client-release-routes.ts\<close> and others) read requests and call these stores;
  \<^verbatim>\<open>model-gateway.ts\<close> relays streams of a model provider. The windows, preload scripts and pages of desktop, portal and admin web are user
  interface; processes, sockets, the console tools and the OpenClaw adapters move bytes. The release and route-metric part of
  \<^verbatim>\<open>memory-store.ts\<close> keeps rows without rules of its own. The reasons per part are in the list of components.
\<close>

end
